(* ===== verification/Prelude.thy ===== *)
theory Prelude
  imports Main "HOL-Library.Word" "HOL-Library.Monad_Syntax" "HOL-Library.AList"
begin

text \<open>
  Shared vocabulary of the development.

  \<^item> Rust's machine integers are words: \<open>usize\<close> and \<open>u64\<close> are 64 bits wide (every target the
    repository builds for), \<open>u128\<close> amounts are 128 bits wide.
  \<^item> \<open>checked_*\<close> and \<open>saturating_*\<close> are the integer methods of Rust's standard library.
  \<^item> A fallible operation returns \<open>'a res\<close>: \<open>Inl (Eyre msg)\<close> is an \<open>eyre\<close> error with the message
    of the failing \<open>ensure!\<close>, \<open>bail!\<close> or \<open>ok_or_eyre\<close> (the \<open>wrap_err\<close> contexts above it are not
    part of the model) and \<open>Inl (Panic msg)\<close> is a panic of an \<open>expect\<close> or \<open>unwrap\<close>. The one error
    type that the source looks for in a report, \<open>InvalidNonce\<close>, has a constructor of its own.
  \<^item> \<open>and_then\<close> is the \<open>?\<close> operator: the error stops the operation.
\<close>

section \<open>Machine integers\<close>

type_synonym u8 = "8 word"
type_synonym u32 = "32 word"
type_synonym u64 = "64 word"
type_synonym u128 = "128 word"
type_synonym usize = "64 word"
type_synonym bytes = "u8 list"

text \<open>A hash function: SHA-256 of the crate \<^verbatim>\<open>sha2\<close> wherever it is a parameter.\<close>

type_synonym hash_fun = "bytes \<Rightarrow> bytes"

definition checked_add :: "'a::len word \<Rightarrow> 'a word \<Rightarrow> 'a word option" where
  "checked_add a b = (if unat a + unat b < 2 ^ LENGTH('a) then Some (a + b) else None)"

definition checked_sub :: "'a::len word \<Rightarrow> 'a word \<Rightarrow> 'a word option" where
  "checked_sub a b = (if b \<le> a then Some (a - b) else None)"

definition checked_mul :: "'a::len word \<Rightarrow> 'a word \<Rightarrow> 'a word option" where
  "checked_mul a b = (if unat a * unat b < 2 ^ LENGTH('a) then Some (a * b) else None)"

definition saturating_add :: "'a::len word \<Rightarrow> 'a word \<Rightarrow> 'a word" where
  "saturating_add a b = (if unat a + unat b < 2 ^ LENGTH('a) then a + b else - 1)"

definition saturating_sub :: "'a::len word \<Rightarrow> 'a word \<Rightarrow> 'a word" where
  "saturating_sub a b = (if b \<le> a then a - b else 0)"

definition saturating_mul :: "'a::len word \<Rightarrow> 'a word \<Rightarrow> 'a word" where
  "saturating_mul a b = (if unat a * unat b < 2 ^ LENGTH('a) then a * b else - 1)"

text \<open>
  Facts about the integer methods, read through \<open>unat\<close>. The collection \<open>int_ops\<close> holds the
  equations that move a result to natural numbers.
\<close>

named_theorems int_ops

lemma unat_max_word: "unat (- 1 :: 'a::len word) = 2 ^ LENGTH('a) - 1"
  by (simp add: unsigned_minus_1_eq_mask mask_eq_exp_minus_1)

lemma unat_less_pow: "unat (w :: 'a::len word) < 2 ^ LENGTH('a)"
  by (rule unsigned_less)

lemma unat_of_nat_less: "n < 2 ^ LENGTH('a) \<Longrightarrow> unat (of_nat n :: 'a::len word) = n"
  by (simp add: unsigned_of_nat take_bit_nat_eq_self)

lemma of_nat_less_iff_word:
  "a < 2 ^ LENGTH('a) \<Longrightarrow> b < 2 ^ LENGTH('a) \<Longrightarrow>
    (of_nat a :: 'a::len word) < of_nat b \<longleftrightarrow> a < b"
  by (simp add: word_less_nat_alt unat_of_nat_less)

lemma of_nat_eq_iff_word:
  "a < 2 ^ LENGTH('a) \<Longrightarrow> b < 2 ^ LENGTH('a) \<Longrightarrow>
    (of_nat a :: 'a::len word) = of_nat b \<longleftrightarrow> a = b"
  by (simp add: word_unat_eq_iff unat_of_nat_less)

lemma checked_add_Some_iff [int_ops]:
  "checked_add a b = Some c \<longleftrightarrow> unat c = unat a + unat (b :: 'a::len word)"
proof -
  have "unat (a + b) = unat a + unat b" if "unat a + unat b < 2 ^ LENGTH('a)"
    using that by (simp add: unat_word_ariths)
  moreover have "unat a + unat b < 2 ^ LENGTH('a)" if "unat c = unat a + unat b"
    using that unat_less_pow [of c] by simp
  ultimately show ?thesis
    by (auto simp: checked_add_def word_unat_eq_iff split: if_splits)
qed

lemma checked_sub_Some_iff [int_ops]:
  "checked_sub a b = Some c \<longleftrightarrow> unat a = unat c + unat (b :: 'a::len word)"
proof
  assume "checked_sub a b = Some c"
  then have "b \<le> a" "c = a - b" by (auto simp: checked_sub_def split: if_splits)
  then show "unat a = unat c + unat b"
    by (simp add: unat_sub word_le_nat_alt)
next
  assume *: "unat a = unat c + unat b"
  then have "b \<le> a" by (simp add: word_le_nat_alt)
  moreover have "a - b = c"
    using * \<open>b \<le> a\<close> by (simp add: word_unat_eq_iff unat_sub)
  ultimately show "checked_sub a b = Some c" by (simp add: checked_sub_def)
qed

lemma checked_mul_Some_iff [int_ops]:
  "checked_mul a b = Some c \<longleftrightarrow> unat c = unat a * unat (b :: 'a::len word)"
proof -
  have "unat (a * b) = unat a * unat b" if "unat a * unat b < 2 ^ LENGTH('a)"
    using that by (simp add: unat_word_ariths)
  moreover have "unat a * unat b < 2 ^ LENGTH('a)" if "unat c = unat a * unat b"
    using that unat_less_pow [of c] by simp
  ultimately show ?thesis
    by (auto simp: checked_mul_def word_unat_eq_iff split: if_splits)
qed

lemma checked_add_of_nat:
  "a + b < 2 ^ LENGTH('a) \<Longrightarrow>
    checked_add (of_nat a) (of_nat b) = Some (of_nat (a + b) :: 'a::len word)"
  by (simp add: checked_add_Some_iff unat_of_nat_less del: of_nat_add)

lemma checked_sub_of_nat:
  "b \<le> a \<Longrightarrow> a < 2 ^ LENGTH('a) \<Longrightarrow>
    checked_sub (of_nat a) (of_nat b) = Some (of_nat (a - b) :: 'a::len word)"
  by (simp add: checked_sub_Some_iff unat_of_nat_less del: of_nat_diff)

lemma checked_mul_of_nat:
  "a * b < 2 ^ LENGTH('a) \<Longrightarrow> a < 2 ^ LENGTH('a) \<Longrightarrow> b < 2 ^ LENGTH('a) \<Longrightarrow>
    checked_mul (of_nat a) (of_nat b) = Some (of_nat (a * b) :: 'a::len word)"
  by (simp add: checked_mul_Some_iff unat_of_nat_less del: of_nat_mult)

lemma unat_saturating_add [int_ops]:
  "unat (saturating_add a b :: 'a::len word) = min (unat a + unat b) (2 ^ LENGTH('a) - 1)"
  by (auto simp: saturating_add_def unat_word_ariths unat_max_word min_def)

lemma unat_saturating_mul [int_ops]:
  "unat (saturating_mul a b :: 'a::len word) = min (unat a * unat b) (2 ^ LENGTH('a) - 1)"
proof (cases "unat a * unat b < 2 ^ LENGTH('a)")
  case True
  then show ?thesis by (simp add: saturating_mul_def unat_word_ariths)
next
  case False
  then have "2 ^ LENGTH('a) - 1 \<le> unat a * unat b" by linarith
  with False show ?thesis by (simp add: saturating_mul_def unat_max_word)
qed

lemma unat_saturating_sub [int_ops]:
  "unat (saturating_sub a b :: 'a::len word) = unat a - unat b"
  by (auto simp: saturating_sub_def unat_sub word_le_nat_alt)

lemma saturating_add_ge_left: "(a :: 'a::len word) \<le> saturating_add a b"
proof -
  have "unat a \<le> 2 ^ LENGTH('a) - 1" using unat_less_pow [of a] by linarith
  then show ?thesis by (simp add: word_le_nat_alt unat_saturating_add)
qed

text \<open>
  For evaluation: the overflow tests on words, so that no natural number of the size of the word is
  computed.
\<close>

lemma add_no_overflow_iff: "unat a + unat b < 2 ^ LENGTH('a) \<longleftrightarrow> (a :: 'a::len word) \<le> a + b"
proof
  assume "unat a + unat b < 2 ^ LENGTH('a)"
  then show "a \<le> a + b" by (simp add: word_le_nat_alt unat_word_ariths)
next
  assume le: "a \<le> a + b"
  show "unat a + unat b < 2 ^ LENGTH('a)"
  proof (rule ccontr)
    assume "\<not> unat a + unat b < 2 ^ LENGTH('a)"
    then have ge: "2 ^ LENGTH('a) \<le> unat a + unat b" by simp
    have "unat (a + b) = (unat a + unat b) mod 2 ^ LENGTH('a)" by (rule unat_word_ariths)
    also have "\<dots> = unat a + unat b - 2 ^ LENGTH('a)"
    proof -
      have "unat a + unat b - 2 ^ LENGTH('a) < 2 ^ LENGTH('a)"
        using ge unat_less_pow [of a] unat_less_pow [of b] by linarith
      then show ?thesis using ge by (simp add: le_mod_geq)
    qed
    finally have "unat (a + b) < unat a" using unat_less_pow [of b] ge by linarith
    with le show False by (simp add: word_le_nat_alt)
  qed
qed

lemma mul_no_overflow_iff:
  "unat a * unat b < 2 ^ LENGTH('a) \<longleftrightarrow> (a :: 'a::len word) = 0 \<or> a * b div a = b"
proof
  assume *: "unat a * unat b < 2 ^ LENGTH('a)"
  then have "unat (a * b) = unat a * unat b" by (simp add: unat_word_ariths)
  then have "unat (a * b div a) = unat a * unat b div unat a" by (simp only: unat_div_distrib)
  moreover have "unat a \<noteq> 0" if "a \<noteq> 0" using that by (simp add: unat_eq_0)
  ultimately show "a = 0 \<or> a * b div a = b" by (metis nonzero_mult_div_cancel_left word_unat_eq_iff)
next
  assume "a = 0 \<or> a * b div a = b"
  then show "unat a * unat b < 2 ^ LENGTH('a)"
  proof
    assume "a * b div a = b"
    then have "unat a * unat b = unat a * (unat (a * b) div unat a)" by (metis unat_div_distrib)
    also have "\<dots> \<le> unat (a * b)" by (rule times_div_less_eq_dividend)
    finally show ?thesis using unat_less_pow [of "a * b"] by linarith
  qed simp
qed

lemma checked_add_code [code]: "checked_add a b = (if a \<le> a + b then Some (a + b) else None)"
  by (simp add: checked_add_def add_no_overflow_iff)

lemma checked_mul_code [code]:
  "checked_mul a b = (if a = 0 \<or> a * b div a = b then Some (a * b) else None)"
  by (simp add: checked_mul_def mul_no_overflow_iff)

lemma saturating_add_code [code]: "saturating_add a b = (if a \<le> a + b then a + b else - 1)"
  by (simp add: saturating_add_def add_no_overflow_iff)

lemma saturating_mul_code [code]:
  "saturating_mul a b = (if a = 0 \<or> a * b div a = b then a * b else - 1)"
  by (simp add: saturating_mul_def mul_no_overflow_iff)

section \<open>Results\<close>

datatype error = Eyre string | Panic string | InvalidNonce u32

type_synonym 'a res = "error + 'a"

definition ok :: "'a \<Rightarrow> 'a res" where
  [simp]: "ok x = Inr x"

definition fail :: "string \<Rightarrow> 'a res" where
  [simp]: "fail m = Inl (Eyre m)"

fun and_then :: "'a res \<Rightarrow> ('a \<Rightarrow> 'b res) \<Rightarrow> 'b res" where
  "and_then (Inl e) f = Inl e"
| "and_then (Inr x) f = f x"

definition ensure :: "bool \<Rightarrow> string \<Rightarrow> unit res" where
  "ensure b m = (if b then Inr () else Inl (Eyre m))"

definition ensure_or :: "bool \<Rightarrow> error \<Rightarrow> unit res" where
  "ensure_or b e = (if b then Inr () else Inl e)"

definition ok_or_eyre :: "'a option \<Rightarrow> string \<Rightarrow> 'a res" where
  "ok_or_eyre x m = (case x of None \<Rightarrow> Inl (Eyre m) | Some v \<Rightarrow> Inr v)"

definition expect :: "'a option \<Rightarrow> string \<Rightarrow> 'a res" where
  "expect x m = (case x of None \<Rightarrow> Inl (Panic m) | Some v \<Rightarrow> Inr v)"

text \<open>
  Inversion of successful results. With these as simplification rules a hypothesis that an
  operation returned \<open>Inr\<close> unfolds into the facts its guards established.
\<close>

lemma and_then_Inr_iff [simp]:
  "and_then m f = Inr y \<longleftrightarrow> (\<exists>x. m = Inr x \<and> f x = Inr y)"
  by (cases m) auto

lemma and_then_assoc [simp]: "and_then (and_then m f) g = and_then m (\<lambda>x. and_then (f x) g)"
  by (cases m) auto

lemma ensure_Inr_iff [simp]: "ensure b m = Inr u \<longleftrightarrow> b"
  by (simp add: ensure_def)

lemma ensure_or_Inr_iff [simp]: "ensure_or b e = Inr u \<longleftrightarrow> b"
  by (simp add: ensure_or_def)

lemma ensure_simps: "ensure True m = Inr ()" "ensure False m = Inl (Eyre m)"
  by (simp_all add: ensure_def)

lemma ok_or_eyre_Inr_iff [simp]: "ok_or_eyre x m = Inr v \<longleftrightarrow> x = Some v"
  by (cases x) (auto simp: ok_or_eyre_def)

lemma ok_or_eyre_simps [simp]:
  "ok_or_eyre None m = Inl (Eyre m)" "ok_or_eyre (Some v) m = Inr v"
  by (simp_all add: ok_or_eyre_def)

lemma expect_Inr_iff [simp]: "expect x m = Inr v \<longleftrightarrow> x = Some v"
  by (cases x) (auto simp: expect_def)

lemma expect_simps [simp]:
  "expect None m = Inl (Panic m)" "expect (Some v) m = Inr v"
  by (simp_all add: expect_def)

lemma and_then_cong [fundef_cong]:
  "m = m' \<Longrightarrow> (\<And>x. m' = Inr x \<Longrightarrow> f x = f' x) \<Longrightarrow> and_then m f = and_then m' f'"
  by (cases m') auto

fun fold_res :: "('a \<Rightarrow> 's \<Rightarrow> 's res) \<Rightarrow> 'a list \<Rightarrow> 's \<Rightarrow> 's res" where
  "fold_res f [] s = Inr s"
| "fold_res f (x # xs) s = and_then (f x s) (fold_res f xs)"

text \<open>A loop that stops at the first error keeps what each of its rounds keeps.\<close>

lemma fold_res_invariant:
  assumes "fold_res f xs s = Inr t" and "P s"
    and "\<And>x s t. x \<in> set xs \<Longrightarrow> P s \<Longrightarrow> f x s = Inr t \<Longrightarrow> P t"
  shows "P t"
  using assms
proof (induction xs arbitrary: s)
  case Nil
  then show ?case by simp
next
  case (Cons x xs)
  from Cons.prems(1) obtain u where u: "f x s = Inr u" "fold_res f xs u = Inr t" by auto
  with Cons.prems(2,3) have "P u" by (auto intro: Cons.prems(3) [of x s])
  with u(2) show ?case by (rule Cons.IH) (use Cons.prems(3) in auto)
qed

lemma fold_res_append:
  "fold_res f (xs @ ys) s = and_then (fold_res f xs s) (fold_res f ys)"
proof (induction xs arbitrary: s)
  case Nil
  then show ?case by simp
next
  case (Cons x xs)
  then have "fold_res f (xs @ ys) = (\<lambda>s. and_then (fold_res f xs s) (fold_res f ys))" by (rule ext)
  then show ?case by simp
qed

lemma Inr_projr: "\<not> isl x \<Longrightarrow> x = Inr (projr x)"
  by (cases x) auto

section \<open>Lists\<close>

lemma update_fresh: "a \<notin> fst ` set xs \<Longrightarrow> AList.update a v xs = xs @ [(a, v)]"
  by (induction xs) auto

lemma take_drop_take: "a + b \<le> n \<Longrightarrow> take b (drop a (take n xs)) = take b (drop a xs)"
  by (simp add: drop_take min_def)

end
