(* ===== verification/Merkle_Index.thy ===== *)
theory Merkle_Index
  imports Prelude
begin

text \<open>
  Index arithmetic of the flat Merkle tree (\<^verbatim>\<open>crates/astria-merkle/src/lib.rs\<close>, the free functions
  below \<^verbatim>\<open>impl Tree\<close>). Every function works on \<open>usize\<close> with the bit operations of the source;
  \<open>None\<close> is a panic of an \<open>unwrap\<close> or \<open>assert!\<close>.

  The second half characterises the functions over natural numbers. The node at level \<open>k\<close> and
  position \<open>m\<close> of the (infinite, perfect) tree has index \<open>node k m = m * 2 ^ (k+1) + 2 ^ k - 1\<close>:
  its leaves are the \<open>2 ^ k\<close> leaves from \<open>m * 2 ^ k\<close> on. The lemmas of the collection \<open>index_ops\<close>
  evaluate the word functions at \<open>of_nat (node k m)\<close>.
\<close>

unbundle bit_operations_syntax

section \<open>The functions of the source\<close>

definition leaf_index_to_tree_index :: "usize \<Rightarrow> usize option" where
  "leaf_index_to_tree_index j = checked_mul j 2"

definition last_set_bit :: "usize \<Rightarrow> usize option" where
  "last_set_bit x = do {
     x_minus_one \<leftarrow> checked_sub x 1;
     checked_sub x (x_minus_one AND x)
   }"

definition last_zero_bit :: "usize \<Rightarrow> usize option" where
  "last_zero_bit x = do {
     x_plus_one \<leftarrow> checked_add x 1;
     last_set_bit x_plus_one
   }"

definition perfect_parent :: "usize \<Rightarrow> usize option" where
  "perfect_parent i = do {
     zero \<leftarrow> last_zero_bit i;
     Some ((zero OR i) AND NOT (push_bit 1 zero))
   }"

definition is_branch :: "usize \<Rightarrow> bool" where
  "is_branch i \<longleftrightarrow> i AND 1 = 1"

definition perfect_left_child :: "usize \<Rightarrow> usize option" where
  "perfect_left_child p =
     (if is_branch p then do {
        zero \<leftarrow> last_zero_bit p;
        Some (p AND NOT (drop_bit 1 zero))
      } else None)"

definition perfect_right_child :: "usize \<Rightarrow> usize option" where
  "perfect_right_child p =
     (if is_branch p then do {
        zero \<leftarrow> last_zero_bit p;
        Some ((p OR zero) AND NOT (drop_bit 1 zero))
      } else None)"

text \<open>
  \<open>next_power_of_two\<close> of the standard library: the least power of two not below the argument;
  without overflow checks it is 0 where that power does not fit.
\<close>

definition next_power_of_two :: "usize \<Rightarrow> usize" where
  "next_power_of_two x =
     (case find (\<lambda>k. unat x \<le> 2 ^ k) [0..<64] of Some k \<Rightarrow> push_bit k 1 | None \<Rightarrow> 0)"

definition is_perfect :: "usize \<Rightarrow> bool" where
  "is_perfect n \<longleftrightarrow> n = 1 \<or> next_power_of_two n = n + 1"

definition perfect_root :: "usize \<Rightarrow> usize option" where
  "perfect_root n = (if is_perfect n then Some (drop_bit 1 n) else None)"

definition complete_root :: "usize \<Rightarrow> usize option" where
  "complete_root n = perfect_root (saturating_sub (next_power_of_two (n + 1)) 1)"

text \<open>
  The loop of \<open>complete_parent\<close> ends on every input: each round sets one more of the low bits of
  the index, so after at most 64 rounds the index is below \<open>n\<close> or \<open>last_zero_bit\<close> panics.
\<close>

definition low_ones :: "usize \<Rightarrow> nat set" where
  "low_ones i = {j. j < 64 \<and> (\<forall>l\<le>j. bit i l)}"

lemma finite_low_ones: "finite (low_ones i)"
  by (rule finite_subset [of _ "{..<64}"]) (auto simp: low_ones_def)

lemma card_low_ones: "card (low_ones i) \<le> 64"
  using card_mono [of "{..<64}" "low_ones i"] by (auto simp: low_ones_def)

text \<open>\<open>first_zero i k\<close>: the lowest bit of \<open>i\<close> that is not set is bit \<open>k\<close>.\<close>

definition first_zero :: "usize \<Rightarrow> nat \<Rightarrow> bool" where
  "first_zero i k \<longleftrightarrow> k < 64 \<and> (\<forall>j<k. bit i j) \<and> \<not> bit i k"

lemma first_zero_exists: "i \<noteq> - 1 \<Longrightarrow> \<exists>k. first_zero i k"
proof -
  assume "i \<noteq> - 1"
  then obtain j where j: "j < 64" "\<not> bit i j"
    using bit_word_eqI [of i "- 1"] by (auto simp: bit_simps)
  define k where "k = (LEAST j. \<not> bit i j)"
  have "\<not> bit i k" unfolding k_def by (rule LeastI) (rule j(2))
  moreover have "k \<le> j" unfolding k_def by (rule Least_le) (rule j(2))
  moreover have "bit i l" if "l < k" for l
    using that not_less_Least [of l "\<lambda>j. \<not> bit i j"] by (auto simp: k_def)
  ultimately show ?thesis using j(1) by (auto simp: first_zero_def intro!: exI [of _ k])
qed

text \<open>The bits above position \<open>k\<close>.\<close>

abbreviation high_bits :: "nat \<Rightarrow> usize \<Rightarrow> usize" where
  "high_bits k i \<equiv> push_bit (Suc k) (drop_bit (Suc k) i)"

lemma bit_high_bits: "bit (high_bits k i) j \<longleftrightarrow> k < j \<and> bit i j"
  by (auto simp: bit_simps simp del: push_bit_Suc dest: bit_imp_le_length)

lemma bit_pow_usize: "bit (2 ^ k :: usize) j \<longleftrightarrow> j = k \<and> k < 64"
  by (auto simp: bit_simps)

lemmas index_bits = bit_and_iff bit_or_iff bit_not_iff bit_mask_iff bit_high_bits bit_pow_usize

lemma first_zero_decomp: "first_zero i k \<Longrightarrow> i = high_bits k i OR mask k"
  by (rule bit_word_eqI)
    (auto simp: first_zero_def index_bits simp del: push_bit_Suc; metis nat_neq_iff)

lemma high_bits_add_pow: "high_bits k i + 2 ^ k = high_bits k i OR 2 ^ k"
  by (rule disjunctive_add) (auto simp: index_bits simp del: push_bit_Suc)

lemma first_zero_succ:
  assumes "first_zero i k"
  shows "i + 1 = high_bits k i OR 2 ^ k"
proof -
  have "high_bits k i + mask k = high_bits k i OR mask k"
    by (rule disjunctive_add) (auto simp: index_bits simp del: push_bit_Suc)
  with first_zero_decomp [OF assms] have "i = high_bits k i + mask k" by simp
  then have "i + 1 = high_bits k i + mask k + 1" by (rule arg_cong)
  also have "\<dots> = high_bits k i + 2 ^ k"
    by (simp only: add.assoc mask_eq_exp_minus_1 diff_add_cancel)
  finally show ?thesis by (simp only: high_bits_add_pow)
qed

lemma last_zero_bit_eq:
  assumes "first_zero i k"
  shows "last_zero_bit i = Some (2 ^ k)"
proof -
  from assms have k: "k < 64" and nk: "\<not> bit i k" and lo: "\<forall>j<k. bit i j"
    by (auto simp: first_zero_def)
  have "bit (i + 1) k"
    using k by (simp add: first_zero_succ [OF assms] index_bits del: push_bit_Suc)
  then have nz: "i + 1 \<noteq> 0" by auto
  then have "i \<noteq> - 1" by auto
  then have "unat i \<noteq> 2 ^ 64 - 1" by (auto simp: word_unat_eq_iff unat_max_word)
  then have "unat i + 1 < 2 ^ 64"
    using unat_less_pow [of i] by simp
  moreover have "(1::usize) \<le> i + 1"
    using nz by (simp add: word_le_nat_alt unat_eq_0 [symmetric] Suc_le_eq del: unat_eq_0)
  moreover have "i AND (i + 1) = high_bits k i"
    by (rule bit_word_eqI)
      (auto simp: first_zero_succ [OF assms] index_bits nk simp del: push_bit_Suc)
  moreover have "(i + 1) - high_bits k i = 2 ^ k"
    by (metis first_zero_succ [OF assms] high_bits_add_pow add_diff_cancel_left')
  moreover have "i AND (i + 1) \<le> i + 1" by (rule word_and_le1)
  ultimately show ?thesis
    by (simp add: last_zero_bit_def last_set_bit_def checked_add_def checked_sub_def)
qed

lemma last_zero_bit_minus_1 [simp]: "last_zero_bit (- 1) = None"
  by (simp add: last_zero_bit_def checked_add_def unat_max_word)

lemma perfect_parent_minus_1 [simp]: "perfect_parent (- 1) = None"
  by (simp add: perfect_parent_def)

lemma perfect_parent_bits:
  assumes "first_zero i k" and "perfect_parent i = Some p"
  shows "bit p j \<longleftrightarrow> j \<le> k \<or> (Suc k < j \<and> bit i j)"
proof -
  have "p = (2 ^ k OR i) AND NOT (2 ^ Suc k)"
    using assms by (simp add: perfect_parent_def last_zero_bit_eq mult.commute)
  then show ?thesis
    using assms(1)
    by (auto simp: first_zero_def index_bits le_less simp del: power_Suc dest: bit_imp_le_length)
qed

lemma perfect_parent_low_ones:
  assumes "perfect_parent i = Some p"
  shows "card (low_ones i) < card (low_ones p)"
proof -
  from assms have "i \<noteq> - 1" by auto
  then obtain k where k: "first_zero i k" using first_zero_exists by blast
  have "low_ones i \<subset> low_ones p"
  proof
    show "low_ones i \<subseteq> low_ones p"
      using k by (auto simp: low_ones_def first_zero_def perfect_parent_bits [OF k assms] not_le)
    have "k \<in> low_ones p - low_ones i"
      using k by (auto simp: low_ones_def first_zero_def perfect_parent_bits [OF k assms])
    then show "low_ones i \<noteq> low_ones p" by blast
  qed
  then show ?thesis by (rule psubset_card_mono [OF finite_low_ones])
qed

function complete_parent :: "usize \<Rightarrow> usize \<Rightarrow> usize option" where
  "complete_parent i n =
     (case perfect_parent i of
        None \<Rightarrow> None
      | Some p \<Rightarrow> if p < n then Some p else complete_parent p n)"
  by pat_completeness auto
termination
proof (relation "measure (\<lambda>(i, n). 64 - card (low_ones i))", goal_cases)
  case 1
  show ?case by simp
next
  case (2 i n p)
  then show ?case
    using perfect_parent_low_ones [of i p] card_low_ones [of p] by simp
qed

declare complete_parent.simps [simp del]

lemma complete_parent_low_ones:
  "complete_parent i n = Some p \<Longrightarrow> card (low_ones i) < card (low_ones p)"
proof (induction i n rule: complete_parent.induct)
  case (1 i n)
  from "1.prems" obtain q where q: "perfect_parent i = Some q"
    by (subst (asm) complete_parent.simps) (auto split: option.splits)
  have lt: "card (low_ones i) < card (low_ones q)" by (rule perfect_parent_low_ones [OF q])
  show ?case
  proof (cases "q < n")
    case True
    with "1.prems" q lt show ?thesis by (subst (asm) complete_parent.simps) simp
  next
    case False
    with "1.prems" q have "complete_parent q n = Some p"
      by (subst (asm) complete_parent.simps) simp
    with "1.IH" [OF q False] lt show ?thesis by simp
  qed
qed

lemma complete_parent_measure:
  "complete_parent i n = Some p \<Longrightarrow> 64 - card (low_ones p) < 64 - card (low_ones i)"
  using complete_parent_low_ones [of i n p] card_low_ones [of p] by simp

definition complete_left_child :: "usize \<Rightarrow> usize option" where
  "complete_left_child p = perfect_left_child p"

definition complete_right_child :: "usize \<Rightarrow> usize \<Rightarrow> usize option" where
  "complete_right_child i n =
     (if is_branch i \<and> i < n then do {
        right_child \<leftarrow> perfect_right_child i;
        if right_child < n then Some right_child
        else do {
          i_plus_one \<leftarrow> checked_add i 1;
          rest \<leftarrow> checked_sub n i_plus_one;
          root \<leftarrow> complete_root rest;
          checked_add i_plus_one root
        }
      } else None)"

definition complete_parent_and_sibling :: "usize \<Rightarrow> usize \<Rightarrow> (usize \<times> usize) option" where
  "complete_parent_and_sibling i n =
     (if i < n then do {
        p \<leftarrow> complete_parent i n;
        s \<leftarrow> (if i < p then complete_right_child p n else complete_left_child p);
        Some (p, s)
      } else None)"

definition is_tree_index_in_tree :: "usize \<Rightarrow> usize \<Rightarrow> bool" where
  "is_tree_index_in_tree i n \<longleftrightarrow> i < n"

definition is_leaf_index_in_tree :: "usize \<Rightarrow> usize \<Rightarrow> bool option" where
  "is_leaf_index_in_tree i n = do {
     j \<leftarrow> leaf_index_to_tree_index i;
     Some (is_tree_index_in_tree j n)
   }"

section \<open>Characterisation over natural numbers\<close>

named_theorems index_ops

definition node :: "nat \<Rightarrow> nat \<Rightarrow> nat" where
  "node k m = m * 2 ^ Suc k + (2 ^ k - 1)"

lemma node_bits: "node k m = (push_bit (Suc k) m OR mask k :: nat)"
proof -
  have "push_bit (Suc k) m + mask k = (push_bit (Suc k) m OR mask k :: nat)"
    by (rule disjunctive_add) (auto simp: bit_simps simp del: push_bit_Suc)
  then show ?thesis
    by (simp add: node_def push_bit_eq_mult mask_eq_exp_minus_1 del: push_bit_Suc)
qed

lemma bit_node: "bit (node k m) j \<longleftrightarrow> j < k \<or> (k < j \<and> bit m (j - Suc k))"
  by (auto simp: node_bits bit_simps Suc_le_eq simp del: push_bit_Suc)

lemma bit_word_node:
  "bit (of_nat (node k m) :: usize) j \<longleftrightarrow> j < 64 \<and> (j < k \<or> (k < j \<and> bit m (j - Suc k)))"
  by (auto simp: bit_of_nat_iff bit_node)

lemma node_level_bound: "node k m < 2 ^ 64 - 1 \<Longrightarrow> k < 64"
proof (rule ccontr)
  assume "node k m < 2 ^ 64 - 1" "\<not> k < 64"
  then have "(2::nat) ^ 64 \<le> 2 ^ k" by (intro power_increasing) auto
  then have "2 ^ 64 - 1 \<le> node k m" by (simp add: node_def)
  with \<open>node k m < 2 ^ 64 - 1\<close> show False by simp
qed

lemma first_zero_node: "k < 64 \<Longrightarrow> first_zero (of_nat (node k m)) k"
  by (auto simp: first_zero_def bit_word_node)

lemma last_zero_bit_node [index_ops]:
  "k < 64 \<Longrightarrow> last_zero_bit (of_nat (node k m)) = Some (2 ^ k)"
  by (rule last_zero_bit_eq [OF first_zero_node])

lemma perfect_parent_node [index_ops]:
  assumes "k < 64"
  shows "perfect_parent (of_nat (node k m)) = Some (of_nat (node (Suc k) (m div 2)))"
proof -
  obtain p where p: "perfect_parent (of_nat (node k m)) = Some p"
    using assms by (simp add: perfect_parent_def index_ops)
  have "p = of_nat (node (Suc k) (m div 2))"
  proof (rule bit_word_eqI)
    fix j assume "j < LENGTH(64)"
    then show "bit p j \<longleftrightarrow> bit (of_nat (node (Suc k) (m div 2)) :: usize) j"
      by (auto simp: perfect_parent_bits [OF first_zero_node [OF assms] p] bit_word_node
          Suc_diff_Suc simp flip: bit_Suc)
  qed
  with p show ?thesis by simp
qed

lemma is_branch_node [index_ops]: "is_branch (of_nat (node k m)) \<longleftrightarrow> 0 < k"
proof -
  have "is_branch i \<longleftrightarrow> bit i 0" for i :: usize
    by (simp add: is_branch_def bit_0 and_one_eq odd_iff_mod_2_eq_one)
  then show ?thesis by (simp add: bit_word_node)
qed

lemma drop_bit_pow_usize: "Suc k < 64 \<Longrightarrow> drop_bit (Suc 0) (2 ^ Suc k :: usize) = 2 ^ k"
  by (rule bit_word_eqI) (auto simp: bit_simps simp del: power_Suc)

lemma bit_Suc_double: "bit (Suc (2 * m) :: nat) j \<longleftrightarrow> j = 0 \<or> bit m (j - 1)"
  by (cases j) (simp_all add: bit_0 bit_Suc)

lemma bit_double_nat: "bit (2 * m :: nat) j \<longleftrightarrow> j \<noteq> 0 \<and> bit m (j - 1)"
  by (cases j) (simp_all add: bit_0 bit_Suc)

lemma perfect_left_child_node [index_ops]:
  assumes "Suc k < 64"
  shows "perfect_left_child (of_nat (node (Suc k) m)) = Some (of_nat (node k (2 * m)))"
proof -
  have "of_nat (node (Suc k) m) AND NOT (2 ^ k) = (of_nat (node k (2 * m)) :: usize)"
    by (rule bit_word_eqI)
      (use assms in \<open>auto simp: bit_word_node index_bits bit_double_nat less_Suc_eq
        simp del: push_bit_Suc\<close>)
  with assms show ?thesis
    by (simp add: perfect_left_child_def index_ops drop_bit_pow_usize del: power_Suc)
qed

lemma perfect_right_child_node [index_ops]:
  assumes "Suc k < 64"
  shows "perfect_right_child (of_nat (node (Suc k) m)) = Some (of_nat (node k (2 * m + 1)))"
proof -
  have "(of_nat (node (Suc k) m) OR 2 ^ Suc k) AND NOT (2 ^ k) =
      (of_nat (node k (2 * m + 1)) :: usize)"
    by (rule bit_word_eqI)
      (use assms in \<open>auto simp: bit_word_node index_bits bit_Suc_double less_Suc_eq
        simp del: push_bit_Suc power_Suc\<close>)
  with assms show ?thesis
    by (simp add: perfect_right_child_def index_ops drop_bit_pow_usize del: power_Suc)
qed

subsection \<open>Roots\<close>

text \<open>\<open>clog x\<close> is the exponent of the least power of two not below \<open>x\<close>.\<close>

definition clog :: "nat \<Rightarrow> nat" where
  "clog x = (LEAST c. x \<le> 2 ^ c)"

lemma clog_ge: "x \<le> 2 ^ clog x"
  unfolding clog_def by (rule LeastI [of _ x]) (simp add: less_imp_le)

lemma clog_le: "x \<le> 2 ^ c \<Longrightarrow> clog x \<le> c"
  unfolding clog_def by (rule Least_le)

lemma clog_less: "c < clog x \<Longrightarrow> 2 ^ c < x"
  using clog_le [of x c] by (meson leD leI)

lemma clog_eqI: "x \<le> 2 ^ c \<Longrightarrow> (c = 0 \<or> 2 ^ (c - 1) < x) \<Longrightarrow> clog x = c"
proof -
  assume *: "x \<le> 2 ^ c" "c = 0 \<or> 2 ^ (c - 1) < x"
  have "\<not> clog x < c"
  proof
    assume "clog x < c"
    then have "(2::nat) ^ clog x \<le> 2 ^ (c - 1)" by (intro power_increasing) auto
    with clog_ge [of x] have "x \<le> 2 ^ (c - 1)" by (rule order.trans)
    with *(2) \<open>clog x < c\<close> show False by auto
  qed
  with clog_le [OF *(1)] show ?thesis by simp
qed

lemma pow_clog_less: "0 < x \<Longrightarrow> 2 ^ clog x < 2 * x"
  using clog_less [of "clog x - 1" x] by (cases "clog x") auto

lemma clog_pow [simp]: "clog (2 ^ c) = c"
  by (rule clog_eqI) auto

lemma clog_double: "0 < x \<Longrightarrow> clog (2 * x) = Suc (clog x)"
  by (rule clog_eqI) (use clog_ge [of x] pow_clog_less [of x] in auto)

lemma find_upt_least:
  assumes "P k" "\<And>j. j < k \<Longrightarrow> \<not> P j" "k < n"
  shows "find P [0..<n] = Some k"
proof -
  have "[0..<n] = [0..<k] @ k # [Suc k..<n]"
    using assms(3) upt_add_eq_append [of 0 k "n - k"] by (simp add: upt_conv_Cons)
  moreover have "find P (xs @ k # ys) = Some k" if "\<forall>x\<in>set xs. \<not> P x" for xs ys
    using that assms(1) by (induction xs) auto
  ultimately show ?thesis using assms(2) by simp
qed

lemma next_power_of_two_eq:
  assumes "unat x \<le> 2 ^ 63"
  shows "next_power_of_two x = 2 ^ clog (unat x)"
proof -
  have "clog (unat x) < 64" using clog_le [OF assms] by simp
  then have "find (\<lambda>k. unat x \<le> 2 ^ k) [0..<64] = Some (clog (unat x))"
    by (intro find_upt_least) (auto simp: clog_ge not_le clog_less)
  then show ?thesis by (simp add: next_power_of_two_def)
qed

lemma unat_pow_usize: "k < 64 \<Longrightarrow> unat (2 ^ k :: usize) = 2 ^ k"
  using unat_of_nat_less [of "2 ^ k", where 'a = 64] power_strict_increasing [of k 64 "2 :: nat"]
  by simp

text \<open>The number of nodes of a tree with \<open>L\<close> leaves.\<close>

definition tree_nodes :: "nat \<Rightarrow> nat" where
  "tree_nodes L = 2 * L - 1"

lemma complete_root_eq [index_ops]:
  assumes "0 < L" "L \<le> 2 ^ 62"
  shows "complete_root (of_nat (tree_nodes L)) = Some (of_nat (node (clog L) 0))"
proof -
  let ?c = "clog L"
  have c: "?c \<le> 62" using clog_le [OF assms(2)] .
  have n: "(of_nat (tree_nodes L) :: usize) + 1 = of_nat (2 * L)"
    using assms(1) by (cases L) (simp_all add: tree_nodes_def algebra_simps)
  have "unat (of_nat (2 * L) :: usize) = 2 * L"
    using assms(2) by (intro unat_of_nat_less) simp
  then have np: "next_power_of_two (of_nat (2 * L)) = 2 ^ Suc ?c"
    using assms by (simp add: next_power_of_two_eq clog_double del: of_nat_mult)
  let ?s = "2 ^ Suc ?c - 1 :: usize"
  have u: "unat ?s = 2 ^ Suc ?c - 1"
    using c unat_pow_usize [of "Suc ?c"] by (subst unat_sub) (auto simp: word_le_nat_alt)
  have "saturating_sub (2 ^ Suc ?c) 1 = ?s"
    using c unat_pow_usize [of "Suc ?c"]
    by (simp add: saturating_sub_def word_le_nat_alt del: power_Suc)
  moreover have "is_perfect ?s"
  proof (cases "?c = 0")
    case True
    then show ?thesis by (simp add: is_perfect_def)
  next
    case False
    then have "(1::nat) < 2 ^ ?c" using one_less_power [of "2::nat" ?c] by simp
    then have "clog (2 ^ Suc ?c - 1) = Suc ?c"
      by (intro clog_eqI) (auto simp: less_diff_conv)
    moreover have "(2::nat) ^ Suc ?c \<le> 2 ^ 63" using c by (intro power_increasing) auto
    ultimately show ?thesis
      by (simp add: is_perfect_def next_power_of_two_eq u del: power_Suc)
  qed
  moreover have "drop_bit 1 ?s = of_nat (node ?c 0)"
  proof -
    have "unat (drop_bit 1 ?s) = (2 ^ Suc ?c - 1) div 2"
      unfolding unat_drop_bit_eq u by (simp add: drop_bit_eq_div)
    also have "\<dots> = node ?c 0" by (simp add: node_def)
    moreover have "node ?c 0 < 2 ^ 64"
      using c power_increasing [of ?c 62 "2::nat"] by (simp add: node_def)
    ultimately show ?thesis by (simp add: word_unat_eq_iff unat_of_nat_less)
  qed
  ultimately show ?thesis
    by (simp add: complete_root_def n np perfect_root_def del: power_Suc of_nat_mult)
qed

subsection \<open>Nodes of a tree with \<open>L\<close> leaves\<close>

text \<open>
  A tree with \<open>L\<close> leaves has \<open>2 * L - 1\<close> nodes. A branch node lies inside it exactly if the left
  half of its leaves is full and its right half is not empty.
\<close>

lemma node_inject: "node k m = node k' m' \<longleftrightarrow> k = k' \<and> m = m'"
proof
  assume eq: "node k m = node k' m'"
  have "bit (node k m) k' = bit (node k' m') k'" "bit (node k m) k = bit (node k' m') k"
    using eq by simp_all
  then have k: "k = k'" by (auto simp: bit_node)
  with eq have "m * 2 ^ Suc k' = m' * 2 ^ Suc k'"
    unfolding node_def by (simp only: add_right_cancel)
  with k show "k = k' \<and> m = m'" by simp
qed simp

lemma node_0: "node 0 m = 2 * m"
  by (simp add: node_def)

lemma node_Suc: "node (Suc k) m = 2 * (m * 2 ^ Suc k + 2 ^ k) - 1"
  by (simp add: node_def algebra_simps)

lemma node_Suc_in_tree: "node (Suc k) m < tree_nodes L \<longleftrightarrow> m * 2 ^ Suc k + 2 ^ k < L"
proof -
  have "2 * x - 1 < 2 * L - 1 \<longleftrightarrow> x < L" if "0 < x" for x :: nat
    using that by arith
  then show ?thesis
    unfolding node_Suc tree_nodes_def by (metis add_gr_0 zero_less_numeral zero_less_power)
qed

lemma node_0_in_tree: "node 0 m < tree_nodes L \<longleftrightarrow> m < L"
  unfolding node_0 tree_nodes_def by arith

lemma node_in_tree_start: "node k m < tree_nodes L \<Longrightarrow> m * 2 ^ k < L"
  by (cases k) (auto simp: node_0_in_tree node_Suc_in_tree)

lemma node_bound: "k \<le> c \<Longrightarrow> m < 2 ^ (c - k) \<Longrightarrow> node k m < 2 ^ Suc c"
proof -
  assume *: "k \<le> c" "m < 2 ^ (c - k)"
  then have "Suc m * 2 ^ Suc k \<le> 2 ^ (c - k) * 2 ^ Suc k" by (intro mult_le_mono1) simp
  also have "\<dots> = (2::nat) ^ Suc c" using *(1) by (simp flip: power_add)
  finally have "Suc m * 2 ^ Suc k \<le> (2::nat) ^ Suc c" .
  moreover have "node k m < Suc m * 2 ^ Suc k"
  proof -
    have "Suc m * 2 ^ Suc k = m * 2 ^ Suc k + 2 * 2 ^ k" "0 < (2::nat) ^ k" by simp_all
    then show ?thesis unfolding node_def by linarith
  qed
  ultimately show ?thesis by (rule less_le_trans [rotated])
qed

lemma node_in_tree_level:
  assumes "node k m < tree_nodes L"
  shows "k \<le> clog L" and "m < 2 ^ (clog L - k)"
proof -
  show k: "k \<le> clog L"
  proof (rule ccontr)
    assume "\<not> k \<le> clog L"
    then obtain j where j: "k = Suc j" "clog L \<le> j" by (cases k) auto
    then have "(2::nat) ^ clog L \<le> 2 ^ j" by (intro power_increasing) auto
    with clog_ge [of L] have "L \<le> 2 ^ j" by (rule order.trans)
    with assms j show False by (simp add: node_Suc_in_tree)
  qed
  have "m * 2 ^ k < 2 ^ clog L"
    using node_in_tree_start [OF assms] clog_ge [of L] by (rule less_le_trans)
  also have "\<dots> = 2 ^ (clog L - k) * (2::nat) ^ k" using k by (simp flip: power_add)
  finally show "m < 2 ^ (clog L - k)" by simp
qed

lemma root_in_tree: "0 < L \<Longrightarrow> node (clog L) 0 < tree_nodes L"
proof -
  assume "0 < L"
  moreover have "0 < (2::nat) ^ clog L" by simp
  ultimately show ?thesis
    using pow_clog_less [of L] unfolding node_def tree_nodes_def by linarith
qed

text \<open>
  The parent: \<open>up L k m\<close> climbs from level \<open>k\<close>, position \<open>m\<close>, to the next ancestor inside the tree.
\<close>

lemma complete_parent_climb:
  assumes "k + Suc j \<le> 62" "m < 2 ^ (62 - k)"
    and "node (k + Suc j) (m div 2 ^ Suc j) < n" "n < 2 ^ 63"
    and "\<And>i. i < j \<Longrightarrow> \<not> node (k + Suc i) (m div 2 ^ Suc i) < n"
  shows "complete_parent (of_nat (node k m)) (of_nat n) =
    Some (of_nat (node (k + Suc j) (m div 2 ^ Suc j)))"
  using assms
proof (induction j arbitrary: k m)
  case 0
  then show ?case
    by (subst complete_parent.simps)
      (simp add: perfect_parent_node of_nat_less_iff_word)
next
  case (Suc j)
  have "62 - k = Suc (62 - Suc k)" using Suc.prems(1) by simp
  then have "(2::nat) ^ (62 - k) = 2 * 2 ^ (62 - Suc k)" by simp
  then have m: "m div 2 < 2 ^ (62 - Suc k)" using Suc.prems(2) by simp
  have dd: "m div 2 div 2 ^ i = m div 2 ^ Suc i" for i by (simp add: div_mult2_eq)
  have "\<not> node (Suc k) (m div 2) < n" using Suc.prems(5) [of 0] by simp
  moreover have "node (Suc k) (m div 2) < 2 ^ 64"
    using node_bound [of "Suc k" 62 "m div 2"] m Suc.prems(1) by simp
  ultimately have "complete_parent (of_nat (node k m)) (of_nat n) =
      complete_parent (of_nat (node (Suc k) (m div 2))) (of_nat n)"
    using Suc.prems(1,4)
    by (subst complete_parent.simps) (simp add: perfect_parent_node of_nat_less_iff_word)
  also have "\<dots> = Some (of_nat (node (Suc k + Suc j) (m div 2 div 2 ^ Suc j)))"
  proof (rule Suc.IH)
    show "\<not> node (Suc k + Suc i) (m div 2 div 2 ^ Suc i) < n" if "i < j" for i
      using Suc.prems(5) [of "Suc i"] that unfolding dd by simp
    show "node (Suc k + Suc j) (m div 2 div 2 ^ Suc j) < n"
      using Suc.prems(3) unfolding dd by simp
  qed (use Suc.prems m in simp_all)
  finally show ?case unfolding dd by simp
qed

text \<open>
  The right child of a branch is the root of what is left of the tree to its right: a subtree with
  \<open>2 ^ k\<close> leaves, or fewer at the end of the tree.
\<close>

definition right_leaves :: "nat \<Rightarrow> nat \<Rightarrow> nat \<Rightarrow> nat" where
  "right_leaves L k m = min (2 ^ k) (L - (2 * m + 1) * 2 ^ k)"

definition right_level :: "nat \<Rightarrow> nat \<Rightarrow> nat \<Rightarrow> nat" where
  "right_level L k m = clog (right_leaves L k m)"

definition right_pos :: "nat \<Rightarrow> nat \<Rightarrow> nat \<Rightarrow> nat" where
  "right_pos L k m = (2 * m + 1) * 2 ^ (k - right_level L k m)"

lemma branch_in_tree:
  "node (Suc k) m < tree_nodes L \<longleftrightarrow> (2 * m + 1) * 2 ^ k < L"
  by (simp add: node_Suc_in_tree algebra_simps)

lemma right_leaves_pos:
  "node (Suc k) m < tree_nodes L \<Longrightarrow> 0 < right_leaves L k m"
  by (simp add: right_leaves_def branch_in_tree)

lemma right_level_le: "right_level L k m \<le> k"
  unfolding right_level_def by (rule clog_le) (simp add: right_leaves_def)

lemma right_pos_start: "right_pos L k m * 2 ^ right_level L k m = (2 * m + 1) * 2 ^ k"
proof -
  have "(2::nat) ^ (k - right_level L k m) * 2 ^ right_level L k m = 2 ^ k"
    using right_level_le [of L k m] by (simp flip: power_add)
  then show ?thesis unfolding right_pos_def by (simp only: mult.assoc)
qed

lemma right_level_eq_iff:
  assumes "node (Suc k) m < tree_nodes L"
  shows "right_level L k m = k \<longleftrightarrow> node k (2 * m + 1) < tree_nodes L"
proof (cases k)
  case 0
  then show ?thesis
    using assms right_level_le [of L 0 m] by (simp add: node_0_in_tree branch_in_tree)
next
  case (Suc j)
  have "right_level L k m = k \<longleftrightarrow> 2 ^ j < right_leaves L k m"
  proof
    assume "right_level L k m = k"
    then show "2 ^ j < right_leaves L k m"
      using clog_less [of j "right_leaves L k m"] Suc by (simp add: right_level_def)
  next
    assume "2 ^ j < right_leaves L k m"
    then show "right_level L k m = k"
      unfolding right_level_def by (intro clog_eqI) (auto simp: Suc right_leaves_def)
  qed
  also have "\<dots> \<longleftrightarrow> (2 * m + 1) * 2 ^ k + 2 ^ j < L"
    unfolding right_leaves_def Suc by (simp add: less_diff_conv add.commute)
  also have "\<dots> \<longleftrightarrow> node k (2 * m + 1) < tree_nodes L"
    unfolding Suc node_Suc_in_tree ..
  finally show ?thesis .
qed

lemma right_node_index:
  assumes "node (Suc k) m < tree_nodes L"
  shows "node (right_level L k m) (right_pos L k m) =
    Suc (node (Suc k) m) + (2 ^ right_level L k m - 1)"
proof -
  have "right_pos L k m * 2 ^ Suc (right_level L k m) = (2 * m + 1) * 2 ^ Suc k"
    using right_pos_start [of L k m] by simp
  also have "\<dots> = Suc (node (Suc k) m)"
    by (simp add: node_def algebra_simps)
  finally show ?thesis unfolding node_def [of "right_level L k m"] by simp
qed

lemma right_node_in_tree:
  assumes "node (Suc k) m < tree_nodes L"
  shows "node (right_level L k m) (right_pos L k m) < tree_nodes L"
proof (cases "right_level L k m")
  case 0
  then show ?thesis
    using right_pos_start [of L k m] assms by (simp add: node_0_in_tree branch_in_tree)
next
  case (Suc j)
  then have "2 ^ j < right_leaves L k m"
    using clog_less [of j "right_leaves L k m"] by (simp add: right_level_def)
  then have "(2 * m + 1) * 2 ^ k + 2 ^ j < L" by (simp add: right_leaves_def less_diff_conv)
  then show ?thesis using right_pos_start [of L k m] unfolding Suc node_Suc_in_tree by simp
qed

lemma tree_nodes_bound: "L \<le> 2 ^ 62 \<Longrightarrow> tree_nodes L < 2 ^ 63"
  by (simp add: tree_nodes_def)

lemma node_left_index: "node (Suc k) m = node k (2 * m) + 2 ^ k"
proof -
  have "0 < (2::nat) ^ k" by simp
  then show ?thesis by (simp add: node_def algebra_simps)
qed

lemma complete_right_child_node [index_ops]:
  assumes "node (Suc k) m < tree_nodes L" and L: "L \<le> 2 ^ 62"
  shows "complete_right_child (of_nat (node (Suc k) m)) (of_nat (tree_nodes L)) =
    Some (of_nat (node (right_level L k m) (right_pos L k m)))"
proof -
  have n: "tree_nodes L < 2 ^ 63" using L by (rule tree_nodes_bound)
  have lvl: "Suc k \<le> 62" using node_in_tree_level(1) [OF assms(1)] clog_le [OF L] by simp
  have "m < 2 ^ (62 - Suc k)"
    using node_in_tree_level(2) [OF assms(1)] clog_le [OF L]
    by (meson diff_le_mono less_le_trans one_le_numeral power_increasing)
  moreover have "(2::nat) ^ (62 - k) = 2 * 2 ^ (62 - Suc k)"
    using lvl by (simp flip: power_Suc add: Suc_diff_Suc)
  ultimately have rb: "node k (2 * m + 1) < 2 ^ 63"
    using node_bound [of k 62 "2 * m + 1"] lvl by simp
  let ?R = "node (right_level L k m) (right_pos L k m)"
  show ?thesis
  proof (cases "node k (2 * m + 1) < tree_nodes L")
    case True
    with assms(1) have "right_level L k m = k" by (simp add: right_level_eq_iff)
    then have "?R = node k (2 * m + 1)" by (simp add: right_pos_def)
    with True assms n rb lvl show ?thesis
      by (simp add: complete_right_child_def is_branch_node perfect_right_child_node
          of_nat_less_iff_word)
  next
    case False
    then have "right_level L k m \<noteq> k" using assms(1) by (simp add: right_level_eq_iff)
    then have r: "right_leaves L k m = L - (2 * m + 1) * 2 ^ k"
      by (auto simp: right_level_def right_leaves_def min_def split: if_splits)
    let ?r = "right_leaves L k m"
    have "0 < ?r" "?r \<le> 2 ^ 62" using right_leaves_pos [OF assms(1)] L r by simp_all
    then have root: "complete_root (of_nat (tree_nodes ?r)) =
        Some (of_nat (node (right_level L k m) 0))"
      unfolding right_level_def by (rule complete_root_eq)
    have plus: "checked_add (of_nat (node (Suc k) m)) 1 = Some (of_nat (Suc (node (Suc k) m)) :: usize)"
      using assms(1) n by (simp only: checked_add_Some_iff) (simp add: unat_of_nat_less del: of_nat_Suc)
    have "tree_nodes L = tree_nodes ?r + Suc (node (Suc k) m)"
      using assms(1) unfolding r tree_nodes_def branch_in_tree
      by (simp add: node_def algebra_simps)
    then have minus: "checked_sub (of_nat (tree_nodes L)) (of_nat (Suc (node (Suc k) m))) =
        Some (of_nat (tree_nodes ?r) :: usize)"
      using n by (simp only: checked_sub_Some_iff) (simp add: unat_of_nat_less del: of_nat_Suc of_nat_add)
    have "?R = Suc (node (Suc k) m) + node (right_level L k m) 0"
      unfolding right_node_index [OF assms(1)] node_def [of "right_level L k m" 0] by simp
    moreover have "?R < 2 ^ 64" using right_node_in_tree [OF assms(1)] n by simp
    ultimately have
      "checked_add (of_nat (Suc (node (Suc k) m))) (of_nat (node (right_level L k m) 0)) =
        Some (of_nat ?R :: usize)"
      using checked_add_of_nat [of "Suc (node (Suc k) m)" "node (right_level L k m) 0", where 'a = 64]
      by simp
    with False assms n rb lvl plus minus root show ?thesis
      by (simp add: complete_right_child_def is_branch_node perfect_right_child_node
          of_nat_less_iff_word del: of_nat_Suc)
  qed
qed

text \<open>
  One step of the climb. A node of the tree other than its root is a child of its
  \<open>complete_parent\<close>: the left child, or the root of the subtree to the right.
\<close>

lemma next_ancestor_exists:
  assumes "node k m < tree_nodes L" and "(k, m) \<noteq> (clog L, 0)"
  obtains j where "node (k + Suc j) (m div 2 ^ Suc j) < tree_nodes L" "k + Suc j \<le> clog L"
    and "\<And>i. i < j \<Longrightarrow> \<not> node (k + Suc i) (m div 2 ^ Suc i) < tree_nodes L"
proof -
  let ?P = "\<lambda>j. node (k + Suc j) (m div 2 ^ Suc j) < tree_nodes L"
  have kc: "k \<le> clog L" and m: "m < 2 ^ (clog L - k)"
    using node_in_tree_level [OF assms(1)] by simp_all
  have lt: "k < clog L"
  proof (rule ccontr)
    assume "\<not> k < clog L"
    with kc m assms(2) show False by simp
  qed
  have "0 < L" using node_in_tree_start [OF assms(1)] by simp
  have ex: "?P (clog L - Suc k)"
    using root_in_tree [OF \<open>0 < L\<close>] m lt by (simp add: Suc_diff_Suc)
  define j where "j = (LEAST j. ?P j)"
  have "?P j" unfolding j_def by (rule LeastI) (rule ex)
  moreover have "\<not> ?P i" if "i < j" for i
    using that not_less_Least [of i ?P] unfolding j_def by blast
  moreover have "k + Suc j \<le> clog L" using node_in_tree_level(1) [OF \<open>?P j\<close>] .
  ultimately show ?thesis using that by blast
qed

lemma gap_even:
  assumes "m * 2 ^ k < L" "\<not> node (Suc k) (m div 2) < tree_nodes L"
  shows "m = 2 * (m div 2)" and "L \<le> m * 2 ^ k + 2 ^ k"
proof -
  from assms(2) have le: "L \<le> (2 * (m div 2) + 1) * 2 ^ k" by (simp add: branch_in_tree)
  show "m = 2 * (m div 2)"
  proof (rule ccontr)
    assume "m \<noteq> 2 * (m div 2)"
    then have "2 * (m div 2) + 1 = m" by presburger
    with le have "L \<le> m * 2 ^ k" by metis
    with assms(1) show False by simp
  qed
  then show "L \<le> m * 2 ^ k + 2 ^ k" using le by (metis add_mult_distrib mult_1)
qed

lemma div_pow_Suc: "m div 2 ^ Suc j = m div 2 ^ j div (2::nat)"
  by (metis div_mult2_eq mult.commute power_Suc)

lemma gap_aligned:
  assumes "m * 2 ^ k < L"
    and "\<And>i. i < j \<Longrightarrow> \<not> node (k + Suc i) (m div 2 ^ Suc i) < tree_nodes L"
  shows "m = 2 ^ j * (m div 2 ^ j)"
  using assms
proof (induction j)
  case 0
  then show ?case by simp
next
  case (Suc j)
  then have IH: "m = 2 ^ j * (m div 2 ^ j)" by simp
  then have "m div 2 ^ j * 2 ^ (k + j) = m * 2 ^ k" by (simp add: power_add) (metis mult.assoc mult.commute)
  with Suc.prems(1) have "m div 2 ^ j * 2 ^ (k + j) < L" by simp
  moreover have "\<not> node (Suc (k + j)) (m div 2 ^ j div 2) < tree_nodes L"
    using Suc.prems(2) [of j] unfolding div_pow_Suc by simp
  ultimately have "m div 2 ^ j = 2 * (m div 2 ^ j div 2)" by (rule gap_even(1))
  then have "m div 2 ^ j = 2 * (m div 2 ^ Suc j)" unfolding div_pow_Suc .
  with IH show ?case by (metis mult.assoc mult.commute power_Suc)
qed

lemma complete_parent_step:
  assumes "node k m < tree_nodes L" and L: "L \<le> 2 ^ 62" and "(k, m) \<noteq> (clog L, 0)"
  obtains k' m' where "k \<le> k'" "Suc k' \<le> clog L" "node (Suc k') m' < tree_nodes L"
    and "m' = m div 2 ^ (Suc k' - k)"
    and "complete_parent (of_nat (node k m)) (of_nat (tree_nodes L)) =
      Some (of_nat (node (Suc k') m'))"
    and "(k, m) = (k', 2 * m') \<or> (k, m) = (right_level L k' m', right_pos L k' m')"
    and "\<And>i. k < i \<Longrightarrow> i \<le> k' \<Longrightarrow> \<not> node i (m div 2 ^ (i - k)) < tree_nodes L"
proof -
  from next_ancestor_exists [OF assms(1,3)] obtain j where
    j: "node (k + Suc j) (m div 2 ^ Suc j) < tree_nodes L" "k + Suc j \<le> clog L"
      "\<And>i. i < j \<Longrightarrow> \<not> node (k + Suc i) (m div 2 ^ Suc i) < tree_nodes L" by blast
  let ?k' = "k + j" and ?m' = "m div 2 ^ Suc j"
  have c: "clog L \<le> 62" by (rule clog_le [OF L])
  have m: "m < 2 ^ (62 - k)"
    using node_in_tree_level(2) [OF assms(1)] c
    by (meson diff_le_mono less_le_trans one_le_numeral power_increasing)
  have cp: "complete_parent (of_nat (node k m)) (of_nat (tree_nodes L)) =
      Some (of_nat (node (Suc ?k') ?m'))"
    using complete_parent_climb [of k j m "tree_nodes L"] j c m tree_nodes_bound [OF L] by simp
  have start: "m * 2 ^ k < L" by (rule node_in_tree_start [OF assms(1)])
  have al: "m = 2 ^ j * (m div 2 ^ j)" using gap_aligned [OF start j(3)] by simp
  let ?q = "m div 2 ^ j"
  have m': "?m' = ?q div 2" by (rule div_pow_Suc)
  have "(k, m) = (?k', 2 * ?m') \<or> (k, m) = (right_level L ?k' ?m', right_pos L ?k' ?m')"
  proof (cases "even ?q")
    case True
    then have q: "?q = 2 * ?m'" unfolding m' by simp
    have "j = 0"
    proof (rule ccontr)
      assume "j \<noteq> 0"
      then obtain i where i: "j = Suc i" by (cases j) auto
      then have "\<not> node ?k' ?q < tree_nodes L" using j(3) [of i] by simp
      moreover have "node ?k' ?q < node (Suc ?k') ?m'" unfolding node_left_index q by simp
      ultimately show False using j(1) by simp
    qed
    with q show ?thesis by simp
  next
    case False
    then have q: "?q = 2 * ?m' + 1" unfolding m' by (rule odd_two_times_div_two_succ [symmetric])
    have st: "(2 * ?m' + 1) * 2 ^ ?k' = m * 2 ^ k"
      using al unfolding q [symmetric] by (metis mult.commute mult.assoc power_add)
    have "right_level L ?k' ?m' = k"
    proof (cases "j = 0")
      case True
      then show ?thesis using assms(1) j(1) q by (simp add: right_level_eq_iff)
    next
      case False
      then have "\<not> node (Suc k) (m div 2) < tree_nodes L" using j(3) [of 0] by simp
      then have up: "L \<le> m * 2 ^ k + 2 ^ k" using gap_even(2) [OF start] by simp
      have "(2::nat) ^ k \<le> 2 ^ ?k'" by (rule power_increasing) simp_all
      with up have "L - m * 2 ^ k \<le> 2 ^ ?k'" by linarith
      then have r: "right_leaves L ?k' ?m' = L - m * 2 ^ k"
        unfolding right_leaves_def st by (rule min_absorb2)
      show ?thesis unfolding right_level_def r
      proof (rule clog_eqI)
        show "L - m * 2 ^ k \<le> 2 ^ k" using up by simp
        show "k = 0 \<or> 2 ^ (k - 1) < L - m * 2 ^ k"
          using assms(1) by (cases k) (auto simp: node_Suc_in_tree less_diff_conv add.commute)
      qed
    qed
    moreover have "right_pos L ?k' ?m' = m"
      using right_pos_start [of L ?k' ?m'] st calculation by simp
    ultimately show ?thesis by simp
  qed
  moreover have "\<not> node i (m div 2 ^ (i - k)) < tree_nodes L" if "k < i" "i \<le> ?k'" for i
  proof -
    from that have "k + Suc (i - Suc k) = i" "Suc (i - Suc k) = i - k" "i - Suc k < j" by simp_all
    then show ?thesis using j(3) [of "i - Suc k"] by metis
  qed
  ultimately show ?thesis using that [of ?k' ?m'] cp j by simp
qed

end
