(* ===== verification/Merkle_Tree.thy ===== *)
theory Merkle_Tree
  imports Merkle_Index
begin

text \<open>
  The append-only Merkle tree (\<^verbatim>\<open>crates/astria-merkle/src/lib.rs\<close>, \<^verbatim>\<open>Tree\<close> and \<^verbatim>\<open>LeafBuilder\<close>). The
  tree is the byte buffer of the source: node \<open>i\<close> is the 32 bytes from \<open>32 * i\<close> on. The hash
  function \<open>H\<close> (\<^verbatim>\<open>sha2::Sha256\<close>, a third-party crate) is a parameter; a hasher is the bytes it was
  fed. \<open>None\<close> is a panic.

  Below the model, the reference: \<open>MTH\<close> and \<open>PATH\<close> are the Merkle tree hash and the audit path as
  RFC 6962 defines them, and \<open>tree_of\<close> says that a byte buffer holds the tree of a list of leaves.
\<close>

unbundle bit_operations_syntax

section \<open>The model\<close>

definition init_leaf_hasher :: bytes where
  "init_leaf_hasher = [0x00]"

definition hash_leaf :: "hash_fun \<Rightarrow> bytes \<Rightarrow> bytes" where
  "hash_leaf H leaf = H (init_leaf_hasher @ leaf)"

definition combine :: "hash_fun \<Rightarrow> bytes \<Rightarrow> bytes \<Rightarrow> bytes" where
  "combine H left right = H ([0x01] @ left @ right)"

record tree =
  nodes :: bytes

record leaf_builder =
  lb_tree :: tree
  lb_hasher :: "bytes option"

definition new_tree :: tree where
  "new_tree = \<lparr>nodes = []\<rparr>"

definition tree_len :: "tree \<Rightarrow> usize" where
  "tree_len t = of_nat (length (nodes t) div 32)"

definition tree_is_empty :: "tree \<Rightarrow> bool" where
  "tree_is_empty t \<longleftrightarrow> nodes t = []"

definition is_in_tree :: "tree \<Rightarrow> usize \<Rightarrow> bool" where
  "is_in_tree t i = is_tree_index_in_tree i (tree_len t)"

definition is_leaf_in_tree :: "tree \<Rightarrow> usize \<Rightarrow> bool option" where
  "is_leaf_in_tree t leaf_index = is_leaf_index_in_tree leaf_index (tree_len t)"

definition get_node :: "tree \<Rightarrow> usize \<Rightarrow> bytes option" where
  "get_node t i =
     (if is_in_tree t i then do {
        low \<leftarrow> checked_mul i 32;
        i' \<leftarrow> checked_add i 1;
        high \<leftarrow> checked_mul i' 32;
        if unat high \<le> length (nodes t)
        then Some (take (unat high - unat low) (drop (unat low) (nodes t)))
        else None
      } else None)"

definition set_node :: "tree \<Rightarrow> usize \<Rightarrow> bytes \<Rightarrow> tree option" where
  "set_node t i val =
     (if is_in_tree t i then do {
        low \<leftarrow> checked_mul i 32;
        i' \<leftarrow> checked_add i 1;
        high \<leftarrow> checked_mul i' 32;
        if unat high \<le> length (nodes t) \<and> length val = unat high - unat low
        then Some (t\<lparr>nodes := take (unat low) (nodes t) @ val @ drop (unat high) (nodes t)\<rparr>)
        else None
      } else None)"

definition combine_nodes :: "hash_fun \<Rightarrow> tree \<Rightarrow> usize \<Rightarrow> usize \<Rightarrow> bytes option" where
  "combine_nodes H t i j = do {
     left \<leftarrow> get_node t i;
     right \<leftarrow> get_node t j;
     Some (combine H left right)
   }"

text \<open>The loop of \<open>LeafBuilder::drop\<close> that recomputes the ancestors of the new leaf.\<close>

function rehash_ancestors ::
  "hash_fun \<Rightarrow> usize \<Rightarrow> usize \<Rightarrow> tree \<Rightarrow> usize \<Rightarrow> tree option" where
  "rehash_ancestors H sz root t idx = do {
     p \<leftarrow> complete_parent idx sz;
     left \<leftarrow> complete_left_child p;
     right \<leftarrow> complete_right_child p sz;
     new_value \<leftarrow> combine_nodes H t left right;
     t' \<leftarrow> set_node t p new_value;
     if p = root then Some t' else rehash_ancestors H sz root t' p
   }"
  by pat_completeness auto
termination
  by (relation "measure (\<lambda>(H, sz, root, t, idx). 64 - card (low_ones idx))")
    (auto intro: complete_parent_measure)

declare rehash_ancestors.simps [simp del]

definition drop_builder :: "hash_fun \<Rightarrow> leaf_builder \<Rightarrow> tree option" where
  "drop_builder H b = do {
     hasher \<leftarrow> lb_hasher b;
     let leaf_hash = H hasher;
     let t = lb_tree b;
     if tree_is_empty t then Some (t\<lparr>nodes := leaf_hash\<rparr>)
     else do {
       let t = t\<lparr>nodes := nodes t @ replicate 64 0\<rparr>;
       let sz = tree_len t;
       idx \<leftarrow> checked_sub sz 1;
       t \<leftarrow> set_node t idx leaf_hash;
       root \<leftarrow> complete_root (tree_len t);
       rehash_ancestors H sz root t idx
     }
   }"

definition build_leaf :: "tree \<Rightarrow> leaf_builder" where
  "build_leaf t = \<lparr>lb_tree = t, lb_hasher = Some init_leaf_hasher\<rparr>"

definition builder_write :: "leaf_builder \<Rightarrow> bytes \<Rightarrow> leaf_builder option" where
  "builder_write b bs = do {
     hasher \<leftarrow> lb_hasher b;
     Some (b\<lparr>lb_hasher := Some (hasher @ bs)\<rparr>)
   }"

definition push :: "hash_fun \<Rightarrow> tree \<Rightarrow> bytes \<Rightarrow> tree option" where
  "push H t leaf = do {
     b \<leftarrow> builder_write (build_leaf t) leaf;
     drop_builder H b
   }"

fun push_all :: "hash_fun \<Rightarrow> tree \<Rightarrow> bytes list \<Rightarrow> tree option" where
  "push_all H t [] = Some t"
| "push_all H t (leaf # leaves) = do { t \<leftarrow> push H t leaf; push_all H t leaves }"

definition from_leaves :: "hash_fun \<Rightarrow> bytes list \<Rightarrow> tree option" where
  "from_leaves H leaves = push_all H new_tree leaves"

definition tree_leaf :: "tree \<Rightarrow> usize \<Rightarrow> bytes option option" where
  "tree_leaf t i = do {
     idx \<leftarrow> leaf_index_to_tree_index i;
     if is_in_tree t idx then do { v \<leftarrow> get_node t idx; Some (Some v) } else Some None
   }"

definition tree_root :: "hash_fun \<Rightarrow> tree \<Rightarrow> bytes option" where
  "tree_root H t =
     (if tree_is_empty t then Some (H [])
      else do { r \<leftarrow> complete_root (tree_len t); get_node t r })"

text \<open>The inclusion proof (\<^verbatim>\<open>crates/astria-merkle/src/audit.rs\<close>, \<^verbatim>\<open>Proof\<close>).\<close>

record merkle_proof =
  audit_path :: bytes
  leaf_index :: usize
  tree_size :: usize

function proof_path :: "tree \<Rightarrow> usize \<Rightarrow> usize \<Rightarrow> usize \<Rightarrow> bytes \<Rightarrow> bytes option" where
  "proof_path t sz root tree_index path =
     (if tree_index \<noteq> root then do {
        (p, sibling) \<leftarrow> complete_parent_and_sibling tree_index sz;
        v \<leftarrow> get_node t sibling;
        proof_path t sz root p (path @ v)
      } else Some path)"
  by pat_completeness auto
termination
  by (relation "measure (\<lambda>(t, sz, root, idx, path). 64 - card (low_ones idx))")
    (auto simp: complete_parent_and_sibling_def bind_eq_Some_conv split: if_splits
      intro: complete_parent_measure)

declare proof_path.simps [simp del]

definition construct_proof :: "tree \<Rightarrow> usize \<Rightarrow> merkle_proof option option" where
  "construct_proof t i =
     (let sz = tree_len t in
      if sz = 0 then Some None
      else do {
        inside \<leftarrow> is_leaf_in_tree t i;
        if \<not> inside then Some None
        else do {
          tree_index \<leftarrow> leaf_index_to_tree_index i;
          root \<leftarrow> complete_root sz;
          path \<leftarrow> proof_path t sz root tree_index [];
          Some (Some \<lparr>audit_path = path, leaf_index = i, tree_size = sz\<rparr>)
        }
      })"

section \<open>The reference: RFC 6962\<close>

text \<open>The largest power of two smaller than \<open>n\<close>, for \<open>n > 1\<close>.\<close>

fun split_point :: "nat \<Rightarrow> nat" where
  "split_point n = (if n \<le> 2 then 1 else 2 * split_point ((n + 1) div 2))"

declare split_point.simps [simp del]

lemma split_point_pow: "2 ^ k < n \<Longrightarrow> n \<le> 2 ^ Suc k \<Longrightarrow> split_point n = 2 ^ k"
proof (induction k arbitrary: n)
  case 0
  then show ?case by (simp add: split_point.simps [of n])
next
  case (Suc k)
  then have "2 ^ k < (n + 1) div 2" "(n + 1) div 2 \<le> 2 ^ Suc k" by auto
  then have "split_point ((n + 1) div 2) = 2 ^ k" by (rule Suc.IH)
  moreover have "\<not> n \<le> 2"
  proof -
    have "(1::nat) \<le> 2 ^ k" by simp
    then show ?thesis using Suc.prems(1) unfolding power_Suc by linarith
  qed
  ultimately show ?case by (simp add: split_point.simps [of n])
qed

lemma split_point_bounds:
  assumes "1 < n"
  shows "0 < split_point n" and "split_point n < n"
proof -
  have "2 ^ (clog n - 1) < n" "n \<le> 2 ^ Suc (clog n - 1)"
    using assms clog_ge [of n] clog_less [of "clog n - 1" n] by (cases "clog n"; simp)+
  then show "0 < split_point n" "split_point n < n" using split_point_pow by simp_all
qed

function MTH :: "hash_fun \<Rightarrow> bytes list \<Rightarrow> bytes" where
  "MTH H ds =
     (if ds = [] then H []
      else if length ds = 1 then hash_leaf H (hd ds)
      else let k = split_point (length ds) in
        combine H (MTH H (take k ds)) (MTH H (drop k ds)))"
  by pat_completeness auto
termination
proof (relation "measure (\<lambda>(H, ds). length ds)", goal_cases)
  case (2 H ds k)
  then have "1 < length ds" by (cases ds) auto
  with 2 split_point_bounds show ?case by simp
next
  case (3 H ds k)
  then have "1 < length ds" by (cases ds) auto
  with 3 split_point_bounds show ?case by simp
qed simp

declare MTH.simps [simp del]

function PATH :: "hash_fun \<Rightarrow> nat \<Rightarrow> bytes list \<Rightarrow> bytes list" where
  "PATH H i ds =
     (if length ds \<le> 1 then []
      else let k = split_point (length ds) in
        if i < k then PATH H i (take k ds) @ [MTH H (drop k ds)]
        else PATH H (i - k) (drop k ds) @ [MTH H (take k ds)])"
  by pat_completeness auto
termination
proof (relation "measure (\<lambda>(H, i, ds). length ds)", goal_cases)
  case (2 H i ds k)
  then show ?case using split_point_bounds [of "length ds"] by simp
next
  case (3 H i ds k)
  then show ?case using split_point_bounds [of "length ds"] by simp
qed simp

declare PATH.simps [simp del]

lemma MTH_Nil: "MTH H [] = H []"
  by (simp add: MTH.simps)

lemma MTH_single: "MTH H [d] = hash_leaf H d"
  by (simp add: MTH.simps)

lemma MTH_branch:
  "2 ^ k < length ds \<Longrightarrow> length ds \<le> 2 ^ Suc k \<Longrightarrow>
    MTH H ds = combine H (MTH H (take (2 ^ k) ds)) (MTH H (drop (2 ^ k) ds))"
proof -
  assume *: "2 ^ k < length ds" "length ds \<le> 2 ^ Suc k"
  have "0 < (2::nat) ^ k" by simp
  with * have "ds \<noteq> []" "length ds \<noteq> 1" by auto
  then show ?thesis
    using * by (subst MTH.simps) (simp add: split_point_pow Let_def del: power_Suc)
qed

lemma MTH_length:
  assumes "\<And>x. length (H x) = 32"
  shows "length (MTH H ds) = 32"
  by (subst MTH.simps) (simp add: assms hash_leaf_def combine_def Let_def)

section \<open>The buffer\<close>

definition node_at :: "tree \<Rightarrow> nat \<Rightarrow> bytes" where
  "node_at t i = take 32 (drop (32 * i) (nodes t))"

text \<open>A buffer of \<open>n\<close> nodes. The bound is Rust's: no allocation exceeds \<open>isize::MAX\<close> bytes.\<close>

definition buffer :: "tree \<Rightarrow> nat \<Rightarrow> bool" where
  "buffer t n \<longleftrightarrow> length (nodes t) = 32 * n \<and> 32 * n < 2 ^ 63"

lemma tree_len_buffer: "buffer t n \<Longrightarrow> tree_len t = of_nat n"
  by (simp add: buffer_def tree_len_def)

lemma node_range:
  assumes "buffer t n" "i < n"
  shows "is_in_tree t (of_nat i)" "checked_mul (of_nat i :: usize) 32 = Some (of_nat (32 * i))"
    "checked_add (of_nat i :: usize) 1 = Some (of_nat (Suc i))"
    "checked_mul (of_nat (Suc i) :: usize) 32 = Some (of_nat (32 * Suc i))"
    "unat (of_nat (32 * i) :: usize) = 32 * i" "unat (of_nat (32 * Suc i) :: usize) = 32 * Suc i"
proof -
  have b: "32 * Suc i < 2 ^ 64" "n < 2 ^ 64" "i < 2 ^ 64" using assms by (auto simp: buffer_def)
  show "is_in_tree t (of_nat i)"
    using b assms(2)
    by (simp add: is_in_tree_def is_tree_index_in_tree_def tree_len_buffer [OF assms(1)]
        of_nat_less_iff_word)
  show "checked_mul (of_nat i :: usize) 32 = Some (of_nat (32 * i))"
    using b checked_mul_of_nat [of i 32, where 'a = 64] by (simp add: mult.commute)
  show "checked_add (of_nat i :: usize) 1 = Some (of_nat (Suc i))"
    using b checked_add_of_nat [of i 1, where 'a = 64] by simp
  show "checked_mul (of_nat (Suc i) :: usize) 32 = Some (of_nat (32 * Suc i))"
    using b checked_mul_of_nat [of "Suc i" 32, where 'a = 64] by (simp add: mult.commute)
  show "unat (of_nat (32 * i) :: usize) = 32 * i" "unat (of_nat (32 * Suc i) :: usize) = 32 * Suc i"
    by (rule unat_of_nat_less; use b in simp)+
qed

lemma get_node_buffer:
  assumes "buffer t n" "i < n"
  shows "get_node t (of_nat i) = Some (node_at t i)"
proof -
  have "32 * Suc i \<le> length (nodes t)" "32 * Suc i - 32 * i = 32"
    using assms by (simp_all add: buffer_def)
  then show ?thesis
    using node_range [OF assms]
    by (simp add: get_node_def node_at_def del: of_nat_mult of_nat_Suc mult_Suc_right)
qed

definition put_node :: "tree \<Rightarrow> nat \<Rightarrow> bytes \<Rightarrow> tree" where
  "put_node t i v = t\<lparr>nodes := take (32 * i) (nodes t) @ v @ drop (32 * Suc i) (nodes t)\<rparr>"

lemma set_node_buffer:
  assumes "buffer t n" "i < n" "length v = 32"
  shows "set_node t (of_nat i) v = Some (put_node t i v)"
proof -
  have "32 * Suc i \<le> length (nodes t)" "32 * Suc i - 32 * i = 32"
    using assms by (simp_all add: buffer_def)
  then show ?thesis
    using node_range [OF assms(1,2)] assms(3)
    by (simp add: set_node_def put_node_def del: of_nat_mult of_nat_Suc mult_Suc_right)
qed

lemma buffer_put_node: "buffer t n \<Longrightarrow> i < n \<Longrightarrow> length v = 32 \<Longrightarrow> buffer (put_node t i v) n"
  by (simp add: buffer_def put_node_def min_def)

lemma node_at_put_node:
  assumes "buffer t n" "i < n" "j < n" "length v = 32"
  shows "node_at (put_node t i v) j = (if j = i then v else node_at t j)"
proof -
  have len: "length (nodes t) = 32 * n" using assms(1) by (simp add: buffer_def)
  consider "j < i" | "j = i" | "i < j" by linarith
  then show ?thesis
  proof cases
    case 1
    then have "32 * j + 32 \<le> 32 * i" by simp
    with 1 assms len show ?thesis
      by (simp add: node_at_def put_node_def take_drop_take)
  next
    case 2
    with assms len show ?thesis by (simp add: node_at_def put_node_def)
  next
    case 3
    then obtain d where d: "j = Suc i + d" using less_iff_Suc_add by auto
    with assms len have "32 * Suc i + 32 * d \<le> 32 * n" by simp
    with d assms len show ?thesis
      by (simp add: node_at_def put_node_def min_def algebra_simps)
  qed
qed

end
