(* ===== verification/Merkle_Push.thy ===== *)
theory Merkle_Push
  imports Merkle_Tree
begin

text \<open>
  Appending leaves. \<open>tree_of H ls t\<close> says that the buffer of \<open>t\<close> is the flat layout of the RFC 6962
  tree of the leaves \<open>ls\<close>: the node at level \<open>k\<close>, position \<open>m\<close> holds the Merkle tree hash of its
  segment of the leaves. \<open>push\<close> keeps it, and the root is the Merkle tree hash of all leaves.
\<close>

abbreviation seg :: "'a list \<Rightarrow> nat \<Rightarrow> nat \<Rightarrow> 'a list" where
  "seg ls k m \<equiv> take (2 ^ k) (drop (m * 2 ^ k) ls)"

definition tree_of :: "hash_fun \<Rightarrow> bytes list \<Rightarrow> tree \<Rightarrow> bool" where
  "tree_of H ls t \<longleftrightarrow>
     buffer t (tree_nodes (length ls)) \<and>
     (\<forall>k m. node k m < tree_nodes (length ls) \<longrightarrow>
        node_at t (node k m) = MTH H (seg ls k m))"

section \<open>Segments\<close>

lemma le_div_pow: "a \<le> b div 2 ^ k \<longleftrightarrow> a * 2 ^ k \<le> (b::nat)"
  by (rule less_eq_div_iff_mult_less_eq) simp

lemma seg_right:
  assumes "node (Suc k) m < tree_nodes (length ls)"
  shows "seg ls (right_level (length ls) k m) (right_pos (length ls) k m) = seg ls k (2 * m + 1)"
proof -
  let ?L = "length ls"
  let ?r = "right_level ?L k m"
  have start: "right_pos ?L k m * 2 ^ ?r = (2 * m + 1) * 2 ^ k" by (rule right_pos_start)
  show ?thesis
  proof (cases "?r = k")
    case True
    then show ?thesis using start by simp
  next
    case False
    then have "right_leaves ?L k m = ?L - (2 * m + 1) * 2 ^ k"
      by (auto simp: right_level_def right_leaves_def min_def split: if_splits)
    moreover have "right_leaves ?L k m \<le> 2 ^ ?r" unfolding right_level_def by (rule clog_ge)
    moreover have "(2::nat) ^ ?r \<le> 2 ^ k" using right_level_le by (intro power_increasing) auto
    ultimately have "?L - (2 * m + 1) * 2 ^ k \<le> 2 ^ ?r" "?L - (2 * m + 1) * 2 ^ k \<le> 2 ^ k"
      by linarith+
    then show ?thesis unfolding start by (simp only: take_all length_drop)
  qed
qed

lemma seg_branch:
  assumes "node (Suc k) m < tree_nodes (length ls)"
  shows "MTH H (seg ls (Suc k) m) = combine H (MTH H (seg ls k (2 * m))) (MTH H (seg ls k (2 * m + 1)))"
proof -
  have lt: "(2 * m + 1) * 2 ^ k < length ls" using assms by (simp only: branch_in_tree)
  have start: "m * 2 ^ Suc k = (2 * m) * 2 ^ k" by simp
  have len: "2 ^ k < length (seg ls (Suc k) m)" "length (seg ls (Suc k) m) \<le> 2 ^ Suc k"
    using lt by (simp_all add: algebra_simps)
  have "take (2 ^ k) (seg ls (Suc k) m) = seg ls k (2 * m)"
    unfolding start by (simp add: min_def)
  moreover have "drop (2 ^ k) (seg ls (Suc k) m) = seg ls k (2 * m + 1)"
    unfolding start by (simp add: drop_take algebra_simps)
  ultimately show ?thesis using MTH_branch [OF len, of H] by simp
qed

lemma seg_append:
  assumes "m \<noteq> length ls div 2 ^ k" "m * 2 ^ k < Suc (length ls)"
  shows "seg (ls @ [x]) k m = seg ls k m"
proof -
  have "m < length ls div 2 ^ k"
  proof -
    have "m * 2 ^ k \<le> length ls" using assms(2) by simp
    then have "m \<le> length ls div 2 ^ k" by (simp only: le_div_pow)
    with assms(1) show ?thesis by simp
  qed
  then have "Suc m * 2 ^ k \<le> length ls" by (simp only: le_div_pow flip: Suc_le_eq)
  then show ?thesis by simp
qed

lemma seg_root: "0 < length ls \<Longrightarrow> seg ls (clog (length ls)) 0 = ls"
  by (simp add: clog_ge)

section \<open>Rehashing the ancestors of the new leaf\<close>

text \<open>
  While the ancestors are rehashed, every node is right except the ancestors of the last leaf above
  the current level.
\<close>

definition right_up_to :: "hash_fun \<Rightarrow> bytes list \<Rightarrow> tree \<Rightarrow> nat \<Rightarrow> bool" where
  "right_up_to H ls t k \<longleftrightarrow>
     buffer t (tree_nodes (length ls)) \<and>
     (\<forall>j m. node j m < tree_nodes (length ls) \<longrightarrow> j \<le> k \<or> m \<noteq> (length ls - 1) div 2 ^ j \<longrightarrow>
        node_at t (node j m) = MTH H (seg ls j m))"

lemma right_up_to_root: "right_up_to H ls t (clog (length ls)) \<Longrightarrow> tree_of H ls t"
  using node_in_tree_level(1) by (auto simp: right_up_to_def tree_of_def)

lemma rehash_step:
  assumes "right_up_to H ls t k" "node (Suc k') m' < tree_nodes (length ls)"
    and m': "m' = (length ls - 1) div 2 ^ Suc k'"
    and right: "right_level (length ls) k' m' \<le> k" and "k \<le> k'"
    and gap: "\<And>i. k < i \<Longrightarrow> i \<le> k' \<Longrightarrow>
      \<not> node i ((length ls - 1) div 2 ^ i) < tree_nodes (length ls)"
    and len: "\<And>x. length (H x) = 32"
  shows "combine_nodes H t (of_nat (node k' (2 * m')))
      (of_nat (node (right_level (length ls) k' m') (right_pos (length ls) k' m'))) =
      Some (MTH H (seg ls (Suc k') m'))"
    and "set_node t (of_nat (node (Suc k') m')) (MTH H (seg ls (Suc k') m')) =
      Some (put_node t (node (Suc k') m') (MTH H (seg ls (Suc k') m')))"
    and "right_up_to H ls (put_node t (node (Suc k') m') (MTH H (seg ls (Suc k') m'))) (Suc k')"
proof -
  let ?L = "length ls" and ?n = "tree_nodes (length ls)"
  let ?v = "MTH H (seg ls (Suc k') m')"
  have buf: "buffer t ?n" and val: "\<And>j m. node j m < ?n \<Longrightarrow> j \<le> k \<or> m \<noteq> (?L - 1) div 2 ^ j \<Longrightarrow>
      node_at t (node j m) = MTH H (seg ls j m)"
    using assms(1) by (auto simp: right_up_to_def)
  have "node k' (2 * m') < ?n" using assms(2) unfolding node_left_index by simp
  moreover have "2 * m' \<noteq> (?L - 1) div 2 ^ k'"
  proof -
    have "(2 * m' + 1) * 2 ^ k' \<le> ?L - 1" using assms(2) unfolding branch_in_tree by simp
    then have "2 * m' + 1 \<le> (?L - 1) div 2 ^ k'" by (simp only: le_div_pow)
    then show ?thesis by simp
  qed
  ultimately have left: "get_node t (of_nat (node k' (2 * m'))) = Some (MTH H (seg ls k' (2 * m')))"
    using val get_node_buffer [OF buf] by simp
  have "node (right_level ?L k' m') (right_pos ?L k' m') < ?n"
    by (rule right_node_in_tree [OF assms(2)])
  then have "get_node t (of_nat (node (right_level ?L k' m') (right_pos ?L k' m'))) =
      Some (MTH H (seg ls k' (2 * m' + 1)))"
    using val right get_node_buffer [OF buf] seg_right [OF assms(2)] by simp
  with left show "combine_nodes H t (of_nat (node k' (2 * m')))
      (of_nat (node (right_level ?L k' m') (right_pos ?L k' m'))) = Some ?v"
    unfolding seg_branch [OF assms(2)] by (simp add: combine_nodes_def)
  have lv: "length ?v = 32" by (rule MTH_length) (rule len)
  show "set_node t (of_nat (node (Suc k') m')) ?v = Some (put_node t (node (Suc k') m') ?v)"
    by (rule set_node_buffer [OF buf assms(2) lv])
  have "node_at (put_node t (node (Suc k') m') ?v) (node j m) = MTH H (seg ls j m)"
    if in_t: "node j m < ?n" and j: "j \<le> Suc k' \<or> m \<noteq> (?L - 1) div 2 ^ j" for j m
  proof (cases "(j, m) = (Suc k', m')")
    case True
    then show ?thesis using node_at_put_node [OF buf assms(2) _ lv] assms(2) by simp
  next
    case False
    then have "node_at (put_node t (node (Suc k') m') ?v) (node j m) = node_at t (node j m)"
      using node_at_put_node [OF buf assms(2) in_t lv] by (auto simp: node_inject)
    moreover have "j \<le> k \<or> m \<noteq> (?L - 1) div 2 ^ j"
    proof (rule ccontr)
      assume "\<not> (j \<le> k \<or> m \<noteq> (?L - 1) div 2 ^ j)"
      then have "k < j" "m = (?L - 1) div 2 ^ j" by auto
      with j False m' have "j \<le> k'" by (auto simp: le_Suc_eq)
      with gap [OF \<open>k < j\<close>] in_t \<open>m = _\<close> show False by simp
    qed
    ultimately show ?thesis using val [OF in_t] by simp
  qed
  then show "right_up_to H ls (put_node t (node (Suc k') m') ?v) (Suc k')"
    using buffer_put_node [OF buf assms(2) lv] by (simp add: right_up_to_def)
qed

lemma rehash_ancestors_correct:
  assumes "right_up_to H ls t k" "length ls \<le> 2 ^ 62" "0 < length ls"
    and "node k ((length ls - 1) div 2 ^ k) < tree_nodes (length ls)" "k < clog (length ls)"
    and len: "\<And>x. length (H x) = 32"
  shows "\<exists>t'. rehash_ancestors H (of_nat (tree_nodes (length ls)))
      (of_nat (node (clog (length ls)) 0)) t (of_nat (node k ((length ls - 1) div 2 ^ k))) = Some t' \<and>
      tree_of H ls t'"
  using assms(1,4,5)
proof (induction "clog (length ls) - k" arbitrary: k t rule: less_induct)
  case less
  let ?L = "length ls" and ?n = "tree_nodes (length ls)" and ?m = "(length ls - 1) div 2 ^ k"
  have "(k, ?m) \<noteq> (clog ?L, 0)" using less.prems(3) by simp
  from complete_parent_step [OF less.prems(2) assms(2) this] obtain k' m' where
    k': "k \<le> k'" "Suc k' \<le> clog ?L" and inp: "node (Suc k') m' < ?n"
    and m': "m' = ?m div 2 ^ (Suc k' - k)"
    and cp: "complete_parent (of_nat (node k ?m)) (of_nat ?n) = Some (of_nat (node (Suc k') m'))"
    and child: "(k, ?m) = (k', 2 * m') \<or> (k, ?m) = (right_level ?L k' m', right_pos ?L k' m')"
    and gap: "\<And>i. k < i \<Longrightarrow> i \<le> k' \<Longrightarrow> \<not> node i (?m div 2 ^ (i - k)) < ?n" by blast
  have dd: "?m div 2 ^ (i - k) = (?L - 1) div 2 ^ i" if "k \<le> i" for i
    using that by (simp flip: div_mult2_eq power_add)
  have m'': "m' = (?L - 1) div 2 ^ Suc k'" using dd [of "Suc k'"] k' m' by simp
  have "(2 * m' + 1) * 2 ^ k' \<le> ?L - 1" using inp unfolding branch_in_tree by simp
  then have "2 * m' + 1 \<le> (?L - 1) div 2 ^ k'"
    by (simp only: le_div_pow)
  with child have right: "k = right_level ?L k' m'" by auto
  define t' where "t' = put_node t (node (Suc k') m') (MTH H (seg ls (Suc k') m'))"
  have gap': "\<not> node i ((?L - 1) div 2 ^ i) < ?n" if "k < i" "i \<le> k'" for i
    using gap [OF that] dd [of i] that by simp
  note step = rehash_step [OF less.prems(1) inp m'' _ k'(1) gap' len, folded t'_def]
  have c62: "clog ?L \<le> 62" by (rule clog_le [OF assms(2)])
  have bound: "node (Suc k') m' < 2 ^ 64" "node (clog ?L) 0 < 2 ^ 64"
    using inp root_in_tree [OF assms(3)] tree_nodes_bound [OF assms(2)] by simp_all
  have eq: "rehash_ancestors H (of_nat ?n) (of_nat (node (clog ?L) 0)) t (of_nat (node k ?m)) =
      (if node (Suc k') m' = node (clog ?L) 0 then Some t'
       else rehash_ancestors H (of_nat ?n) (of_nat (node (clog ?L) 0)) t' (of_nat (node (Suc k') m')))"
    using cp right step(1,2) k' c62 bound inp assms(2)
    by (subst rehash_ancestors.simps)
      (simp add: complete_left_child_def perfect_left_child_node complete_right_child_node
        of_nat_eq_iff_word)
  have up: "right_up_to H ls t' (Suc k')" using step(3) right by simp
  show ?case
  proof (cases "Suc k' = clog ?L")
    case True
    have "m' < 2 ^ (clog ?L - Suc k')" by (rule node_in_tree_level(2) [OF inp])
    with True have "node (Suc k') m' = node (clog ?L) 0" by simp
    with eq up True show ?thesis using right_up_to_root by auto
  next
    case False
    then have "Suc k' < clog ?L" using k' by simp
    moreover have "clog ?L - Suc k' < clog ?L - k" using k' by simp
    ultimately obtain t'' where "rehash_ancestors H (of_nat ?n) (of_nat (node (clog ?L) 0)) t'
        (of_nat (node (Suc k') m')) = Some t''" "tree_of H ls t''"
      using less.hyps [of "Suc k'" t'] up inp unfolding m'' by blast
    with eq False show ?thesis by (auto simp: node_inject)
  qed
qed

section \<open>Push\<close>

lemma tree_of_empty: "tree_of H [] t \<longleftrightarrow> nodes t = []"
  by (auto simp: tree_of_def buffer_def tree_nodes_def)

lemma push_eq: "push H t x = drop_builder H \<lparr>lb_tree = t, lb_hasher = Some (0 # x)\<rparr>"
  by (simp add: push_def build_leaf_def builder_write_def init_leaf_hasher_def)

lemma push_single:
  assumes "tree_of H [] t" "\<And>x. length (H x) = 32"
  shows "\<exists>t'. push H t x = Some t' \<and> tree_of H [x] t'"
proof -
  let ?t' = "t\<lparr>nodes := hash_leaf H x\<rparr>"
  have "push H t x = Some ?t'"
    using assms(1)
    by (simp add: push_eq drop_builder_def tree_of_empty tree_is_empty_def hash_leaf_def
        init_leaf_hasher_def)
  moreover have "tree_of H [x] ?t'"
    unfolding tree_of_def
  proof (intro conjI allI impI)
    show "buffer ?t' (tree_nodes (length [x]))"
      using assms(2) by (simp add: buffer_def hash_leaf_def tree_nodes_def)
    fix k m assume "node k m < tree_nodes (length [x])"
    then have "node k m = node 0 0" by (simp add: tree_nodes_def node_0)
    then have "k = 0" "m = 0" by (simp_all only: node_inject)
    then show "node_at ?t' (node k m) = MTH H (seg [x] k m)"
      using assms(2) by (simp add: node_at_def hash_leaf_def MTH_single node_0)
  qed
  ultimately show ?thesis by blast
qed

text \<open>The buffer after the two zeroed nodes are appended and the new leaf is written.\<close>

definition append_leaf :: "hash_fun \<Rightarrow> tree \<Rightarrow> nat \<Rightarrow> bytes \<Rightarrow> tree" where
  "append_leaf H t n x =
     put_node (t\<lparr>nodes := nodes t @ replicate 64 0\<rparr>) (node 0 n) (hash_leaf H x)"

lemma new_node_ancestor:
  assumes "tree_nodes L \<le> node j m" "node j m < tree_nodes (Suc L)" "0 < L"
  shows "m = L div 2 ^ j"
proof -
  have "node j m = 2 * L - 1 \<or> node j m = 2 * L"
    using assms unfolding tree_nodes_def by arith
  then show ?thesis
  proof
    assume "node j m = 2 * L"
    then have "node j m = node 0 L" by (simp only: node_0)
    then show ?thesis by (simp add: node_inject)
  next
    assume odd: "node j m = 2 * L - 1"
    have "j \<noteq> 0"
    proof
      assume "j = 0"
      with odd have "2 * m = 2 * L - 1" by (simp only: node_0)
      with \<open>0 < L\<close> show False by presburger
    qed
    then obtain i where i: "j = Suc i" by (cases j) auto
    then have "L = m * 2 ^ Suc i + 2 ^ i" using odd \<open>0 < L\<close> unfolding i node_Suc by simp
    then show ?thesis unfolding i by simp
  qed
qed

lemma append_buffer:
  assumes "buffer t (tree_nodes L)" "0 < L" "64 * Suc L \<le> 2 ^ 63"
  shows "buffer (t\<lparr>nodes := nodes t @ replicate 64 0\<rparr>) (tree_nodes (Suc L))"
proof -
  have n: "tree_nodes (Suc L) = tree_nodes L + 2" using assms(2) by (simp add: tree_nodes_def)
  have "32 * tree_nodes (Suc L) < 2 ^ 63" using assms(3) by (simp add: tree_nodes_def)
  with assms(1) show ?thesis unfolding buffer_def n by simp
qed

lemma append_leaf_right:
  assumes t: "tree_of H ls t" and pos: "0 < length ls" and bound: "64 * Suc (length ls) \<le> 2 ^ 63"
    and hl: "length (hash_leaf H x) = 32"
  shows "right_up_to H (ls @ [x]) (append_leaf H t (length ls) x) 0"
proof -
  let ?L = "length ls" and ?n = "tree_nodes (Suc (length ls))"
  let ?t1 = "t\<lparr>nodes := nodes t @ replicate 64 0\<rparr>" and ?t2 = "append_leaf H t (length ls) x"
  have buf: "buffer t (tree_nodes ?L)" using t by (simp add: tree_of_def)
  have buf1: "buffer ?t1 ?n" by (rule append_buffer [OF buf pos bound])
  have last: "node 0 ?L < ?n" by (simp add: node_0_in_tree)
  have at2: "node_at ?t2 i = (if i = node 0 ?L then hash_leaf H x else node_at ?t1 i)" if "i < ?n" for i
    unfolding append_leaf_def by (rule node_at_put_node [OF buf1 last that hl])
  have "node_at ?t2 (node j m) = MTH H (seg (ls @ [x]) j m)"
    if in_t: "node j m < ?n" and j: "j \<le> 0 \<or> m \<noteq> ?L div 2 ^ j" for j m
  proof (cases "(j, m) = (0, ?L)")
    case True
    with at2 [OF in_t] show ?thesis by (simp add: MTH_single)
  next
    case False
    then have ne: "m \<noteq> ?L div 2 ^ j" using j by auto
    then have old: "node j m < tree_nodes ?L"
      using new_node_ancestor [OF _ in_t pos] by linarith
    have eq: "seg (ls @ [x]) j m = seg ls j m"
      using ne node_in_tree_start [OF in_t] by (intro seg_append) auto
    have "node_at ?t2 (node j m) = node_at ?t1 (node j m)"
      using at2 [OF in_t] False by (auto simp: node_inject)
    also have "\<dots> = node_at t (node j m)" using old buf by (simp add: node_at_def buffer_def)
    also have "\<dots> = MTH H (seg ls j m)" using t old by (simp add: tree_of_def)
    finally show ?thesis unfolding eq .
  qed
  moreover have "buffer ?t2 ?n"
    unfolding append_leaf_def by (rule buffer_put_node [OF buf1 last hl])
  ultimately show ?thesis by (simp add: right_up_to_def)
qed

lemma push_unfold:
  assumes buf: "buffer t (tree_nodes L)" and pos: "0 < L" and bound: "64 * Suc L \<le> 2 ^ 63"
    and hl: "length (hash_leaf H x) = 32"
  shows "push H t x =
    rehash_ancestors H (of_nat (tree_nodes (Suc L))) (of_nat (node (clog (Suc L)) 0))
      (append_leaf H t L x) (of_nat (node 0 L))"
proof -
  let ?n = "tree_nodes (Suc L)" and ?t1 = "t\<lparr>nodes := nodes t @ replicate 64 0\<rparr>"
  have buf1: "buffer ?t1 ?n" by (rule append_buffer [OF buf pos bound])
  have last: "node 0 L < ?n" by (simp add: node_0_in_tree)
  have L62: "Suc L \<le> 2 ^ 62" using bound by simp
  have buf2: "buffer (append_leaf H t L x) ?n"
    unfolding append_leaf_def by (rule buffer_put_node [OF buf1 last hl])
  have "tree_nodes L \<noteq> 0" using root_in_tree [OF pos] by simp
  then have ne: "nodes t \<noteq> []" using buf by (auto simp: buffer_def)
  have last': "?n - 1 = node 0 L" using pos by (simp add: tree_nodes_def node_0)
  have "?n < 2 ^ 64" using tree_nodes_bound [OF L62] by simp
  then have idx: "checked_sub (of_nat ?n) 1 = Some (of_nat (node 0 L) :: usize)"
    using checked_sub_of_nat [of 1 ?n, where 'a = 64] last unfolding last' by simp
  have "set_node ?t1 (of_nat (node 0 L)) (hash_leaf H x) = Some (append_leaf H t L x)"
    unfolding append_leaf_def by (rule set_node_buffer [OF buf1 last hl])
  moreover have "complete_root (tree_len (append_leaf H t L x)) = Some (of_nat (node (clog (Suc L)) 0))"
    using complete_root_eq [OF _ L62] unfolding tree_len_buffer [OF buf2] by simp
  ultimately show ?thesis
    using idx ne tree_len_buffer [OF buf1]
    by (simp add: push_eq drop_builder_def tree_is_empty_def hash_leaf_def init_leaf_hasher_def
        Let_def)
qed

lemma push_correct:
  assumes "tree_of H ls t" and len: "\<And>x. length (H x) = 32"
    and bound: "64 * Suc (length ls) \<le> 2 ^ 63"
  shows "\<exists>t'. push H t x = Some t' \<and> tree_of H (ls @ [x]) t'"
proof (cases "ls = []")
  case True
  with push_single [OF _ len] assms(1) show ?thesis by simp
next
  case False
  then have pos: "0 < length ls" by simp
  have hl: "length (hash_leaf H x) = 32" using len by (simp add: hash_leaf_def)
  have L62: "length (ls @ [x]) \<le> 2 ^ 62" using bound by simp
  have "2 \<le> Suc (length ls)" using pos by (simp add: Suc_le_eq)
  then have c0: "0 < clog (length (ls @ [x]))"
    using clog_ge [of "Suc (length ls)"] by (cases "clog (Suc (length ls))") auto
  have "buffer t (tree_nodes (length ls))" using assms(1) by (simp add: tree_of_def)
  from push_unfold [OF this pos bound hl] show ?thesis
    using rehash_ancestors_correct [OF append_leaf_right [OF assms(1) pos bound hl] L62 _ _ c0 len]
    by (simp add: node_0_in_tree)
qed

lemma push_all_correct:
  assumes "tree_of H ls t" and len: "\<And>x. length (H x) = 32"
    and "64 * (length ls + length xs) \<le> 2 ^ 63"
  shows "\<exists>t'. push_all H t xs = Some t' \<and> tree_of H (ls @ xs) t'"
  using assms(1,3)
proof (induction xs arbitrary: ls t)
  case Nil
  then show ?case by simp
next
  case (Cons x xs)
  from push_correct [OF Cons.prems(1) len] Cons.prems(2) obtain t1 where
    t1: "push H t x = Some t1" "tree_of H (ls @ [x]) t1" by fastforce
  with Cons.IH [OF t1(2)] Cons.prems(2) show ?case by auto
qed

lemma from_leaves_correct:
  assumes "\<And>x. length (H x) = 32" "64 * length xs \<le> 2 ^ 63"
  obtains t where "from_leaves H xs = Some t" "tree_of H xs t"
  using push_all_correct [of H "[]" new_tree xs] assms
  by (auto simp: from_leaves_def tree_of_empty new_tree_def)

lemma tree_of_bound: "tree_of H ls t \<Longrightarrow> length ls \<le> 2 ^ 62"
  by (auto simp: tree_of_def buffer_def tree_nodes_def)

lemma tree_root_correct:
  assumes "tree_of H ls t"
  shows "tree_root H t = Some (MTH H ls)"
proof (cases "ls = []")
  case True
  with assms show ?thesis by (simp add: tree_root_def tree_is_empty_def tree_of_empty MTH_Nil)
next
  case False
  then have pos: "0 < length ls" by simp
  have buf: "buffer t (tree_nodes (length ls))" using assms by (simp add: tree_of_def)
  moreover have "tree_nodes (length ls) \<noteq> 0" using root_in_tree [OF pos] by simp
  ultimately have "nodes t \<noteq> []" by (auto simp: buffer_def)
  moreover have "get_node t (of_nat (node (clog (length ls)) 0)) = Some (MTH H ls)"
    using get_node_buffer [OF buf root_in_tree [OF pos]] assms root_in_tree [OF pos]
      seg_root [OF pos] by (simp add: tree_of_def)
  ultimately show ?thesis
    using complete_root_eq [OF pos tree_of_bound [OF assms]]
    by (simp add: tree_root_def tree_is_empty_def tree_len_buffer [OF buf])
qed

end
