(* ===== verification/Merkle_Audit.thy ===== *)
theory Merkle_Audit
  imports Merkle_Push
begin

text \<open>
  Inclusion proofs (\<^verbatim>\<open>crates/astria-merkle/src/audit.rs\<close>): building a proof from untrusted parts,
  walking an audit path, and the audit itself. The type-state builder \<open>Audit\<close> is the record
  \<open>audit\<close>; the states \<open>NoLeafHash\<close> and \<open>NoRoot\<close> are \<open>None\<close>. \<open>None\<close> as a result is a panic.

  The lemmas show that the proof the tree constructs is RFC 6962's audit path and reconstructs the
  root, that a proof binds the leaf to the root, and what an audit path that is too long does.
\<close>

section \<open>The model\<close>

datatype invalid_proof =
    AuditPathNotMultipleOf32 nat
  | LeafIndexOutsideTree usize usize
  | ZeroTreeSize

record unchecked_proof =
  u_audit_path :: bytes
  u_leaf_index :: usize
  u_tree_size :: usize

definition try_into_proof :: "unchecked_proof \<Rightarrow> (invalid_proof + merkle_proof) option" where
  "try_into_proof u =
     (if u_tree_size u = 0 then Some (Inl ZeroTreeSize)
      else do {
        inside \<leftarrow> is_leaf_index_in_tree (u_leaf_index u) (u_tree_size u);
        if \<not> inside then Some (Inl (LeafIndexOutsideTree (u_leaf_index u) (u_tree_size u)))
        else if length (u_audit_path u) mod 32 \<noteq> 0
        then Some (Inl (AuditPathNotMultipleOf32 (length (u_audit_path u))))
        else Some (Inr \<lparr>audit_path = u_audit_path u, leaf_index = u_leaf_index u,
                        tree_size = u_tree_size u\<rparr>)
      })"

definition into_unchecked :: "merkle_proof \<Rightarrow> unchecked_proof" where
  "into_unchecked p =
     \<lparr>u_audit_path = audit_path p, u_leaf_index = leaf_index p, u_tree_size = tree_size p\<rparr>"

text \<open>\<open>slice::chunks(32)\<close>: the last chunk may be shorter.\<close>

fun chunks32 :: "bytes \<Rightarrow> bytes list" where
  "chunks32 bs = (if bs = [] then [] else take 32 bs # chunks32 (drop 32 bs))"

declare chunks32.simps [simp del]

fun walk_path :: "hash_fun \<Rightarrow> usize \<Rightarrow> bytes list \<Rightarrow> usize \<Rightarrow> bytes \<Rightarrow> bytes option" where
  "walk_path H n [] i acc = Some acc"
| "walk_path H n (sibling # path) i acc = do {
     parent \<leftarrow> complete_parent i n;
     walk_path H n path parent
       (if parent > i then combine H acc sibling else combine H sibling acc)
   }"

definition reconstruct_root_with_leaf_hash ::
  "hash_fun \<Rightarrow> merkle_proof \<Rightarrow> bytes \<Rightarrow> bytes option" where
  "reconstruct_root_with_leaf_hash H p leaf_hash = do {
     i \<leftarrow> leaf_index_to_tree_index (leaf_index p);
     walk_path H (tree_size p) (chunks32 (audit_path p)) i leaf_hash
   }"

record audit =
  a_leaf_hash :: "bytes option"
  a_proof :: merkle_proof
  a_root :: "bytes option"

definition new_audit :: "merkle_proof \<Rightarrow> audit" where
  "new_audit p = \<lparr>a_leaf_hash = None, a_proof = p, a_root = None\<rparr>"

definition with_leaf_hash :: "audit \<Rightarrow> bytes \<Rightarrow> audit" where
  "with_leaf_hash a h = a\<lparr>a_leaf_hash := Some h\<rparr>"

definition with_leaf :: "hash_fun \<Rightarrow> audit \<Rightarrow> bytes \<Rightarrow> audit" where
  "with_leaf H a leaf = with_leaf_hash a (hash_leaf H leaf)"

text \<open>The leaf of an audit can also be written in parts.\<close>

record audit_leaf_builder =
  alb_audit :: audit
  alb_hasher :: bytes

definition with_leaf_builder :: "audit \<Rightarrow> audit_leaf_builder" where
  "with_leaf_builder a = \<lparr>alb_audit = a, alb_hasher = init_leaf_hasher\<rparr>"

definition write_leaf :: "audit_leaf_builder \<Rightarrow> bytes \<Rightarrow> audit_leaf_builder" where
  "write_leaf b bs = b\<lparr>alb_hasher := alb_hasher b @ bs\<rparr>"

definition finish_leaf :: "hash_fun \<Rightarrow> audit_leaf_builder \<Rightarrow> audit" where
  "finish_leaf H b = with_leaf_hash (alb_audit b) (H (alb_hasher b))"

definition with_root :: "audit \<Rightarrow> bytes \<Rightarrow> audit" where
  "with_root a r = a\<lparr>a_root := Some r\<rparr>"

text \<open>\<open>Audit::perform\<close> exists only once the leaf hash and the root are set.\<close>

definition perform :: "hash_fun \<Rightarrow> audit \<Rightarrow> bool option" where
  "perform H a = do {
     leaf_hash \<leftarrow> a_leaf_hash a;
     root \<leftarrow> a_root a;
     r \<leftarrow> reconstruct_root_with_leaf_hash H (a_proof a) leaf_hash;
     Some (root = r)
   }"

definition verify :: "hash_fun \<Rightarrow> merkle_proof \<Rightarrow> bytes \<Rightarrow> bytes \<Rightarrow> bool option" where
  "verify H p leaf root_hash = perform H (with_root (with_leaf H (new_audit p) leaf) root_hash)"

definition reconstruct_root_with_leaf :: "hash_fun \<Rightarrow> merkle_proof \<Rightarrow> bytes \<Rightarrow> bytes option" where
  "reconstruct_root_with_leaf H p leaf = reconstruct_root_with_leaf_hash H p (hash_leaf H leaf)"

lemma verify_eq:
  "verify H p leaf root = do {
     r \<leftarrow> reconstruct_root_with_leaf_hash H p (hash_leaf H leaf);
     Some (root = r)
   }"
  by (simp add: verify_def perform_def with_root_def with_leaf_def with_leaf_hash_def new_audit_def)

section \<open>The chunks of a path\<close>

lemma chunks32_Nil [simp]: "chunks32 [] = []"
  by (simp add: chunks32.simps)

lemma chunks32_append: "length x = 32 \<Longrightarrow> chunks32 (x @ ys) = x # chunks32 ys"
  by (subst chunks32.simps) auto

lemma chunks32_concat: "(\<forall>x\<in>set xs. length x = 32) \<Longrightarrow> chunks32 (concat xs) = xs"
  by (induction xs) (auto simp: chunks32_append)

lemma leaf_index_node:
  "i < L \<Longrightarrow> L \<le> 2 ^ 62 \<Longrightarrow> leaf_index_to_tree_index (of_nat i) = Some (of_nat (node 0 i))"
  using checked_mul_of_nat [of i 2, where 'a = 64]
  by (simp add: leaf_index_to_tree_index_def node_0 mult.commute)

lemma leaf_index_in_tree_node:
  assumes "i < L" "L \<le> 2 ^ 62"
  shows "is_leaf_index_in_tree (of_nat i) (of_nat (tree_nodes L)) = Some True"
  using assms tree_nodes_bound [OF assms(2)] node_0_in_tree [of i L] leaf_index_node [OF assms]
  by (simp add: is_leaf_index_in_tree_def is_tree_index_in_tree_def of_nat_less_iff_word)

section \<open>The constructed proof\<close>

text \<open>
  From the node at level \<open>k\<close>, position \<open>m\<close> up to the root: the siblings the loop collects, as a
  list, and the walk over them.
\<close>

lemma sibling_step:
  assumes t: "tree_of H ls t" and in_t: "node k m < tree_nodes (length ls)"
    and ne: "(k, m) \<noteq> (clog (length ls), 0)"
  obtains k' m' s where "k \<le> k'" "Suc k' \<le> clog (length ls)"
    and "node (Suc k') m' < tree_nodes (length ls)"
    and "complete_parent (of_nat (node k m)) (of_nat (tree_nodes (length ls))) =
      Some (of_nat (node (Suc k') m'))"
    and "complete_parent_and_sibling (of_nat (node k m)) (of_nat (tree_nodes (length ls))) =
      Some (of_nat (node (Suc k') m'), of_nat s)"
    and "s < tree_nodes (length ls)"
    and "(node k m < node (Suc k') m' \<and> seg ls k m = seg ls k' (2 * m') \<and>
            m * 2 ^ k = 2 * m' * 2 ^ k' \<and>
            node_at t s = MTH H (seg ls k' (2 * m' + 1))) \<or>
         (node (Suc k') m' < node k m \<and> seg ls k m = seg ls k' (2 * m' + 1) \<and>
            m * 2 ^ k = (2 * m' + 1) * 2 ^ k' \<and>
            node_at t s = MTH H (seg ls k' (2 * m')))"
proof -
  let ?L = "length ls" and ?n = "tree_nodes (length ls)"
  have L: "?L \<le> 2 ^ 62" by (rule tree_of_bound [OF t])
  from complete_parent_step [OF in_t L ne] obtain k' m' where
    k': "k \<le> k'" "Suc k' \<le> clog ?L" and inp: "node (Suc k') m' < ?n"
    and cp: "complete_parent (of_nat (node k m)) (of_nat ?n) = Some (of_nat (node (Suc k') m'))"
    and child: "(k, m) = (k', 2 * m') \<or> (k, m) = (right_level ?L k' m', right_pos ?L k' m')"
    by metis
  let ?p = "node (Suc k') m'"
  have n64: "?n < 2 ^ 64" using tree_nodes_bound [OF L] by simp
  then have b: "node k m < 2 ^ 64" "?p < 2 ^ 64" using in_t inp by simp_all
  have lvl: "Suc k' < 64" using k' clog_le [OF L] by simp
  have val: "node_at t (node j i) = MTH H (seg ls j i)" if "node j i < ?n" for j i
    using t that by (simp add: tree_of_def)
  from child show ?thesis
  proof
    assume left: "(k, m) = (k', 2 * m')"
    let ?s = "node (right_level ?L k' m') (right_pos ?L k' m')"
    have lt: "node k m < ?p" using left unfolding node_left_index by simp
    have "complete_parent_and_sibling (of_nat (node k m)) (of_nat ?n) = Some (of_nat ?p, of_nat ?s)"
      using lt b n64 in_t cp complete_right_child_node [OF inp L]
      by (simp add: complete_parent_and_sibling_def of_nat_less_iff_word)
    moreover have "?s < ?n" by (rule right_node_in_tree [OF inp])
    moreover have "node_at t ?s = MTH H (seg ls k' (2 * m' + 1))"
      using val [OF calculation(2)] seg_right [OF inp] by simp
    moreover have "m * 2 ^ k = 2 * m' * 2 ^ k'" "seg ls k m = seg ls k' (2 * m')" using left by simp_all
    ultimately show ?thesis using that k' inp cp lt by blast
  next
    assume right: "(k, m) = (right_level ?L k' m', right_pos ?L k' m')"
    let ?s = "node k' (2 * m')"
    have lt: "?p < node k m" using right_node_index [OF inp] right by simp
    have "complete_parent_and_sibling (of_nat (node k m)) (of_nat ?n) = Some (of_nat ?p, of_nat ?s)"
      using lt b n64 in_t cp lvl
      by (simp add: complete_parent_and_sibling_def of_nat_less_iff_word complete_left_child_def
          perfect_left_child_node)
    moreover have s: "?s < ?n" using inp unfolding node_left_index by simp
    moreover have "seg ls k m = seg ls k' (2 * m' + 1)" using seg_right [OF inp] right by simp
    moreover have "m * 2 ^ k = (2 * m' + 1) * 2 ^ k'" using right_pos_start [of ?L k' m'] right by simp
    ultimately show ?thesis using that k' inp cp lt val [OF s] by blast
  qed
qed

text \<open>RFC 6962's path inside a branch: the path inside the child that holds the leaf, and its sibling.\<close>

lemma PATH_branch:
  assumes in_t: "node (Suc k) m < tree_nodes (length ls)"
    and i: "m * 2 ^ Suc k \<le> i"
  shows "i < (2 * m + 1) * 2 ^ k \<Longrightarrow> PATH H (i - m * 2 ^ Suc k) (seg ls (Suc k) m) =
      PATH H (i - 2 * m * 2 ^ k) (seg ls k (2 * m)) @ [MTH H (seg ls k (2 * m + 1))]"
    and "(2 * m + 1) * 2 ^ k \<le> i \<Longrightarrow> PATH H (i - m * 2 ^ Suc k) (seg ls (Suc k) m) =
      PATH H (i - (2 * m + 1) * 2 ^ k) (seg ls k (2 * m + 1)) @ [MTH H (seg ls k (2 * m))]"
proof -
  have lt: "(2 * m + 1) * 2 ^ k < length ls" using in_t by (simp only: branch_in_tree)
  have start: "m * 2 ^ Suc k = 2 * m * 2 ^ k" by simp
  then have start': "i - m * 2 ^ Suc k = i - 2 * m * 2 ^ k" by (simp only:)
  have p: "0 < (2::nat) ^ k" by simp
  have len: "2 ^ k < length (seg ls (Suc k) m)" "length (seg ls (Suc k) m) \<le> 2 ^ Suc k"
    using lt by (simp_all add: algebra_simps)
  have sp: "split_point (length (seg ls (Suc k) m)) = 2 ^ k" by (rule split_point_pow [OF len])
  have l1: "\<not> length (seg ls (Suc k) m) \<le> 1" using len p by linarith
  have tk: "take (2 ^ k) (seg ls (Suc k) m) = seg ls k (2 * m)"
    unfolding start by (simp add: min_def)
  have dr: "drop (2 ^ k) (seg ls (Suc k) m) = seg ls k (2 * m + 1)"
    unfolding start by (simp add: drop_take algebra_simps)
  have eq: "PATH H (i - 2 * m * 2 ^ k) (seg ls (Suc k) m) =
      (if i - 2 * m * 2 ^ k < 2 ^ k
       then PATH H (i - 2 * m * 2 ^ k) (seg ls k (2 * m)) @ [MTH H (seg ls k (2 * m + 1))]
       else PATH H (i - 2 * m * 2 ^ k - 2 ^ k) (seg ls k (2 * m + 1)) @ [MTH H (seg ls k (2 * m))])"
    by (subst PATH.simps) (simp only: l1 sp tk dr Let_def if_False)
  have d: "(2 * m + 1) * 2 ^ k = 2 * m * 2 ^ k + 2 ^ k" by simp
  show "PATH H (i - m * 2 ^ Suc k) (seg ls (Suc k) m) =
      PATH H (i - 2 * m * 2 ^ k) (seg ls k (2 * m)) @ [MTH H (seg ls k (2 * m + 1))]"
    if "i < (2 * m + 1) * 2 ^ k"
  proof -
    have "i - 2 * m * 2 ^ k < 2 ^ k" using that i unfolding d start by linarith
    with eq show ?thesis by (simp only: start' if_True)
  qed
  show "PATH H (i - m * 2 ^ Suc k) (seg ls (Suc k) m) =
      PATH H (i - (2 * m + 1) * 2 ^ k) (seg ls k (2 * m + 1)) @ [MTH H (seg ls k (2 * m))]"
    if "(2 * m + 1) * 2 ^ k \<le> i"
  proof -
    have "\<not> i - 2 * m * 2 ^ k < 2 ^ k" "i - 2 * m * 2 ^ k - 2 ^ k = i - (2 * m + 1) * 2 ^ k"
      using that unfolding d by linarith+
    with eq show ?thesis by (simp only: start' if_False)
  qed
qed

lemma proof_path_correct:
  assumes t: "tree_of H ls t" and len: "\<And>x. length (H x) = 32"
    and "node k m < tree_nodes (length ls)"
  shows "\<exists>path. (\<forall>acc. proof_path t (of_nat (tree_nodes (length ls)))
        (of_nat (node (clog (length ls)) 0)) (of_nat (node k m)) acc = Some (acc @ concat path)) \<and>
      (\<forall>x\<in>set path. length x = 32) \<and>
      walk_path H (of_nat (tree_nodes (length ls))) path (of_nat (node k m)) (MTH H (seg ls k m)) =
        Some (MTH H ls) \<and>
      (\<forall>i. m * 2 ^ k \<le> i \<longrightarrow> i < m * 2 ^ k + length (seg ls k m) \<longrightarrow>
        PATH H i ls = PATH H (i - m * 2 ^ k) (seg ls k m) @ path)"
  using assms(3)
proof (induction "clog (length ls) - k" arbitrary: k m rule: less_induct)
  case less
  let ?L = "length ls" and ?n = "tree_nodes (length ls)" and ?r = "node (clog (length ls)) 0"
  have L: "?L \<le> 2 ^ 62" by (rule tree_of_bound [OF t])
  have pos: "0 < ?L" using node_in_tree_start [OF less.prems] by linarith
  have n64: "?n < 2 ^ 64" "?r < 2 ^ 64"
    using tree_nodes_bound [OF L] root_in_tree [OF pos] by simp_all
  have buf: "buffer t ?n" using t by (simp add: tree_of_def)
  show ?case
  proof (cases "(k, m) = (clog ?L, 0)")
    case True
    then show ?thesis using seg_root [OF pos]
      by (intro exI [of _ "[]"]) (simp add: proof_path.simps)
  next
    case False
    from sibling_step [OF t less.prems False] obtain k' m' s where
      k': "k \<le> k'" "Suc k' \<le> clog ?L" and inp: "node (Suc k') m' < ?n"
      and cp: "complete_parent (of_nat (node k m)) (of_nat ?n) = Some (of_nat (node (Suc k') m'))"
      and cs: "complete_parent_and_sibling (of_nat (node k m)) (of_nat ?n) =
        Some (of_nat (node (Suc k') m'), of_nat s)" and s: "s < ?n"
      and side: "(node k m < node (Suc k') m' \<and> seg ls k m = seg ls k' (2 * m') \<and>
            m * 2 ^ k = 2 * m' * 2 ^ k' \<and>
            node_at t s = MTH H (seg ls k' (2 * m' + 1))) \<or>
         (node (Suc k') m' < node k m \<and> seg ls k m = seg ls k' (2 * m' + 1) \<and>
            m * 2 ^ k = (2 * m' + 1) * 2 ^ k' \<and>
            node_at t s = MTH H (seg ls k' (2 * m')))" by blast
    have "clog ?L - Suc k' < clog ?L - k" using k' by simp
    from less.hyps [OF this inp] obtain path where
      IH: "\<forall>acc. proof_path t (of_nat ?n) (of_nat ?r) (of_nat (node (Suc k') m')) acc =
          Some (acc @ concat path)" "\<forall>x\<in>set path. length x = 32"
        "walk_path H (of_nat ?n) path (of_nat (node (Suc k') m')) (MTH H (seg ls (Suc k') m')) =
          Some (MTH H ls)"
        "\<forall>i. m' * 2 ^ Suc k' \<le> i \<longrightarrow> i < m' * 2 ^ Suc k' + length (seg ls (Suc k') m') \<longrightarrow>
          PATH H i ls = PATH H (i - m' * 2 ^ Suc k') (seg ls (Suc k') m') @ path" by blast
    have ne: "(of_nat (node k m) :: usize) \<noteq> of_nat ?r"
      using False less.prems n64 by (simp add: of_nat_eq_iff_word node_inject)
    have "proof_path t (of_nat ?n) (of_nat ?r) (of_nat (node k m)) acc =
        Some (acc @ concat (node_at t s # path))" for acc
      using ne cs get_node_buffer [OF buf s] IH(1) by (subst proof_path.simps) simp
    moreover have "length (node_at t s) = 32" using side MTH_length [of H, OF len] by auto
    moreover have "walk_path H (of_nat ?n) (node_at t s # path) (of_nat (node k m))
        (MTH H (seg ls k m)) = Some (MTH H ls)"
    proof -
      have "of_nat (node k m) < (of_nat (node (Suc k') m') :: usize) \<longleftrightarrow> node k m < node (Suc k') m'"
        using inp less.prems n64 by (simp add: of_nat_less_iff_word)
      then have "(if of_nat (node (Suc k') m') > (of_nat (node k m) :: usize)
          then combine H (MTH H (seg ls k m)) (node_at t s)
          else combine H (node_at t s) (MTH H (seg ls k m))) = MTH H (seg ls (Suc k') m')"
        using side unfolding seg_branch [OF inp] by auto
      then show ?thesis using cp IH(3) by simp
    qed
    moreover have "PATH H i ls = PATH H (i - m * 2 ^ k) (seg ls k m) @ (node_at t s # path)"
      if i: "m * 2 ^ k \<le> i" "i < m * 2 ^ k + length (seg ls k m)" for i
    proof -
      have iL: "i < length ls" using i by simp
      have d: "m' * 2 ^ Suc k' = 2 * m' * 2 ^ k'" "(2 * m' + 1) * 2 ^ k' = 2 * m' * 2 ^ k' + 2 ^ k'"
        by simp_all
      have len': "length (seg ls k' j) \<le> 2 ^ k'" for j by simp
      have sl: "length (seg ls k m) \<le> 2 ^ k'"
        using side len' [of "2 * m'"] len' [of "2 * m' + 1"] by (elim disjE conjE) (simp only:)+
      have r: "m' * 2 ^ Suc k' \<le> i" "i < m' * 2 ^ Suc k' + 2 ^ Suc k'"
        using side i sl unfolding d power_Suc by (elim disjE conjE; linarith)+
      then have P: "PATH H i ls = PATH H (i - m' * 2 ^ Suc k') (seg ls (Suc k') m') @ path"
        using IH(4) iL by simp
      from side show ?thesis
      proof (elim disjE conjE)
        assume l: "seg ls k m = seg ls k' (2 * m')" "m * 2 ^ k = 2 * m' * 2 ^ k'"
          "node_at t s = MTH H (seg ls k' (2 * m' + 1))"
        have "i < (2 * m' + 1) * 2 ^ k'" using i sl unfolding l(2) d by linarith
        from PATH_branch(1) [OF inp r(1) this, of H] show ?thesis
          by (subst l(1), subst l(2), subst l(3), subst P)
            (simp only: append.assoc append_Cons append_Nil)
      next
        assume l: "seg ls k m = seg ls k' (2 * m' + 1)" "m * 2 ^ k = (2 * m' + 1) * 2 ^ k'"
          "node_at t s = MTH H (seg ls k' (2 * m'))"
        have "(2 * m' + 1) * 2 ^ k' \<le> i" using i unfolding l(2) by linarith
        from PATH_branch(2) [OF inp r(1) this, of H] show ?thesis
          by (subst l(1), subst l(2), subst l(3), subst P)
            (simp only: append.assoc append_Cons append_Nil)
      qed
    qed
    ultimately show ?thesis using IH(2) by (intro exI [of _ "node_at t s # path"]) auto
  qed
qed

lemma construct_proof_correct:
  assumes t: "tree_of H ls t" and len: "\<And>x. length (H x) = 32" and i: "i < length ls"
  shows "\<exists>path. construct_proof t (of_nat i) = Some (Some
      \<lparr>audit_path = concat path, leaf_index = of_nat i,
       tree_size = of_nat (tree_nodes (length ls))\<rparr>) \<and>
     path = PATH H i ls \<and> (\<forall>x\<in>set path. length x = 32) \<and>
     walk_path H (of_nat (tree_nodes (length ls))) path (of_nat (node 0 i)) (hash_leaf H (ls ! i)) =
       Some (MTH H ls)"
proof -
  let ?n = "tree_nodes (length ls)"
  have L: "length ls \<le> 2 ^ 62" and pos: "0 < length ls" using tree_of_bound [OF t] i by linarith+
  have in_t: "node 0 i < ?n" using i by (simp add: node_0_in_tree)
  have n64: "?n < 2 ^ 63" by (rule tree_nodes_bound [OF L])
  have buf: "buffer t ?n" using t by (simp add: tree_of_def)
  have tl: "tree_len t = of_nat ?n" by (rule tree_len_buffer [OF buf])
  have n0: "(of_nat ?n :: usize) \<noteq> 0"
    using in_t n64 of_nat_eq_iff_word [of ?n 0, where 'a = 64] by simp
  have ti: "leaf_index_to_tree_index (of_nat i) = Some (of_nat (node 0 i))"
    by (rule leaf_index_node [OF i L])
  have inside: "is_leaf_in_tree t (of_nat i) = Some True"
    using leaf_index_in_tree_node [OF i L] by (simp add: is_leaf_in_tree_def tl)
  have sg: "seg ls 0 i = [ls ! i]" using i by (simp add: take_Suc_conv_app_nth Cons_nth_drop_Suc [symmetric])
  from proof_path_correct [OF t len in_t] obtain path where
    p: "proof_path t (of_nat ?n) (of_nat (node (clog (length ls)) 0)) (of_nat (node 0 i)) [] =
        Some (concat path)" "\<forall>x\<in>set path. length x = 32"
      "walk_path H (of_nat ?n) path (of_nat (node 0 i)) (hash_leaf H (ls ! i)) = Some (MTH H ls)"
      "PATH H i ls = PATH H 0 [ls ! i] @ path"
    using sg by (auto simp: MTH_single)
  have "construct_proof t (of_nat i) = Some (Some
      \<lparr>audit_path = concat path, leaf_index = of_nat i, tree_size = of_nat ?n\<rparr>)"
    using p(1) ti inside n0 complete_root_eq [OF pos L]
    by (simp add: construct_proof_def tl)
  then show ?thesis using p by (auto simp: PATH.simps)
qed

lemma reconstruct_concat:
  assumes "\<forall>x\<in>set path. length x = 32" "2 * i < 2 ^ 64"
  shows "reconstruct_root_with_leaf_hash H
      \<lparr>audit_path = concat path, leaf_index = of_nat i, tree_size = n\<rparr> h =
    walk_path H n path (of_nat (node 0 i)) h"
  using assms checked_mul_of_nat [of i 2, where 'a = 64]
  by (simp add: reconstruct_root_with_leaf_hash_def leaf_index_to_tree_index_def chunks32_concat
      node_0 mult.commute)

text \<open>The proof that a tree constructs passes the check of its parts and verifies its leaf.\<close>

lemma constructed_proof_accepted:
  assumes t: "tree_of H ls t" and len: "\<And>x. length (H x) = 32" and i: "i < length ls"
  obtains p where "construct_proof t (of_nat i) = Some (Some p)" "audit_path p = concat (PATH H i ls)"
    "try_into_proof (into_unchecked p) = Some (Inr p)" "verify H p (ls ! i) (MTH H ls) = Some True"
proof -
  let ?n = "tree_nodes (length ls)"
  from construct_proof_correct [OF t len i] obtain path where
    p: "construct_proof t (of_nat i) = Some (Some \<lparr>audit_path = concat path,
          leaf_index = of_nat i, tree_size = of_nat ?n\<rparr>)" "path = PATH H i ls"
      "\<forall>x\<in>set path. length x = 32"
      "walk_path H (of_nat ?n) path (of_nat (node 0 i)) (hash_leaf H (ls ! i)) = Some (MTH H ls)" by blast
  have L: "length ls \<le> 2 ^ 62" by (rule tree_of_bound [OF t])
  have "length (concat path) mod 32 = 0" using p(3) by (induction path) auto
  moreover have "(of_nat ?n :: usize) \<noteq> 0"
    using of_nat_eq_iff_word [of ?n 0, where 'a = 64] tree_nodes_bound [OF L] i by (simp add: tree_nodes_def)
  moreover have "2 * i < 2 ^ 64" using i L by simp
  ultimately show ?thesis
    using that [OF p(1)] p(2-4) leaf_index_in_tree_node [OF i L]
    by (simp add: try_into_proof_def into_unchecked_def verify_eq reconstruct_concat)
qed

text \<open>
  C1. The tree built from any list of leaves (up to the 2^57 leaves whose byte buffer \<open>usize\<close> offsets
  address) is built without a panic, and its root is the Merkle tree hash of RFC 6962.
\<close>

theorem from_leaves_root:
  assumes "\<And>x. length (H x) = 32" and "64 * length xs \<le> 2 ^ 63"
  shows "\<exists>t. from_leaves H xs = Some t \<and> tree_root H t = Some (MTH H xs)"
  using assms by (metis from_leaves_correct tree_root_correct)

theorem from_leaves_root_witness:
  "\<exists>t. from_leaves (\<lambda>x. take 32 (x @ replicate 32 0)) [[1], [2], [3]] = Some t \<and>
    tree_root (\<lambda>x. take 32 (x @ replicate 32 0)) t =
      Some (MTH (\<lambda>x. take 32 (x @ replicate 32 0)) [[1], [2], [3]])"
  by (rule from_leaves_root) simp_all

text \<open>
  C2. For every leaf of a tree, \<open>construct_proof\<close> returns a proof whose audit path is the one
  RFC 6962 defines, and the proof verifies the leaf against the root.
\<close>

theorem constructed_proof_verifies:
  assumes "\<And>x. length (H x) = 32" and "64 * length xs \<le> 2 ^ 63" and "i < length xs"
  shows "\<exists>t p. from_leaves H xs = Some t \<and> construct_proof t (of_nat i) = Some (Some p) \<and>
      chunks32 (audit_path p) = PATH H i xs \<and> verify H p (xs ! i) (MTH H xs) = Some True"
proof -
  obtain t where t: "from_leaves H xs = Some t" "tree_of H xs t"
    using from_leaves_correct assms(1,2) by metis
  have "2 * i < 2 ^ 64" using assms(2,3) by simp
  with t construct_proof_correct [OF t(2) assms(1,3)] show ?thesis
    by (auto simp: verify_eq reconstruct_concat chunks32_concat)
qed

theorem constructed_proof_verifies_witness:
  "\<exists>t p. from_leaves (\<lambda>x. take 32 (x @ replicate 32 0)) [[1], [2], [3]] = Some t \<and>
    construct_proof t (of_nat 2) = Some (Some p) \<and>
    chunks32 (audit_path p) = PATH (\<lambda>x. take 32 (x @ replicate 32 0)) 2 [[1], [2], [3]] \<and>
    verify (\<lambda>x. take 32 (x @ replicate 32 0)) p ([[1], [2], [3]] ! 2)
      (MTH (\<lambda>x. take 32 (x @ replicate 32 0)) [[1], [2], [3]]) = Some True"
  by (rule constructed_proof_verifies) simp_all

section \<open>What a proof binds\<close>

text \<open>
  The inputs the hash function is applied to: in the Merkle tree hash of the leaves, and in a walk
  over an audit path. Two distinct inputs among them with the same hash are a collision.
\<close>

function MTH_inputs :: "hash_fun \<Rightarrow> bytes list \<Rightarrow> bytes set" where
  "MTH_inputs H ds =
     (if ds = [] then {[]}
      else if length ds = 1 then {init_leaf_hasher @ hd ds}
      else let k = split_point (length ds) in
        insert ([0x01] @ MTH H (take k ds) @ MTH H (drop k ds))
          (MTH_inputs H (take k ds) \<union> MTH_inputs H (drop k ds)))"
  by pat_completeness auto
termination
proof (relation "measure (\<lambda>(H, ds). length ds)", goal_cases)
  case (2 H ds k)
  then have "1 < length ds" by (cases ds) auto
  with 2 split_point_bounds show ?case by simp
next
  case (3 H ds k)
  then have "1 < length ds" by (cases ds) auto
  with 3 split_point_bounds show ?case by simp
qed simp

declare MTH_inputs.simps [simp del]

fun walk_inputs :: "hash_fun \<Rightarrow> usize \<Rightarrow> bytes list \<Rightarrow> usize \<Rightarrow> bytes \<Rightarrow> bytes set" where
  "walk_inputs H n [] i acc = {}"
| "walk_inputs H n (sibling # path) i acc =
     (case complete_parent i n of
        None \<Rightarrow> {}
      | Some parent \<Rightarrow>
          let input = [0x01] @ (if parent > i then acc @ sibling else sibling @ acc) in
          insert input (walk_inputs H n path parent (H input)))"

definition audit_inputs :: "hash_fun \<Rightarrow> merkle_proof \<Rightarrow> bytes \<Rightarrow> bytes set" where
  "audit_inputs H p leaf = insert (init_leaf_hasher @ leaf)
     (case leaf_index_to_tree_index (leaf_index p) of
        None \<Rightarrow> {}
      | Some i \<Rightarrow> walk_inputs H (tree_size p) (chunks32 (audit_path p)) i (hash_leaf H leaf))"

lemma walk_path_snoc:
  assumes "walk_path H n (path @ [s]) i acc = Some r"
  obtains a where "walk_path H n path i acc = Some a"
    and "walk_inputs H n path i acc \<subseteq> walk_inputs H n (path @ [s]) i acc"
    and "(r = combine H a s \<and> [0x01] @ a @ s \<in> walk_inputs H n (path @ [s]) i acc) \<or>
      (r = combine H s a \<and> [0x01] @ s @ a \<in> walk_inputs H n (path @ [s]) i acc)"
  using assms
proof (induction path arbitrary: i acc thesis)
  case Nil
  then show ?case by (auto simp: combine_def split: bind_splits if_splits)
next
  case (Cons b path)
  from Cons.prems(2) obtain parent where p: "complete_parent i n = Some parent"
    by (auto split: bind_splits)
  let ?acc = "if parent > i then combine H acc b else combine H b acc"
  have H: "?acc = H ([0x01] @ (if parent > i then acc @ b else b @ acc))" by (simp add: combine_def)
  have "walk_path H n (path @ [s]) parent ?acc = Some r" using Cons.prems(2) p by simp
  then obtain a where "walk_path H n path parent ?acc = Some a"
    "walk_inputs H n path parent ?acc \<subseteq> walk_inputs H n (path @ [s]) parent ?acc"
    "(r = combine H a s \<and> [0x01] @ a @ s \<in> walk_inputs H n (path @ [s]) parent ?acc) \<or>
      (r = combine H s a \<and> [0x01] @ s @ a \<in> walk_inputs H n (path @ [s]) parent ?acc)"
    using Cons.IH by blast
  with p H show ?case by (intro Cons.prems(1) [of a]) (auto simp: Let_def)
qed

lemma MTH_top:
  "(ds = [] \<and> MTH H ds = H [] \<and> [] \<in> MTH_inputs H ds) \<or>
   (\<exists>d. ds = [d] \<and> MTH H ds = H (init_leaf_hasher @ d) \<and> init_leaf_hasher @ d \<in> MTH_inputs H ds) \<or>
   (\<exists>a b. ds = a @ b \<and> MTH H ds = H ([0x01] @ MTH H a @ MTH H b) \<and>
      insert ([0x01] @ MTH H a @ MTH H b) (MTH_inputs H a \<union> MTH_inputs H b) \<subseteq> MTH_inputs H ds)"
proof -
  consider "ds = []" | d where "ds = [d]" | "ds \<noteq> []" "length ds \<noteq> 1" by (cases ds; cases "tl ds") auto
  then show ?thesis
  proof cases
    case 3
    let ?k = "split_point (length ds)"
    have "ds = take ?k ds @ drop ?k ds" by simp
    moreover have "MTH H ds = H ([0x01] @ MTH H (take ?k ds) @ MTH H (drop ?k ds))"
      using 3 by (subst MTH.simps) (simp add: combine_def Let_def)
    moreover have "insert ([0x01] @ MTH H (take ?k ds) @ MTH H (drop ?k ds))
        (MTH_inputs H (take ?k ds) \<union> MTH_inputs H (drop ?k ds)) \<subseteq> MTH_inputs H ds"
      using 3 by (subst (3) MTH_inputs.simps) (simp add: Let_def)
    ultimately show ?thesis by blast
  qed (simp_all add: MTH_Nil MTH_single hash_leaf_def MTH_inputs.simps)
qed

lemma combine_injD:
  assumes "inj_on H A" "[0x01] @ l @ r \<in> A" "combine H l r = MTH H ds" "MTH_inputs H ds \<subseteq> A"
    and len: "\<And>x. length (H x) = 32" and "length l = 32 \<or> length r = 32"
  obtains a b where "ds = a @ b" "l = MTH H a" "r = MTH H b"
    "MTH_inputs H a \<subseteq> A" "MTH_inputs H b \<subseteq> A"
proof -
  have eq: "x = [0x01] @ l @ r" if "x \<in> MTH_inputs H ds" "MTH H ds = H x" for x
    using inj_onD [OF assms(1), of x "[0x01] @ l @ r"] that assms(2-4) by (auto simp: combine_def)
  from MTH_top [of ds H] show ?thesis
  proof (elim disjE exE conjE)
    fix a b assume ab: "ds = a @ b" "MTH H ds = H ([0x01] @ MTH H a @ MTH H b)"
      "insert ([0x01] @ MTH H a @ MTH H b) (MTH_inputs H a \<union> MTH_inputs H b) \<subseteq> MTH_inputs H ds"
    with eq have "MTH H a @ MTH H b = l @ r" by fastforce
    then have "l = MTH H a" "r = MTH H b"
      using assms(6) MTH_length [of H a, OF len] MTH_length [of H b, OF len] by auto
    with ab show ?thesis using that assms(4) by blast
  next
    assume "ds = []" "MTH H ds = H []" "[] \<in> MTH_inputs H ds"
    then show ?thesis using eq by force
  next
    fix d assume "MTH H ds = H (init_leaf_hasher @ d)" "init_leaf_hasher @ d \<in> MTH_inputs H ds"
    then show ?thesis using eq by (force simp: init_leaf_hasher_def)
  qed
qed

lemma walk_binds_leaf:
  assumes len: "\<And>x. length (H x) = 32" and inj: "inj_on H A" and x: "init_leaf_hasher @ x \<in> A"
  shows "\<forall>s\<in>set path. length s = 32 \<Longrightarrow>
    walk_path H n path i (hash_leaf H x) = Some (MTH H ls) \<Longrightarrow>
    walk_inputs H n path i (hash_leaf H x) \<subseteq> A \<Longrightarrow> MTH_inputs H ls \<subseteq> A \<Longrightarrow> x \<in> set ls"
proof (induction path arbitrary: ls rule: rev_induct)
  case Nil
  then have *: "H (init_leaf_hasher @ x) = MTH H ls" by (simp add: hash_leaf_def)
  have eq: "y = init_leaf_hasher @ x" if "y \<in> MTH_inputs H ls" "MTH H ls = H y" for y
    using inj_onD [OF inj, of y "init_leaf_hasher @ x"] that * x Nil.prems(4) by auto
  from MTH_top [of ls H] show ?case
  proof (elim disjE exE conjE)
    assume "MTH H ls = H []" "[] \<in> MTH_inputs H ls"
    then show ?thesis using eq by (force simp: init_leaf_hasher_def)
  next
    fix d assume "ls = [d]" "MTH H ls = H (init_leaf_hasher @ d)" "init_leaf_hasher @ d \<in> MTH_inputs H ls"
    then show ?thesis using eq by force
  next
    fix a b assume "MTH H ls = H ([0x01] @ MTH H a @ MTH H b)"
      "insert ([0x01] @ MTH H a @ MTH H b) (MTH_inputs H a \<union> MTH_inputs H b) \<subseteq> MTH_inputs H ls"
    then show ?thesis using eq by (force simp: init_leaf_hasher_def)
  qed
next
  case (snoc s path)
  obtain a where a: "walk_path H n path i (hash_leaf H x) = Some a"
    and sub: "walk_inputs H n path i (hash_leaf H x) \<subseteq> walk_inputs H n (path @ [s]) i (hash_leaf H x)"
    and top: "(MTH H ls = combine H a s \<and>
         [0x01] @ a @ s \<in> walk_inputs H n (path @ [s]) i (hash_leaf H x)) \<or>
       (MTH H ls = combine H s a \<and>
         [0x01] @ s @ a \<in> walk_inputs H n (path @ [s]) i (hash_leaf H x))"
    by (rule walk_path_snoc [OF snoc.prems(2)])
  note subA = subsetD [OF snoc.prems(3)]
  have s: "length s = 32" using snoc.prems(1) by simp
  obtain ds where ds: "a = MTH H ds" "MTH_inputs H ds \<subseteq> A" "set ds \<subseteq> set ls"
  proof -
    from top show ?thesis
    proof (elim disjE conjE)
      assume *: "MTH H ls = combine H a s"
        "[0x01] @ a @ s \<in> walk_inputs H n (path @ [s]) i (hash_leaf H x)"
      from combine_injD [OF inj subA [OF *(2)] *(1) [symmetric] snoc.prems(4) len] s that
      show ?thesis by (metis Un_upper1 set_append)
    next
      assume *: "MTH H ls = combine H s a"
        "[0x01] @ s @ a \<in> walk_inputs H n (path @ [s]) i (hash_leaf H x)"
      from combine_injD [OF inj subA [OF *(2)] *(1) [symmetric] snoc.prems(4) len] s that
      show ?thesis by (metis Un_upper2 set_append)
    qed
  qed
  have "walk_inputs H n path i (hash_leaf H x) \<subseteq> A" using sub snoc.prems(3) by (rule subset_trans)
  then have "x \<in> set ds" using snoc.IH [of ds] snoc.prems(1) a ds(1,2) by simp
  with ds(3) show ?case by blast
qed

lemma chunks32_length: "length bs mod 32 = 0 \<Longrightarrow> x \<in> set (chunks32 bs) \<Longrightarrow> length x = 32"
proof (induction bs rule: chunks32.induct)
  case (1 bs)
  show ?case
  proof (cases "bs = []")
    case False
    then have "0 < length bs" by simp
    then have "32 \<le> length bs" using "1.prems"(1) by presburger
    then show ?thesis using "1.IH" [OF False] "1.prems" False
      by (subst (asm) chunks32.simps) (auto simp: le_mod_geq)
  qed (use "1.prems" in simp)
qed

lemma verify_binds_leaf:
  assumes "\<And>x. length (H x) = 32" "inj_on H A" "MTH_inputs H ls \<subseteq> A" "audit_inputs H p leaf \<subseteq> A"
    and "length (audit_path p) mod 32 = 0" "verify H p leaf (MTH H ls) = Some True"
  shows "leaf \<in> set ls"
proof -
  from assms(6) obtain i where i: "leaf_index_to_tree_index (leaf_index p) = Some i"
    "walk_path H (tree_size p) (chunks32 (audit_path p)) i (hash_leaf H leaf) = Some (MTH H ls)"
    by (auto simp: verify_eq reconstruct_root_with_leaf_hash_def split: bind_splits)
  show ?thesis
  proof (rule walk_binds_leaf [OF assms(1,2) _ _ i(2)])
    show "\<forall>s\<in>set (chunks32 (audit_path p)). length s = 32"
      using chunks32_length [OF assms(5)] by blast
  qed (use assms(3,4) in \<open>auto simp: audit_inputs_def i(1)\<close>)
qed

text \<open>
  C19. An accepted proof binds the leaf: if a checked proof (its path a multiple of 32 bytes) verifies
  a leaf against the root of a tree, and the hash function has no collision among the inputs hashed
  for the tree and for the audit, the leaf is one of the tree's leaves. Leaves and branches cannot be
  confused, whatever the path, the leaf index and the tree size of the proof are.
\<close>

theorem verified_leaf_in_tree:
  assumes "\<And>x. length (H x) = 32"
    and "inj_on H (MTH_inputs H ls \<union> audit_inputs H p leaf)"
    and "length (audit_path p) mod 32 = 0"
    and "verify H p leaf (MTH H ls) = Some True"
  shows "leaf \<in> set ls"
  by (rule verify_binds_leaf [OF assms(1,2) Un_upper1 Un_upper2 assms(3,4)])

theorem verified_leaf_in_tree_witness:
  "[1] \<in> set [[1::u8], [2]]"
proof (rule verified_leaf_in_tree [where H = "\<lambda>x. take 32 (x @ replicate 32 0)" and
      p = "\<lparr>audit_path = 0 # 2 # replicate 30 0, leaf_index = 0, tree_size = 3\<rparr>"])
  let ?H = "\<lambda>x :: bytes. take 32 (x @ replicate 32 0)"
  let ?p = "\<lparr>audit_path = 0 # 2 # replicate 30 0, leaf_index = 0, tree_size = 3\<rparr>"
  have cp: "complete_parent 0 3 = Some (1::usize)"
    using complete_parent_climb [of 0 0 0 3] by (simp add: node_def)
  have ch: "chunks32 (0 # 2 # replicate 30 0) = [0 # 2 # replicate 30 0]"
    using chunks32_concat [of "[0 # 2 # replicate 30 0]"] by simp
  have sp: "split_point (length [[1::u8], [2]]) = 1" by (simp add: split_point.simps)
  have li: "leaf_index_to_tree_index 0 = Some 0"
    using leaf_index_node [of 0 1] by (simp add: node_0)
  have m: "MTH ?H [[1], [2]] = combine ?H (hash_leaf ?H [1]) (hash_leaf ?H [2])"
    by (subst MTH.simps) (simp only: sp, simp add: MTH_single)
  have mi1: "MTH_inputs G [d] = {0 # d}" for G d
    by (simp add: MTH_inputs.simps init_leaf_hasher_def)
  have mi: "MTH_inputs ?H [[1], [2]] =
      insert ([1] @ hash_leaf ?H [1] @ hash_leaf ?H [2]) {[0, 1], [0, 2]}"
    by (subst MTH_inputs.simps) (simp only: sp, simp add: MTH_single mi1 insert_commute)
  show "verify ?H ?p [1] (MTH ?H [[1], [2]]) = Some True"
    unfolding m by (simp add: verify_eq reconstruct_root_with_leaf_hash_def li cp ch hash_leaf_def
        combine_def init_leaf_hasher_def)
  show "inj_on ?H (MTH_inputs ?H [[1], [2]] \<union> audit_inputs ?H ?p [1])"
    unfolding mi by (auto simp: audit_inputs_def li cp ch hash_leaf_def init_leaf_hasher_def)
qed simp_all

section \<open>Paths that are too long\<close>

lemma complete_parent_above:
  assumes "n < 2 ^ 63" "n \<le> node (Suc c) 0" "c \<le> 64"
  shows "complete_parent (of_nat (node c 0)) (of_nat n) = None"
  using assms
proof (induction "64 - c" arbitrary: c)
  case 0
  then have "(of_nat (node c 0) :: usize) = - 1"
    by (intro bit_word_eqI) (auto simp: bit_word_node)
  then show ?case by (simp add: complete_parent.simps)
next
  case (Suc d)
  have c: "c < 64" using Suc.hyps(2) by simp
  have "node (Suc c) 0 \<le> node (Suc (Suc c)) 0" by (simp add: node_def diff_le_mono)
  then have IH: "complete_parent (of_nat (node (Suc c) 0)) (of_nat n) = None"
    using Suc.hyps Suc.prems by (intro Suc.hyps(1)) simp_all
  have "node (Suc c) 0 < 2 ^ 64"
  proof -
    have "(2::nat) ^ Suc c \<le> 2 ^ 64" using c by (intro power_increasing) simp_all
    moreover have "(0::nat) < 2 ^ Suc c" by simp
    ultimately show ?thesis unfolding node_def by linarith
  qed
  then have "\<not> (of_nat (node (Suc c) 0) :: usize) < of_nat n"
    using Suc.prems by (simp add: of_nat_less_iff_word)
  with IH c show ?case by (subst complete_parent.simps) (simp add: perfect_parent_node)
qed

lemma complete_parent_root:
  assumes "0 < L" "L \<le> 2 ^ 62"
  shows "complete_parent (of_nat (node (clog L) 0)) (of_nat (tree_nodes L)) = None"
proof (rule complete_parent_above)
  show "tree_nodes L < 2 ^ 63" by (rule tree_nodes_bound [OF assms(2)])
  show "tree_nodes L \<le> node (Suc (clog L)) 0"
    using clog_ge [of L] node_Suc_in_tree [of "clog L" 0 L] by linarith
  show "clog L \<le> 64" using clog_le [OF assms(2)] by simp
qed

lemma walk_path_too_long:
  assumes "node k m < tree_nodes L" "L \<le> 2 ^ 62" "clog L - k < length path"
  shows "walk_path H (of_nat (tree_nodes L)) path (of_nat (node k m)) acc = None"
  using assms(1,3)
proof (induction path arbitrary: k m acc)
  case (Cons s path)
  have "0 < L" using node_in_tree_start [OF Cons.prems(1)] by linarith
  show ?case
  proof (cases "(k, m) = (clog L, 0)")
    case True
    then show ?thesis using complete_parent_root [OF \<open>0 < L\<close> assms(2)] by simp
  next
    case False
    from complete_parent_step [OF Cons.prems(1) assms(2) False] obtain k' m' where
      p: "k \<le> k'" "Suc k' \<le> clog L" "node (Suc k') m' < tree_nodes L"
      "complete_parent (of_nat (node k m)) (of_nat (tree_nodes L)) = Some (of_nat (node (Suc k') m'))"
      by metis
    have "clog L - Suc k' < length path" using p Cons.prems(2) by simp
    from Cons.IH [OF p(3) this] p(4) show ?thesis by simp
  qed
qed simp

lemma chunks32_count: "length (chunks32 bs) * 32 \<ge> length bs"
  by (induction bs rule: chunks32.induct) (subst chunks32.simps, auto)

text \<open>
  A proof whose audit path has more segments than the tree has levels passes the checks of
  \<open>try_into_proof\<close>, and then every audit of it panics: the walk looks for the parent of the root.
\<close>

theorem long_audit_path_panics:
  assumes "i < L" "L \<le> 2 ^ 62" "length ap mod 32 = 0" "32 * clog L < length ap"
  shows "\<exists>p. try_into_proof \<lparr>u_audit_path = ap, u_leaf_index = of_nat i,
            u_tree_size = of_nat (tree_nodes L)\<rparr> = Some (Inr p) \<and> verify H p leaf root = None"
proof -
  have in_t: "node 0 i < tree_nodes L" using assms(1) by (simp add: node_0_in_tree)
  have "(of_nat (tree_nodes L) :: usize) \<noteq> 0"
    using in_t tree_nodes_bound [OF assms(2)] of_nat_eq_iff_word [of "tree_nodes L" 0, where 'a = 64]
    by simp
  moreover have "clog L - 0 < length (chunks32 ap)" using chunks32_count [of ap] assms(4) by linarith
  ultimately show ?thesis
    using leaf_index_in_tree_node [OF assms(1,2)] leaf_index_node [OF assms(1,2)] assms(3)
      walk_path_too_long [OF in_t assms(2)]
    by (simp add: try_into_proof_def verify_eq reconstruct_root_with_leaf_hash_def)
qed

theorem long_audit_path_panics_witness:
  "\<exists>p. try_into_proof \<lparr>u_audit_path = replicate 64 0, u_leaf_index = of_nat 1,
            u_tree_size = of_nat (tree_nodes 2)\<rparr> = Some (Inr p) \<and>
     verify (\<lambda>x. take 32 (x @ replicate 32 0)) p [1] [] = None"
  by (rule long_audit_path_panics) (simp_all add: clog_pow [of 1, simplified])

text \<open>
  Taking a proof apart and checking its parts again gives the proof back, for every proof the
  tree constructs.
\<close>

theorem constructed_proof_roundtrip:
  assumes "\<And>x. length (H x) = 32" and "64 * length xs \<le> 2 ^ 63" and "i < length xs"
  shows "\<exists>t p. from_leaves H xs = Some t \<and> construct_proof t (of_nat i) = Some (Some p) \<and>
      try_into_proof (into_unchecked p) = Some (Inr p)"
proof -
  obtain t where t: "from_leaves H xs = Some t" "tree_of H xs t"
    using from_leaves_correct assms(1,2) by metis
  from constructed_proof_accepted [OF t(2) assms(1,3)] t(1) show ?thesis by metis
qed

theorem constructed_proof_roundtrip_witness:
  "\<exists>t p. from_leaves (\<lambda>x. take 32 (x @ replicate 32 0)) [[1], [2], [3]] = Some t \<and>
     construct_proof t (of_nat 1) = Some (Some p) \<and> try_into_proof (into_unchecked p) = Some (Inr p)"
  by (rule constructed_proof_roundtrip) simp_all

end
