(* ===== verification/Merkle_Loops.thy ===== *)
theory Merkle_Loops
  imports Merkle_Audit
begin

text \<open>
  How many rounds the loops of a Merkle proof take (\<^verbatim>\<open>crates/astria-merkle/src/lib.rs\<close>): each loop is run for a given
  number of rounds, and \<open>None\<close> says that it has not ended by then.
\<close>

fun complete_parent_rounds :: "nat \<Rightarrow> usize \<Rightarrow> usize \<Rightarrow> usize option option" where
  "complete_parent_rounds 0 i n = None"
| "complete_parent_rounds (Suc rounds) i n =
     (case perfect_parent i of
        None \<Rightarrow> Some None
      | Some p \<Rightarrow> if p < n then Some (Some p) else complete_parent_rounds rounds p n)"

fun proof_path_rounds :: "nat \<Rightarrow> tree \<Rightarrow> usize \<Rightarrow> usize \<Rightarrow> usize \<Rightarrow> bytes \<Rightarrow> bytes option option" where
  "proof_path_rounds rounds t sz root tree_index path =
     (if tree_index = root then Some (Some path)
      else case rounds of
        0 \<Rightarrow> None
      | Suc rounds' \<Rightarrow>
          (case complete_parent_and_sibling tree_index sz of
             None \<Rightarrow> Some None
           | Some (p, sibling) \<Rightarrow>
               (case get_node t sibling of
                  None \<Rightarrow> Some None
                | Some v \<Rightarrow> proof_path_rounds rounds' t sz root p (path @ v))))"

declare proof_path_rounds.simps [simp del]

text \<open>Each round sets one more of the low bits of the index.\<close>

lemma complete_parent_ends:
  "65 - card (low_ones i) \<le> rounds \<Longrightarrow> complete_parent_rounds rounds i n = Some (complete_parent i n)"
proof (induction rounds arbitrary: i)
  case 0
  then show ?case using card_low_ones [of i] by simp
next
  case (Suc rounds)
  show ?case
  proof (cases "perfect_parent i")
    case None
    then show ?thesis by (simp add: complete_parent.simps)
  next
    case (Some p)
    then have "65 - card (low_ones p) \<le> rounds" using perfect_parent_low_ones [OF Some] Suc.prems by simp
    then show ?thesis using Suc.IH Some by (simp add: complete_parent.simps [of i])
  qed
qed

text \<open>Each round goes up at least one level.\<close>

lemma proof_path_ends:
  assumes t: "tree_of H ls t"
  shows "\<lbrakk>node k m < tree_nodes (length ls); clog (length ls) \<le> k + rounds\<rbrakk> \<Longrightarrow>
    proof_path_rounds rounds t (of_nat (tree_nodes (length ls))) (of_nat (node (clog (length ls)) 0))
      (of_nat (node k m)) path =
    Some (proof_path t (of_nat (tree_nodes (length ls))) (of_nat (node (clog (length ls)) 0)) (of_nat (node k m)) path)"
proof (induction rounds arbitrary: k m path)
  case 0
  then have "k = clog (length ls)" "m = 0" using node_in_tree_level [OF 0(1)] by auto
  then show ?case by (simp add: proof_path_rounds.simps proof_path.simps)
next
  case (Suc rounds)
  let ?n = "tree_nodes (length ls)" and ?r = "node (clog (length ls)) 0"
  show ?case
  proof (cases "(of_nat (node k m) :: usize) = of_nat ?r")
    case True
    then show ?thesis by (simp add: proof_path_rounds.simps proof_path.simps)
  next
    case False
    then have "(k, m) \<noteq> (clog (length ls), 0)" by (metis Pair_inject)
    from sibling_step [OF t Suc.prems(1) this] obtain k' m' s where s: "k \<le> k'" "node (Suc k') m' < ?n"
      "complete_parent_and_sibling (of_nat (node k m)) (of_nat ?n) = Some (of_nat (node (Suc k') m'), of_nat s)" "s < ?n"
      by blast
    have "get_node t (of_nat s) = Some (node_at t s)"
      by (rule get_node_buffer [OF _ s(4)]) (use t in \<open>simp add: tree_of_def\<close>)
    moreover have "clog (length ls) \<le> Suc k' + rounds" using Suc.prems(2) s(1) by simp
    ultimately show ?thesis using False s(3) Suc.IH [OF s(2)]
      by (subst proof_path_rounds.simps, subst proof_path.simps) simp
  qed
qed

text \<open>
  C40. The loops of a Merkle proof end: on every input the search for a parent ends within 65 rounds, and for a leaf of a
  tree the loop of \<open>construct_proof\<close> ends within as many rounds as the tree has levels, without a panic and
  with the audit path of the proof.
\<close>

theorem proof_construction_terminates:
  assumes "\<And>x. length (H x) = 32" and "64 * length xs \<le> 2 ^ 63" and "i < length xs"
  shows "complete_parent_rounds 65 j n = Some (complete_parent j n) \<and>
    (\<exists>t p root. from_leaves H xs = Some t \<and> construct_proof t (of_nat i) = Some (Some p) \<and>
      complete_root (tree_len t) = Some root \<and>
      proof_path_rounds (clog (length xs)) t (tree_len t) root (of_nat (2 * i)) [] = Some (Some (audit_path p)))"
proof -
  let ?n = "tree_nodes (length xs)" and ?r = "node (clog (length xs)) 0"
  obtain t where t: "from_leaves H xs = Some t" "tree_of H xs t"
    using from_leaves_correct assms(1,2) by metis
  obtain p where p: "construct_proof t (of_nat i) = Some (Some p)"
    using constructed_proof_accepted [OF t(2) assms(1,3)] by blast
  have L: "length xs \<le> 2 ^ 62" "0 < length xs" using tree_of_bound [OF t(2)] assms(3) by linarith+
  have len: "tree_len t = of_nat ?n" using t(2) by (intro tree_len_buffer) (simp add: tree_of_def)
  have root: "complete_root (tree_len t) = Some (of_nat ?r)" unfolding len by (rule complete_root_eq [OF L(2,1)])
  have idx: "leaf_index_to_tree_index (of_nat i) = Some (of_nat (2 * i))"
    using leaf_index_node [OF assms(3) L(1)] by (simp add: node_0)
  have "proof_path t (tree_len t) (of_nat ?r) (of_nat (2 * i)) [] = Some (audit_path p)"
    using p root idx by (auto simp: construct_proof_def Let_def split: if_splits bind_splits)
  moreover have "proof_path_rounds (clog (length xs)) t (of_nat ?n) (of_nat ?r) (of_nat (node 0 i)) [] =
      Some (proof_path t (of_nat ?n) (of_nat ?r) (of_nat (node 0 i)) [])"
    by (rule proof_path_ends [OF t(2)]) (use assms(3) in \<open>simp_all add: node_0_in_tree\<close>)
  ultimately show ?thesis using t(1) p root complete_parent_ends [of j 65 n] by (simp add: len node_0)
qed

theorem proof_construction_terminates_witness:
  "\<exists>t p root. from_leaves (\<lambda>x. take 32 (x @ replicate 32 0)) [[1], [2], [3]] = Some t \<and>
    construct_proof t (of_nat 2) = Some (Some p) \<and> complete_root (tree_len t) = Some root \<and>
    proof_path_rounds (clog (length [[1], [2], [3 :: u8]])) t (tree_len t) root (of_nat (2 * 2)) [] = Some (Some (audit_path p))"
  by (rule proof_construction_terminates [THEN conjunct2]) simp_all

end
