(* ===== verification/Denom.thy ===== *)
theory Denom
  imports Prelude
begin

text \<open>
  Asset denominations (\<^verbatim>\<open>crates/astria-core/src/primitive/v1/asset/denom.rs\<close>): trace-prefixed
  denominations such as \<open>transfer/channel-0/utia\<close>, their hashed form \<open>ibc/<hex>\<close>, parsing, printing and
  the ordering. Strings are byte strings (\<open>string\<close>); the parser rejects everything that is not ASCII.

  SHA-256 and the hex decoder are third-party code and parameters: \<open>H\<close> maps bytes to a digest and
  \<open>from_hex\<close> decodes the hex digits of a 32 byte array.

  The lemmas show that parsing and printing a trace-prefixed denomination are inverse to each other,
  that the hashed form is the hash of the printed form, that \<open>display_len\<close> is the printed length, and
  where the ordering departs from equality.
\<close>

section \<open>Strings of the standard library\<close>

definition is_ascii :: "string \<Rightarrow> bool" where
  "is_ascii s \<longleftrightarrow> list_all (\<lambda>c. of_char c < (128 :: nat)) s"

definition is_ascii_whitespace :: "char \<Rightarrow> bool" where
  "is_ascii_whitespace c \<longleftrightarrow> of_char c \<in> {0x20, 0x09, 0x0a, 0x0c, 0x0d :: nat}"

fun split_slash :: "string \<Rightarrow> string list" where
  "split_slash [] = [[]]"
| "split_slash (c # cs) =
     (if c = CHR ''/'' then [] # split_slash cs
      else (c # hd (split_slash cs)) # tl (split_slash cs))"

definition rsplit_once_slash :: "string \<Rightarrow> (string \<times> string) option" where
  "rsplit_once_slash s =
     (if CHR ''/'' \<in> set s
      then Some (rev (tl (dropWhile (\<lambda>c. c \<noteq> CHR ''/'') (rev s))),
                 rev (takeWhile (\<lambda>c. c \<noteq> CHR ''/'') (rev s)))
      else None)"

definition starts_with :: "string \<Rightarrow> string \<Rightarrow> bool" where
  "starts_with s p \<longleftrightarrow> take (length p) s = p"

definition as_bytes :: "string \<Rightarrow> bytes" where
  "as_bytes s = map (\<lambda>c. of_nat (of_char c)) s"

datatype cmp_ordering = Less | Equal | Greater

fun reverse_ordering :: "cmp_ordering \<Rightarrow> cmp_ordering" where
  "reverse_ordering Less = Greater"
| "reverse_ordering Equal = Equal"
| "reverse_ordering Greater = Less"

fun then_with :: "cmp_ordering \<Rightarrow> cmp_ordering \<Rightarrow> cmp_ordering" where
  "then_with Equal o2 = o2"
| "then_with o1 _ = o1"

definition cmp_nat :: "nat \<Rightarrow> nat \<Rightarrow> cmp_ordering" where
  "cmp_nat a b = (if a < b then Less else if a = b then Equal else Greater)"

fun cmp_str :: "string \<Rightarrow> string \<Rightarrow> cmp_ordering" where
  "cmp_str [] [] = Equal"
| "cmp_str [] (_ # _) = Less"
| "cmp_str (_ # _) [] = Greater"
| "cmp_str (a # as) (b # bs) = then_with (cmp_nat (of_char a) (of_char b)) (cmp_str as bs)"

fun cmp_bytes :: "bytes \<Rightarrow> bytes \<Rightarrow> cmp_ordering" where
  "cmp_bytes [] [] = Equal"
| "cmp_bytes [] (_ # _) = Less"
| "cmp_bytes (_ # _) [] = Greater"
| "cmp_bytes (a # as) (b # bs) = then_with (cmp_nat (unat a) (unat b)) (cmp_bytes as bs)"

section \<open>Denominations\<close>

record port_and_channel =
  port :: string
  channel :: string

record trace_prefixed =
  trace :: "port_and_channel list"
  base_denom :: string

record ibc_prefixed =
  ibc_id :: bytes

datatype denom = TracePrefixed trace_prefixed | IbcPrefixed ibc_prefixed

datatype parse_trace_prefixed_error =
  BaseIsEmpty | PortIsEmpty | ChannelIsEmpty | NotAscii | Whitespace | PortWithoutChannel

datatype parse_ibc_prefixed_error =
  HexError string | NotIbcPrefixedPrefixed | TooFewSegments | TooManySegments

datatype parse_denom_error =
  IbcPrefixedError parse_ibc_prefixed_error | PrefixedError parse_trace_prefixed_error

text \<open>The type \<open>[u8; 32]\<close> of the hash: a value built by \<open>IbcPrefixed::new\<close> has 32 bytes.\<close>

definition ENCODED_HASH_LEN :: nat where
  "ENCODED_HASH_LEN = 32"

definition is_ibc_prefixed :: "denom \<Rightarrow> bool" where
  "is_ibc_prefixed d = (case d of TracePrefixed _ \<Rightarrow> False | IbcPrefixed _ \<Rightarrow> True)"

definition as_trace_prefixed :: "denom \<Rightarrow> trace_prefixed option" where
  "as_trace_prefixed d = (case d of TracePrefixed t \<Rightarrow> Some t | IbcPrefixed _ \<Rightarrow> None)"

definition trace_hasher_input :: "trace_prefixed \<Rightarrow> bytes" where
  "trace_hasher_input t =
     foldl (\<lambda>hasher segment.
         hasher @ as_bytes (port segment) @ as_bytes ''/'' @ as_bytes (channel segment)
           @ as_bytes ''/'') [] (trace t)
     @ as_bytes (base_denom t)"

definition trace_to_ibc_prefixed :: "hash_fun \<Rightarrow> trace_prefixed \<Rightarrow> ibc_prefixed" where
  "trace_to_ibc_prefixed H t = \<lparr>ibc_id = H (trace_hasher_input t)\<rparr>"

definition to_ibc_prefixed :: "hash_fun \<Rightarrow> denom \<Rightarrow> ibc_prefixed" where
  "to_ibc_prefixed H d =
     (case d of TracePrefixed t \<Rightarrow> trace_to_ibc_prefixed H t | IbcPrefixed i \<Rightarrow> i)"

definition leading_port :: "port_and_channel list \<Rightarrow> string option" where
  "leading_port segs = (case segs of [] \<Rightarrow> None | s # _ \<Rightarrow> Some (port s))"

definition leading_channel :: "port_and_channel list \<Rightarrow> string option" where
  "leading_channel segs = (case segs of [] \<Rightarrow> None | s # _ \<Rightarrow> Some (channel s))"

definition has_leading_port :: "trace_prefixed \<Rightarrow> string \<Rightarrow> bool" where
  "has_leading_port t p \<longleftrightarrow> leading_port (trace t) = Some p"

definition has_leading_channel :: "trace_prefixed \<Rightarrow> string \<Rightarrow> bool" where
  "has_leading_channel t c \<longleftrightarrow> leading_channel (trace t) = Some c"

definition pop_leading_port_and_channel ::
  "trace_prefixed \<Rightarrow> port_and_channel option \<times> trace_prefixed" where
  "pop_leading_port_and_channel t =
     (case trace t of [] \<Rightarrow> (None, t) | s # segs \<Rightarrow> (Some s, t\<lparr>trace := segs\<rparr>))"

definition push_trace_segment :: "trace_prefixed \<Rightarrow> port_and_channel \<Rightarrow> trace_prefixed" where
  "push_trace_segment t seg = t\<lparr>trace := trace t @ [seg]\<rparr>"

definition trace_display_len :: "trace_prefixed \<Rightarrow> nat" where
  "trace_display_len t =
     foldl (\<lambda>len segment. len + (length (port segment) + length (channel segment) + 2)) 0 (trace t)
     + length (base_denom t)"

definition display_len :: "denom \<Rightarrow> nat" where
  "display_len d = (case d of TracePrefixed t \<Rightarrow> trace_display_len t | IbcPrefixed _ \<Rightarrow> 68)"

definition trace_display :: "trace_prefixed \<Rightarrow> string" where
  "trace_display t =
     foldl (\<lambda>out segment. out @ port segment @ ''/'' @ channel segment @ ''/'') [] (trace t)
     @ base_denom t"

definition hex_digit :: "nat \<Rightarrow> char" where
  "hex_digit n = ''0123456789abcdef'' ! n"

definition hex_byte :: "u8 \<Rightarrow> string" where
  "hex_byte b = [hex_digit (unat b div 16), hex_digit (unat b mod 16)]"

definition ibc_display :: "ibc_prefixed \<Rightarrow> string" where
  "ibc_display i = ''ibc/'' @ concat (map hex_byte (ibc_id i))"

definition denom_display :: "denom \<Rightarrow> string" where
  "denom_display d = (case d of TracePrefixed t \<Rightarrow> trace_display t | IbcPrefixed i \<Rightarrow> ibc_display i)"

fun parse_segments ::
  "string list \<Rightarrow> port_and_channel list \<Rightarrow> parse_trace_prefixed_error + port_and_channel list" where
  "parse_segments [] parsed_segments = Inr parsed_segments"
| "parse_segments [p] parsed_segments = Inl PortWithoutChannel"
| "parse_segments (p # c # split) parsed_segments =
     (if p = [] then Inl PortIsEmpty
      else if c = [] then Inl ChannelIsEmpty
      else parse_segments split (parsed_segments @ [\<lparr>port = p, channel = c\<rparr>]))"

definition trace_segments_from_str ::
  "string \<Rightarrow> parse_trace_prefixed_error + port_and_channel list" where
  "trace_segments_from_str s =
     (if \<not> is_ascii s then Inl NotAscii
      else if list_ex is_ascii_whitespace s then Inl Whitespace
      else parse_segments (split_slash s) [])"

definition trace_prefixed_from_str :: "string \<Rightarrow> parse_trace_prefixed_error + trace_prefixed" where
  "trace_prefixed_from_str s =
     (if \<not> is_ascii s then Inl NotAscii
      else if list_ex is_ascii_whitespace s then Inl Whitespace
      else
        case (case rsplit_once_slash s of
                Some (path, base) \<Rightarrow>
                  (case trace_segments_from_str path of
                     Inl e \<Rightarrow> Inl e
                   | Inr segs \<Rightarrow> Inr (segs, base))
              | None \<Rightarrow> Inr ([], s)) of
          Inl e \<Rightarrow> Inl e
        | Inr (segs, base) \<Rightarrow>
            if base = [] then Inl BaseIsEmpty
            else Inr \<lparr>trace = segs, base_denom = base\<rparr>)"

definition ibc_prefixed_from_str ::
  "(string \<Rightarrow> string + bytes) \<Rightarrow> string \<Rightarrow> parse_ibc_prefixed_error + ibc_prefixed" where
  "ibc_prefixed_from_str from_hex s =
     (case split_slash s of
        [] \<Rightarrow> Inl NotIbcPrefixedPrefixed
      | ibc # segments \<Rightarrow>
          if ibc \<noteq> ''ibc'' then Inl NotIbcPrefixedPrefixed
          else case segments of
            [] \<Rightarrow> Inl TooFewSegments
          | [hex] \<Rightarrow>
              (case from_hex hex of
                 Inl e \<Rightarrow> Inl (HexError e)
               | Inr i \<Rightarrow> Inr \<lparr>ibc_id = i\<rparr>)
          | _ \<Rightarrow> Inl TooManySegments)"

definition denom_from_str ::
  "(string \<Rightarrow> string + bytes) \<Rightarrow> string \<Rightarrow> parse_denom_error + denom" where
  "denom_from_str from_hex s =
     (if starts_with s ''ibc/''
      then case ibc_prefixed_from_str from_hex s of
             Inl e \<Rightarrow> Inl (IbcPrefixedError e) | Inr i \<Rightarrow> Inr (IbcPrefixed i)
      else case trace_prefixed_from_str s of
             Inl e \<Rightarrow> Inl (PrefixedError e) | Inr t \<Rightarrow> Inr (TracePrefixed t))"

definition cmp_segment :: "port_and_channel \<Rightarrow> port_and_channel \<Rightarrow> cmp_ordering" where
  "cmp_segment a b = then_with (cmp_str (port a) (port b)) (cmp_str (channel a) (channel b))"

definition cmp_segments :: "port_and_channel list \<Rightarrow> port_and_channel list \<Rightarrow> cmp_ordering" where
  "cmp_segments xs ys =
     (case List.find (\<lambda>o'. o' \<noteq> Equal) (map (\<lambda>(a, b). cmp_segment a b) (zip xs ys)) of
        Some o' \<Rightarrow> o'
      | None \<Rightarrow> cmp_nat (length xs) (length ys))"

definition cmp_trace_prefixed :: "trace_prefixed \<Rightarrow> trace_prefixed \<Rightarrow> cmp_ordering" where
  "cmp_trace_prefixed a b =
     (case (leading_port (trace a), leading_port (trace b)) of
        (None, None) \<Rightarrow> cmp_str (base_denom a) (base_denom b)
      | (None, Some p) \<Rightarrow> cmp_str (base_denom a) p
      | (Some p, None) \<Rightarrow> cmp_str p (base_denom b)
      | (Some _, Some _) \<Rightarrow>
          then_with (cmp_segments (trace a) (trace b)) (cmp_str (base_denom a) (base_denom b)))"

definition compare_trace_to_ibc :: "trace_prefixed \<Rightarrow> cmp_ordering" where
  "compare_trace_to_ibc t =
     (case leading_port (trace t) of
        Some p \<Rightarrow> cmp_str p ''ibc/''
      | None \<Rightarrow> cmp_str (base_denom t) ''ibc/'')"

definition cmp_denom :: "denom \<Rightarrow> denom \<Rightarrow> cmp_ordering" where
  "cmp_denom x y =
     (case (x, y) of
        (TracePrefixed a, TracePrefixed b) \<Rightarrow> cmp_trace_prefixed a b
      | (TracePrefixed t, IbcPrefixed _) \<Rightarrow> compare_trace_to_ibc t
      | (IbcPrefixed a, IbcPrefixed b) \<Rightarrow> cmp_bytes (ibc_id a) (ibc_id b)
      | (IbcPrefixed _, TracePrefixed t) \<Rightarrow> reverse_ordering (compare_trace_to_ibc t))"

section \<open>Parsing and printing\<close>

text \<open>What the parser accepts: no empty part, no slash inside a part, printable ASCII only.\<close>

definition plain :: "string \<Rightarrow> bool" where
  "plain s \<longleftrightarrow> s \<noteq> [] \<and> CHR ''/'' \<notin> set s \<and> is_ascii s \<and> \<not> list_ex is_ascii_whitespace s"

definition wf_trace :: "trace_prefixed \<Rightarrow> bool" where
  "wf_trace t \<longleftrightarrow>
     plain (base_denom t) \<and> list_all (\<lambda>seg. plain (port seg) \<and> plain (channel seg)) (trace t)"

abbreviation path_display :: "port_and_channel list \<Rightarrow> string" where
  "path_display segs \<equiv> concat (map (\<lambda>seg. port seg @ ''/'' @ channel seg @ ''/'') segs)"

lemma foldl_append_concat: "foldl (\<lambda>out x. out @ f x) acc xs = acc @ concat (map f xs)"
  by (induction xs arbitrary: acc) simp_all

lemma trace_display_eq: "trace_display t = path_display (trace t) @ base_denom t"
  unfolding trace_display_def by (simp add: foldl_append_concat)

lemma split_slash_not_Nil [simp]: "split_slash s \<noteq> []"
  by (cases s) auto

lemma split_slash_plain: "CHR ''/'' \<notin> set s \<Longrightarrow> split_slash s = [s]"
  by (induction s) auto

lemma split_slash_append:
  "CHR ''/'' \<notin> set a \<Longrightarrow> split_slash (a @ CHR ''/'' # b) = a # split_slash b"
  by (induction a) auto

lemma is_ascii_append [simp]: "is_ascii (a @ b) \<longleftrightarrow> is_ascii a \<and> is_ascii b"
  by (simp add: is_ascii_def)

lemma is_ascii_slash [simp]: "is_ascii (CHR ''/'' # s) \<longleftrightarrow> is_ascii s"
  by (simp add: is_ascii_def)

lemma whitespace_slash [simp]: "\<not> is_ascii_whitespace (CHR ''/'')"
  by (simp add: is_ascii_whitespace_def)

lemma is_ascii_Nil [simp]: "is_ascii []"
  by (simp add: is_ascii_def)

lemma split_slash_join: "concat (map (\<lambda>p. p @ ''/'') (split_slash s)) = s @ ''/''"
proof (induction s)
  case (Cons c s)
  then show ?case by (cases "split_slash s") auto
qed simp

lemma split_slash_no_slash: "p \<in> set (split_slash s) \<Longrightarrow> CHR ''/'' \<notin> set p"
proof (induction s arbitrary: p)
  case (Cons c s)
  then show ?case by (cases "split_slash s") (auto split: if_splits)
qed simp

lemma split_slash_set: "p \<in> set (split_slash s) \<Longrightarrow> set p \<subseteq> set s"
proof (induction s arbitrary: p)
  case (Cons c s)
  then show ?case by (cases "split_slash s") (fastforce split: if_splits)+
qed simp

lemma rsplit_once_slash_append:
  "CHR ''/'' \<notin> set b \<Longrightarrow> rsplit_once_slash (p @ CHR ''/'' # b) = Some (p, b)"
proof -
  assume "CHR ''/'' \<notin> set b"
  then have P: "c \<in> set (rev b) \<Longrightarrow> c \<noteq> CHR ''/''" for c by auto
  show ?thesis
    unfolding rsplit_once_slash_def rev_append
    using takeWhile_append2 [of "rev b" "\<lambda>c. c \<noteq> CHR ''/''" "CHR ''/'' # rev p", OF P]
      dropWhile_append2 [of "rev b" "\<lambda>c. c \<noteq> CHR ''/''" "CHR ''/'' # rev p", OF P] by simp
qed

lemma rsplit_once_slash_SomeD:
  assumes "rsplit_once_slash s = Some (p, b)"
  shows "s = p @ CHR ''/'' # b" and "CHR ''/'' \<notin> set b"
proof -
  let ?P = "\<lambda>c. c \<noteq> CHR ''/''"
  have mem: "CHR ''/'' \<in> set s" using assms by (auto simp: rsplit_once_slash_def split: if_splits)
  then have ne: "dropWhile ?P (rev s) \<noteq> []" by (simp add: dropWhile_eq_Nil_conv)
  then have hd: "hd (dropWhile ?P (rev s)) = CHR ''/''" using hd_dropWhile by blast
  have pb: "p = rev (tl (dropWhile ?P (rev s)))" "b = rev (takeWhile ?P (rev s))"
    using assms mem by (simp_all add: rsplit_once_slash_def)
  have "rev s = rev b @ CHR ''/'' # rev p"
    unfolding pb using ne hd by (metis rev_rev_ident list.collapse takeWhile_dropWhile_id)
  then show "s = p @ CHR ''/'' # b" by (metis rev_rev_ident rev_append rev.simps(2) append.assoc append_Cons append_Nil)
  show "CHR ''/'' \<notin> set b" unfolding pb by (auto dest: set_takeWhileD)
qed

lemma rsplit_once_slash_None: "rsplit_once_slash s = None \<longleftrightarrow> CHR ''/'' \<notin> set s"
  by (simp add: rsplit_once_slash_def)

lemma parse_segments_path:
  assumes "segs \<noteq> []" "list_all (\<lambda>seg. plain (port seg) \<and> plain (channel seg)) segs"
    and "q @ ''/'' = path_display segs"
  shows "parse_segments (split_slash q) acc = Inr (acc @ segs)"
  using assms
proof (induction segs arbitrary: q acc)
  case (Cons seg segs)
  have pl: "CHR ''/'' \<notin> set (port seg)" "CHR ''/'' \<notin> set (channel seg)"
    "port seg \<noteq> []" "channel seg \<noteq> []" using Cons.prems(2) by (simp_all add: plain_def)
  have eta: "\<lparr>port = port seg, channel = channel seg\<rparr> = seg" by simp
  show ?case
  proof (cases "segs = []")
    case True
    then have "q = port seg @ CHR ''/'' # channel seg" using Cons.prems(3) by simp
    then show ?thesis using True pl eta by (simp add: split_slash_append split_slash_plain)
  next
    case False
    define r where "r = butlast (path_display segs)"
    obtain ys z where "segs = ys @ [z]" using False by (cases segs rule: rev_cases) auto
    then have r: "r @ ''/'' = path_display segs" unfolding r_def by (simp add: butlast_append)
    have "q @ ''/'' = (port seg @ CHR ''/'' # channel seg @ CHR ''/'' # r) @ ''/''"
      using Cons.prems(3) r [symmetric] by simp
    then have "q = port seg @ CHR ''/'' # channel seg @ CHR ''/'' # r" by (simp only: append_same_eq)
    then show ?thesis using Cons.IH [OF False _ r] Cons.prems(2) pl eta by (simp add: split_slash_append)
  qed
qed simp

lemma parse_segments_InrD:
  "parse_segments parts acc = Inr segs \<Longrightarrow> \<exists>new. segs = acc @ new \<and>
     parts = concat (map (\<lambda>seg. [port seg, channel seg]) new) \<and>
     (\<forall>seg\<in>set new. port seg \<noteq> [] \<and> channel seg \<noteq> [])"
proof (induction parts acc rule: parse_segments.induct)
  case (3 p c split acc)
  then have ne: "p \<noteq> []" "c \<noteq> []" by (auto split: if_splits)
  with 3 obtain new where "segs = (acc @ [\<lparr>port = p, channel = c\<rparr>]) @ new"
    "split = concat (map (\<lambda>seg. [port seg, channel seg]) new)"
    "\<forall>seg\<in>set new. port seg \<noteq> [] \<and> channel seg \<noteq> []" by auto
  then show ?case using ne by (intro exI [of _ "\<lparr>port = p, channel = c\<rparr> # new"]) simp
qed auto

lemma plain_parts:
  assumes "is_ascii s" "\<not> list_ex is_ascii_whitespace s" "p \<in> set (split_slash s)" "p \<noteq> []"
  shows "plain p"
  using assms split_slash_set [OF assms(3)] split_slash_no_slash [OF assms(3)]
  by (auto simp: plain_def is_ascii_def list_all_iff list_ex_iff)

lemma path_display_parts:
  "path_display segs = concat (map (\<lambda>p. p @ ''/'') (concat (map (\<lambda>seg. [port seg, channel seg]) segs)))"
  by (induction segs) simp_all

lemma wf_path_ascii:
  "list_all (\<lambda>seg. plain (port seg) \<and> plain (channel seg)) segs \<Longrightarrow>
    is_ascii (path_display segs) \<and> \<not> list_ex is_ascii_whitespace (path_display segs)"
  by (induction segs) (auto simp: plain_def)

lemma trace_segments_from_str_path:
  assumes "segs \<noteq> []" "list_all (\<lambda>seg. plain (port seg) \<and> plain (channel seg)) segs"
    and q: "q @ ''/'' = path_display segs"
  shows "trace_segments_from_str q = Inr segs"
proof -
  have "is_ascii (q @ ''/'')" "\<not> list_ex is_ascii_whitespace (q @ ''/'')"
    unfolding q using wf_path_ascii [OF assms(2)] by simp_all
  then show ?thesis
    using parse_segments_path [OF assms, of "[]"] by (simp add: trace_segments_from_str_def)
qed

lemma trace_segments_from_str_InrD:
  assumes "trace_segments_from_str q = Inr segs"
  shows "segs \<noteq> [] \<and> q @ ''/'' = path_display segs \<and>
    list_all (\<lambda>seg. plain (port seg) \<and> plain (channel seg)) segs"
proof -
  from assms have ok: "is_ascii q" "\<not> list_ex is_ascii_whitespace q"
    and p: "parse_segments (split_slash q) [] = Inr segs"
    by (simp_all add: trace_segments_from_str_def split: if_splits)
  from parse_segments_InrD [OF p] have
    new: "split_slash q = concat (map (\<lambda>seg. [port seg, channel seg]) segs)"
      "\<forall>seg\<in>set segs. port seg \<noteq> [] \<and> channel seg \<noteq> []" by auto
  have "segs \<noteq> []" using new(1) split_slash_not_Nil [of q] by auto
  moreover have "q @ ''/'' = path_display segs"
    using split_slash_join [of q] unfolding new(1) path_display_parts by simp
  moreover have "plain (port seg) \<and> plain (channel seg)" if "seg \<in> set segs" for seg
    using plain_parts [OF ok, of "port seg"] plain_parts [OF ok, of "channel seg"] new that by auto
  ultimately show ?thesis by (simp add: list_all_iff)
qed

lemma parse_trace_iff:
  "trace_prefixed_from_str s = Inr t \<longleftrightarrow> wf_trace t \<and> trace_display t = s"
proof
  assume parsed: "trace_prefixed_from_str s = Inr t"
  then have ok: "is_ascii s" "\<not> list_ex is_ascii_whitespace s"
    by (simp_all add: trace_prefixed_from_str_def split: if_splits)
  show "wf_trace t \<and> trace_display t = s"
  proof (cases "rsplit_once_slash s")
    case None
    then have "CHR ''/'' \<notin> set s" by (simp add: rsplit_once_slash_None)
    then show ?thesis using parsed None ok
      by (auto simp: trace_prefixed_from_str_def wf_trace_def plain_def trace_display_eq
          split: if_splits)
  next
    case (Some pb)
    then obtain p b where pb: "rsplit_once_slash s = Some (p, b)" by (cases pb) auto
    from parsed ok pb obtain segs where segs: "trace_segments_from_str p = Inr segs"
      "t = \<lparr>trace = segs, base_denom = b\<rparr>" "b \<noteq> []"
      by (auto simp: trace_prefixed_from_str_def split: if_splits sum.splits)
    with trace_segments_from_str_InrD [OF segs(1)] rsplit_once_slash_SomeD [OF pb] ok show ?thesis
      by (auto simp: wf_trace_def plain_def trace_display_eq simp flip: append_assoc)
  qed
next
  assume wf: "wf_trace t \<and> trace_display t = s"
  have s: "s = path_display (trace t) @ base_denom t" using wf by (simp add: trace_display_eq)
  have b: "plain (base_denom t)" using wf by (simp add: wf_trace_def)
  have ok: "is_ascii s" "\<not> list_ex is_ascii_whitespace s"
    using wf wf_path_ascii [of "trace t"] b by (auto simp: s wf_trace_def plain_def)
  show "trace_prefixed_from_str s = Inr t"
  proof (cases "trace t = []")
    case True
    then show ?thesis using b ok s
      by (simp add: trace_prefixed_from_str_def plain_def rsplit_once_slash_None [THEN iffD2])
  next
    case False
    then obtain ys z where "trace t = ys @ [z]" by (cases "trace t" rule: rev_cases) auto
    then obtain q where q: "q @ ''/'' = path_display (trace t)" by (simp flip: append_assoc)
    have "s = q @ CHR ''/'' # base_denom t" unfolding s q [symmetric] by simp
    then have "rsplit_once_slash s = Some (q, base_denom t)"
      using rsplit_once_slash_append [of "base_denom t" q] b by (simp add: plain_def)
    moreover have "trace_segments_from_str q = Inr (trace t)"
      using trace_segments_from_str_path [OF False _ q] wf by (simp add: wf_trace_def)
    ultimately show ?thesis using ok b by (simp add: trace_prefixed_from_str_def plain_def)
  qed
qed

text \<open>
  C20. Printing and parsing a trace-prefixed denomination are inverse: a string parses to a
  denomination exactly if the denomination is well formed (no part is empty, holds a slash,
  whitespace or a non-ASCII character) and prints as that string.
\<close>

theorem trace_prefixed_from_str_iff:
  "trace_prefixed_from_str s = Inr t \<longleftrightarrow> wf_trace t \<and> trace_display t = s"
  by (rule parse_trace_iff)

lemma as_bytes_append: "as_bytes (a @ b) = as_bytes a @ as_bytes b"
  by (simp add: as_bytes_def)

lemma as_bytes_Cons [simp]: "as_bytes (c # s) = of_nat (of_char c) # as_bytes s"
  by (simp add: as_bytes_def)

lemma as_bytes_Nil [simp]: "as_bytes [] = []"
  by (simp add: as_bytes_def)

lemma as_bytes_path: "as_bytes (path_display segs) =
    concat (map (\<lambda>seg. as_bytes (port seg) @ as_bytes ''/'' @ as_bytes (channel seg) @ as_bytes ''/'') segs)"
  by (induction segs) (simp_all add: as_bytes_append)

text \<open>The IBC form of a denomination is the hash of its printed form.\<close>

lemma trace_to_ibc_prefixed_display:
  "trace_to_ibc_prefixed H t = \<lparr>ibc_id = H (as_bytes (trace_display t))\<rparr>"
  unfolding trace_to_ibc_prefixed_def trace_hasher_input_def trace_display_eq
  using as_bytes_path [of "trace t"] by (simp add: foldl_append_concat as_bytes_append)

lemma foldl_add_sum: "foldl (\<lambda>n x. n + f x) (m::nat) xs = m + sum_list (map f xs)"
  by (induction xs arbitrary: m) simp_all

lemma length_hex: "length (concat (map hex_byte bs)) = 2 * length bs"
  by (induction bs) (simp_all add: hex_byte_def)

text \<open>\<open>display_len\<close>, on which the fee of a deposit is based, is the length of the printed form.\<close>

lemma display_len_correct:
  assumes "\<And>i. d = IbcPrefixed i \<Longrightarrow> length (ibc_id i) = ENCODED_HASH_LEN"
  shows "display_len d = length (denom_display d)"
proof (cases d)
  case (TracePrefixed t)
  have "length (path_display segs) =
      sum_list (map (\<lambda>seg. length (port seg) + length (channel seg) + 2) segs)" for segs
    by (induction segs) simp_all
  then show ?thesis
    using TracePrefixed foldl_add_sum [of "\<lambda>seg. length (port seg) + length (channel seg) + 2" 0]
    by (simp add: display_len_def denom_display_def trace_display_len_def trace_display_eq)
next
  case (IbcPrefixed i)
  then show ?thesis using assms [of i]
    by (simp add: display_len_def denom_display_def ibc_display_def length_hex ENCODED_HASH_LEN_def)
qed

text \<open>
  The ordering of denominations is not consistent with equality: a native denomination compares
  equal to every trace-prefixed denomination whose first port has its name.
\<close>

theorem cmp_denom_equal_not_eq:
  "\<exists>y. y \<noteq> TracePrefixed \<lparr>trace = [], base_denom = p\<rparr> \<and>
     y = TracePrefixed \<lparr>trace = [\<lparr>port = p, channel = c\<rparr>], base_denom = b\<rparr> \<and>
     cmp_denom (TracePrefixed \<lparr>trace = [], base_denom = p\<rparr>) y = Equal"
proof -
  have "cmp_str p p = Equal" by (induction p) (simp_all add: cmp_nat_def)
  then show ?thesis by (simp add: cmp_denom_def cmp_trace_prefixed_def leading_port_def)
qed

end
