(* ===== verification/Actions.thy ===== *)
theory Actions
  imports Denom
begin

text \<open>
  The actions of a sequencer transaction (\<^verbatim>\<open>crates/astria-core/src/protocol/transaction/v1/action\<close>), the
  transaction that carries them, and the grouping rule that decides which actions one transaction
  may combine (\<^verbatim>\<open>action/group/mod.rs\<close>).

  A struct of the source is a record whose fields carry a prefix of the struct's name, since the
  field names of different structs coincide. Fixed-size byte arrays (addresses, rollup identifiers,
  keys) are byte lists. The relayed IBC message is opaque: Penumbra's IBC crate interprets it.
\<close>

section \<open>Addresses and keys\<close>

type_synonym address_bytes = bytes
type_synonym rollup_id = bytes
type_synonym transaction_id = bytes

record address =
  addr_bytes :: address_bytes
  addr_prefix :: string

record verification_key =
  vk_bytes :: bytes

text \<open>The address of a key: the first 20 bytes of its SHA-256 hash.\<close>

definition vk_address_bytes :: "hash_fun \<Rightarrow> verification_key \<Rightarrow> address_bytes" where
  "vk_address_bytes H vk = take 20 (H (vk_bytes vk))"

section \<open>Price feed data\<close>

record currency_pair =
  cp_base :: string
  cp_quote :: string

record quote_price =
  qp_price :: "128 word"
  qp_block_timestamp :: int
  qp_block_height :: u64

record currency_pair_state =
  cps_price :: "quote_price option"
  cps_nonce :: u64
  cps_id :: u64

record ticker =
  tk_currency_pair :: currency_pair
  tk_decimals :: u8
  tk_min_provider_count :: u64
  tk_enabled :: bool
  tk_metadata_json :: string

record provider_config =
  pc_name :: string
  pc_off_chain_ticker :: string
  pc_normalize_by_pair :: "currency_pair option"
  pc_invert :: bool
  pc_metadata_json :: string

record market =
  mk_ticker :: ticker
  mk_provider_configs :: "provider_config list"

text \<open>\<open>IndexMap<String, Market>\<close>: in insertion order.\<close>

type_synonym market_map = "(string \<times> market) list"

definition currency_pair_display :: "currency_pair \<Rightarrow> string" where
  "currency_pair_display p = cp_base p @ ''/'' @ cp_quote p"

section \<open>Actions\<close>

record fee_components =
  fc_base :: u128
  fc_multiplier :: u128

record rollup_data_submission =
  rds_rollup_id :: rollup_id
  rds_data :: bytes
  rds_fee_asset :: denom

record transfer =
  tr_to :: address
  tr_amount :: u128
  tr_asset :: denom
  tr_fee_asset :: denom

record validator_update =
  vu_power :: u32
  vu_verification_key :: verification_key
  vu_name :: string

record sudo_address_change =
  sac_new_address :: address

record ibc_relay =
  raw_action :: bytes

record ibc_sudo_change =
  isc_new_address :: address

record ibc_height =
  revision_number :: u64
  revision_height :: u64

record ics20_withdrawal =
  iw_amount :: u128
  iw_denom :: denom
  iw_destination_chain_address :: string
  iw_return_address :: address
  iw_timeout_height :: ibc_height
  iw_timeout_time :: u64
  iw_source_channel :: string
  iw_fee_asset :: denom
  iw_memo :: string
  iw_bridge_address :: "address option"
  iw_use_compat_address :: bool

datatype ibc_relayer_change = RelayerAddition address | RelayerRemoval address

datatype fee_asset_change = FeeAssetAddition denom | FeeAssetRemoval denom

record init_bridge_account =
  iba_rollup_id :: rollup_id
  iba_asset :: denom
  iba_fee_asset :: denom
  iba_sudo_address :: "address option"
  iba_withdrawer_address :: "address option"

record bridge_lock =
  bl_to :: address
  bl_amount :: u128
  bl_asset :: denom
  bl_fee_asset :: denom
  bl_destination_chain_address :: string

record bridge_unlock =
  bu_to :: address
  bu_amount :: u128
  bu_fee_asset :: denom
  bu_bridge_address :: address
  bu_memo :: string
  bu_rollup_block_number :: u64
  bu_rollup_withdrawal_event_id :: string

record bridge_sudo_change =
  bsc_bridge_address :: address
  bsc_new_sudo_address :: "address option"
  bsc_new_withdrawer_address :: "address option"
  bsc_fee_asset :: denom

record bridge_transfer =
  bt_to :: address
  bt_amount :: u128
  bt_fee_asset :: denom
  bt_destination_chain_address :: string
  bt_bridge_address :: address
  bt_rollup_block_number :: u64
  bt_rollup_withdrawal_event_id :: string

text \<open>
  \<open>FeeComponents<F>\<close> is a pair of numbers tagged with the action type \<open>F\<close>; the tag is \<open>action_type\<close>,
  one for each action (\<open>TyIbcRelay\<close> for \<open>Action::Ibc\<close>). The enum \<open>FeeChange\<close> has one variant for each
  tag, so a value of it is a tag with the two numbers.
\<close>

datatype action_type =
    TyTransfer | TyRollupDataSubmission | TyIcs20Withdrawal | TyInitBridgeAccount | TyBridgeLock
  | TyBridgeUnlock | TyBridgeSudoChange | TyIbcRelay | TyValidatorUpdate | TyFeeAssetChange
  | TyFeeChange | TyIbcRelayerChange | TySudoAddressChange | TyIbcSudoChange | TyBridgeTransfer
  | TyRecoverIbcClient | TyCurrencyPairsChange | TyMarketsChange

record fee_change =
  fch_type :: action_type
  fch_fees :: fee_components

record recover_ibc_client =
  ric_client_id :: string
  ric_replacement_client_id :: string

datatype currency_pairs_change = CpAddition "currency_pair list" | CpRemoval "currency_pair list"

datatype markets_change =
  MkCreation "market list" | MkRemoval "market list" | MkUpdate "market list"

datatype action =
    RollupDataSubmission rollup_data_submission
  | Transfer transfer
  | ValidatorUpdate validator_update
  | SudoAddressChange sudo_address_change
  | Ibc ibc_relay
  | IbcSudoChange ibc_sudo_change
  | Ics20Withdrawal ics20_withdrawal
  | IbcRelayerChange ibc_relayer_change
  | FeeAssetChange fee_asset_change
  | InitBridgeAccount init_bridge_account
  | BridgeLock bridge_lock
  | BridgeUnlock bridge_unlock
  | BridgeSudoChange bridge_sudo_change
  | BridgeTransfer bridge_transfer
  | FeeChange fee_change
  | RecoverIbcClient recover_ibc_client
  | CurrencyPairsChange currency_pairs_change
  | MarketsChange markets_change

fun type_of_action :: "action \<Rightarrow> action_type" where
  "type_of_action (RollupDataSubmission _) = TyRollupDataSubmission"
| "type_of_action (Transfer _) = TyTransfer"
| "type_of_action (ValidatorUpdate _) = TyValidatorUpdate"
| "type_of_action (SudoAddressChange _) = TySudoAddressChange"
| "type_of_action (Ibc _) = TyIbcRelay"
| "type_of_action (IbcSudoChange _) = TyIbcSudoChange"
| "type_of_action (Ics20Withdrawal _) = TyIcs20Withdrawal"
| "type_of_action (IbcRelayerChange _) = TyIbcRelayerChange"
| "type_of_action (FeeAssetChange _) = TyFeeAssetChange"
| "type_of_action (InitBridgeAccount _) = TyInitBridgeAccount"
| "type_of_action (BridgeLock _) = TyBridgeLock"
| "type_of_action (BridgeUnlock _) = TyBridgeUnlock"
| "type_of_action (BridgeSudoChange _) = TyBridgeSudoChange"
| "type_of_action (BridgeTransfer _) = TyBridgeTransfer"
| "type_of_action (FeeChange _) = TyFeeChange"
| "type_of_action (RecoverIbcClient _) = TyRecoverIbcClient"
| "type_of_action (CurrencyPairsChange _) = TyCurrencyPairsChange"
| "type_of_action (MarketsChange _) = TyMarketsChange"

section \<open>Action groups\<close>

datatype group = UnbundleableSudo | BundleableSudo | UnbundleableGeneral | BundleableGeneral

fun action_group :: "action \<Rightarrow> group" where
  "action_group (SudoAddressChange _) = UnbundleableSudo"
| "action_group (IbcSudoChange _) = UnbundleableSudo"
| "action_group (IbcRelayerChange _) = BundleableSudo"
| "action_group (FeeChange _) = BundleableSudo"
| "action_group (FeeAssetChange _) = BundleableSudo"
| "action_group (RecoverIbcClient _) = BundleableSudo"
| "action_group (CurrencyPairsChange _) = BundleableSudo"
| "action_group (MarketsChange _) = BundleableSudo"
| "action_group (InitBridgeAccount _) = UnbundleableGeneral"
| "action_group (BridgeSudoChange _) = UnbundleableGeneral"
| "action_group (RollupDataSubmission _) = BundleableGeneral"
| "action_group (Transfer _) = BundleableGeneral"
| "action_group (ValidatorUpdate _) = BundleableGeneral"
| "action_group (Ics20Withdrawal _) = BundleableGeneral"
| "action_group (BridgeLock _) = BundleableGeneral"
| "action_group (BridgeUnlock _) = BundleableGeneral"
| "action_group (BridgeTransfer _) = BundleableGeneral"
| "action_group (Ibc _) = BundleableGeneral"

text \<open>The derived order of the enum: its discriminants 1 to 4.\<close>

fun group_discriminant :: "group \<Rightarrow> nat" where
  "group_discriminant UnbundleableSudo = 1"
| "group_discriminant BundleableSudo = 2"
| "group_discriminant UnbundleableGeneral = 3"
| "group_discriminant BundleableGeneral = 4"

instantiation group :: linorder
begin

definition less_eq_group :: "group \<Rightarrow> group \<Rightarrow> bool" where
  "less_eq_group a b \<longleftrightarrow> group_discriminant a \<le> group_discriminant b"

definition less_group :: "group \<Rightarrow> group \<Rightarrow> bool" where
  "less_group a b \<longleftrightarrow> group_discriminant a < group_discriminant b"

instance
proof
  fix a b :: group
  show "a \<le> b \<Longrightarrow> b \<le> a \<Longrightarrow> a = b" by (cases a; cases b) (simp_all add: less_eq_group_def)
qed (auto simp: less_eq_group_def less_group_def)

end

definition is_bundleable :: "group \<Rightarrow> bool" where
  "is_bundleable g \<longleftrightarrow> g = BundleableGeneral \<or> g = BundleableSudo"

definition is_bundleable_sudo :: "group \<Rightarrow> bool" where
  "is_bundleable_sudo g \<longleftrightarrow> g = BundleableSudo"

datatype group_error = Mixed group group action_type | NotBundleable group | EmptyActions

record actions =
  acts_group :: group
  acts_inner :: "action list"

fun check_same_group :: "group \<Rightarrow> action list \<Rightarrow> group_error + unit" where
  "check_same_group g [] = Inr ()"
| "check_same_group g (a # rest) =
     (if action_group a \<noteq> g then Inl (Mixed g (action_group a) (type_of_action a))
      else check_same_group g rest)"

definition try_from_list_of_actions :: "action list \<Rightarrow> group_error + actions" where
  "try_from_list_of_actions acts =
     (case acts of
        [] \<Rightarrow> Inl EmptyActions
      | a # rest \<Rightarrow>
          let g = action_group a in
          if length acts > 1 \<and> \<not> is_bundleable g then Inl (NotBundleable g)
          else case check_same_group g rest of
            Inl e \<Rightarrow> Inl e
          | Inr _ \<Rightarrow> Inr \<lparr>acts_group = g, acts_inner = acts\<rparr>)"

section \<open>Transactions\<close>

text \<open>
  A signed transaction after decoding. \<open>tx_id\<close> is the hash of its protobuf encoding; the encoding is
  generated code, so the identifier is a field here.
\<close>

record transaction =
  tx_verification_key :: verification_key
  tx_actions :: actions
  tx_chain_id :: string
  tx_nonce :: u32
  tx_id :: transaction_id

definition tx_address_bytes :: "hash_fun \<Rightarrow> transaction \<Rightarrow> address_bytes" where
  "tx_address_bytes H tx = vk_address_bytes H (tx_verification_key tx)"

abbreviation tx_action_list :: "transaction \<Rightarrow> action list" where
  "tx_action_list tx \<equiv> acts_inner (tx_actions tx)"

section \<open>What the grouping rule guarantees\<close>

lemma check_same_group_Inr: "check_same_group g acts = Inr u \<longleftrightarrow> (\<forall>a\<in>set acts. action_group a = g)"
  by (induction acts) auto

text \<open>
  C21. The actions a transaction may combine: the constructor accepts exactly the non-empty lists in
  which every action has the same group, and a group that must not be bundled only alone.
\<close>

theorem try_from_list_of_actions_iff:
  "try_from_list_of_actions acts = Inr r \<longleftrightarrow>
     acts \<noteq> [] \<and> r = \<lparr>acts_group = action_group (hd acts), acts_inner = acts\<rparr> \<and>
     list_all (\<lambda>a. action_group a = action_group (hd acts)) acts \<and>
     (is_bundleable (action_group (hd acts)) \<or> length acts = 1)"
proof (cases acts)
  case (Cons a rest)
  show ?thesis
  proof (cases "check_same_group (action_group a) rest")
    case (Inl e)
    then have "\<not> (\<forall>b\<in>set rest. action_group b = action_group a)"
      using check_same_group_Inr [of "action_group a" rest "()"] by simp
    with Inl Cons show ?thesis by (auto simp: try_from_list_of_actions_def Let_def list_all_iff)
  next
    case (Inr u)
    then have "\<forall>b\<in>set rest. action_group b = action_group a" by (simp add: check_same_group_Inr)
    with Inr Cons show ?thesis by (auto simp: try_from_list_of_actions_def Let_def list_all_iff)
  qed
qed (simp add: try_from_list_of_actions_def)

end
