(* ===== verification/Seq_State.thy ===== *)
theory Seq_State
  imports Actions
begin

text \<open>
  The sequencer's state and the operations of the \<^verbatim>\<open>state_ext.rs\<close> files of \<^verbatim>\<open>crates/astria-sequencer\<close>.

  The source keeps the state in a key-value store of serialized values. The model has one field for
  each family of keys: a map from the parts of the key to the value, or a set where the value is the
  unit. Serialization (Borsh encodings
  of \<open>StoredValue\<close>) and failures of the database are not modelled, so the operations the source makes
  fallible only for their sake return their value directly. An asset is always looked up through
  its IBC form, as the source's key functions do.

  The IBC client, channel and packet state belongs to Penumbra's IBC crate. It is the field \<open>ibc\<close>, of
  an arbitrary type, on which the source calls the functions of \<open>ibc_ext\<close> only.
\<close>

section \<open>Data\<close>

record deposit =
  dep_bridge_address :: address
  dep_rollup_id :: rollup_id
  dep_amount :: u128
  dep_asset :: denom
  dep_destination_chain_address :: string
  dep_source_transaction_id :: transaction_id
  dep_source_action_index :: u64

record fee =
  fee_action :: action_type
  fee_asset_paid :: denom
  fee_amount :: u128
  fee_position_in_transaction :: u64

datatype abci_event = DepositEvent deposit | TxFeesEvent fee

record transaction_context =
  ctx_address_bytes :: address_bytes
  ctx_transaction_id :: transaction_id
  ctx_position_in_transaction :: u64

text \<open>\<open>BTreeMap<[u8; 20], ValidatorUpdate>\<close>, as an association list with one entry for each address.\<close>

type_synonym validator_set = "(address_bytes \<times> validator_update) list"

record change_info =
  ci_activation_height :: u64
  ci_name :: string
  ci_app_version :: u64
  ci_hash :: bytes

record 'i state =
  balances :: "address_bytes \<times> ibc_prefixed \<rightharpoonup> u128"
  nonces :: "address_bytes \<rightharpoonup> u32"
  base_prefix :: "string option"
  ibc_compat_prefix :: "string option"
  native_asset :: "trace_prefixed option"
  ibc_assets :: "ibc_prefixed \<rightharpoonup> trace_prefixed"
  bridge_rollup_ids :: "address_bytes \<rightharpoonup> rollup_id"
  bridge_assets :: "address_bytes \<rightharpoonup> ibc_prefixed"
  bridge_sudos :: "address_bytes \<rightharpoonup> address_bytes"
  bridge_withdrawers :: "address_bytes \<rightharpoonup> address_bytes"
  withdrawal_events :: "address_bytes \<times> string \<rightharpoonup> u64"
  cached_deposits :: "rollup_id \<rightharpoonup> deposit list"
  stored_deposits :: "bytes \<times> rollup_id \<rightharpoonup> deposit list"
  last_transaction_ids :: "address_bytes \<rightharpoonup> transaction_id"
  sudo_address :: "address_bytes option"
  block_validator_updates :: "validator_set option"
  validators :: "address_bytes \<rightharpoonup> validator_update"
  validator_count :: "u64 option"
  pre_aspen_validator_set :: "validator_set option"
  block_fees :: "fee list option"
  fees :: "action_type \<rightharpoonup> fee_components"
  allowed_fee_assets :: "ibc_prefixed set"
  channel_balances :: "string \<times> ibc_prefixed \<rightharpoonup> u128"
  ibc_sudo_address :: "address_bytes option"
  ibc_relayers :: "address_bytes set"
  chain_id :: "string option"
  block_height :: "u64 option"
  block_timestamp :: "int option"
  upgrade_changes :: "string \<times> string \<rightharpoonup> change_info"
  num_currency_pairs :: "u64 option"
  next_currency_pair_id :: "u64 option"
  currency_pair_ids :: "currency_pair \<rightharpoonup> u64"
  currency_pairs_by_id :: "u64 \<rightharpoonup> currency_pair"
  currency_pair_states :: "currency_pair \<rightharpoonup> currency_pair_state"
  stored_market_map :: "market_map option"
  market_map_last_updated :: "u64 option"
  transaction_context :: "transaction_context option"
  events :: "abci_event list"
  ibc :: 'i

end
