(* ===== verification/Ledger.thy ===== *)
theory Ledger
  imports Prelude
begin

text \<open>
  The contract of a ledger of 128-bit balances, as the sequencer's accounts and the IBC escrow keep
  them: a balance for every account and asset, an operation that adds to one balance and an operation
  that takes from one. The contract fixes what the operations do to every balance and when they fail;
  what follows for the total held of an asset is proved once, here.
\<close>

text \<open>The total held, over the accounts whose balance is not zero.\<close>

definition held :: "('a \<Rightarrow> u128) \<Rightarrow> nat" where
  "held f = (\<Sum>a | f a \<noteq> 0. unat (f a))"

abbreviation finitely_held :: "('a \<Rightarrow> u128) \<Rightarrow> bool" where
  "finitely_held f \<equiv> finite {a. f a \<noteq> 0}"

lemma held_superset: "finite A \<Longrightarrow> {a. f a \<noteq> 0} \<subseteq> A \<Longrightarrow> held f = (\<Sum>a\<in>A. unat (f a))"
  unfolding held_def by (rule sum.mono_neutral_left) auto

lemma held_upd:
  assumes "finitely_held f"
  shows "finitely_held (f(a := x))" and "held (f(a := x)) + unat (f a) = held f + unat x"
proof -
  let ?A = "insert a {a. f a \<noteq> 0}"
  have fin: "finite ?A" using assms by simp
  have sub: "{b. (f(a := x)) b \<noteq> 0} \<subseteq> ?A" by auto
  then show "finitely_held (f(a := x))" by (rule finite_subset [OF _ fin])
  have rest: "(\<Sum>b\<in>?A - {a}. unat ((f(a := x)) b)) = (\<Sum>b\<in>?A - {a}. unat (f b))"
    by (rule sum.cong) auto
  have "held (f(a := x)) = unat x + (\<Sum>b\<in>?A - {a}. unat (f b))"
    unfolding held_superset [OF fin sub] sum.remove [OF fin insertI1] rest by simp
  moreover have "held f = unat (f a) + (\<Sum>b\<in>?A - {a}. unat (f b))"
    unfolding held_superset [OF fin subset_insertI] by (rule sum.remove [OF fin insertI1])
  ultimately show "held (f(a := x)) + unat (f a) = held f + unat x" by simp
qed

lemma held_ge: "finitely_held f \<Longrightarrow> unat (f a) \<le> held f"
  using held_upd(2) [of f a 0] by simp

locale ledger =
  fixes bal :: "'s \<Rightarrow> 'a \<Rightarrow> 'k \<Rightarrow> u128"
    and inc :: "'a \<Rightarrow> 'k \<Rightarrow> u128 \<Rightarrow> 's \<Rightarrow> 's res"
    and dec :: "'a \<Rightarrow> 'k \<Rightarrow> u128 \<Rightarrow> 's \<Rightarrow> 's res"
  assumes inc_unat: "inc a k n s = Inr t \<Longrightarrow> unat (bal t a k) = unat (bal s a k) + unat n"
    and inc_other: "inc a k n s = Inr t \<Longrightarrow> (b, j) \<noteq> (a, k) \<Longrightarrow> bal t b j = bal s b j"
    and dec_unat: "dec a k n s = Inr t \<Longrightarrow> unat (bal s a k) = unat (bal t a k) + unat n"
    and dec_other: "dec a k n s = Inr t \<Longrightarrow> (b, j) \<noteq> (a, k) \<Longrightarrow> bal t b j = bal s b j"
    and inc_total: "unat (bal s a k) + unat n < 2 ^ 128 \<Longrightarrow> \<exists>t. inc a k n s = Inr t"
    and dec_total: "n \<le> bal s a k \<Longrightarrow> \<exists>t. dec a k n s = Inr t"
begin

lemma inc_held:
  assumes "inc a k n s = Inr t" "finitely_held (\<lambda>b. bal s b j)"
  shows "finitely_held (\<lambda>b. bal t b j)"
    and "held (\<lambda>b. bal t b j) = held (\<lambda>b. bal s b j) + (if j = k then unat n else 0)"
proof -
  have eq: "(\<lambda>b. bal t b j) = (\<lambda>b. bal s b j)(a := bal t a j)"
    using inc_other [OF assms(1)] by (auto simp: fun_eq_iff)
  show "finitely_held (\<lambda>b. bal t b j)"
    using held_upd(1) [OF assms(2), of a "bal t a j"] unfolding eq [symmetric] .
  have "unat (bal t a j) = unat (bal s a j) + (if j = k then unat n else 0)"
    using inc_unat [OF assms(1)] inc_other [OF assms(1), of a j] by auto
  then show "held (\<lambda>b. bal t b j) = held (\<lambda>b. bal s b j) + (if j = k then unat n else 0)"
    using held_upd(2) [OF assms(2), of a "bal t a j"] unfolding eq [symmetric] by simp
qed

lemma dec_held:
  assumes "dec a k n s = Inr t" "finitely_held (\<lambda>b. bal s b j)"
  shows "finitely_held (\<lambda>b. bal t b j)"
    and "held (\<lambda>b. bal s b j) = held (\<lambda>b. bal t b j) + (if j = k then unat n else 0)"
proof -
  have eq: "(\<lambda>b. bal t b j) = (\<lambda>b. bal s b j)(a := bal t a j)"
    using dec_other [OF assms(1)] by (auto simp: fun_eq_iff)
  show "finitely_held (\<lambda>b. bal t b j)"
    using held_upd(1) [OF assms(2), of a "bal t a j"] unfolding eq [symmetric] .
  have "unat (bal s a j) = unat (bal t a j) + (if j = k then unat n else 0)"
    using dec_unat [OF assms(1)] dec_other [OF assms(1), of a j] by auto
  then show "held (\<lambda>b. bal s b j) = held (\<lambda>b. bal t b j) + (if j = k then unat n else 0)"
    using held_upd(2) [OF assms(2), of a "bal t a j"] unfolding eq [symmetric] by simp
qed

text \<open>Moving an amount keeps what is held of every asset, also from an account to itself.\<close>

lemma move_held:
  assumes "dec a k n s = Inr u" "inc b k n u = Inr t" "finitely_held (\<lambda>c. bal s c j)"
  shows "finitely_held (\<lambda>c. bal t c j)" and "held (\<lambda>c. bal t c j) = held (\<lambda>c. bal s c j)"
  using dec_held [OF assms(1,3)] inc_held [OF assms(2), of j] by simp_all

lemma move_bal:
  assumes "dec a k n s = Inr u" "inc b k n u = Inr t" "a \<noteq> b"
  shows "unat (bal t a k) + unat n = unat (bal s a k)"
    and "unat (bal t b k) = unat (bal s b k) + unat n"
    and "(c, j) \<noteq> (a, k) \<Longrightarrow> (c, j) \<noteq> (b, k) \<Longrightarrow> bal t c j = bal s c j"
proof -
  show "unat (bal t a k) + unat n = unat (bal s a k)"
    using dec_unat [OF assms(1)] inc_other [OF assms(2), of a k] assms(3) by simp
  show "unat (bal t b k) = unat (bal s b k) + unat n"
    using inc_unat [OF assms(2)] dec_other [OF assms(1), of b k] assms(3) by simp
  show "(c, j) \<noteq> (a, k) \<Longrightarrow> (c, j) \<noteq> (b, k) \<Longrightarrow> bal t c j = bal s c j"
    using dec_other [OF assms(1)] inc_other [OF assms(2)] by simp
qed

end

end
