(* ===== verification/Seq_Ops.thy ===== *)
theory Seq_Ops
  imports Seq_State Ledger
begin

text \<open>
  The reads and writes of the \<^verbatim>\<open>state_ext.rs\<close> files, one definition for each method, in the order of
  the components: accounts, address, assets, bridge, authority, fees, ibc, app, transaction, upgrades
  and the price feed. A method that can fail for a reason other than the database returns a result;
  a message the source interpolates values into is shortened to its fixed text.
\<close>

section \<open>Accounts\<close>

definition get_account_balance :: "'i state \<Rightarrow> address_bytes \<Rightarrow> ibc_prefixed \<Rightarrow> u128" where
  "get_account_balance s a asset = (case balances s (a, asset) of None \<Rightarrow> 0 | Some b \<Rightarrow> b)"

definition get_account_nonce :: "'i state \<Rightarrow> address_bytes \<Rightarrow> u32" where
  "get_account_nonce s a = (case nonces s a of None \<Rightarrow> 0 | Some n \<Rightarrow> n)"

definition put_account_balance :: "address_bytes \<Rightarrow> ibc_prefixed \<Rightarrow> u128 \<Rightarrow> 'i state \<Rightarrow> 'i state" where
  "put_account_balance a asset balance s = s\<lparr>balances := (balances s)((a, asset) \<mapsto> balance)\<rparr>"

definition put_account_nonce :: "address_bytes \<Rightarrow> u32 \<Rightarrow> 'i state \<Rightarrow> 'i state" where
  "put_account_nonce a n s = s\<lparr>nonces := (nonces s)(a \<mapsto> n)\<rparr>"

definition increase_balance ::
  "address_bytes \<Rightarrow> ibc_prefixed \<Rightarrow> u128 \<Rightarrow> 'i state \<Rightarrow> 'i state res" where
  "increase_balance a asset amount s =
     and_then (ok_or_eyre (checked_add (get_account_balance s a asset) amount)
         ''failed to update account balance due to overflow'')
       (\<lambda>balance. Inr (put_account_balance a asset balance s))"

definition decrease_balance ::
  "address_bytes \<Rightarrow> ibc_prefixed \<Rightarrow> u128 \<Rightarrow> 'i state \<Rightarrow> 'i state res" where
  "decrease_balance a asset amount s =
     and_then (ok_or_eyre (checked_sub (get_account_balance s a asset) amount)
         ''subtracting from account balance failed due to insufficient funds'')
       (\<lambda>balance. Inr (put_account_balance a asset balance s))"

section \<open>Addresses\<close>

definition get_base_prefix :: "'i state \<Rightarrow> string res" where
  "get_base_prefix s = ok_or_eyre (base_prefix s) ''no base prefix found in state''"

definition get_ibc_compat_prefix :: "'i state \<Rightarrow> string res" where
  "get_ibc_compat_prefix s = ok_or_eyre (ibc_compat_prefix s) ''no ibc compat prefix found in state''"

definition ensure_base_prefix :: "address \<Rightarrow> 'i state \<Rightarrow> unit res" where
  "ensure_base_prefix a s =
     and_then (get_base_prefix s)
       (\<lambda>prefix. ensure (prefix = addr_prefix a) ''address prefix is not permitted'')"

definition put_base_prefix :: "string \<Rightarrow> 'i state \<Rightarrow> 'i state" where
  "put_base_prefix p s = s\<lparr>base_prefix := Some p\<rparr>"

definition put_ibc_compat_prefix :: "string \<Rightarrow> 'i state \<Rightarrow> 'i state" where
  "put_ibc_compat_prefix p s = s\<lparr>ibc_compat_prefix := Some p\<rparr>"

section \<open>Assets\<close>

definition get_native_asset :: "'i state \<Rightarrow> trace_prefixed option" where
  "get_native_asset s = native_asset s"

definition has_ibc_asset :: "'i state \<Rightarrow> ibc_prefixed \<Rightarrow> bool" where
  "has_ibc_asset s asset \<longleftrightarrow> ibc_assets s asset \<noteq> None"

definition map_ibc_to_trace_prefixed_asset :: "'i state \<Rightarrow> ibc_prefixed \<Rightarrow> trace_prefixed option" where
  "map_ibc_to_trace_prefixed_asset s asset = ibc_assets s asset"

definition put_native_asset :: "trace_prefixed \<Rightarrow> 'i state \<Rightarrow> 'i state" where
  "put_native_asset asset s = s\<lparr>native_asset := Some asset\<rparr>"

definition put_ibc_asset :: "hash_fun \<Rightarrow> trace_prefixed \<Rightarrow> 'i state \<Rightarrow> 'i state" where
  "put_ibc_asset H asset s =
     s\<lparr>ibc_assets := (ibc_assets s)(trace_to_ibc_prefixed H asset \<mapsto> asset)\<rparr>"

section \<open>Bridge accounts\<close>

definition get_bridge_account_rollup_id :: "'i state \<Rightarrow> address_bytes \<Rightarrow> rollup_id option" where
  "get_bridge_account_rollup_id s a = bridge_rollup_ids s a"

definition is_a_bridge_account :: "'i state \<Rightarrow> address_bytes \<Rightarrow> bool" where
  "is_a_bridge_account s a \<longleftrightarrow> get_bridge_account_rollup_id s a \<noteq> None"

definition get_bridge_account_ibc_asset :: "'i state \<Rightarrow> address_bytes \<Rightarrow> ibc_prefixed res" where
  "get_bridge_account_ibc_asset s a =
     ok_or_eyre (bridge_assets s a) ''bridge account asset ID not found''"

definition get_bridge_account_sudo_address :: "'i state \<Rightarrow> address_bytes \<Rightarrow> address_bytes option" where
  "get_bridge_account_sudo_address s a = bridge_sudos s a"

definition get_bridge_account_withdrawer_address ::
  "'i state \<Rightarrow> address_bytes \<Rightarrow> address_bytes option" where
  "get_bridge_account_withdrawer_address s a = bridge_withdrawers s a"

definition get_cached_block_deposits :: "'i state \<Rightarrow> rollup_id \<rightharpoonup> deposit list" where
  "get_cached_block_deposits s = cached_deposits s"

definition get_deposits :: "'i state \<Rightarrow> bytes \<Rightarrow> rollup_id \<Rightarrow> deposit list" where
  "get_deposits s block_hash r =
     (case stored_deposits s (block_hash, r) of None \<Rightarrow> [] | Some ds \<Rightarrow> ds)"

definition get_last_transaction_id_for_bridge_account ::
  "'i state \<Rightarrow> address_bytes \<Rightarrow> transaction_id option" where
  "get_last_transaction_id_for_bridge_account s a = last_transaction_ids s a"

definition put_bridge_account_rollup_id :: "address_bytes \<Rightarrow> rollup_id \<Rightarrow> 'i state \<Rightarrow> 'i state" where
  "put_bridge_account_rollup_id a r s = s\<lparr>bridge_rollup_ids := (bridge_rollup_ids s)(a \<mapsto> r)\<rparr>"

definition put_bridge_account_ibc_asset ::
  "address_bytes \<Rightarrow> ibc_prefixed \<Rightarrow> 'i state \<Rightarrow> 'i state" where
  "put_bridge_account_ibc_asset a asset s = s\<lparr>bridge_assets := (bridge_assets s)(a \<mapsto> asset)\<rparr>"

definition put_bridge_account_sudo_address ::
  "address_bytes \<Rightarrow> address_bytes \<Rightarrow> 'i state \<Rightarrow> 'i state" where
  "put_bridge_account_sudo_address a sudo s = s\<lparr>bridge_sudos := (bridge_sudos s)(a \<mapsto> sudo)\<rparr>"

definition put_bridge_account_withdrawer_address ::
  "address_bytes \<Rightarrow> address_bytes \<Rightarrow> 'i state \<Rightarrow> 'i state" where
  "put_bridge_account_withdrawer_address a withdrawer s =
     s\<lparr>bridge_withdrawers := (bridge_withdrawers s)(a \<mapsto> withdrawer)\<rparr>"

definition check_and_set_withdrawal_event_block_for_bridge_account ::
  "address_bytes \<Rightarrow> string \<Rightarrow> u64 \<Rightarrow> 'i state \<Rightarrow> 'i state res" where
  "check_and_set_withdrawal_event_block_for_bridge_account a withdrawal_event_id block_num s =
     (case withdrawal_events s (a, withdrawal_event_id) of
        Some existing_block_num \<Rightarrow> fail ''withdrawal event ID already used''
      | None \<Rightarrow>
          Inr (s\<lparr>withdrawal_events := (withdrawal_events s)((a, withdrawal_event_id) \<mapsto> block_num)\<rparr>))"

definition cache_deposit_event :: "deposit \<Rightarrow> 'i state \<Rightarrow> 'i state" where
  "cache_deposit_event d s =
     (let cached = get_cached_block_deposits s;
          entry = (case cached (dep_rollup_id d) of None \<Rightarrow> [] | Some ds \<Rightarrow> ds)
      in s\<lparr>cached_deposits := cached(dep_rollup_id d \<mapsto> entry @ [d])\<rparr>)"

definition put_deposits :: "bytes \<Rightarrow> (rollup_id \<rightharpoonup> deposit list) \<Rightarrow> 'i state \<Rightarrow> 'i state" where
  "put_deposits block_hash all_deposits s =
     s\<lparr>stored_deposits := (\<lambda>(h, r). if h = block_hash \<and> all_deposits r \<noteq> None then all_deposits r
                                   else stored_deposits s (h, r))\<rparr>"

definition put_last_transaction_id_for_bridge_account ::
  "address_bytes \<Rightarrow> transaction_id \<Rightarrow> 'i state \<Rightarrow> 'i state" where
  "put_last_transaction_id_for_bridge_account a tx s =
     s\<lparr>last_transaction_ids := (last_transaction_ids s)(a \<mapsto> tx)\<rparr>"

section \<open>Authority\<close>

definition get_sudo_address :: "'i state \<Rightarrow> address_bytes res" where
  "get_sudo_address s = ok_or_eyre (sudo_address s) ''sudo key not found''"

definition get_block_validator_updates :: "'i state \<Rightarrow> validator_set" where
  "get_block_validator_updates s =
     (case block_validator_updates s of None \<Rightarrow> [] | Some vs \<Rightarrow> vs)"

definition get_validator :: "'i state \<Rightarrow> address_bytes \<Rightarrow> validator_update option" where
  "get_validator s a = validators s a"

definition get_validator_count :: "'i state \<Rightarrow> u64 res" where
  "get_validator_count s = ok_or_eyre (validator_count s) ''validator count not found in state''"

definition pre_aspen_get_validator_set :: "'i state \<Rightarrow> validator_set res" where
  "pre_aspen_get_validator_set s = ok_or_eyre (pre_aspen_validator_set s) ''validator set not found''"

definition put_sudo_address :: "address_bytes \<Rightarrow> 'i state \<Rightarrow> 'i state" where
  "put_sudo_address a s = s\<lparr>sudo_address := Some a\<rparr>"

definition put_block_validator_updates :: "validator_set \<Rightarrow> 'i state \<Rightarrow> 'i state" where
  "put_block_validator_updates vs s = s\<lparr>block_validator_updates := Some vs\<rparr>"

definition clear_block_validator_updates :: "'i state \<Rightarrow> 'i state" where
  "clear_block_validator_updates s = s\<lparr>block_validator_updates := None\<rparr>"

definition remove_validator :: "address_bytes \<Rightarrow> 'i state \<Rightarrow> bool \<times> 'i state" where
  "remove_validator a s =
     (if validators s a = None then (False, s)
      else (True, s\<lparr>validators := (validators s)(a := None)\<rparr>))"

definition put_validator :: "hash_fun \<Rightarrow> validator_update \<Rightarrow> 'i state \<Rightarrow> 'i state" where
  "put_validator H v s =
     s\<lparr>validators := (validators s)(vk_address_bytes H (vu_verification_key v) \<mapsto> v)\<rparr>"

definition put_validator_count :: "u64 \<Rightarrow> 'i state \<Rightarrow> 'i state" where
  "put_validator_count n s = s\<lparr>validator_count := Some n\<rparr>"

definition pre_aspen_put_validator_set :: "validator_set \<Rightarrow> 'i state \<Rightarrow> 'i state" where
  "pre_aspen_put_validator_set vs s = s\<lparr>pre_aspen_validator_set := Some vs\<rparr>"

definition aspen_upgrade_remove_validator_set :: "'i state \<Rightarrow> 'i state" where
  "aspen_upgrade_remove_validator_set s = s\<lparr>pre_aspen_validator_set := None\<rparr>"

section \<open>Fees\<close>

definition get_block_fees :: "'i state \<Rightarrow> fee list" where
  "get_block_fees s = (case block_fees s of None \<Rightarrow> [] | Some fs \<Rightarrow> fs)"

definition get_fees :: "'i state \<Rightarrow> action_type \<Rightarrow> fee_components option" where
  "get_fees s ty = fees s ty"

definition is_allowed_fee_asset :: "'i state \<Rightarrow> ibc_prefixed \<Rightarrow> bool" where
  "is_allowed_fee_asset s asset \<longleftrightarrow> asset \<in> allowed_fee_assets s"

definition add_fee_to_block_fees ::
  "action_type \<Rightarrow> ibc_prefixed \<Rightarrow> u128 \<Rightarrow> u64 \<Rightarrow> 'i state \<Rightarrow> 'i state" where
  "add_fee_to_block_fees ty asset amount position s =
     (let current_fees = block_fees s;
          f = \<lparr>fee_action = ty, fee_asset_paid = IbcPrefixed asset, fee_amount = amount,
               fee_position_in_transaction = position\<rparr>;
          new_fees = (case current_fees of Some fs \<Rightarrow> fs @ [f] | None \<Rightarrow> [f])
      in s\<lparr>events := events s @ [TxFeesEvent f], block_fees := Some new_fees\<rparr>)"

definition put_fees :: "action_type \<Rightarrow> fee_components \<Rightarrow> 'i state \<Rightarrow> 'i state" where
  "put_fees ty fc s = s\<lparr>fees := (fees s)(ty \<mapsto> fc)\<rparr>"

definition delete_allowed_fee_asset :: "ibc_prefixed \<Rightarrow> 'i state \<Rightarrow> 'i state" where
  "delete_allowed_fee_asset asset s =
     s\<lparr>allowed_fee_assets := allowed_fee_assets s - {asset}\<rparr>"

definition put_allowed_fee_asset :: "ibc_prefixed \<Rightarrow> 'i state \<Rightarrow> 'i state" where
  "put_allowed_fee_asset asset s = s\<lparr>allowed_fee_assets := insert asset (allowed_fee_assets s)\<rparr>"

section \<open>IBC\<close>

definition get_ibc_channel_balance :: "'i state \<Rightarrow> string \<Rightarrow> ibc_prefixed \<Rightarrow> u128" where
  "get_ibc_channel_balance s ch asset =
     (case channel_balances s (ch, asset) of None \<Rightarrow> 0 | Some b \<Rightarrow> b)"

definition get_ibc_sudo_address :: "'i state \<Rightarrow> address_bytes res" where
  "get_ibc_sudo_address s = ok_or_eyre (ibc_sudo_address s) ''ibc sudo address not found''"

definition is_ibc_relayer :: "'i state \<Rightarrow> address_bytes \<Rightarrow> bool" where
  "is_ibc_relayer s a \<longleftrightarrow> a \<in> ibc_relayers s"

definition put_ibc_channel_balance ::
  "string \<Rightarrow> ibc_prefixed \<Rightarrow> u128 \<Rightarrow> 'i state \<Rightarrow> 'i state" where
  "put_ibc_channel_balance ch asset balance s =
     s\<lparr>channel_balances := (channel_balances s)((ch, asset) \<mapsto> balance)\<rparr>"

definition decrease_ibc_channel_balance ::
  "string \<Rightarrow> ibc_prefixed \<Rightarrow> u128 \<Rightarrow> 'i state \<Rightarrow> 'i state res" where
  "decrease_ibc_channel_balance ch asset amount s =
     and_then (ok_or_eyre (checked_sub (get_ibc_channel_balance s ch asset) amount)
         ''insufficient funds on ibc channel'')
       (\<lambda>new_balance. Inr (put_ibc_channel_balance ch asset new_balance s))"

definition put_ibc_sudo_address :: "address_bytes \<Rightarrow> 'i state \<Rightarrow> 'i state" where
  "put_ibc_sudo_address a s = s\<lparr>ibc_sudo_address := Some a\<rparr>"

definition put_ibc_relayer_address :: "address_bytes \<Rightarrow> 'i state \<Rightarrow> 'i state" where
  "put_ibc_relayer_address a s = s\<lparr>ibc_relayers := insert a (ibc_relayers s)\<rparr>"

definition delete_ibc_relayer_address :: "address_bytes \<Rightarrow> 'i state \<Rightarrow> 'i state" where
  "delete_ibc_relayer_address a s = s\<lparr>ibc_relayers := ibc_relayers s - {a}\<rparr>"

section \<open>App, transaction and upgrades\<close>

definition get_chain_id :: "'i state \<Rightarrow> string res" where
  "get_chain_id s = ok_or_eyre (chain_id s) ''chain id not found in state''"

definition get_block_height :: "'i state \<Rightarrow> u64 res" where
  "get_block_height s = ok_or_eyre (block_height s) ''block height not found in state''"

definition get_block_timestamp :: "'i state \<Rightarrow> int res" where
  "get_block_timestamp s = ok_or_eyre (block_timestamp s) ''block timestamp not found''"

definition put_block_height :: "u64 \<Rightarrow> 'i state \<Rightarrow> 'i state" where
  "put_block_height h s = s\<lparr>block_height := Some h\<rparr>"

definition put_block_timestamp :: "int \<Rightarrow> 'i state \<Rightarrow> 'i state" where
  "put_block_timestamp t s = s\<lparr>block_timestamp := Some t\<rparr>"

definition context_of_transaction :: "hash_fun \<Rightarrow> transaction \<Rightarrow> transaction_context" where
  "context_of_transaction H tx =
     \<lparr>ctx_address_bytes = tx_address_bytes H tx, ctx_transaction_id = tx_id tx,
      ctx_position_in_transaction = 0\<rparr>"

definition put_transaction_context :: "transaction_context \<Rightarrow> 'i state \<Rightarrow> 'i state" where
  "put_transaction_context c s = s\<lparr>transaction_context := Some c\<rparr>"

definition delete_current_transaction_context :: "'i state \<Rightarrow> 'i state" where
  "delete_current_transaction_context s = s\<lparr>transaction_context := None\<rparr>"

definition get_transaction_context :: "'i state \<Rightarrow> transaction_context option" where
  "get_transaction_context s = transaction_context s"

definition get_upgrade_change_info :: "'i state \<Rightarrow> string \<Rightarrow> string \<Rightarrow> change_info option" where
  "get_upgrade_change_info s upgrade_name change_name = upgrade_changes s (upgrade_name, change_name)"

definition put_upgrade_change_info ::
  "string \<Rightarrow> string \<Rightarrow> change_info \<Rightarrow> 'i state \<Rightarrow> 'i state" where
  "put_upgrade_change_info upgrade_name change_name info s =
     s\<lparr>upgrade_changes := (upgrade_changes s)((upgrade_name, change_name) \<mapsto> info)\<rparr>"

definition put_chain_id :: "string \<Rightarrow> 'i state \<Rightarrow> 'i state" where
  "put_chain_id c s = s\<lparr>chain_id := Some c\<rparr>"

section \<open>Price feed\<close>

definition get_currency_pair_id :: "'i state \<Rightarrow> currency_pair \<Rightarrow> u64 option" where
  "get_currency_pair_id s p = currency_pair_ids s p"

definition get_num_currency_pairs :: "'i state \<Rightarrow> u64" where
  "get_num_currency_pairs s = (case num_currency_pairs s of None \<Rightarrow> 0 | Some n \<Rightarrow> n)"

definition get_currency_pair_state :: "'i state \<Rightarrow> currency_pair \<Rightarrow> currency_pair_state option" where
  "get_currency_pair_state s p = currency_pair_states s p"

definition get_next_currency_pair_id :: "'i state \<Rightarrow> u64" where
  "get_next_currency_pair_id s = (case next_currency_pair_id s of None \<Rightarrow> 0 | Some n \<Rightarrow> n)"

definition put_num_currency_pairs :: "u64 \<Rightarrow> 'i state \<Rightarrow> 'i state" where
  "put_num_currency_pairs n s = s\<lparr>num_currency_pairs := Some n\<rparr>"

definition put_currency_pair_state ::
  "currency_pair \<Rightarrow> currency_pair_state \<Rightarrow> 'i state \<Rightarrow> 'i state" where
  "put_currency_pair_state p st s =
     s\<lparr>currency_pair_states := (currency_pair_states s)(p \<mapsto> st),
       currency_pair_ids := (currency_pair_ids s)(p \<mapsto> cps_id st),
       currency_pairs_by_id := (currency_pairs_by_id s)(cps_id st \<mapsto> p)\<rparr>"

definition put_next_currency_pair_id :: "u64 \<Rightarrow> 'i state \<Rightarrow> 'i state" where
  "put_next_currency_pair_id n s = s\<lparr>next_currency_pair_id := Some n\<rparr>"

definition put_price_for_currency_pair ::
  "currency_pair \<Rightarrow> quote_price \<Rightarrow> 'i state \<Rightarrow> 'i state res" where
  "put_price_for_currency_pair p price s =
     and_then (ok_or_eyre (get_currency_pair_state s p) ''currency pair state not found'') (\<lambda>st.
     and_then (ok_or_eyre (checked_add (cps_nonce st) 1) ''increment nonce overflowed'') (\<lambda>nonce.
       Inr (put_currency_pair_state p (st\<lparr>cps_price := Some price, cps_nonce := nonce\<rparr>) s)))"

definition remove_currency_pair :: "currency_pair \<Rightarrow> 'i state \<Rightarrow> bool \<times> 'i state" where
  "remove_currency_pair p s =
     (case get_currency_pair_id s p of
        None \<Rightarrow> (False, s)
      | Some i \<Rightarrow>
          (True, s\<lparr>currency_pair_ids := (currency_pair_ids s)(p := None),
                   currency_pairs_by_id := (currency_pairs_by_id s)(i := None),
                   currency_pair_states := (currency_pair_states s)(p := None)\<rparr>))"

definition get_market_map :: "'i state \<Rightarrow> market_map option" where
  "get_market_map s = stored_market_map s"

definition get_market_map_last_updated_height :: "'i state \<Rightarrow> u64" where
  "get_market_map_last_updated_height s =
     (case market_map_last_updated s of None \<Rightarrow> 0 | Some h \<Rightarrow> h)"

definition put_market_map :: "market_map \<Rightarrow> 'i state \<Rightarrow> 'i state" where
  "put_market_map m s = s\<lparr>stored_market_map := Some m\<rparr>"

definition put_market_map_last_updated_height :: "u64 \<Rightarrow> 'i state \<Rightarrow> 'i state" where
  "put_market_map_last_updated_height h s = s\<lparr>market_map_last_updated := Some h\<rparr>"

section \<open>The accounts are a ledger\<close>

interpretation accounts: ledger get_account_balance increase_balance decrease_balance
proof
  fix a b k j n and s t :: "'i state"
  show "increase_balance a k n s = Inr t \<Longrightarrow>
      unat (get_account_balance t a k) = unat (get_account_balance s a k) + unat n"
    by (auto simp: increase_balance_def put_account_balance_def get_account_balance_def int_ops)
  show "decrease_balance a k n s = Inr t \<Longrightarrow>
      unat (get_account_balance s a k) = unat (get_account_balance t a k) + unat n"
    by (auto simp: decrease_balance_def put_account_balance_def get_account_balance_def int_ops)
  show "increase_balance a k n s = Inr t \<Longrightarrow> (b, j) \<noteq> (a, k) \<Longrightarrow>
      get_account_balance t b j = get_account_balance s b j"
    by (auto simp: increase_balance_def put_account_balance_def get_account_balance_def)
  show "decrease_balance a k n s = Inr t \<Longrightarrow> (b, j) \<noteq> (a, k) \<Longrightarrow>
      get_account_balance t b j = get_account_balance s b j"
    by (auto simp: decrease_balance_def put_account_balance_def get_account_balance_def)
  show "unat (get_account_balance s a k) + unat n < 2 ^ 128 \<Longrightarrow>
      \<exists>t. increase_balance a k n s = Inr t"
    by (auto simp: increase_balance_def checked_add_def)
  show "n \<le> get_account_balance s a k \<Longrightarrow> \<exists>t. decrease_balance a k n s = Inr t"
    by (auto simp: decrease_balance_def checked_sub_def)
qed

text \<open>
  Frame conditions: the ledger operations write one field only. The two lemmas turn a successful
  call into a record update, so that a proof about any other field is by simplification.
\<close>

lemma increase_balance_frame:
  "increase_balance a k n s = Inr t \<Longrightarrow> t = s\<lparr>balances := balances t\<rparr>"
  by (auto simp: increase_balance_def put_account_balance_def)

lemma decrease_balance_frame:
  "decrease_balance a k n s = Inr t \<Longrightarrow> t = s\<lparr>balances := balances t\<rparr>"
  by (auto simp: decrease_balance_def put_account_balance_def)

end
