(* ===== verification/Handlers.thy ===== *)
theory Handlers
  imports Seq_Ops
begin

text \<open>
  The action handlers (\<^verbatim>\<open>crates/astria-sequencer/src/action_handler\<close>): \<open>check_stateless\<close> and
  \<open>check_and_execute\<close> of every action. A handler takes the state and returns the new state or the
  error. What a failing handler wrote before it failed is not part of the result: the transaction is
  executed on a delta of the state that is dropped on an error.

  Code outside the repository that the handlers call is collected in the record \<open>ext\<close>: SHA-256, the
  JSON decoder and encoder, the Bech32 encodings of an address and Penumbra's IBC component.
\<close>

section \<open>External code\<close>

record bridge_memo =
  bm_memo :: string
  bm_rollup_block_number :: u64
  bm_rollup_return_address :: string
  bm_rollup_withdrawal_event_id :: string

record fungible_token_packet_data =
  ft_denom :: string
  ft_amount :: string
  ft_sender :: string
  ft_receiver :: string
  ft_memo :: string

record ibc_packet =
  pk_source_port :: string
  pk_source_channel :: string
  pk_timeout_height :: ibc_height
  pk_timeout_timestamp :: u64
  pk_data :: bytes

datatype client_status = Active | Frozen | Expired | Unknown | Unauthorized

text \<open>The fields of a Tendermint client state that the repository reads or writes.\<close>

record client_state =
  cs_chain_id :: string
  cs_trust_level :: "u64 \<times> u64"
  cs_trusting_period :: nat
  cs_unbonding_period :: nat
  cs_max_clock_drift :: nat
  cs_latest_height :: ibc_height
  cs_proof_specs :: "bytes list"
  cs_upgrade_path :: "string list"

record 'i ext =
  sha256 :: hash_fun
  parse_bridge_memo :: "string \<Rightarrow> bridge_memo res"
  packet_to_json :: "fungible_token_packet_data \<Rightarrow> bytes res"
  bech32m_display :: "address \<Rightarrow> string"
  bech32_compat :: "string \<Rightarrow> address \<Rightarrow> string res"
  send_packet_check :: "'i \<Rightarrow> ibc_packet \<Rightarrow> int \<Rightarrow> ibc_packet res"
  send_packet_execute :: "ibc_packet \<Rightarrow> 'i \<Rightarrow> 'i"
  relay_check_stateless :: "ibc_relay \<Rightarrow> unit res"
  relay_check_and_execute :: "ibc_relay \<Rightarrow> 'i state \<Rightarrow> 'i state res"
  get_client_status :: "'i \<Rightarrow> string \<Rightarrow> int \<Rightarrow> client_status"
  get_client_state :: "'i \<Rightarrow> string \<Rightarrow> client_state res"
  get_verified_consensus_state :: "'i \<Rightarrow> ibc_height \<Rightarrow> string \<Rightarrow> bytes res"
  put_verified_consensus_state :: "ibc_height \<Rightarrow> string \<Rightarrow> bytes \<Rightarrow> 'i \<Rightarrow> 'i res"
  put_client :: "string \<Rightarrow> client_state \<Rightarrow> 'i \<Rightarrow> 'i"

text \<open>The IBC form of an asset, under the hash function of \<open>E\<close>.\<close>

abbreviation ibc_of :: "'i ext \<Rightarrow> denom \<Rightarrow> ibc_prefixed" where
  "ibc_of E d \<equiv> to_ibc_prefixed (sha256 E) d"

section \<open>The signer\<close>

text \<open>Every handler starts by reading the signer's address, and panics without a context.\<close>

definition signer :: "'i state \<Rightarrow> address_bytes res" where
  "signer s =
     and_then (expect (get_transaction_context s)
         ''transaction source must be present in state when executing an action'')
       (\<lambda>c. Inr (ctx_address_bytes c))"

lemma signer_Inr_iff [simp]:
  "signer s = Inr a \<longleftrightarrow> (\<exists>c. transaction_context s = Some c \<and> ctx_address_bytes c = a)"
  by (auto simp: signer_def get_transaction_context_def)

definition ensure_base_prefix_opt :: "address option \<Rightarrow> 'i state \<Rightarrow> unit res" where
  "ensure_base_prefix_opt a s = (case a of None \<Rightarrow> Inr () | Some a' \<Rightarrow> ensure_base_prefix a' s)"

section \<open>Transfers\<close>

definition execute_transfer :: "'i ext \<Rightarrow> transfer \<Rightarrow> address_bytes \<Rightarrow> 'i state \<Rightarrow> 'i state res" where
  "execute_transfer E act from s =
     and_then (decrease_balance from (ibc_of E (tr_asset act)) (tr_amount act) s)
       (increase_balance (addr_bytes (tr_to act)) (ibc_of E (tr_asset act)) (tr_amount act))"

definition check_transfer :: "'i ext \<Rightarrow> transfer \<Rightarrow> address_bytes \<Rightarrow> 'i state \<Rightarrow> unit res" where
  "check_transfer E act from s =
     and_then (ensure_base_prefix (tr_to act) s) (\<lambda>_.
     and_then
       (if is_a_bridge_account s from then
          and_then (ok_or_eyre (get_transaction_context s) ''failed to get transaction context'') (\<lambda>c.
          and_then (ok_or_eyre (get_bridge_account_withdrawer_address s from)
              ''bridge account must have a withdrawer address set'') (\<lambda>withdrawer.
          ensure (ctx_address_bytes c = withdrawer)
            ''signer is not the authorized withdrawer for the bridge account''))
        else Inr ()) (\<lambda>_.
     ensure (tr_amount act \<le> get_account_balance s from (ibc_of E (tr_asset act)))
       ''insufficient funds for transfer''))"

definition transfer_check_and_execute :: "'i ext \<Rightarrow> transfer \<Rightarrow> 'i state \<Rightarrow> 'i state res" where
  "transfer_check_and_execute E act s =
     and_then (signer s) (\<lambda>from.
     and_then (ensure (get_bridge_account_rollup_id s from = None)
         ''cannot transfer out of bridge account; BridgeUnlock must be used'') (\<lambda>_.
     and_then (check_transfer E act from s) (\<lambda>_.
     execute_transfer E act from s)))"

section \<open>Rollup data\<close>

definition rollup_data_submission_check_stateless :: "rollup_data_submission \<Rightarrow> unit res" where
  "rollup_data_submission_check_stateless act =
     ensure (rds_data act \<noteq> []) ''cannot have empty data for sequence action''"

definition rollup_data_submission_check_and_execute ::
  "rollup_data_submission \<Rightarrow> 'i state \<Rightarrow> 'i state res" where
  "rollup_data_submission_check_and_execute act s = Inr s"

section \<open>Bridge actions\<close>

definition execute_bridge_lock :: "'i ext \<Rightarrow> bridge_lock \<Rightarrow> 'i state \<Rightarrow> 'i state res" where
  "execute_bridge_lock E act s =
     and_then (signer s) (\<lambda>from.
     and_then (ok_or_eyre (get_bridge_account_rollup_id s (addr_bytes (bl_to act)))
         ''bridge lock must be sent to a bridge account'') (\<lambda>rid.
     and_then (expect (get_transaction_context s)
         ''current source should be set before executing action'') (\<lambda>c.
     and_then
       (case bl_asset act of
          TracePrefixed asset \<Rightarrow> Inr asset
        | IbcPrefixed asset \<Rightarrow>
            ok_or_eyre (map_ibc_to_trace_prefixed_asset s asset)
              ''mapping from IBC prefixed bridge asset to trace prefixed not found'') (\<lambda>deposit_asset.
     let d = \<lparr>dep_bridge_address = bl_to act, dep_rollup_id = rid, dep_amount = bl_amount act,
              dep_asset = TracePrefixed deposit_asset,
              dep_destination_chain_address = bl_destination_chain_address act,
              dep_source_transaction_id = ctx_transaction_id c,
              dep_source_action_index = ctx_position_in_transaction c\<rparr>;
         transfer_action = \<lparr>tr_to = bl_to act, tr_amount = bl_amount act, tr_asset = bl_asset act,
                            tr_fee_asset = bl_fee_asset act\<rparr> in
     and_then (check_transfer E transfer_action from s) (\<lambda>_.
     and_then (execute_transfer E transfer_action from s) (\<lambda>s1.
     Inr ((cache_deposit_event d s1)\<lparr>events := events s1 @ [DepositEvent d]\<rparr>)))))))"

definition bridge_lock_check_and_execute :: "'i ext \<Rightarrow> bridge_lock \<Rightarrow> 'i state \<Rightarrow> 'i state res" where
  "bridge_lock_check_and_execute E act s =
     and_then (signer s) (\<lambda>from.
     and_then (ensure (\<not> is_a_bridge_account s from) ''bridge accounts cannot send bridge locks'') (\<lambda>_.
     and_then (ensure_base_prefix (bl_to act) s) (\<lambda>_.
     and_then (get_bridge_account_ibc_asset s (addr_bytes (bl_to act))) (\<lambda>allowed_asset.
     and_then (ensure (allowed_asset = ibc_of E (bl_asset act))
         ''asset ID is not authorized for transfer to bridge account'') (\<lambda>_.
     execute_bridge_lock E act s)))))"

definition bridge_unlock_check_stateless :: "bridge_unlock \<Rightarrow> unit res" where
  "bridge_unlock_check_stateless act =
     and_then (ensure (bu_amount act > 0) ''amount must be greater than zero'') (\<lambda>_.
     and_then (ensure (length (bu_memo act) \<le> 64) ''memo must not be more than 64 bytes'') (\<lambda>_.
     and_then (ensure (bu_rollup_withdrawal_event_id act \<noteq> [])
         ''rollup withdrawal event id must be non-empty'') (\<lambda>_.
     and_then (ensure (length (bu_rollup_withdrawal_event_id act) \<le> 256)
         ''rollup withdrawal event id must not be more than 256 bytes'') (\<lambda>_.
     ensure (bu_rollup_block_number act > 0) ''rollup block number must be greater than zero''))))"

definition check_bridge_unlock :: "bridge_unlock \<Rightarrow> 'i state \<Rightarrow> unit res" where
  "check_bridge_unlock act s =
     and_then (ensure_base_prefix (bu_to act) s) (\<lambda>_.
     ensure_base_prefix (bu_bridge_address act) s)"

definition bridge_unlock_check_and_execute :: "'i ext \<Rightarrow> bridge_unlock \<Rightarrow> 'i state \<Rightarrow> 'i state res" where
  "bridge_unlock_check_and_execute E act s =
     and_then (check_bridge_unlock act s) (\<lambda>_.
     and_then (ensure (\<not> is_a_bridge_account s (addr_bytes (bu_to act)))
         ''bridge accounts cannot receive bridge unlocks'') (\<lambda>_.
     and_then (get_bridge_account_ibc_asset s (addr_bytes (bu_bridge_address act))) (\<lambda>asset.
     let transfer_action = \<lparr>tr_to = bu_to act, tr_amount = bu_amount act,
                            tr_asset = IbcPrefixed asset, tr_fee_asset = bu_fee_asset act\<rparr> in
     and_then (check_transfer E transfer_action (addr_bytes (bu_bridge_address act)) s) (\<lambda>_.
     and_then (check_and_set_withdrawal_event_block_for_bridge_account
         (addr_bytes (bu_bridge_address act)) (bu_rollup_withdrawal_event_id act)
         (bu_rollup_block_number act) s) (\<lambda>s1.
     execute_transfer E transfer_action (addr_bytes (bu_bridge_address act)) s1)))))"

definition unlock_of_transfer :: "bridge_transfer \<Rightarrow> bridge_unlock" where
  "unlock_of_transfer act =
     \<lparr>bu_to = bt_to act, bu_amount = bt_amount act, bu_fee_asset = bt_fee_asset act,
      bu_bridge_address = bt_bridge_address act, bu_memo = [],
      bu_rollup_block_number = bt_rollup_block_number act,
      bu_rollup_withdrawal_event_id = bt_rollup_withdrawal_event_id act\<rparr>"

definition bridge_transfer_check_stateless :: "bridge_transfer \<Rightarrow> unit res" where
  "bridge_transfer_check_stateless act = bridge_unlock_check_stateless (unlock_of_transfer act)"

definition bridge_transfer_check_and_execute ::
  "'i ext \<Rightarrow> bridge_transfer \<Rightarrow> 'i state \<Rightarrow> 'i state res" where
  "bridge_transfer_check_and_execute E act s =
     and_then (check_bridge_unlock (unlock_of_transfer act) s) (\<lambda>_.
     and_then (get_bridge_account_ibc_asset s (addr_bytes (bt_bridge_address act))) (\<lambda>from_asset.
     and_then (get_bridge_account_ibc_asset s (addr_bytes (bt_to act))) (\<lambda>to_asset.
     and_then (ensure (from_asset = to_asset) ''bridge accounts must have the same asset'') (\<lambda>_.
     and_then (check_and_set_withdrawal_event_block_for_bridge_account
         (addr_bytes (bt_bridge_address act)) (bt_rollup_withdrawal_event_id act)
         (bt_rollup_block_number act) s) (\<lambda>s1.
     execute_bridge_lock E \<lparr>bl_to = bt_to act, bl_amount = bt_amount act,
         bl_asset = IbcPrefixed from_asset, bl_fee_asset = bt_fee_asset act,
         bl_destination_chain_address = bt_destination_chain_address act\<rparr> s1)))))"

definition put_opt :: "'a option \<Rightarrow> ('a \<Rightarrow> 's \<Rightarrow> 's) \<Rightarrow> 's \<Rightarrow> 's" where
  "put_opt x put s = (case x of None \<Rightarrow> s | Some v \<Rightarrow> put v s)"

definition bridge_sudo_change_check_and_execute ::
  "bridge_sudo_change \<Rightarrow> 'i state \<Rightarrow> 'i state res" where
  "bridge_sudo_change_check_and_execute act s =
     and_then (signer s) (\<lambda>from.
     and_then (ensure_base_prefix (bsc_bridge_address act) s) (\<lambda>_.
     and_then (ensure_base_prefix_opt (bsc_new_sudo_address act) s) (\<lambda>_.
     and_then (ensure_base_prefix_opt (bsc_new_withdrawer_address act) s) (\<lambda>_.
     and_then (ok_or_eyre (get_bridge_account_sudo_address s (addr_bytes (bsc_bridge_address act)))
         ''bridge account does not have an associated sudo address'') (\<lambda>sudo.
     and_then (ensure (sudo = from) ''unauthorized for bridge sudo change action'') (\<lambda>_.
     let bridge = addr_bytes (bsc_bridge_address act);
         s1 = put_opt (bsc_new_sudo_address act)
                (\<lambda>a. put_bridge_account_sudo_address bridge (addr_bytes a)) s;
         s2 = put_opt (bsc_new_withdrawer_address act)
                (\<lambda>a. put_bridge_account_withdrawer_address bridge (addr_bytes a)) s1
     in Inr s2))))))"

definition init_bridge_account_check_and_execute ::
  "'i ext \<Rightarrow> init_bridge_account \<Rightarrow> 'i state \<Rightarrow> 'i state res" where
  "init_bridge_account_check_and_execute E act s =
     and_then (signer s) (\<lambda>from.
     and_then (ensure_base_prefix_opt (iba_withdrawer_address act) s) (\<lambda>_.
     and_then (ensure_base_prefix_opt (iba_sudo_address act) s) (\<lambda>_.
     and_then (ensure (get_bridge_account_rollup_id s from = None)
         ''bridge account already exists'') (\<lambda>_.
     let s1 = put_bridge_account_rollup_id from (iba_rollup_id act) s;
         s2 = put_bridge_account_ibc_asset from (ibc_of E (iba_asset act)) s1;
         s3 = put_bridge_account_sudo_address from
                (case iba_sudo_address act of None \<Rightarrow> from | Some a \<Rightarrow> addr_bytes a) s2;
         s4 = put_bridge_account_withdrawer_address from
                (case iba_withdrawer_address act of None \<Rightarrow> from | Some a \<Rightarrow> addr_bytes a) s3
     in Inr s4))))"

end
