(* ===== verification/Admin_Handlers.thy ===== *)
theory Admin_Handlers
  imports Handlers
begin

text \<open>
  The handlers of the administrative actions (\<^verbatim>\<open>action_handler/impls\<close>): sudo and IBC sudo changes, IBC
  relayer changes, fee and fee asset changes, validator updates, the recovery of an IBC client, and
  the changes of the price feed's currency pairs and markets; and the authority component's
  \<open>ValidatorSet\<close> (\<^verbatim>\<open>authority/mod.rs\<close>).
\<close>

section \<open>Validator sets\<close>

definition validator_set_new_from_updates :: "hash_fun \<Rightarrow> validator_update list \<Rightarrow> validator_set" where
  "validator_set_new_from_updates H updates =
     foldl (\<lambda>vs u. AList.update (vk_address_bytes H (vu_verification_key u)) u vs) [] updates"

definition validator_set_len :: "validator_set \<Rightarrow> nat" where
  "validator_set_len vs = length vs"

definition validator_set_insert :: "hash_fun \<Rightarrow> validator_update \<Rightarrow> validator_set \<Rightarrow> validator_set" where
  "validator_set_insert H u vs = AList.update (vk_address_bytes H (vu_verification_key u)) u vs"

definition validator_set_remove :: "address_bytes \<Rightarrow> validator_set \<Rightarrow> validator_set" where
  "validator_set_remove a vs = AList.delete a vs"

text \<open>Power 0 removes a validator, any other power inserts or replaces it.\<close>

definition apply_updates :: "validator_set \<Rightarrow> validator_set \<Rightarrow> validator_set" where
  "apply_updates validator_updates vs =
     foldl (\<lambda>vs' (a, u). if vu_power u = 0 then AList.delete a vs' else AList.update a u vs')
       vs validator_updates"

section \<open>Sudo addresses\<close>

definition sudo_address_change_check_and_execute ::
  "sudo_address_change \<Rightarrow> 'i state \<Rightarrow> 'i state res" where
  "sudo_address_change_check_and_execute act s =
     and_then (signer s) (\<lambda>from.
     and_then (ensure_base_prefix (sac_new_address act) s) (\<lambda>_.
     and_then (get_sudo_address s) (\<lambda>sudo.
     and_then (ensure (sudo = from) ''signer is not the sudo key'') (\<lambda>_.
     Inr (put_sudo_address (addr_bytes (sac_new_address act)) s)))))"

definition ibc_sudo_change_check_and_execute :: "ibc_sudo_change \<Rightarrow> 'i state \<Rightarrow> 'i state res" where
  "ibc_sudo_change_check_and_execute act s =
     and_then (signer s) (\<lambda>from.
     and_then (ensure_base_prefix (isc_new_address act) s) (\<lambda>_.
     and_then (get_sudo_address s) (\<lambda>sudo.
     and_then (ensure (sudo = from) ''signer is not the sudo key'') (\<lambda>_.
     Inr (put_ibc_sudo_address (addr_bytes (isc_new_address act)) s)))))"

fun relayer_change_address :: "ibc_relayer_change \<Rightarrow> address" where
  "relayer_change_address (RelayerAddition a) = a"
| "relayer_change_address (RelayerRemoval a) = a"

definition ibc_relayer_change_check_and_execute ::
  "ibc_relayer_change \<Rightarrow> 'i state \<Rightarrow> 'i state res" where
  "ibc_relayer_change_check_and_execute act s =
     and_then (signer s) (\<lambda>from.
     and_then (ensure_base_prefix (relayer_change_address act) s) (\<lambda>_.
     and_then (get_ibc_sudo_address s) (\<lambda>ibc_sudo.
     and_then (ensure (ibc_sudo = from) ''unauthorized address for IBC relayer change'') (\<lambda>_.
     Inr (case act of
            RelayerAddition a \<Rightarrow> put_ibc_relayer_address (addr_bytes a) s
          | RelayerRemoval a \<Rightarrow> delete_ibc_relayer_address (addr_bytes a) s)))))"

section \<open>Fees\<close>

definition fee_asset_change_check_and_execute ::
  "'i ext \<Rightarrow> fee_asset_change \<Rightarrow> 'i state \<Rightarrow> 'i state res" where
  "fee_asset_change_check_and_execute E act s =
     and_then (signer s) (\<lambda>from.
     and_then (get_sudo_address s) (\<lambda>sudo.
     and_then (ensure (sudo = from) ''unauthorized address for fee asset change'') (\<lambda>_.
     case act of
       FeeAssetAddition asset \<Rightarrow> Inr (put_allowed_fee_asset (ibc_of E asset) s)
     | FeeAssetRemoval asset \<Rightarrow>
         let s1 = delete_allowed_fee_asset (ibc_of E asset) s in
         and_then (ensure (allowed_fee_assets s1 \<noteq> {})
             ''cannot remove last allowed fee asset'') (\<lambda>_. Inr s1))))"

definition fee_change_check_and_execute :: "fee_change \<Rightarrow> 'i state \<Rightarrow> 'i state res" where
  "fee_change_check_and_execute act s =
     and_then (signer s) (\<lambda>from.
     and_then (get_sudo_address s) (\<lambda>sudo.
     and_then (ensure (sudo = from) ''signer is not the sudo key'') (\<lambda>_.
     Inr (put_fees (fch_type act) (fch_fees act) s))))"

section \<open>Validators\<close>

text \<open>The names \<open>Aspen::NAME\<close> and \<open>ValidatorUpdateActionChange::NAME\<close>.\<close>

definition aspen_name :: string where
  "aspen_name = ''aspen''"

definition validator_update_action_change_name :: string where
  "validator_update_action_change_name = ''validator_update_action_change''"

definition use_pre_aspen_validator_updates :: "'i state \<Rightarrow> bool" where
  "use_pre_aspen_validator_updates s \<longleftrightarrow>
     get_upgrade_change_info s aspen_name validator_update_action_change_name = None"

definition validator_update_check_and_execute ::
  "'i ext \<Rightarrow> validator_update \<Rightarrow> 'i state \<Rightarrow> 'i state res" where
  "validator_update_check_and_execute E act s =
     and_then (signer s) (\<lambda>from.
     and_then (get_sudo_address s) (\<lambda>sudo.
     and_then (ensure (sudo = from) ''signer is not the sudo key'') (\<lambda>_.
     let a = vk_address_bytes (sha256 E) (vu_verification_key act) in
     and_then
       (if use_pre_aspen_validator_updates s then
          if vu_power act = 0 then
            and_then (pre_aspen_get_validator_set s) (\<lambda>vs.
            and_then (ensure (map_of vs a \<noteq> None) ''cannot remove a non-existing validator'') (\<lambda>_.
            and_then (ensure (validator_set_len vs \<noteq> 1) ''cannot remove the last validator'') (\<lambda>_.
            Inr s)))
          else Inr s
        else
          and_then (get_validator_count s) (\<lambda>count.
          if vu_power act = 0 then
            and_then (ensure (count > 1) ''cannot remove the last validator'') (\<lambda>_.
            let (removed, s1) = remove_validator a s in
            and_then (ensure removed ''cannot remove a non-existing validator'') (\<lambda>_.
            Inr (put_validator_count (saturating_sub count 1) s1)))
          else
            let s1 = (if get_validator s a \<noteq> None then s
                      else put_validator_count (saturating_add count 1) s) in
            Inr (put_validator (sha256 E) act s1))) (\<lambda>s2.
     Inr (put_block_validator_updates
            (validator_set_insert (sha256 E) act (get_block_validator_updates s2)) s2)))))"

section \<open>Recovery of an IBC client\<close>

definition height_less :: "ibc_height \<Rightarrow> ibc_height \<Rightarrow> bool" where
  "height_less a b \<longleftrightarrow>
     revision_number a < revision_number b \<or>
     (revision_number a = revision_number b \<and> revision_height a < revision_height b)"

definition ensure_required_client_state_fields_match ::
  "client_state \<Rightarrow> client_state \<Rightarrow> unit res" where
  "ensure_required_client_state_fields_match c r =
     and_then (ensure (cs_trust_level c = cs_trust_level r)
         ''substitute client trust level must match subject client trust level'') (\<lambda>_.
     and_then (ensure (cs_unbonding_period c = cs_unbonding_period r)
         ''substitute client unbonding period must match subject client unbonding period'') (\<lambda>_.
     and_then (ensure (cs_max_clock_drift c = cs_max_clock_drift r)
         ''substitute client max clock drift must match subject client max clock drift'') (\<lambda>_.
     and_then (ensure (cs_proof_specs c = cs_proof_specs r)
         ''substitute client proof specs must match subject client proof specs'') (\<lambda>_.
     ensure (cs_upgrade_path c = cs_upgrade_path r)
         ''substitute client upgrade path must match subject client upgrade path''))))"

definition recover_ibc_client_check_and_execute ::
  "'i ext \<Rightarrow> recover_ibc_client \<Rightarrow> 'i state \<Rightarrow> 'i state res" where
  "recover_ibc_client_check_and_execute E act s =
     and_then (signer s) (\<lambda>from.
     and_then (get_sudo_address s) (\<lambda>sudo.
     and_then (ensure (from = sudo) ''only the sudo address can recover a client'') (\<lambda>_.
     and_then (get_block_timestamp s) (\<lambda>timestamp.
     and_then (ensure (get_client_status E (ibc s) (ric_client_id act) timestamp \<noteq> Active)
         ''cannot recover an active client'') (\<lambda>_.
     and_then (ensure (get_client_status E (ibc s) (ric_replacement_client_id act) timestamp = Active)
         ''substitute client must be active'') (\<lambda>_.
     and_then (get_client_state E (ibc s) (ric_client_id act)) (\<lambda>c.
     and_then (get_client_state E (ibc s) (ric_replacement_client_id act)) (\<lambda>r.
     and_then (ensure (height_less (cs_latest_height c) (cs_latest_height r))
         ''substitute client must have a higher height than that of subject client'') (\<lambda>_.
     and_then (ensure_required_client_state_fields_match c r) (\<lambda>_.
     and_then (get_verified_consensus_state E (ibc s) (cs_latest_height r)
         (ric_replacement_client_id act)) (\<lambda>consensus_state.
     and_then (put_verified_consensus_state E (cs_latest_height r) (ric_client_id act)
         consensus_state (ibc s)) (\<lambda>i1.
     Inr (s\<lparr>ibc := put_client E (ric_client_id act)
              (c\<lparr>cs_latest_height := cs_latest_height r, cs_trusting_period := cs_trusting_period r,
                cs_chain_id := cs_chain_id r\<rparr>) i1\<rparr>)))))))))))))"

section \<open>Price feed\<close>

definition validate_signer_is_sudo :: "'i state \<Rightarrow> unit res" where
  "validate_signer_is_sudo s =
     and_then (signer s) (\<lambda>from.
     and_then (get_sudo_address s) (\<lambda>sudo.
     ensure (sudo = from) ''signer is not the sudo key''))"

text \<open>The loop of the addition: the state, the next identifier and the number of pairs.\<close>

definition add_currency_pair ::
  "currency_pair \<Rightarrow> 'i state \<times> u64 \<times> u64 \<Rightarrow> ('i state \<times> u64 \<times> u64) res" where
  "add_currency_pair pair = (\<lambda>(s, next_id, num).
     if get_currency_pair_state s pair \<noteq> None then Inr (s, next_id, num)
     else
       let s1 = put_currency_pair_state pair
                  \<lparr>cps_price = None, cps_nonce = 0, cps_id = next_id\<rparr> s in
       and_then (ok_or_eyre (checked_add num 1)
           ''overflow when incrementing number of currency pairs'') (\<lambda>num1.
       and_then (ok_or_eyre (checked_add next_id 1)
           ''overflow when incrementing next currency pair id'') (\<lambda>next1.
       Inr (s1, next1, num1))))"

definition check_and_execute_currency_pairs_addition ::
  "currency_pair list \<Rightarrow> 'i state \<Rightarrow> 'i state res" where
  "check_and_execute_currency_pairs_addition pairs s =
     and_then (validate_signer_is_sudo s) (\<lambda>_.
     and_then (fold_res add_currency_pair pairs
         (s, get_next_currency_pair_id s, get_num_currency_pairs s)) (\<lambda>(s1, next_id, num).
     Inr (put_num_currency_pairs num (put_next_currency_pair_id next_id s1))))"

definition remove_one_currency_pair ::
  "currency_pair \<Rightarrow> 'i state \<times> u64 \<Rightarrow> ('i state \<times> u64) res" where
  "remove_one_currency_pair pair = (\<lambda>(s, num).
     let (removed, s1) = remove_currency_pair pair s in
     if removed then
       and_then (ok_or_eyre (checked_sub num 1)
           ''failed to decrement number of currency pairs'') (\<lambda>num1. Inr (s1, num1))
     else Inr (s1, num))"

definition check_and_execute_currency_pairs_removal ::
  "currency_pair list \<Rightarrow> 'i state \<Rightarrow> 'i state res" where
  "check_and_execute_currency_pairs_removal pairs s =
     and_then (validate_signer_is_sudo s) (\<lambda>_.
     and_then (ensure (length pairs \<le> unat (get_num_currency_pairs s))
         ''cannot remove more currency pairs than exist'') (\<lambda>_.
     and_then (fold_res remove_one_currency_pair pairs (s, get_num_currency_pairs s)) (\<lambda>(s1, num).
     Inr (put_num_currency_pairs num s1))))"

definition currency_pairs_change_check_and_execute ::
  "currency_pairs_change \<Rightarrow> 'i state \<Rightarrow> 'i state res" where
  "currency_pairs_change_check_and_execute act s =
     (case act of
        CpAddition pairs \<Rightarrow> check_and_execute_currency_pairs_addition pairs s
      | CpRemoval pairs \<Rightarrow> check_and_execute_currency_pairs_removal pairs s)"

abbreviation ticker_key :: "market \<Rightarrow> string" where
  "ticker_key m \<equiv> currency_pair_display (tk_currency_pair (mk_ticker m))"

definition create_market :: "market \<Rightarrow> market_map \<Rightarrow> market_map res" where
  "create_market m mm =
     (if map_of mm (ticker_key m) \<noteq> None then fail ''market for ticker already exists''
      else Inr (AList.update (ticker_key m) m mm))"

definition update_market :: "market \<Rightarrow> market_map \<Rightarrow> market_map res" where
  "update_market m mm =
     (if map_of mm (ticker_key m) = None then fail ''market for ticker not found in market map''
      else Inr (AList.update (ticker_key m) m mm))"

definition change_markets :: "markets_change \<Rightarrow> market_map \<Rightarrow> market_map res" where
  "change_markets act mm =
     (case act of
        MkCreation ms \<Rightarrow> fold_res create_market ms mm
      | MkRemoval ms \<Rightarrow> Inr (foldl (\<lambda>mm' m. AList.delete (ticker_key m) mm') mm ms)
      | MkUpdate ms \<Rightarrow>
          and_then (ensure (mm \<noteq> []) ''market map is empty'') (\<lambda>_. fold_res update_market ms mm))"

definition markets_change_check_and_execute :: "markets_change \<Rightarrow> 'i state \<Rightarrow> 'i state res" where
  "markets_change_check_and_execute act s =
     and_then (signer s) (\<lambda>from.
     and_then (get_sudo_address s) (\<lambda>sudo.
     and_then (ensure (sudo = from) ''signer is not the sudo key'') (\<lambda>_.
     and_then (ok_or_eyre (get_market_map s) ''market map not found in state'') (\<lambda>mm.
     and_then (change_markets act mm) (\<lambda>mm1.
     and_then (get_block_height s) (\<lambda>height.
     Inr (put_market_map_last_updated_height height (put_market_map mm1 s))))))))"

end
