(* ===== verification/Withdrawal.thy ===== *)
theory Withdrawal
  imports Handlers
begin

text \<open>
  Withdrawals over IBC (\<^verbatim>\<open>action_handler/impls/ics20_withdrawal.rs\<close>): which account the funds are taken
  from, when they are escrowed on the channel, and the packet that is sent.
\<close>

section \<open>The model\<close>

function u128_display :: "nat \<Rightarrow> string" where
  "u128_display n =
     (if n < 10 then [char_of (48 + n)] else u128_display (n div 10) @ [char_of (48 + n mod 10)])"
  by pat_completeness auto
termination by (relation "measure id") auto

declare u128_display.simps [simp del]

definition ics20_withdrawal_check_stateless :: "'i ext \<Rightarrow> ics20_withdrawal \<Rightarrow> unit res" where
  "ics20_withdrawal_check_stateless E act =
     and_then (ensure (iw_timeout_time act \<noteq> 0) ''timeout time must be non-zero'') (\<lambda>_.
     and_then (ensure (iw_amount act > 0) ''amount must be greater than zero'') (\<lambda>_.
     if iw_bridge_address act \<noteq> None then
       and_then (parse_bridge_memo E (iw_memo act)) (\<lambda>memo.
       and_then (ensure (bm_rollup_return_address memo \<noteq> [])
           ''rollup return address must be non-empty'') (\<lambda>_.
       and_then (ensure (length (bm_rollup_return_address memo) \<le> 256)
           ''rollup return address must be no more than 256 bytes'') (\<lambda>_.
       and_then (ensure (bm_rollup_withdrawal_event_id memo \<noteq> [])
           ''rollup withdrawal event id must be non-empty'') (\<lambda>_.
       and_then (ensure (length (bm_rollup_withdrawal_event_id memo) \<le> 256)
           ''rollup withdrawal event id must be no more than 256 bytes'') (\<lambda>_.
       ensure (bm_rollup_block_number memo \<noteq> 0) ''rollup block number must be non-zero'')))))
     else Inr ()))"

definition create_ibc_packet_from_withdrawal ::
  "'i ext \<Rightarrow> ics20_withdrawal \<Rightarrow> 'i state \<Rightarrow> ibc_packet res" where
  "create_ibc_packet_from_withdrawal E w s =
     and_then
       (if iw_use_compat_address w then
          and_then (get_ibc_compat_prefix s) (\<lambda>prefix. bech32_compat E prefix (iw_return_address w))
        else Inr (bech32m_display E (iw_return_address w))) (\<lambda>sender.
     and_then (packet_to_json E
         \<lparr>ft_denom = denom_display (iw_denom w), ft_amount = u128_display (unat (iw_amount w)),
          ft_sender = sender, ft_receiver = iw_destination_chain_address w,
          ft_memo = iw_memo w\<rparr>) (\<lambda>serialized_packet_data.
     Inr \<lparr>pk_source_port = ''transfer'', pk_source_channel = iw_source_channel w,
          pk_timeout_height = iw_timeout_height w, pk_timeout_timestamp = iw_timeout_time w,
          pk_data = serialized_packet_data\<rparr>))"

definition establish_withdrawal_target ::
  "ics20_withdrawal \<Rightarrow> 'i state \<Rightarrow> address_bytes \<Rightarrow> address_bytes res" where
  "establish_withdrawal_target act s from =
     (case iw_bridge_address act of
        Some bridge_address \<Rightarrow>
          and_then (ok_or_eyre (get_bridge_account_withdrawer_address s (addr_bytes bridge_address))
              ''bridge address must have a withdrawer address set'') (\<lambda>withdrawer.
          and_then (ensure (withdrawer = from)
              ''sender does not match bridge withdrawer address; unauthorized'') (\<lambda>_.
          Inr (addr_bytes bridge_address)))
      | None \<Rightarrow>
          and_then (ensure (\<not> is_a_bridge_account s from)
              ''sender cannot be a bridge address if bridge address is not set'') (\<lambda>_.
          Inr from))"

definition is_source :: "string \<Rightarrow> string \<Rightarrow> denom \<Rightarrow> bool" where
  "is_source source_port source_channel asset =
     (case asset of
        TracePrefixed t \<Rightarrow>
          \<not> has_leading_port t source_port \<or> \<not> has_leading_channel t source_channel
      | IbcPrefixed _ \<Rightarrow> False)"

text \<open>
  The handler, with its two blocks that write before the packet is sent named: the withdrawal event
  of a bridge withdrawal is marked as used, and the funds are escrowed if this chain is their source.
\<close>

definition claim_withdrawal_event :: "'i ext \<Rightarrow> ics20_withdrawal \<Rightarrow> 'i state \<Rightarrow> 'i state res" where
  "claim_withdrawal_event E act s =
     (case iw_bridge_address act of
        None \<Rightarrow> Inr s
      | Some bridge_address \<Rightarrow>
          and_then (ensure_base_prefix bridge_address s) (\<lambda>_.
          and_then (parse_bridge_memo E (iw_memo act)) (\<lambda>memo.
          check_and_set_withdrawal_event_block_for_bridge_account (addr_bytes bridge_address)
            (bm_rollup_withdrawal_event_id memo) (bm_rollup_block_number memo) s)))"

definition increase_ibc_channel_balance ::
  "string \<Rightarrow> ibc_prefixed \<Rightarrow> u128 \<Rightarrow> 'i state \<Rightarrow> 'i state res" where
  "increase_ibc_channel_balance ch asset amount s =
     and_then (ok_or_eyre (checked_add (get_ibc_channel_balance s ch asset) amount)
         ''overflow when adding to channel balance'') (\<lambda>balance.
     Inr (put_ibc_channel_balance ch asset balance s))"

definition escrow_withdrawal ::
  "'i ext \<Rightarrow> ics20_withdrawal \<Rightarrow> ibc_packet \<Rightarrow> 'i state \<Rightarrow> 'i state res" where
  "escrow_withdrawal E act packet s =
     (if is_source (pk_source_port packet) (pk_source_channel packet) (iw_denom act) then
        increase_ibc_channel_balance (iw_source_channel act) (ibc_of E (iw_denom act))
          (iw_amount act) s
      else Inr s)"

definition ics20_withdrawal_check_and_execute ::
  "'i ext \<Rightarrow> ics20_withdrawal \<Rightarrow> 'i state \<Rightarrow> 'i state res" where
  "ics20_withdrawal_check_and_execute E act s =
     and_then (signer s) (\<lambda>from.
     and_then (ensure_base_prefix (iw_return_address act) s) (\<lambda>_.
     and_then (claim_withdrawal_event E act s) (\<lambda>s1.
     and_then (establish_withdrawal_target act s1 from) (\<lambda>withdrawal_target.
     and_then (get_block_timestamp s1) (\<lambda>current_timestamp.
     and_then (create_ibc_packet_from_withdrawal E act s1) (\<lambda>unchecked.
     and_then (send_packet_check E (ibc s1) unchecked current_timestamp) (\<lambda>packet.
     and_then (decrease_balance withdrawal_target (ibc_of E (iw_denom act)) (iw_amount act) s1) (\<lambda>s2.
     and_then (escrow_withdrawal E act packet s2) (\<lambda>s3.
     Inr (s3\<lparr>ibc := send_packet_execute E packet (ibc s3)\<rparr>))))))))))"

lemma ics20_withdrawal_Inr:
  assumes "ics20_withdrawal_check_and_execute E act s = Inr t"
  obtains a s1 target time raw packet s2 s3 where
    "signer s = Inr a" "ensure_base_prefix (iw_return_address act) s = Inr ()"
    "claim_withdrawal_event E act s = Inr s1" "establish_withdrawal_target act s1 a = Inr target"
    "get_block_timestamp s1 = Inr time" "create_ibc_packet_from_withdrawal E act s1 = Inr raw"
    "send_packet_check E (ibc s1) raw time = Inr packet"
    "decrease_balance target (ibc_of E (iw_denom act)) (iw_amount act) s1 = Inr s2"
    "escrow_withdrawal E act packet s2 = Inr s3"
    "t = s3\<lparr>ibc := send_packet_execute E packet (ibc s3)\<rparr>"
  using assms unfolding ics20_withdrawal_check_and_execute_def by fastforce

section \<open>The escrow is a ledger\<close>

interpretation escrow: ledger get_ibc_channel_balance increase_ibc_channel_balance
  decrease_ibc_channel_balance
proof
  fix c d k j n and s t :: "'i state"
  show "increase_ibc_channel_balance c k n s = Inr t \<Longrightarrow>
      unat (get_ibc_channel_balance t c k) = unat (get_ibc_channel_balance s c k) + unat n"
    by (auto simp: increase_ibc_channel_balance_def put_ibc_channel_balance_def
        get_ibc_channel_balance_def int_ops)
  show "decrease_ibc_channel_balance c k n s = Inr t \<Longrightarrow>
      unat (get_ibc_channel_balance s c k) = unat (get_ibc_channel_balance t c k) + unat n"
    by (auto simp: decrease_ibc_channel_balance_def put_ibc_channel_balance_def
        get_ibc_channel_balance_def int_ops)
  show "increase_ibc_channel_balance c k n s = Inr t \<Longrightarrow> (d, j) \<noteq> (c, k) \<Longrightarrow>
      get_ibc_channel_balance t d j = get_ibc_channel_balance s d j"
    by (auto simp: increase_ibc_channel_balance_def put_ibc_channel_balance_def
        get_ibc_channel_balance_def)
  show "decrease_ibc_channel_balance c k n s = Inr t \<Longrightarrow> (d, j) \<noteq> (c, k) \<Longrightarrow>
      get_ibc_channel_balance t d j = get_ibc_channel_balance s d j"
    by (auto simp: decrease_ibc_channel_balance_def put_ibc_channel_balance_def
        get_ibc_channel_balance_def)
  show "unat (get_ibc_channel_balance s c k) + unat n < 2 ^ 128 \<Longrightarrow>
      \<exists>t. increase_ibc_channel_balance c k n s = Inr t"
    by (auto simp: increase_ibc_channel_balance_def checked_add_def)
  show "n \<le> get_ibc_channel_balance s c k \<Longrightarrow> \<exists>t. decrease_ibc_channel_balance c k n s = Inr t"
    by (auto simp: decrease_ibc_channel_balance_def checked_sub_def)
qed

end
