(* ===== verification/Fees.thy ===== *)
theory Fees
  imports Admin_Handlers Withdrawal
begin

text \<open>
  Fees (\<^verbatim>\<open>crates/astria-sequencer/src/fees\<close>): what each action is charged, the charge itself
  (\<open>FeeHandler::check_and_pay_fees\<close>), the fees a chain starts with (\<open>FeesComponent::init_chain\<close>) and the
  estimate of a transaction's fees before it is executed (\<^verbatim>\<open>fees/query.rs\<close>).
\<close>

section \<open>The fee of an action\<close>

definition DEPOSIT_BASE_FEE :: u128 where
  "DEPOSIT_BASE_FEE = 16"

definition base_deposit_fee :: "denom \<Rightarrow> string \<Rightarrow> u128" where
  "base_deposit_fee asset destination_chain_address =
     saturating_add
       (ucast (saturating_add (of_nat (display_len asset)) (of_nat (length destination_chain_address))
         :: usize))
       DEPOSIT_BASE_FEE"

fun variable_component :: "action \<Rightarrow> u128" where
  "variable_component (BridgeLock act) =
     base_deposit_fee (bl_asset act) (bl_destination_chain_address act)"
| "variable_component (RollupDataSubmission act) = of_nat (length (rds_data act))"
| "variable_component _ = 0"

fun fee_asset :: "action \<Rightarrow> denom option" where
  "fee_asset (Transfer act) = Some (tr_fee_asset act)"
| "fee_asset (BridgeLock act) = Some (bl_fee_asset act)"
| "fee_asset (BridgeSudoChange act) = Some (bsc_fee_asset act)"
| "fee_asset (BridgeUnlock act) = Some (bu_fee_asset act)"
| "fee_asset (BridgeTransfer act) = Some (bt_fee_asset act)"
| "fee_asset (InitBridgeAccount act) = Some (iba_fee_asset act)"
| "fee_asset (Ics20Withdrawal act) = Some (iw_fee_asset act)"
| "fee_asset (RollupDataSubmission act) = Some (rds_fee_asset act)"
| "fee_asset _ = None"

definition check_and_pay_fees :: "'i ext \<Rightarrow> action \<Rightarrow> 'i state \<Rightarrow> 'i state res" where
  "check_and_pay_fees E act s =
     and_then (ok_or_eyre (get_fees s (type_of_action act))
         ''fees not found, so this action is disabled'') (\<lambda>fs.
     case fee_asset act of
       None \<Rightarrow> Inr s
     | Some fa \<Rightarrow>
         and_then (ensure (is_allowed_fee_asset s (ibc_of E fa)) ''invalid fee asset'') (\<lambda>_.
         let variable_fee = saturating_mul (variable_component act) (fc_multiplier fs);
             total_fees = saturating_add (fc_base fs) variable_fee in
         and_then (expect (get_transaction_context s)
             ''transaction source must be present in state when executing an action'') (\<lambda>c.
         decrease_balance (ctx_address_bytes c) (ibc_of E fa) total_fees
           (add_fee_to_block_fees (type_of_action act) (ibc_of E fa) total_fees
             (ctx_position_in_transaction c) s))))"

section \<open>The fees of a new chain\<close>

record genesis_fees =
  gf_fees :: "action_type \<rightharpoonup> fee_components"
  gf_fee_change :: fee_components

text \<open>
  The order in which \<open>init_chain\<close> stores the optional fee components of the genesis state; \<open>fee_change\<close>
  is the only one that is not optional and is stored between \<open>fee_asset_change\<close> and
  \<open>ibc_relayer_change\<close>.
\<close>

definition init_chain_fee_types :: "action_type list" where
  "init_chain_fee_types =
     [TyTransfer, TyRollupDataSubmission, TyIcs20Withdrawal, TyInitBridgeAccount, TyBridgeLock,
      TyBridgeUnlock, TyBridgeSudoChange, TyIbcRelay, TyValidatorUpdate, TyFeeAssetChange]"

definition init_chain_fee_types_2 :: "action_type list" where
  "init_chain_fee_types_2 =
     [TyIbcRelayerChange, TySudoAddressChange, TyIbcSudoChange, TyRecoverIbcClient,
      TyCurrencyPairsChange, TyMarketsChange]"

definition put_genesis_fees :: "genesis_fees \<Rightarrow> action_type list \<Rightarrow> 'i state \<Rightarrow> 'i state" where
  "put_genesis_fees g tys s = foldl (\<lambda>s' ty. put_opt (gf_fees g ty) (put_fees ty) s') s tys"

definition fees_init_chain :: "hash_fun \<Rightarrow> denom list \<Rightarrow> genesis_fees \<Rightarrow> 'i state \<Rightarrow> 'i state" where
  "fees_init_chain H allowed g s =
     (let s1 = foldl (\<lambda>s' a. put_allowed_fee_asset (to_ibc_prefixed H a) s') s allowed;
          s2 = put_genesis_fees g init_chain_fee_types s1;
          s3 = put_fees TyFeeChange (gf_fee_change g) s2
      in put_genesis_fees g init_chain_fee_types_2 s3)"

section \<open>The estimate\<close>

definition get_or_init_fees :: "'i state \<Rightarrow> action_type \<Rightarrow> fee_components res" where
  "get_or_init_fees s ty =
     ok_or_eyre (get_fees s ty) ''fees not found for action, hence it is disabled''"

text \<open>\<open>HashMap<IbcPrefixed, u128>\<close>, as an association list with one entry for each asset.\<close>

type_synonym costs = "(ibc_prefixed \<times> u128) list"

definition add_cost :: "ibc_prefixed \<Rightarrow> u128 \<Rightarrow> costs \<Rightarrow> costs" where
  "add_cost asset amount cs =
     AList.update asset
       (case map_of cs asset of None \<Rightarrow> amount | Some amt \<Rightarrow> saturating_add amt amount) cs"

definition calculate_and_add_fees ::
  "'i ext \<Rightarrow> action \<Rightarrow> fee_components \<Rightarrow> costs \<Rightarrow> costs" where
  "calculate_and_add_fees E act fs fees_by_asset =
     (case fee_asset act of
        None \<Rightarrow> fees_by_asset
      | Some fa \<Rightarrow>
          let total_fees =
            saturating_add (fc_base fs) (saturating_mul (fc_multiplier fs) (variable_component act))
          in add_cost (ibc_of E fa) total_fees fees_by_asset)"

definition get_fees_for_transaction ::
  "'i ext \<Rightarrow> action list \<Rightarrow> 'i state \<Rightarrow> costs res" where
  "get_fees_for_transaction E acts s =
     fold_res (\<lambda>act fees_by_asset.
       and_then (get_or_init_fees s (type_of_action act)) (\<lambda>fs.
       Inr (calculate_and_add_fees E act fs fees_by_asset))) acts []"

end
