(* ===== verification/Transactions.thy ===== *)
theory Transactions
  imports Fees
begin

text \<open>
  Executing a transaction (\<^verbatim>\<open>action_handler/impls/transaction.rs\<close>, \<^verbatim>\<open>transaction/checks.rs\<close>): the stateless
  checks, the checks of chain, nonce and balance, and the loop that executes every action and charges
  its fee.
\<close>

section \<open>Stateless checks\<close>

fun action_check_stateless :: "'i ext \<Rightarrow> action \<Rightarrow> unit res" where
  "action_check_stateless E (RollupDataSubmission act) = rollup_data_submission_check_stateless act"
| "action_check_stateless E (Ibc act) = relay_check_stateless E act"
| "action_check_stateless E (Ics20Withdrawal act) = ics20_withdrawal_check_stateless E act"
| "action_check_stateless E (BridgeUnlock act) = bridge_unlock_check_stateless act"
| "action_check_stateless E (BridgeTransfer act) = bridge_transfer_check_stateless act"
| "action_check_stateless E _ = Inr ()"

definition transaction_check_stateless :: "'i ext \<Rightarrow> transaction \<Rightarrow> unit res" where
  "transaction_check_stateless E tx =
     and_then (ensure (tx_action_list tx \<noteq> []) ''must have at least one action'') (\<lambda>_.
     fold_res (\<lambda>act _. action_check_stateless E act) (tx_action_list tx) ())"

section \<open>The balance check\<close>

fun add_total_transfer ::
  "'i ext \<Rightarrow> 'i state \<Rightarrow> action \<Rightarrow> costs \<Rightarrow> costs res" where
  "add_total_transfer E s (Transfer act) cs =
     Inr (add_cost (ibc_of E (tr_asset act)) (tr_amount act) cs)"
| "add_total_transfer E s (Ics20Withdrawal act) cs =
     Inr (add_cost (ibc_of E (iw_denom act)) (iw_amount act) cs)"
| "add_total_transfer E s (BridgeLock act) cs =
     Inr (add_cost (ibc_of E (bl_asset act)) (bl_amount act) cs)"
| "add_total_transfer E s (BridgeUnlock act) cs =
     and_then (get_bridge_account_ibc_asset s (addr_bytes (bu_bridge_address act))) (\<lambda>asset.
     Inr (add_cost asset (bu_amount act) cs))"
| "add_total_transfer E s (BridgeTransfer act) cs =
     and_then (get_bridge_account_ibc_asset s (addr_bytes (bt_bridge_address act))) (\<lambda>asset.
     Inr (add_cost asset (bt_amount act) cs))"
| "add_total_transfer E s _ cs = Inr cs"

definition add_total_transfers_for_transaction ::
  "'i ext \<Rightarrow> action list \<Rightarrow> 'i state \<Rightarrow> costs \<Rightarrow> costs res" where
  "add_total_transfers_for_transaction E acts s = fold_res (add_total_transfer E s) acts"

definition get_total_transaction_cost ::
  "'i ext \<Rightarrow> transaction \<Rightarrow> 'i state \<Rightarrow> costs res" where
  "get_total_transaction_cost E tx s =
     and_then (get_fees_for_transaction E (tx_action_list tx) s)
       (add_total_transfers_for_transaction E (tx_action_list tx) s)"

definition check_balance_for_total_fees_and_transfers ::
  "'i ext \<Rightarrow> transaction \<Rightarrow> 'i state \<Rightarrow> unit res" where
  "check_balance_for_total_fees_and_transfers E tx s =
     and_then (get_total_transaction_cost E tx s) (\<lambda>cost_by_asset.
     ensure (list_all (\<lambda>(asset, total_fee).
         total_fee \<le> get_account_balance s (tx_address_bytes (sha256 E) tx) asset) cost_by_asset)
       ''insufficient funds for asset'')"

definition check_chain_id_mempool :: "transaction \<Rightarrow> 'i state \<Rightarrow> unit res" where
  "check_chain_id_mempool tx s =
     and_then (get_chain_id s) (\<lambda>c. ensure (tx_chain_id tx = c) ''chain id mismatch'')"

section \<open>Execution\<close>

text \<open>\<open>check_and_execute\<close> of every action, before its fee is charged.\<close>

fun action_check_and_execute :: "'i ext \<Rightarrow> action \<Rightarrow> 'i state \<Rightarrow> 'i state res" where
  "action_check_and_execute E (Transfer act) s = transfer_check_and_execute E act s"
| "action_check_and_execute E (RollupDataSubmission act) s =
     rollup_data_submission_check_and_execute act s"
| "action_check_and_execute E (ValidatorUpdate act) s = validator_update_check_and_execute E act s"
| "action_check_and_execute E (SudoAddressChange act) s = sudo_address_change_check_and_execute act s"
| "action_check_and_execute E (IbcSudoChange act) s = ibc_sudo_change_check_and_execute act s"
| "action_check_and_execute E (FeeChange act) s = fee_change_check_and_execute act s"
| "action_check_and_execute E (Ibc act) s = relay_check_and_execute E act s"
| "action_check_and_execute E (Ics20Withdrawal act) s = ics20_withdrawal_check_and_execute E act s"
| "action_check_and_execute E (IbcRelayerChange act) s = ibc_relayer_change_check_and_execute act s"
| "action_check_and_execute E (FeeAssetChange act) s = fee_asset_change_check_and_execute E act s"
| "action_check_and_execute E (InitBridgeAccount act) s =
     init_bridge_account_check_and_execute E act s"
| "action_check_and_execute E (BridgeLock act) s = bridge_lock_check_and_execute E act s"
| "action_check_and_execute E (BridgeUnlock act) s = bridge_unlock_check_and_execute E act s"
| "action_check_and_execute E (BridgeTransfer act) s = bridge_transfer_check_and_execute E act s"
| "action_check_and_execute E (BridgeSudoChange act) s = bridge_sudo_change_check_and_execute act s"
| "action_check_and_execute E (RecoverIbcClient act) s = recover_ibc_client_check_and_execute E act s"
| "action_check_and_execute E (CurrencyPairsChange act) s =
     currency_pairs_change_check_and_execute act s"
| "action_check_and_execute E (MarketsChange act) s = markets_change_check_and_execute act s"

definition check_execute_and_pay_fees :: "'i ext \<Rightarrow> action \<Rightarrow> 'i state \<Rightarrow> 'i state res" where
  "check_execute_and_pay_fees E act s =
     and_then (action_check_and_execute E act s) (check_and_pay_fees E act)"

text \<open>
  One round of the loop: the context with the action's position is stored, and the action is executed
  and charged. A relayed IBC message is executed for registered relayers only and is not charged.
\<close>

definition execute_action ::
  "'i ext \<Rightarrow> transaction_context \<Rightarrow> nat \<times> action \<Rightarrow> 'i state \<Rightarrow> 'i state res" where
  "execute_action E c = (\<lambda>(i, act) s.
     let s1 = put_transaction_context (c\<lparr>ctx_position_in_transaction := of_nat i\<rparr>) s in
     case act of
       Ibc relay \<Rightarrow>
         and_then (ensure (is_ibc_relayer s1 (ctx_address_bytes c))
             ''only IBC sudo address can execute IBC actions'') (\<lambda>_.
         relay_check_and_execute E relay s1)
     | _ \<Rightarrow> check_execute_and_pay_fees E act s1)"

text \<open>The block that remembers the last transaction of a bridge account.\<close>

definition note_bridge_transaction ::
  "address_bytes \<Rightarrow> transaction_id \<Rightarrow> 'i state \<Rightarrow> 'i state" where
  "note_bridge_transaction a tx s =
     (if get_bridge_account_rollup_id s a \<noteq> None
      then put_last_transaction_id_for_bridge_account a tx s else s)"

definition transaction_check_and_execute :: "'i ext \<Rightarrow> transaction \<Rightarrow> 'i state \<Rightarrow> 'i state res" where
  "transaction_check_and_execute E tx s =
     (let c = context_of_transaction (sha256 E) tx;
          from = tx_address_bytes (sha256 E) tx;
          s0 = put_transaction_context c s in
      and_then (get_chain_id s0) (\<lambda>chain.
      and_then (ensure (tx_chain_id tx = chain)
          ''provided chain id does not match expected chain id'') (\<lambda>_.
      and_then (ensure_or (get_account_nonce s0 from = tx_nonce tx)
          (InvalidNonce (tx_nonce tx))) (\<lambda>_.
      and_then (check_balance_for_total_fees_and_transfers E tx s0) (\<lambda>_.
      let s1 = note_bridge_transaction from (ctx_transaction_id c) s0 in
      and_then (ok_or_eyre (checked_add (get_account_nonce s1 from) 1)
          ''overflow occurred incrementing stored nonce'') (\<lambda>next_nonce.
      and_then (fold_res (execute_action E c) (List.enumerate 0 (tx_action_list tx))
          (put_account_nonce from next_nonce s1)) (\<lambda>s2.
      Inr (delete_current_transaction_context s2))))))))"

text \<open>A successful transaction as the loop over its actions, from the state with the new nonce.\<close>

lemma note_bridge_transaction_frame:
  "note_bridge_transaction a tx s = s\<lparr>last_transaction_ids :=
     last_transaction_ids (note_bridge_transaction a tx s)\<rparr>"
  by (simp add: note_bridge_transaction_def put_last_transaction_id_for_bridge_account_def)

lemma transaction_Inr:
  assumes "transaction_check_and_execute E tx s = Inr t"
  obtains l u where
    "chain_id s = Some (tx_chain_id tx)"
    "get_account_nonce s (tx_address_bytes (sha256 E) tx) = tx_nonce tx"
    "unat (tx_nonce tx) + 1 < 2 ^ 32"
    "check_balance_for_total_fees_and_transfers E tx
       (put_transaction_context (context_of_transaction (sha256 E) tx) s) = Inr ()"
    "fold_res (execute_action E (context_of_transaction (sha256 E) tx))
       (List.enumerate 0 (tx_action_list tx))
       (s\<lparr>transaction_context := Some (context_of_transaction (sha256 E) tx),
         last_transaction_ids := l,
         nonces := (nonces s)(tx_address_bytes (sha256 E) tx \<mapsto> tx_nonce tx + 1)\<rparr>) = Inr u"
    "t = delete_current_transaction_context u"
proof -
  let ?c = "context_of_transaction (sha256 E) tx" and ?a = "tx_address_bytes (sha256 E) tx"
  let ?s0 = "put_transaction_context ?c s"
  let ?s1 = "note_bridge_transaction ?a (ctx_transaction_id ?c) ?s0"
  from assms obtain n u where
    *: "chain_id s = Some (tx_chain_id tx)" "get_account_nonce ?s0 ?a = tx_nonce tx"
      "check_balance_for_total_fees_and_transfers E tx ?s0 = Inr ()"
      "checked_add (get_account_nonce ?s1 ?a) 1 = Some n"
      "fold_res (execute_action E ?c) (List.enumerate 0 (tx_action_list tx))
         (put_account_nonce ?a n ?s1) = Inr u" "t = delete_current_transaction_context u"
    by (auto simp: transaction_check_and_execute_def Let_def get_chain_id_def
        put_transaction_context_def)
  obtain l where l: "?s1 = ?s0\<lparr>last_transaction_ids := l\<rparr>"
    using note_bridge_transaction_frame by blast
  have nonce: "get_account_nonce s ?a = tx_nonce tx" "get_account_nonce ?s1 ?a = tx_nonce tx"
    using *(2) unfolding l by (simp_all add: get_account_nonce_def put_transaction_context_def)
  then have n: "n = tx_nonce tx + 1" "unat (tx_nonce tx) + 1 < 2 ^ 32"
    using *(4) by (simp_all add: checked_add_def split: if_splits)
  have "put_account_nonce ?a n ?s1 = s\<lparr>transaction_context := Some ?c, last_transaction_ids := l,
      nonces := (nonces s)(?a \<mapsto> tx_nonce tx + 1)\<rparr>"
    unfolding l by (simp add: put_account_nonce_def put_transaction_context_def n(1))
  with * nonce n show ?thesis by (intro that [of l u]) simp_all
qed

end
