(* ===== verification/Frames.thy ===== *)
theory Frames
  imports Transactions
begin

text \<open>
  Frame conditions of the handlers: each lemma says which parts of the state a successful call may
  write, as an equation between the new state and an update of the old one. Every other field is then
  unchanged by simplification.
\<close>

lemmas account_defs =
  get_account_balance_def put_account_balance_def increase_balance_def decrease_balance_def

lemmas bridge_write_defs =
  put_bridge_account_rollup_id_def put_bridge_account_ibc_asset_def
  put_bridge_account_sudo_address_def put_bridge_account_withdrawer_address_def
  check_and_set_withdrawal_event_block_for_bridge_account_def cache_deposit_event_def

lemmas admin_write_defs =
  put_sudo_address_def put_ibc_sudo_address_def put_ibc_relayer_address_def
  delete_ibc_relayer_address_def put_allowed_fee_asset_def delete_allowed_fee_asset_def put_fees_def
  put_validator_def put_validator_count_def remove_validator_def put_block_validator_updates_def
  put_num_currency_pairs_def put_next_currency_pair_id_def put_market_map_def
  put_market_map_last_updated_height_def

definition is_ibc_relay :: "action \<Rightarrow> bool" where
  "is_ibc_relay act = (case act of Ibc _ \<Rightarrow> True | _ \<Rightarrow> False)"

section \<open>Transfers and bridge actions\<close>

lemma execute_transfer_frame:
  "execute_transfer E act a s = Inr t \<Longrightarrow> t = s\<lparr>balances := balances t\<rparr>"
  by (auto simp: execute_transfer_def account_defs)

lemma transfer_frame:
  "transfer_check_and_execute E act s = Inr t \<Longrightarrow> t = s\<lparr>balances := balances t\<rparr>"
  by (auto simp: transfer_check_and_execute_def intro: execute_transfer_frame)

lemma execute_bridge_lock_frame:
  assumes "execute_bridge_lock E act s = Inr t"
  shows "t = s\<lparr>balances := balances t, cached_deposits := cached_deposits t, events := events t\<rparr>"
proof -
  from assms obtain d tr a u where "execute_transfer E tr a s = Inr u"
    "t = (cache_deposit_event d u)\<lparr>events := events u @ [DepositEvent d]\<rparr>"
    by (auto simp: execute_bridge_lock_def Let_def)
  with execute_transfer_frame [of E tr a s u] show ?thesis
    by (auto simp: cache_deposit_event_def Let_def execute_transfer_def account_defs)
qed

lemma bridge_lock_frame:
  "bridge_lock_check_and_execute E act s = Inr t \<Longrightarrow>
    t = s\<lparr>balances := balances t, cached_deposits := cached_deposits t, events := events t\<rparr>"
  by (auto simp: bridge_lock_check_and_execute_def intro: execute_bridge_lock_frame)

lemma withdrawal_event_frame:
  "check_and_set_withdrawal_event_block_for_bridge_account a i n s = Inr t \<Longrightarrow>
    t = s\<lparr>withdrawal_events := (withdrawal_events s)((a, i) \<mapsto> n)\<rparr> \<and> withdrawal_events s (a, i) = None"
  by (auto simp: check_and_set_withdrawal_event_block_for_bridge_account_def split: option.splits)

lemma bridge_unlock_frame:
  assumes "bridge_unlock_check_and_execute E act s = Inr t"
  shows "t = s\<lparr>balances := balances t, withdrawal_events := withdrawal_events t\<rparr>"
proof -
  from assms obtain tr a u where
    "check_and_set_withdrawal_event_block_for_bridge_account a
      (bu_rollup_withdrawal_event_id act) (bu_rollup_block_number act) s = Inr u"
    "execute_transfer E tr a u = Inr t"
    by (auto simp: bridge_unlock_check_and_execute_def Let_def)
  then show ?thesis
    by (auto simp: execute_transfer_def account_defs dest!: withdrawal_event_frame)
qed

lemma bridge_transfer_frame:
  assumes "bridge_transfer_check_and_execute E act s = Inr t"
  shows "t = s\<lparr>balances := balances t, withdrawal_events := withdrawal_events t,
    cached_deposits := cached_deposits t, events := events t\<rparr>"
proof -
  from assms obtain bl a u where
    u: "check_and_set_withdrawal_event_block_for_bridge_account a
      (bt_rollup_withdrawal_event_id act) (bt_rollup_block_number act) s = Inr u"
    and t: "execute_bridge_lock E bl u = Inr t"
    by (auto simp: bridge_transfer_check_and_execute_def)
  from withdrawal_event_frame [OF u] obtain w where w: "u = s\<lparr>withdrawal_events := w\<rparr>" by blast
  obtain b d e where "t = u\<lparr>balances := b, cached_deposits := d, events := e\<rparr>"
    using execute_bridge_lock_frame [OF t] by blast
  then show ?thesis unfolding w by simp
qed

lemma bridge_sudo_change_frame:
  "bridge_sudo_change_check_and_execute act s = Inr t \<Longrightarrow>
    t = s\<lparr>bridge_sudos := bridge_sudos t, bridge_withdrawers := bridge_withdrawers t\<rparr>"
  by (auto simp: bridge_sudo_change_check_and_execute_def put_opt_def bridge_write_defs Let_def
      split: option.splits)

lemma init_bridge_account_frame:
  "init_bridge_account_check_and_execute E act s = Inr t \<Longrightarrow>
    t = s\<lparr>bridge_rollup_ids := bridge_rollup_ids t, bridge_assets := bridge_assets t,
         bridge_sudos := bridge_sudos t, bridge_withdrawers := bridge_withdrawers t\<rparr>"
  by (auto simp: init_bridge_account_check_and_execute_def bridge_write_defs Let_def)

section \<open>Administrative actions\<close>

lemma sudo_address_change_frame:
  "sudo_address_change_check_and_execute act s = Inr t \<Longrightarrow> t = s\<lparr>sudo_address := sudo_address t\<rparr>"
  by (auto simp: sudo_address_change_check_and_execute_def admin_write_defs)

lemma ibc_sudo_change_frame:
  "ibc_sudo_change_check_and_execute act s = Inr t \<Longrightarrow> t = s\<lparr>ibc_sudo_address := ibc_sudo_address t\<rparr>"
  by (auto simp: ibc_sudo_change_check_and_execute_def admin_write_defs)

lemma ibc_relayer_change_frame:
  "ibc_relayer_change_check_and_execute act s = Inr t \<Longrightarrow> t = s\<lparr>ibc_relayers := ibc_relayers t\<rparr>"
  by (auto simp: ibc_relayer_change_check_and_execute_def admin_write_defs
      split: ibc_relayer_change.splits)

lemma fee_asset_change_frame:
  "fee_asset_change_check_and_execute E act s = Inr t \<Longrightarrow>
    t = s\<lparr>allowed_fee_assets := allowed_fee_assets t\<rparr>"
  by (auto simp: fee_asset_change_check_and_execute_def admin_write_defs Let_def
      split: fee_asset_change.splits)

lemma fee_change_frame: "fee_change_check_and_execute act s = Inr t \<Longrightarrow> t = s\<lparr>fees := fees t\<rparr>"
  by (auto simp: fee_change_check_and_execute_def admin_write_defs)

lemma validator_update_frame:
  assumes "validator_update_check_and_execute E act s = Inr t"
  shows "t = s\<lparr>validators := validators t, validator_count := validator_count t,
    block_validator_updates := block_validator_updates t\<rparr>"
proof -
  let ?a = "vk_address_bytes (sha256 E) (vu_verification_key act)"
  from assms obtain u where
    u: "u = s \<or> (\<exists>n. u = put_validator_count n (snd (remove_validator ?a s))) \<or>
      u = put_validator (sha256 E) act s \<or>
      (\<exists>n. u = put_validator (sha256 E) act (put_validator_count n s))"
    and t: "t = put_block_validator_updates
      (validator_set_insert (sha256 E) act (get_block_validator_updates u)) u"
    by (auto simp: validator_update_check_and_execute_def Let_def split_beta split: if_splits)
  from u show ?thesis unfolding t
    by (elim disjE exE) (simp_all add: admin_write_defs)
qed

lemma recover_ibc_client_frame:
  "recover_ibc_client_check_and_execute E act s = Inr t \<Longrightarrow> t = s\<lparr>ibc := ibc t\<rparr>"
  by (auto simp: recover_ibc_client_check_and_execute_def)

lemma markets_change_frame:
  "markets_change_check_and_execute act s = Inr t \<Longrightarrow>
    t = s\<lparr>stored_market_map := stored_market_map t,
         market_map_last_updated := market_map_last_updated t\<rparr>"
  by (auto simp: markets_change_check_and_execute_def admin_write_defs)

definition pairs_updated :: "'i state \<Rightarrow> 'i state \<Rightarrow> bool" where
  "pairs_updated s t \<longleftrightarrow> (\<exists>n i a b c. t = s\<lparr>num_currency_pairs := n, next_currency_pair_id := i,
     currency_pair_ids := a, currency_pairs_by_id := b, currency_pair_states := c\<rparr>)"

lemma pairs_updatedI:
  "t = s\<lparr>num_currency_pairs := num_currency_pairs t, next_currency_pair_id := next_currency_pair_id t,
     currency_pair_ids := currency_pair_ids t, currency_pairs_by_id := currency_pairs_by_id t,
     currency_pair_states := currency_pair_states t\<rparr> \<Longrightarrow> pairs_updated s t"
  unfolding pairs_updated_def by blast

lemma pairs_updated_refl: "pairs_updated s s"
  by (rule pairs_updatedI) simp

lemma pairs_updated_steps:
  assumes "pairs_updated s t"
  shows "pairs_updated s (put_currency_pair_state p st t)"
    and "pairs_updated s (snd (remove_currency_pair p t))"
    and "pairs_updated s (put_num_currency_pairs n t)"
    and "pairs_updated s (put_next_currency_pair_id i t)"
proof -
  from assms obtain n' i' a b c where t: "t = s\<lparr>num_currency_pairs := n', next_currency_pair_id := i',
     currency_pair_ids := a, currency_pairs_by_id := b, currency_pair_states := c\<rparr>"
    by (auto simp: pairs_updated_def)
  show "pairs_updated s (put_currency_pair_state p st t)" "pairs_updated s (put_num_currency_pairs n t)"
    "pairs_updated s (put_next_currency_pair_id i t)" "pairs_updated s (snd (remove_currency_pair p t))"
    by (rule pairs_updatedI, simp add: t put_currency_pair_state_def put_num_currency_pairs_def
      put_next_currency_pair_id_def remove_currency_pair_def get_currency_pair_id_def
      split: option.splits)+
qed

lemma add_currency_pair_frame:
  "add_currency_pair p (u, i, n) = Inr (v, j, m) \<Longrightarrow> pairs_updated s u \<Longrightarrow> pairs_updated s v"
  by (auto simp: add_currency_pair_def Let_def pairs_updated_steps split: if_splits)

lemma remove_one_currency_pair_frame:
  "remove_one_currency_pair p (u, n) = Inr (v, m) \<Longrightarrow> pairs_updated s u \<Longrightarrow> pairs_updated s v"
  using pairs_updated_steps(2) [of s u p]
  by (auto simp: remove_one_currency_pair_def Let_def split: if_splits prod.splits)

lemma currency_pairs_change_frame:
  assumes "currency_pairs_change_check_and_execute act s = Inr t"
  shows "pairs_updated s t"
proof (cases act)
  case (CpAddition pairs)
  with assms obtain u i n where
    f: "fold_res add_currency_pair pairs (s, get_next_currency_pair_id s, get_num_currency_pairs s) =
        Inr (u, i, n)" and t: "t = put_num_currency_pairs n (put_next_currency_pair_id i u)"
    by (auto simp: currency_pairs_change_check_and_execute_def
        check_and_execute_currency_pairs_addition_def)
  have "case (u, i, n) of (v, _) \<Rightarrow> pairs_updated s v"
    by (rule fold_res_invariant [OF f]) (auto simp: pairs_updated_refl intro: add_currency_pair_frame)
  then show ?thesis unfolding t by (simp add: pairs_updated_steps)
next
  case (CpRemoval pairs)
  with assms obtain u n where
    f: "fold_res remove_one_currency_pair pairs (s, get_num_currency_pairs s) = Inr (u, n)"
    and t: "t = put_num_currency_pairs n u"
    by (auto simp: currency_pairs_change_check_and_execute_def
        check_and_execute_currency_pairs_removal_def)
  have "case (u, n) of (v, _) \<Rightarrow> pairs_updated s v"
    by (rule fold_res_invariant [OF f])
      (auto simp: pairs_updated_refl intro: remove_one_currency_pair_frame)
  then show ?thesis unfolding t by (simp add: pairs_updated_steps)
qed

section \<open>Withdrawals and fees\<close>

lemma claim_withdrawal_event_frame:
  "claim_withdrawal_event E act s = Inr t \<Longrightarrow> t = s\<lparr>withdrawal_events := withdrawal_events t\<rparr>"
  by (auto simp: claim_withdrawal_event_def split: option.splits dest!: withdrawal_event_frame)

lemma escrow_withdrawal_frame:
  "escrow_withdrawal E act p s = Inr t \<Longrightarrow> t = s\<lparr>channel_balances := channel_balances t\<rparr>"
  by (auto simp: escrow_withdrawal_def increase_ibc_channel_balance_def put_ibc_channel_balance_def
      split: if_splits)

lemma ics20_withdrawal_frame:
  assumes "ics20_withdrawal_check_and_execute E act s = Inr t"
  shows "t = s\<lparr>balances := balances t, withdrawal_events := withdrawal_events t,
    channel_balances := channel_balances t, ibc := ibc t\<rparr>"
  using assms
proof (rule ics20_withdrawal_Inr)
  fix a s1 target time raw packet s2 s3
  assume s1: "claim_withdrawal_event E act s = Inr s1"
    and s2: "decrease_balance target (ibc_of E (iw_denom act)) (iw_amount act) s1 = Inr s2"
    and s3: "escrow_withdrawal E act packet s2 = Inr s3"
    and t: "t = s3\<lparr>ibc := send_packet_execute E packet (ibc s3)\<rparr>"
  obtain w where w: "s1 = s\<lparr>withdrawal_events := w\<rparr>" using claim_withdrawal_event_frame [OF s1] by blast
  obtain b where b: "s2 = s1\<lparr>balances := b\<rparr>" using decrease_balance_frame [OF s2] by blast
  obtain c where c: "s3 = s2\<lparr>channel_balances := c\<rparr>" using escrow_withdrawal_frame [OF s3] by blast
  show ?thesis unfolding t c b w by simp
qed

lemma check_and_pay_fees_frame:
  assumes "check_and_pay_fees E act s = Inr t"
  shows "t = s\<lparr>balances := balances t, events := events t, block_fees := block_fees t\<rparr>"
proof (cases "fee_asset act")
  case None
  then have "t = s" using assms by (auto simp: check_and_pay_fees_def)
  then show ?thesis by simp
next
  case (Some fa)
  with assms obtain a k n p where
    "decrease_balance a k n (add_fee_to_block_fees (type_of_action act) k n p s) = Inr t"
    by (auto simp: check_and_pay_fees_def Let_def)
  then show ?thesis
    by (auto simp: decrease_balance_def put_account_balance_def add_fee_to_block_fees_def Let_def)
qed

section \<open>Every action\<close>

text \<open>The parts of the state that no action writes, whoever signs it.\<close>

definition same_base :: "'i state \<Rightarrow> 'i state \<Rightarrow> bool" where
  "same_base s t \<longleftrightarrow>
     nonces t = nonces s \<and> base_prefix t = base_prefix s \<and> ibc_compat_prefix t = ibc_compat_prefix s \<and>
     native_asset t = native_asset s \<and> ibc_assets t = ibc_assets s \<and> stored_deposits t = stored_deposits s \<and>
     last_transaction_ids t = last_transaction_ids s \<and>
     pre_aspen_validator_set t = pre_aspen_validator_set s \<and> chain_id t = chain_id s \<and>
     block_height t = block_height s \<and> block_timestamp t = block_timestamp s \<and>
     upgrade_changes t = upgrade_changes s \<and> transaction_context t = transaction_context s"

lemma same_base_refl [simp]: "same_base s s"
  by (simp add: same_base_def)

lemma same_base_trans: "same_base s t \<Longrightarrow> same_base t u \<Longrightarrow> same_base s u"
  by (simp add: same_base_def)

lemma same_base_cong: "t = u \<Longrightarrow> same_base s u \<Longrightarrow> same_base s t"
  by simp

lemma handler_same_base:
  "transfer_check_and_execute E x1 s = Inr t \<Longrightarrow> same_base s t"
  "bridge_lock_check_and_execute E x2 s = Inr t \<Longrightarrow> same_base s t"
  "bridge_unlock_check_and_execute E x3 s = Inr t \<Longrightarrow> same_base s t"
  "bridge_transfer_check_and_execute E x4 s = Inr t \<Longrightarrow> same_base s t"
  "bridge_sudo_change_check_and_execute x5 s = Inr t \<Longrightarrow> same_base s t"
  "init_bridge_account_check_and_execute E x6 s = Inr t \<Longrightarrow> same_base s t"
  "sudo_address_change_check_and_execute x7 s = Inr t \<Longrightarrow> same_base s t"
  "ibc_sudo_change_check_and_execute x8 s = Inr t \<Longrightarrow> same_base s t"
  "ibc_relayer_change_check_and_execute x9 s = Inr t \<Longrightarrow> same_base s t"
  "fee_asset_change_check_and_execute E x10 s = Inr t \<Longrightarrow> same_base s t"
  "fee_change_check_and_execute x11 s = Inr t \<Longrightarrow> same_base s t"
  "validator_update_check_and_execute E x12 s = Inr t \<Longrightarrow> same_base s t"
  "recover_ibc_client_check_and_execute E x13 s = Inr t \<Longrightarrow> same_base s t"
  "markets_change_check_and_execute x14 s = Inr t \<Longrightarrow> same_base s t"
  "ics20_withdrawal_check_and_execute E x15 s = Inr t \<Longrightarrow> same_base s t"
  "check_and_pay_fees E x16 s = Inr t \<Longrightarrow> same_base s t"
  by ((drule transfer_frame bridge_lock_frame bridge_unlock_frame bridge_transfer_frame
    bridge_sudo_change_frame init_bridge_account_frame sudo_address_change_frame ibc_sudo_change_frame
    ibc_relayer_change_frame fee_asset_change_frame fee_change_frame validator_update_frame
    recover_ibc_client_frame markets_change_frame ics20_withdrawal_frame check_and_pay_fees_frame),
    erule same_base_cong, simp add: same_base_def)+

lemma currency_pairs_change_same_base:
  "currency_pairs_change_check_and_execute act s = Inr t \<Longrightarrow> same_base s t"
  by (auto simp: same_base_def pairs_updated_def dest!: currency_pairs_change_frame)

lemma action_same_base:
  "action_check_and_execute E act s = Inr t \<Longrightarrow> \<not> is_ibc_relay act \<Longrightarrow> same_base s t"
  by (cases act) (auto simp: is_ibc_relay_def rollup_data_submission_check_and_execute_def
    intro: handler_same_base currency_pairs_change_same_base)

lemma execute_action_cases:
  assumes "execute_action E c (i, act) s = Inr t"
  obtains (relay) relay where "act = Ibc relay" "is_ibc_relayer s (ctx_address_bytes c)"
      "relay_check_and_execute E relay
        (s\<lparr>transaction_context := Some (c\<lparr>ctx_position_in_transaction := of_nat i\<rparr>)\<rparr>) = Inr t"
  | (action) u where "\<not> is_ibc_relay act"
      "action_check_and_execute E act
        (s\<lparr>transaction_context := Some (c\<lparr>ctx_position_in_transaction := of_nat i\<rparr>)\<rparr>) = Inr u"
      "check_and_pay_fees E act u = Inr t"
  using assms
  by (cases act) (auto simp: execute_action_def is_ibc_relay_def check_execute_and_pay_fees_def
      put_transaction_context_def is_ibc_relayer_def simp del: action_check_and_execute.simps)

end
