(* ===== verification/Sample_Chain.thy ===== *)
theory Sample_Chain
  imports Transactions
begin

text \<open>
  A small concrete chain, on which the theorems are instantiated: a hash function that pads to 32
  bytes, an IBC component without state, three accounts, two of them bridge accounts, one asset, and
  fees for the actions used. The states and transactions here evaluate in the kernel.
\<close>

definition pad_hash :: hash_fun where
  "pad_hash x = take 32 (x @ replicate 32 0)"

definition sample_ext :: "unit ext" where
  "sample_ext =
     \<lparr>sha256 = pad_hash,
      parse_bridge_memo = (\<lambda>m. Inr \<lparr>bm_memo = [], bm_rollup_block_number = 1,
        bm_rollup_return_address = ''r'', bm_rollup_withdrawal_event_id = m\<rparr>),
      packet_to_json = (\<lambda>_. Inr []),
      bech32m_display = addr_prefix,
      bech32_compat = (\<lambda>p _. Inr p),
      send_packet_check = (\<lambda>_ p _. Inr p),
      send_packet_execute = (\<lambda>_ i. i),
      relay_check_stateless = (\<lambda>_. Inr ()),
      relay_check_and_execute = (\<lambda>_ s. Inr s),
      get_client_status = (\<lambda>_ _ _. Active),
      get_client_state = (\<lambda>_ _. fail ''no client''),
      get_verified_consensus_state = (\<lambda>_ _ _. fail ''no consensus state''),
      put_verified_consensus_state = (\<lambda>_ _ _ i. Inr i),
      put_client = (\<lambda>_ _ i. i)\<rparr>"

definition sample_key :: "u8 \<Rightarrow> verification_key" where
  "sample_key n = \<lparr>vk_bytes = replicate 32 n\<rparr>"

definition sample_account :: "u8 \<Rightarrow> address_bytes" where
  "sample_account n = replicate 20 n"

definition sample_address :: "u8 \<Rightarrow> address" where
  "sample_address n = \<lparr>addr_bytes = sample_account n, addr_prefix = ''astria''\<rparr>"

definition nria :: trace_prefixed where
  "nria = \<lparr>trace = [], base_denom = ''nria''\<rparr>"

definition nria_ibc :: ibc_prefixed where
  "nria_ibc = trace_to_ibc_prefixed pad_hash nria"

text \<open>
  Account 1 is the sudo address and a user, 2 is a user, 3 a bridge account whose withdrawer is 1, and 4
  a bridge account of its own.
\<close>

definition sample_state :: "unit state" where
  "sample_state =
     \<lparr>balances = [(sample_account 1, nria_ibc) \<mapsto> 1000, (sample_account 2, nria_ibc) \<mapsto> 5,
                  (sample_account 3, nria_ibc) \<mapsto> 70],
      nonces = Map.empty,
      base_prefix = Some ''astria'',
      ibc_compat_prefix = None,
      native_asset = Some nria,
      ibc_assets = [nria_ibc \<mapsto> nria],
      bridge_rollup_ids = [sample_account 3 \<mapsto> [7], sample_account 4 \<mapsto> [8]],
      bridge_assets = [sample_account 3 \<mapsto> nria_ibc, sample_account 4 \<mapsto> nria_ibc],
      bridge_sudos = [sample_account 3 \<mapsto> sample_account 3, sample_account 4 \<mapsto> sample_account 4],
      bridge_withdrawers = [sample_account 3 \<mapsto> sample_account 1, sample_account 4 \<mapsto> sample_account 4],
      withdrawal_events = Map.empty,
      cached_deposits = Map.empty,
      stored_deposits = Map.empty,
      last_transaction_ids = Map.empty,
      sudo_address = Some (sample_account 1),
      block_validator_updates = None,
      validators = Map.empty,
      validator_count = None,
      pre_aspen_validator_set = Some [],
      block_fees = None,
      fees = [TyTransfer \<mapsto> \<lparr>fc_base = 2, fc_multiplier = 0\<rparr>,
              TyBridgeLock \<mapsto> \<lparr>fc_base = 3, fc_multiplier = 1\<rparr>,
              TyBridgeUnlock \<mapsto> \<lparr>fc_base = 4, fc_multiplier = 0\<rparr>,
              TyBridgeTransfer \<mapsto> \<lparr>fc_base = 4, fc_multiplier = 0\<rparr>,
              TyIcs20Withdrawal \<mapsto> \<lparr>fc_base = 5, fc_multiplier = 0\<rparr>,
              TySudoAddressChange \<mapsto> \<lparr>fc_base = 0, fc_multiplier = 0\<rparr>,
              TyFeeChange \<mapsto> \<lparr>fc_base = 0, fc_multiplier = 0\<rparr>],
      allowed_fee_assets = {nria_ibc},
      channel_balances = Map.empty,
      ibc_sudo_address = Some (sample_account 1),
      ibc_relayers = {},
      chain_id = Some ''astria-1'',
      block_height = Some 1,
      block_timestamp = Some 0,
      upgrade_changes = Map.empty,
      num_currency_pairs = None,
      next_currency_pair_id = None,
      currency_pair_ids = Map.empty,
      currency_pairs_by_id = Map.empty,
      currency_pair_states = Map.empty,
      stored_market_map = None,
      market_map_last_updated = None,
      transaction_context = None,
      events = [],
      ibc = ()\<rparr>"

definition sample_tx :: "u8 \<Rightarrow> u32 \<Rightarrow> action list \<Rightarrow> transaction" where
  "sample_tx signer_key nonce acts =
     \<lparr>tx_verification_key = sample_key signer_key,
      tx_actions = \<lparr>acts_group = BundleableGeneral, acts_inner = acts\<rparr>,
      tx_chain_id = ''astria-1'', tx_nonce = nonce, tx_id = [signer_key]\<rparr>"

definition sample_transfer :: action where
  "sample_transfer = Transfer \<lparr>tr_to = sample_address 2, tr_amount = 10,
     tr_asset = TracePrefixed nria, tr_fee_asset = TracePrefixed nria\<rparr>"

definition sample_bridge_lock :: action where
  "sample_bridge_lock = BridgeLock \<lparr>bl_to = sample_address 3, bl_amount = 20,
     bl_asset = TracePrefixed nria, bl_fee_asset = TracePrefixed nria,
     bl_destination_chain_address = ''0xabc''\<rparr>"

definition sample_bridge_unlock :: action where
  "sample_bridge_unlock = BridgeUnlock \<lparr>bu_to = sample_address 2, bu_amount = 30,
     bu_fee_asset = TracePrefixed nria, bu_bridge_address = sample_address 3, bu_memo = [],
     bu_rollup_block_number = 9, bu_rollup_withdrawal_event_id = ''event-1''\<rparr>"

definition sample_withdrawal :: action where
  "sample_withdrawal = Ics20Withdrawal \<lparr>iw_amount = 40, iw_denom = TracePrefixed nria,
     iw_destination_chain_address = ''dest'', iw_return_address = sample_address 1,
     iw_timeout_height = \<lparr>revision_number = 0, revision_height = 9\<rparr>, iw_timeout_time = 9,
     iw_source_channel = ''channel-0'', iw_fee_asset = TracePrefixed nria, iw_memo = [],
     iw_bridge_address = None, iw_use_compat_address = False\<rparr>"

definition sample_tx_all :: transaction where
  "sample_tx_all =
     sample_tx 1 0 [sample_transfer, sample_bridge_lock, sample_bridge_unlock, sample_withdrawal]"

definition sample_after :: "unit state" where
  "sample_after = projr (transaction_check_and_execute sample_ext sample_tx_all sample_state)"

lemma sample_tx_all_not_err:
  "\<not> isl (transaction_check_and_execute sample_ext sample_tx_all sample_state)"
  by code_simp

lemma sample_tx_all_executes:
  "transaction_check_and_execute sample_ext sample_tx_all sample_state = Inr sample_after"
  unfolding sample_after_def by (rule Inr_projr [OF sample_tx_all_not_err])

lemma sample_balance_support:
  "get_account_balance sample_state a k \<noteq> 0 \<Longrightarrow>
    a \<in> {sample_account 1, sample_account 2, sample_account 3}"
  by (auto simp: get_account_balance_def sample_state_def split: if_splits)

lemma sample_channel_balance: "get_ibc_channel_balance sample_state ch k = 0"
  by (simp add: get_ibc_channel_balance_def sample_state_def)

end
