(* ===== verification/Conservation.thy ===== *)
theory Conservation
  imports Frames Sample_Chain
begin

text \<open>
  Where the funds are. The supply of an asset is what the accounts hold, what is escrowed on IBC
  channels and the fees of the current block that are not paid out yet. No action but a withdrawal of
  a bridged asset changes it, and that withdrawal burns exactly its amount.
\<close>

section \<open>Supply\<close>

definition pending_fees :: "'i state \<Rightarrow> ibc_prefixed \<Rightarrow> nat" where
  "pending_fees s k =
     (\<Sum>f\<leftarrow>get_block_fees s. if fee_asset_paid f = IbcPrefixed k then unat (fee_amount f) else 0)"

definition asset_supply :: "'i state \<Rightarrow> ibc_prefixed \<Rightarrow> nat" where
  "asset_supply s k =
     held (\<lambda>a. get_account_balance s a k) + pending_fees s k + held (\<lambda>ch. get_ibc_channel_balance s ch k)"

definition finite_holdings :: "'i state \<Rightarrow> bool" where
  "finite_holdings s \<longleftrightarrow>
     (\<forall>k. finitely_held (\<lambda>a. get_account_balance s a k) \<and>
          finitely_held (\<lambda>ch. get_ibc_channel_balance s ch k))"

definition burned :: "'i ext \<Rightarrow> action \<Rightarrow> ibc_prefixed \<Rightarrow> nat" where
  "burned E act k =
     (case act of
        Ics20Withdrawal w \<Rightarrow>
          if ibc_of E (iw_denom w) = k \<and> \<not> is_source ''transfer'' (iw_source_channel w) (iw_denom w)
          then unat (iw_amount w) else 0
      | _ \<Rightarrow> 0)"

text \<open>
  The check of an outgoing packet marks it as checked and does not change where it goes (the
  documented behaviour of \<open>send_packet_check\<close>).
\<close>

definition packet_check_keeps_route :: "'i ext \<Rightarrow> bool" where
  "packet_check_keeps_route E \<longleftrightarrow>
     (\<forall>i p time q. send_packet_check E i p time = Inr q \<longrightarrow>
        pk_source_port q = pk_source_port p \<and> pk_source_channel q = pk_source_channel p)"

definition same_funds :: "'i state \<Rightarrow> 'i state \<Rightarrow> bool" where
  "same_funds s t \<longleftrightarrow>
     balances t = balances s \<and> block_fees t = block_fees s \<and> channel_balances t = channel_balances s"

text \<open>The step relation of the supply: what one action, or one round of the loop, may do.\<close>

definition keeps_supply :: "'i state \<Rightarrow> (ibc_prefixed \<Rightarrow> nat) \<Rightarrow> 'i state \<Rightarrow> bool" where
  "keeps_supply s lost t \<longleftrightarrow>
     (finite_holdings s \<longrightarrow> finite_holdings t \<and> (\<forall>k. asset_supply t k + lost k = asset_supply s k))"

lemma keeps_supply_trans:
  "keeps_supply s f u \<Longrightarrow> keeps_supply u g t \<Longrightarrow> keeps_supply s (\<lambda>k. f k + g k) t"
  unfolding keeps_supply_def by (metis add.assoc add.commute)

lemma balance_cong: "balances t = balances s \<Longrightarrow> get_account_balance t = get_account_balance s"
  by (simp add: get_account_balance_def fun_eq_iff)

lemma channel_balance_cong:
  "channel_balances t = channel_balances s \<Longrightarrow> get_ibc_channel_balance t = get_ibc_channel_balance s"
  by (simp add: get_ibc_channel_balance_def fun_eq_iff)

lemma pending_fees_cong: "block_fees t = block_fees s \<Longrightarrow> pending_fees t = pending_fees s"
  by (simp add: pending_fees_def get_block_fees_def fun_eq_iff)

lemmas fund_congs = balance_cong channel_balance_cong pending_fees_cong

lemma same_funds_keeps_supply: "same_funds s t \<Longrightarrow> keeps_supply s (\<lambda>_. 0) t"
  using fund_congs [of t s] by (simp add: same_funds_def keeps_supply_def asset_supply_def finite_holdings_def)

lemma keeps_supply_cong:
  "same_funds s s' \<Longrightarrow> same_funds t t' \<Longrightarrow> keeps_supply s f t \<Longrightarrow> keeps_supply s' f t'"
  using fund_congs [of s' s] fund_congs [of t' t]
  by (simp add: same_funds_def keeps_supply_def asset_supply_def finite_holdings_def)

section \<open>Transfers\<close>

lemma execute_transfer_keeps_supply:
  assumes "execute_transfer E act a s = Inr t"
  shows "keeps_supply s (\<lambda>_. 0) t"
proof -
  from assms obtain u where
    u: "decrease_balance a (ibc_of E (tr_asset act)) (tr_amount act) s = Inr u"
    "increase_balance (addr_bytes (tr_to act)) (ibc_of E (tr_asset act)) (tr_amount act) u = Inr t"
    by (auto simp: execute_transfer_def)
  have f: "t = s\<lparr>balances := balances t\<rparr>" by (rule execute_transfer_frame [OF assms])
  have c: "channel_balances t = channel_balances s" "block_fees t = block_fees s"
    by (subst f, simp)+
  then show ?thesis
    using accounts.move_held [OF u] fund_congs(2,3) [of t s]
    by (simp add: keeps_supply_def asset_supply_def finite_holdings_def)
qed

lemma execute_bridge_lock_keeps_supply:
  assumes "execute_bridge_lock E act s = Inr t"
  shows "keeps_supply s (\<lambda>_. 0) t"
proof -
  from assms obtain d tr a u where u: "execute_transfer E tr a s = Inr u"
    "t = (cache_deposit_event d u)\<lparr>events := events u @ [DepositEvent d]\<rparr>"
    by (auto simp: execute_bridge_lock_def Let_def)
  have "same_funds u t" by (simp add: u(2) cache_deposit_event_def Let_def same_funds_def)
  then show ?thesis
    using keeps_supply_cong [OF _ _ execute_transfer_keeps_supply [OF u(1)], of s t]
    by (simp add: same_funds_def)
qed

lemma withdrawal_event_same_funds:
  "check_and_set_withdrawal_event_block_for_bridge_account a i n s = Inr t \<Longrightarrow> same_funds s t"
  by (auto simp: same_funds_def dest!: withdrawal_event_frame)

lemma bridge_unlock_keeps_supply:
  assumes "bridge_unlock_check_and_execute E act s = Inr t"
  shows "keeps_supply s (\<lambda>_. 0) t"
proof -
  from assms obtain tr a b i n u where
    u: "check_and_set_withdrawal_event_block_for_bridge_account b i n s = Inr u"
    and t: "execute_transfer E tr a u = Inr t"
    by (auto simp: bridge_unlock_check_and_execute_def Let_def)
  have "same_funds u s" using withdrawal_event_same_funds [OF u] by (simp add: same_funds_def)
  from keeps_supply_cong [OF this _ execute_transfer_keeps_supply [OF t], of t]
  show ?thesis by (simp add: same_funds_def)
qed

lemma bridge_transfer_keeps_supply:
  assumes "bridge_transfer_check_and_execute E act s = Inr t"
  shows "keeps_supply s (\<lambda>_. 0) t"
proof -
  from assms obtain bl b i n u where
    u: "check_and_set_withdrawal_event_block_for_bridge_account b i n s = Inr u"
    and t: "execute_bridge_lock E bl u = Inr t"
    by (auto simp: bridge_transfer_check_and_execute_def)
  have "same_funds u s" using withdrawal_event_same_funds [OF u] by (simp add: same_funds_def)
  from keeps_supply_cong [OF this _ execute_bridge_lock_keeps_supply [OF t], of t]
  show ?thesis by (simp add: same_funds_def)
qed

section \<open>Withdrawals\<close>

lemma ics20_withdrawal_keeps_supply:
  assumes "ics20_withdrawal_check_and_execute E act s = Inr t" and E: "packet_check_keeps_route E"
  shows "keeps_supply s (burned E (Ics20Withdrawal act)) t"
  using assms(1)
proof (rule ics20_withdrawal_Inr)
  fix a s1 target time raw packet s2 s3
  let ?k = "ibc_of E (iw_denom act)" and ?n = "iw_amount act"
  assume s1: "claim_withdrawal_event E act s = Inr s1"
    and raw: "create_ibc_packet_from_withdrawal E act s1 = Inr raw"
    and packet: "send_packet_check E (ibc s1) raw time = Inr packet"
    and s2: "decrease_balance target ?k ?n s1 = Inr s2"
    and s3: "escrow_withdrawal E act packet s2 = Inr s3"
    and t: "t = s3\<lparr>ibc := send_packet_execute E packet (ibc s3)\<rparr>"
  let ?src = "is_source ''transfer'' (iw_source_channel act) (iw_denom act)"
  have "pk_source_port packet = ''transfer''" "pk_source_channel packet = iw_source_channel act"
    using raw packet E
    by (auto simp: packet_check_keeps_route_def create_ibc_packet_from_withdrawal_def split: if_splits)
  then have esc: "escrow_withdrawal E act packet s2 =
      (if ?src then increase_ibc_channel_balance (iw_source_channel act) ?k ?n s2 else Inr s2)"
    by (simp add: escrow_withdrawal_def)
  have "balances s1 = balances s" "block_fees s1 = block_fees s"
    "channel_balances s1 = channel_balances s"
    by (subst claim_withdrawal_event_frame [OF s1], simp)+
  then have f1: "same_funds s1 s" by (simp add: same_funds_def)
  have "channel_balances s2 = channel_balances s1" "block_fees s2 = block_fees s1"
    by (subst decrease_balance_frame [OF s2], simp)+
  note d = this
  have "balances s3 = balances s2" "block_fees s3 = block_fees s2"
    by (subst escrow_withdrawal_frame [OF s3], simp)+
  note e = this
  have "keeps_supply s1 (burned E (Ics20Withdrawal act)) s3"
    unfolding keeps_supply_def
  proof (intro impI)
    assume fin: "finite_holdings s1"
    note dh = accounts.dec_held [OF s2]
    show "finite_holdings s3 \<and> (\<forall>k. asset_supply s3 k + burned E (Ics20Withdrawal act) k = asset_supply s1 k)"
    proof (cases ?src)
      case True
      then have inc: "increase_ibc_channel_balance (iw_source_channel act) ?k ?n s2 = Inr s3"
        using s3 esc by simp
      show ?thesis
        using fin dh escrow.inc_held [OF inc] True fund_congs(2,3) [of s2 s1] fund_congs(1,3) [of s3 s2] d e
        by (simp add: finite_holdings_def asset_supply_def burned_def)
    next
      case False
      then have s32: "s3 = s2" using s3 esc by simp
      have fa: "finitely_held (\<lambda>a. get_account_balance s1 a k)" for k
        using fin by (simp add: finite_holdings_def)
      have "asset_supply s2 k + burned E (Ics20Withdrawal act) k = asset_supply s1 k" for k
        using dh(2) [OF fa, of k] False fund_congs(2,3) [of s2 s1] d
        by (auto simp: asset_supply_def burned_def)
      moreover have "finite_holdings s2"
        using fin dh(1) [OF fa] fund_congs(2) [of s2 s1] d by (simp add: finite_holdings_def)
      ultimately show ?thesis by (simp add: s32)
    qed
  qed
  moreover have "same_funds s3 t" by (simp add: t same_funds_def)
  ultimately show ?thesis using keeps_supply_cong [OF f1] by blast
qed

section \<open>Fees\<close>

lemma pending_fees_add_fee:
  "pending_fees (add_fee_to_block_fees ty k n p s) j = pending_fees s j + (if j = k then unat n else 0)"
  by (simp add: pending_fees_def add_fee_to_block_fees_def get_block_fees_def Let_def
      split: option.splits)

lemma add_fee_frame:
  "balances (add_fee_to_block_fees ty k n p s) = balances s"
  "channel_balances (add_fee_to_block_fees ty k n p s) = channel_balances s"
  by (simp_all add: add_fee_to_block_fees_def Let_def)

lemma check_and_pay_fees_keeps_supply:
  assumes "check_and_pay_fees E act s = Inr t"
  shows "keeps_supply s (\<lambda>_. 0) t"
proof (cases "fee_asset act")
  case None
  then have "t = s" using assms by (auto simp: check_and_pay_fees_def)
  then show ?thesis by (simp add: keeps_supply_def)
next
  case (Some fa)
  with assms obtain a k n p where
    dec: "decrease_balance a k n (add_fee_to_block_fees (type_of_action act) k n p s) = Inr t"
    by (auto simp: check_and_pay_fees_def Let_def)
  let ?u = "add_fee_to_block_fees (type_of_action act) k n p s"
  have f: "channel_balances t = channel_balances ?u" "block_fees t = block_fees ?u"
    by (subst decrease_balance_frame [OF dec], simp)+
  show ?thesis
    unfolding keeps_supply_def
  proof (intro impI)
    assume fin: "finite_holdings s"
    then have fa: "finitely_held (\<lambda>a. get_account_balance ?u a j)" for j
      by (simp add: finite_holdings_def balance_cong [OF add_fee_frame(1)])
    have "finite_holdings t"
      using accounts.dec_held(1) [OF dec fa] fin channel_balance_cong [OF f(1)]
      by (simp add: finite_holdings_def channel_balance_cong [OF add_fee_frame(2)])
    moreover have "asset_supply t j + 0 = asset_supply s j" for j
      using accounts.dec_held(2) [OF dec fa, of j] pending_fees_cong [OF f(2)] channel_balance_cong [OF f(1)]
      by (simp add: asset_supply_def pending_fees_add_fee channel_balance_cong [OF add_fee_frame(2)]
          balance_cong [OF add_fee_frame(1)])
    ultimately show "finite_holdings t \<and> (\<forall>j. asset_supply t j + 0 = asset_supply s j)" by blast
  qed
qed

section \<open>Every action\<close>

lemma same_fundsI:
  "balances t = balances s \<Longrightarrow> block_fees t = block_fees s \<Longrightarrow> channel_balances t = channel_balances s \<Longrightarrow>
    same_funds s t"
  by (simp add: same_funds_def)

lemma admin_same_funds:
  "sudo_address_change_check_and_execute x1 s = Inr t \<Longrightarrow> same_funds s t"
  "ibc_sudo_change_check_and_execute x2 s = Inr t \<Longrightarrow> same_funds s t"
  "ibc_relayer_change_check_and_execute x3 s = Inr t \<Longrightarrow> same_funds s t"
  "fee_asset_change_check_and_execute E x4 s = Inr t \<Longrightarrow> same_funds s t"
  "fee_change_check_and_execute x5 s = Inr t \<Longrightarrow> same_funds s t"
  "validator_update_check_and_execute E x6 s = Inr t \<Longrightarrow> same_funds s t"
  "recover_ibc_client_check_and_execute E x7 s = Inr t \<Longrightarrow> same_funds s t"
  "markets_change_check_and_execute x8 s = Inr t \<Longrightarrow> same_funds s t"
  "bridge_sudo_change_check_and_execute x9 s = Inr t \<Longrightarrow> same_funds s t"
  "init_bridge_account_check_and_execute E x10 s = Inr t \<Longrightarrow> same_funds s t"
  by (rule same_fundsI; (drule sudo_address_change_frame ibc_sudo_change_frame
    ibc_relayer_change_frame fee_asset_change_frame fee_change_frame validator_update_frame
    recover_ibc_client_frame markets_change_frame bridge_sudo_change_frame
    init_bridge_account_frame), erule ssubst, simp)+

lemma currency_pairs_change_same_funds:
  "currency_pairs_change_check_and_execute act s = Inr t \<Longrightarrow> same_funds s t"
  by (auto simp: same_funds_def pairs_updated_def dest!: currency_pairs_change_frame)

lemma action_keeps_supply:
  assumes "action_check_and_execute E act s = Inr t" "\<not> is_ibc_relay act"
    and "packet_check_keeps_route E"
  shows "keeps_supply s (burned E act) t"
proof -
  have zero: "burned E act = (\<lambda>_. 0)" if "\<And>w. act \<noteq> Ics20Withdrawal w"
    using that by (cases act) (auto simp: burned_def fun_eq_iff)
  show ?thesis
  proof (cases act)
    case (Ics20Withdrawal w)
    then show ?thesis using assms ics20_withdrawal_keeps_supply [of E w s t] by simp
  next
    case (Transfer x)
    with assms(1) obtain a where "execute_transfer E x a s = Inr t"
      by (auto simp: transfer_check_and_execute_def)
    with Transfer show ?thesis using zero execute_transfer_keeps_supply by fastforce
  next
    case (BridgeLock x)
    with assms(1) have "execute_bridge_lock E x s = Inr t"
      by (auto simp: bridge_lock_check_and_execute_def)
    with BridgeLock show ?thesis using zero execute_bridge_lock_keeps_supply by fastforce
  next
    case (RollupDataSubmission x)
    with assms(1) have "t = s" by (simp add: rollup_data_submission_check_and_execute_def)
    with RollupDataSubmission zero show ?thesis by (simp add: keeps_supply_def)
  next
    case (Ibc x)
    with assms(2) show ?thesis by (simp add: is_ibc_relay_def)
  qed (use assms(1) zero in \<open>auto intro: bridge_unlock_keeps_supply bridge_transfer_keeps_supply
        same_funds_keeps_supply admin_same_funds currency_pairs_change_same_funds\<close>)
qed

lemma execute_action_keeps_supply:
  assumes "execute_action E c (i, act) s = Inr t" "\<not> is_ibc_relay act" "packet_check_keeps_route E"
  shows "keeps_supply s (burned E act) t"
proof -
  let ?s = "put_transaction_context (c\<lparr>ctx_position_in_transaction := of_nat i\<rparr>) s"
  from assms(1,2) obtain u where u: "action_check_and_execute E act ?s = Inr u"
    "check_and_pay_fees E act u = Inr t"
    by (cases act) (auto simp: execute_action_def is_ibc_relay_def check_execute_and_pay_fees_def
        simp del: action_check_and_execute.simps)
  have "same_funds ?s s" by (simp add: same_funds_def put_transaction_context_def)
  then have "keeps_supply s (burned E act) u"
    using keeps_supply_cong [OF _ _ action_keeps_supply [OF u(1) assms(2,3)], of s u]
    by (simp add: same_funds_def)
  from keeps_supply_trans [OF this check_and_pay_fees_keeps_supply [OF u(2)]] show ?thesis by simp
qed

lemma execute_actions_keep_supply:
  assumes "fold_res (execute_action E c) (List.enumerate i acts) s = Inr t"
    and "\<forall>act\<in>set acts. \<not> is_ibc_relay act" "packet_check_keeps_route E"
  shows "keeps_supply s (\<lambda>k. \<Sum>act\<leftarrow>acts. burned E act k) t"
  using assms(1,2)
proof (induction acts arbitrary: i s)
  case Nil
  then show ?case by (simp add: keeps_supply_def)
next
  case (Cons act acts)
  then obtain u where u: "execute_action E c (i, act) s = Inr u"
    "fold_res (execute_action E c) (List.enumerate (Suc i) acts) u = Inr t" by auto
  have "keeps_supply s (burned E act) u"
    using execute_action_keeps_supply [OF u(1) _ assms(3)] Cons.prems(2) by simp
  from keeps_supply_trans [OF this Cons.IH [OF u(2)]] Cons.prems(2) show ?case by simp
qed

lemma transaction_keeps_supply:
  assumes "transaction_check_and_execute E tx s = Inr t"
    and "\<forall>act\<in>set (tx_action_list tx). \<not> is_ibc_relay act" "packet_check_keeps_route E"
  shows "keeps_supply s (\<lambda>k. \<Sum>act\<leftarrow>tx_action_list tx. burned E act k) t"
  using assms(1)
proof (rule transaction_Inr)
  fix l u
  let ?s = "s\<lparr>transaction_context := Some (context_of_transaction (sha256 E) tx),
         last_transaction_ids := l,
         nonces := (nonces s)(tx_address_bytes (sha256 E) tx \<mapsto> tx_nonce tx + 1)\<rparr>"
  assume fold: "fold_res (execute_action E (context_of_transaction (sha256 E) tx))
       (List.enumerate 0 (tx_action_list tx)) ?s = Inr u"
    and t: "t = delete_current_transaction_context u"
  have "same_funds ?s s" "same_funds u t"
    by (simp_all add: same_funds_def t delete_current_transaction_context_def)
  from keeps_supply_cong [OF this execute_actions_keep_supply [OF fold assms(2,3)]] show ?thesis .
qed

text \<open>
  C3. A transaction conserves funds: for every asset, the balances of all accounts, the fees collected
  in the block and the escrow on all IBC channels together are what they were before, less what the
  transaction's withdrawals of assets that this chain is not the source of send out. (A transaction
  that relays IBC messages may also mint and release funds and is not covered.)
\<close>

theorem transaction_conserves_supply:
  assumes "transaction_check_and_execute E tx s = Inr t" and "finite_holdings s"
    and "\<forall>act\<in>set (tx_action_list tx). \<not> is_ibc_relay act" and "packet_check_keeps_route E"
  shows "asset_supply t k + (\<Sum>act\<leftarrow>tx_action_list tx. burned E act k) = asset_supply s k"
  using transaction_keeps_supply [OF assms(1,3,4)] assms(2) by (simp add: keeps_supply_def)

lemma sample_finite_holdings: "finite_holdings sample_state"
  unfolding finite_holdings_def
proof (intro allI conjI)
  fix k
  have "{a. get_account_balance sample_state a k \<noteq> 0} \<subseteq>
      {sample_account 1, sample_account 2, sample_account 3}"
    using sample_balance_support by blast
  then show "finitely_held (\<lambda>a. get_account_balance sample_state a k)" by (rule finite_subset) simp
  show "finitely_held (\<lambda>ch. get_ibc_channel_balance sample_state ch k)"
    by (simp add: sample_channel_balance)
qed

theorem transaction_conserves_supply_witness:
  "asset_supply sample_after nria_ibc +
     (\<Sum>act\<leftarrow>tx_action_list sample_tx_all. burned sample_ext act nria_ibc) =
   asset_supply sample_state nria_ibc"
proof (rule transaction_conserves_supply [OF sample_tx_all_executes sample_finite_holdings])
  show "\<forall>act\<in>set (tx_action_list sample_tx_all). \<not> is_ibc_relay act"
    by (simp add: sample_tx_all_def sample_tx_def sample_transfer_def sample_bridge_lock_def
        sample_bridge_unlock_def sample_withdrawal_def is_ibc_relay_def)
  show "packet_check_keeps_route sample_ext"
    by (simp add: packet_check_keeps_route_def sample_ext_def)
qed

end
