(* ===== verification/Components.thy ===== *)
theory Components
  imports Transactions
begin

text \<open>
  The components of the App and the upgrades handler: the state a chain starts with (\<open>init_chain\<close>), what
  happens before and after the transactions of a block (\<open>begin_block\<close>, \<open>end_block\<close>) and the Aspen
  upgrade (\<^verbatim>\<open>authority/component.rs\<close>, \<^verbatim>\<open>accounts/component.rs\<close>, \<^verbatim>\<open>ibc/component.rs\<close>,
  \<^verbatim>\<open>upgrades/upgrades_handler.rs\<close> and \<^verbatim>\<open>astria-core/src/upgrades/v1\<close>).

  Code outside the repository that blocks depend on is the record \<open>host\<close>, which holds \<open>ext\<close>, the protobuf
  encoding of a transaction, the hash of an upgrade change (SHA-256 of its Borsh encoding) and
  Penumbra's IBC component, whose hooks write the IBC state only.
\<close>

section \<open>Upgrades\<close>

record currency_pair_genesis =
  cpg_currency_pair :: currency_pair
  cpg_price :: "quote_price option"
  cpg_id :: u64
  cpg_nonce :: u64

record oracle_genesis =
  og_currency_pair_genesis :: "currency_pair_genesis list"
  og_next_id :: u64

record aspen =
  as_activation_height :: u64
  as_app_version :: u64
  as_market_map_genesis :: market_map
  as_oracle_genesis :: oracle_genesis

datatype upgrade = Aspen aspen

type_synonym upgrades = "upgrade list"

record 'i host =
  h_ext :: "'i ext"
  encode_tx :: "transaction \<Rightarrow> bytes"
  change_hash :: "aspen \<Rightarrow> string \<Rightarrow> bytes"
  ibc_init_chain :: "'i state \<Rightarrow> 'i"
  ibc_begin_block :: "'i state \<Rightarrow> 'i"
  ibc_end_block :: "'i state \<Rightarrow> 'i"

fun upgrade_activation_height :: "upgrade \<Rightarrow> u64" where
  "upgrade_activation_height (Aspen a) = as_activation_height a"

fun upgrade_activating_at_height :: "upgrades \<Rightarrow> u64 \<Rightarrow> upgrade option" where
  "upgrade_activating_at_height [] h = None"
| "upgrade_activating_at_height (u # us) h =
     (if upgrade_activation_height u = h then Some u
      else if upgrade_activation_height u > h then None
      else upgrade_activating_at_height us h)"

definition price_feed_change_name :: string where
  "price_feed_change_name = ''price_feed_change''"

definition ibc_acknowledgement_failure_change_name :: string where
  "ibc_acknowledgement_failure_change_name = ''ibc_acknowledgement_failure_change''"

definition aspen_changes :: "aspen \<Rightarrow> string list" where
  "aspen_changes a = [price_feed_change_name, validator_update_action_change_name,
     ibc_acknowledgement_failure_change_name]"

definition aspen_change_info :: "'i host \<Rightarrow> aspen \<Rightarrow> string \<Rightarrow> change_info" where
  "aspen_change_info H a name =
     \<lparr>ci_activation_height = as_activation_height a, ci_name = name,
      ci_app_version = as_app_version a, ci_hash = change_hash H a name\<rparr>"

section \<open>Genesis of the price feed\<close>

definition market_map_handle_genesis :: "market_map \<Rightarrow> 'i state \<Rightarrow> 'i state" where
  "market_map_handle_genesis m s = put_market_map m s"

definition oracle_handle_genesis :: "oracle_genesis \<Rightarrow> 'i state \<Rightarrow> 'i state" where
  "oracle_handle_genesis g s =
     (let s1 = foldl (\<lambda>s' p. put_currency_pair_state (cpg_currency_pair p)
                 \<lparr>cps_price = cpg_price p, cps_nonce = cpg_nonce p, cps_id = cpg_id p\<rparr> s')
               s (og_currency_pair_genesis g);
          s2 = put_next_currency_pair_id (og_next_id g) s1
      in put_num_currency_pairs (of_nat (length (og_currency_pair_genesis g))) s2)"

section \<open>Authority\<close>

definition authority_init_chain ::
  "hash_fun \<Rightarrow> address \<Rightarrow> validator_update list \<Rightarrow> 'i state \<Rightarrow> 'i state" where
  "authority_init_chain H sudo genesis_validators s =
     pre_aspen_put_validator_set (validator_set_new_from_updates H genesis_validators)
       (put_sudo_address (addr_bytes sudo) s)"

definition handle_aspen_upgrade :: "hash_fun \<Rightarrow> 'i state \<Rightarrow> 'i state res" where
  "handle_aspen_upgrade H s =
     and_then (pre_aspen_get_validator_set s) (\<lambda>vs.
     Inr (foldl (\<lambda>s' (a, v). put_validator H v s')
       (put_validator_count (of_nat (validator_set_len vs)) (aspen_upgrade_remove_validator_set s))
       vs))"

text \<open>The loop over the misbehaving validators after Aspen.\<close>

definition remove_byzantine_validator :: "address_bytes \<Rightarrow> 'i state \<Rightarrow> 'i state res" where
  "remove_byzantine_validator a s =
     (let (removed, s1) = remove_validator a s in
      if removed then
        and_then (get_validator_count s1) (\<lambda>count.
        Inr (put_validator_count (saturating_sub count 1) s1))
      else Inr s1)"

definition authority_begin_block :: "address_bytes list \<Rightarrow> 'i state \<Rightarrow> 'i state res" where
  "authority_begin_block byzantine s =
     (if use_pre_aspen_validator_updates s then
        and_then (pre_aspen_get_validator_set s) (\<lambda>vs.
        Inr (pre_aspen_put_validator_set (foldl (\<lambda>vs' a. validator_set_remove a vs') vs byzantine) s))
      else fold_res remove_byzantine_validator byzantine s)"

definition authority_end_block :: "'i state \<Rightarrow> 'i state res" where
  "authority_end_block s =
     (if use_pre_aspen_validator_updates s then
        and_then (pre_aspen_get_validator_set s) (\<lambda>vs.
        Inr (pre_aspen_put_validator_set (apply_updates (get_block_validator_updates s) vs) s))
      else Inr s)"

section \<open>The upgrade\<close>

text \<open>The new state and the hashes of the changes; no hashes if no upgrade is due.\<close>

definition execute_upgrade_if_due ::
  "'i host \<Rightarrow> upgrades \<Rightarrow> u64 \<Rightarrow> 'i state \<Rightarrow> ('i state \<times> bytes list) res" where
  "execute_upgrade_if_due H us height s =
     (case upgrade_activating_at_height us height of
        None \<Rightarrow> Inr (s, [])
      | Some (Aspen a) \<Rightarrow>
          let s1 = foldl (\<lambda>s' name.
                     put_upgrade_change_info aspen_name name (aspen_change_info H a name) s')
                   s (aspen_changes a);
              s2 = market_map_handle_genesis (as_market_map_genesis a) s1;
              s3 = oracle_handle_genesis (as_oracle_genesis a) s2 in
          and_then (handle_aspen_upgrade (sha256 (h_ext H)) s3) (\<lambda>s4.
          Inr (s4, map (change_hash H a) (aspen_changes a))))"

section \<open>Genesis\<close>

record genesis_app_state =
  ga_base_prefix :: string
  ga_ibc_compat_prefix :: string
  ga_native_asset :: "trace_prefixed option"
  ga_authority_sudo_address :: address
  ga_ibc_sudo_address :: address
  ga_ibc_relayer_addresses :: "address list"
  ga_accounts :: "(address \<times> u128) list"
  ga_allowed_fee_assets :: "denom list"
  ga_fees :: genesis_fees

definition accounts_init_chain ::
  "hash_fun \<Rightarrow> genesis_app_state \<Rightarrow> 'i state \<Rightarrow> 'i state res" where
  "accounts_init_chain H g s =
     (if ga_accounts g \<noteq> [] then
        and_then (ok_or_eyre (get_native_asset s) ''native asset does not exist in state'') (\<lambda>native.
        Inr (foldl (\<lambda>s' (a, balance).
               put_account_balance (addr_bytes a) (trace_to_ibc_prefixed H native) balance s')
             s (ga_accounts g)))
      else Inr s)"

definition ibc_component_init_chain ::
  "'i host \<Rightarrow> genesis_app_state \<Rightarrow> 'i state \<Rightarrow> 'i state" where
  "ibc_component_init_chain H g s =
     (let s1 = s\<lparr>ibc := ibc_init_chain H s\<rparr>;
          s2 = put_ibc_sudo_address (addr_bytes (ga_ibc_sudo_address g)) s1
      in foldl (\<lambda>s' a. put_ibc_relayer_address (addr_bytes a) s') s2 (ga_ibc_relayer_addresses g))"

definition app_init_chain ::
  "'i host \<Rightarrow> genesis_app_state \<Rightarrow> validator_update list \<Rightarrow> string \<Rightarrow> 'i state \<Rightarrow>
   'i state res" where
  "app_init_chain H g genesis_validators chain s =
     (let s1 = put_base_prefix (ga_base_prefix g) s;
          s2 = put_ibc_compat_prefix (ga_ibc_compat_prefix g) s1;
          s3 = (case ga_native_asset g of
                  None \<Rightarrow> s2
                | Some native \<Rightarrow> put_ibc_asset (sha256 (h_ext H)) native (put_native_asset native s2));
          s4 = put_chain_id chain s3;
          s5 = put_block_height 0 s4;
          s6 = fees_init_chain (sha256 (h_ext H)) (ga_allowed_fee_assets g) (ga_fees g) s5 in
      and_then (accounts_init_chain (sha256 (h_ext H)) g s6) (\<lambda>s7.
      let s8 = authority_init_chain (sha256 (h_ext H)) (ga_authority_sudo_address g) genesis_validators s7
      in Inr (ibc_component_init_chain H g s8)))"

end
