(* ===== verification/App.thy ===== *)
theory App
  imports Components
begin

text \<open>
  Executing blocks (\<^verbatim>\<open>crates/astria-sequencer/src/app/mod.rs\<close>, \<^verbatim>\<open>proposal/block_size_constraints.rs\<close>):
  what happens before the transactions, a transaction on a delta of the state, the checks a
  transaction has to pass in a proposal, and the end of a block. The same loop serves the proposer,
  which drops the transactions that fail, and the other validators, which reject the whole proposal.
\<close>

section \<open>Block size constraints\<close>

definition MAX_SEQUENCE_DATA_BYTES_PER_BLOCK :: usize where
  "MAX_SEQUENCE_DATA_BYTES_PER_BLOCK = 256000"

definition commitments_total_size :: "bool \<Rightarrow> usize" where
  "commitments_total_size uses_data_item_enum = (if uses_data_item_enum then (32 + 2) + (32 + 2) else 64)"

record block_size_constraints =
  max_size_sequencer :: usize
  max_size_cometbft :: usize
  current_size_sequencer :: usize
  current_size_cometbft :: usize

text \<open>The limit CometBFT passes is an \<open>i64\<close>, given by its value.\<close>

definition block_size_constraints_new :: "int \<Rightarrow> bool \<Rightarrow> block_size_constraints res" where
  "block_size_constraints_new cometbft_max_size uses_data_item_enum =
     and_then (ensure (0 \<le> cometbft_max_size)
         ''failed to convert cometbft_max_size to usize'') (\<lambda>_.
     let m = of_int cometbft_max_size :: usize;
         commitments_size = commitments_total_size uses_data_item_enum in
     and_then (ensure (commitments_size \<le> m)
         ''cometbft_max_size must be at least GeneratedCommitments::TOTAL_SIZE'') (\<lambda>_.
     Inr \<lparr>max_size_sequencer = MAX_SEQUENCE_DATA_BYTES_PER_BLOCK, max_size_cometbft = m,
          current_size_sequencer = 0, current_size_cometbft = commitments_size\<rparr>))"

definition new_unlimited_cometbft :: block_size_constraints where
  "new_unlimited_cometbft =
     \<lparr>max_size_sequencer = MAX_SEQUENCE_DATA_BYTES_PER_BLOCK, max_size_cometbft = - 1,
      current_size_sequencer = 0, current_size_cometbft = commitments_total_size True\<rparr>"

definition sequencer_has_space :: "block_size_constraints \<Rightarrow> usize \<Rightarrow> bool" where
  "sequencer_has_space b n \<longleftrightarrow>
     n \<le> saturating_sub (max_size_sequencer b) (current_size_sequencer b)"

definition cometbft_has_space :: "block_size_constraints \<Rightarrow> usize \<Rightarrow> bool" where
  "cometbft_has_space b n \<longleftrightarrow>
     n \<le> saturating_sub (max_size_cometbft b) (current_size_cometbft b)"

definition sequencer_checked_add ::
  "usize \<Rightarrow> block_size_constraints \<Rightarrow> block_size_constraints res" where
  "sequencer_checked_add n b =
     and_then (ok_or_eyre (checked_add (current_size_sequencer b) n)
         ''overflow adding to sequencer size'') (\<lambda>new_size.
     and_then (ensure (new_size \<le> max_size_sequencer b) ''max sequencer size reached'') (\<lambda>_.
     Inr (b\<lparr>current_size_sequencer := new_size\<rparr>)))"

definition cometbft_checked_add ::
  "usize \<Rightarrow> block_size_constraints \<Rightarrow> block_size_constraints res" where
  "cometbft_checked_add n b =
     and_then (ok_or_eyre (checked_add (current_size_cometbft b) n)
         ''overflow adding to cometBFT size'') (\<lambda>new_size.
     and_then (ensure (new_size \<le> max_size_cometbft b) ''max cometBFT size reached'') (\<lambda>_.
     Inr (b\<lparr>current_size_cometbft := new_size\<rparr>)))"

section \<open>Before the transactions\<close>

record block_data =
  bd_misbehavior :: "address_bytes list"
  bd_height :: u64
  bd_time :: int

datatype exec_tx_result = TxOk "abci_event list" | TxInvalidNonce | TxInternalError

record post_execution_result =
  per_tx_results :: "exec_tx_result list"
  per_validator_updates :: "validator_update list"

text \<open>
  The state of the App that blocks change: the inter-block state, the flag that tells the mempool to
  recost its transactions, and the object that \<open>post_execute_transactions\<close> leaves in the ephemeral
  store for \<open>finalize_block\<close>.
\<close>

record 'i app =
  app_state :: "'i state"
  recost_mempool :: bool
  post_transaction_execution_result :: "post_execution_result option"

definition app_begin_block :: "'i host \<Rightarrow> block_data \<Rightarrow> 'i state \<Rightarrow> 'i state res" where
  "app_begin_block H bd s =
     (let s1 = put_block_height (bd_height bd) s;
          s2 = put_block_timestamp (bd_time bd) s1 in
      and_then (authority_begin_block (bd_misbehavior bd) s2) (\<lambda>s3.
      Inr (s3\<lparr>ibc := ibc_begin_block H s3\<rparr>)))"

definition pre_execute_transactions ::
  "'i host \<Rightarrow> upgrades \<Rightarrow> block_data \<Rightarrow> 'i app \<Rightarrow> ('i app \<times> bytes list) res" where
  "pre_execute_transactions H us bd A =
     and_then (execute_upgrade_if_due H us (bd_height bd) (app_state A)) (\<lambda>(s1, hashes).
     let s2 = (if hashes = [] then app_state A else s1) in
     and_then (get_chain_id s2) (\<lambda>_.
     and_then (app_begin_block H bd s2) (\<lambda>s3.
     Inr (A\<lparr>app_state := s3, recost_mempool := False\<rparr>, hashes))))"

section \<open>A transaction\<close>

definition is_fee_change_action :: "action \<Rightarrow> bool" where
  "is_fee_change_action act =
     (case act of FeeAssetChange _ \<Rightarrow> True | FeeChange _ \<Rightarrow> True | _ \<Rightarrow> False)"

text \<open>
  The transaction runs on a delta that starts without events. Its events are returned and are not part
  of the state it is applied to. On an error the delta is dropped.
\<close>

definition app_execute_transaction ::
  "'i host \<Rightarrow> transaction \<Rightarrow> 'i app \<Rightarrow> ('i app \<times> abci_event list) res" where
  "app_execute_transaction H tx A =
     and_then (transaction_check_stateless (h_ext H) tx) (\<lambda>_.
     and_then (transaction_check_and_execute (h_ext H) tx ((app_state A)\<lparr>events := []\<rparr>)) (\<lambda>s1.
     let recost = recost_mempool A \<or>
           (is_bundleable_sudo (acts_group (tx_actions tx)) \<and>
            list_ex is_fee_change_action (tx_action_list tx)) in
     Inr (A\<lparr>app_state := s1\<lparr>events := []\<rparr>, recost_mempool := recost\<rparr>, events s1)))"

section \<open>The transactions of a proposal\<close>

text \<open>
  \<open>removals\<close> are the calls of the mempool's \<open>remove_tx_invalid\<close> in their order, with the error given as
  the reason. The counters feed metrics.
\<close>

datatype proposal =
  Prepare (proposal_constraints: block_size_constraints) (validated_txs: "bytes list")
    (included_signed_txs: "transaction list") (failed_tx_count: usize)
    (proposal_results: "exec_tx_result list") (excluded_txs: usize) (current_tx_group: group)
    (removals: "(transaction \<times> error) list")
| Process (proposal_constraints: block_size_constraints) (proposal_results: "exec_tx_result list")
    (current_tx_group: group)

fun tx_sequence_data_bytes :: "action list \<Rightarrow> usize \<Rightarrow> usize" where
  "tx_sequence_data_bytes [] acc = acc"
| "tx_sequence_data_bytes (RollupDataSubmission act # acts) acc =
     tx_sequence_data_bytes acts (saturating_add acc (of_nat (length (rds_data act))))"
| "tx_sequence_data_bytes (_ # acts) acc = tx_sequence_data_bytes acts acc"

fun set_current_tx_group :: "group \<Rightarrow> proposal \<Rightarrow> proposal" where
  "set_current_tx_group g (Prepare b v i f r x _ m) = Prepare b v i f r x g m"
| "set_current_tx_group g (Process b r _) = Process b r g"

text \<open>A transaction that is left out: the proposer goes on without it, a validator rejects the proposal.\<close>

fun exclude_tx :: "string \<Rightarrow> proposal \<Rightarrow> proposal res" where
  "exclude_tx msg (Prepare b v i f r x g m) = Inr (Prepare b v i f r (saturating_add x 1) g m)"
| "exclude_tx msg (Process b r g) = fail msg"

text \<open>The branch of a successful execution, with the transaction's size and that of its rollup data.\<close>

fun include_tx ::
  "'i host \<Rightarrow> transaction \<Rightarrow> abci_event list \<Rightarrow> usize \<Rightarrow> usize \<Rightarrow> proposal \<Rightarrow> proposal res" where
  "include_tx H tx evs data_len tx_len (Prepare b v i f r x g m) =
     and_then (sequencer_checked_add data_len b) (\<lambda>b1.
     and_then (cometbft_checked_add tx_len b1) (\<lambda>b2.
     Inr (Prepare b2 (v @ [encode_tx H tx]) (i @ [tx]) f (r @ [TxOk evs]) x g m)))"
| "include_tx H tx evs data_len tx_len (Process b r g) =
     and_then (sequencer_checked_add data_len b) (\<lambda>b1.
     and_then (cometbft_checked_add tx_len b1) (\<lambda>b2.
     Inr (Process b2 (r @ [TxOk evs]) g)))"

text \<open>
  The branch of a failed execution. A transaction with a wrong nonce stays in the mempool. A panic
  stops the process in either case.
\<close>

fun note_failed_tx :: "transaction \<Rightarrow> error \<Rightarrow> proposal \<Rightarrow> proposal res" where
  "note_failed_tx tx (Panic msg) _ = Inl (Panic msg)"
| "note_failed_tx tx (InvalidNonce n) (Prepare b v i f r x g m) = Inr (Prepare b v i f r x g m)"
| "note_failed_tx tx e (Prepare b v i f r x g m) =
     Inr (Prepare b v i (saturating_add f 1) r x g (m @ [(tx, e)]))"
| "note_failed_tx tx e (Process b r g) = Inl e"

definition cometbft_full :: "usize \<Rightarrow> proposal \<Rightarrow> bool" where
  "cometbft_full tx_len P =
     (case P of Prepare b _ _ _ _ _ _ _ \<Rightarrow> \<not> cometbft_has_space b tx_len | Process _ _ _ \<Rightarrow> False)"

text \<open>The result tells whether the calling loop should break.\<close>

definition proposal_checks_and_tx_execution ::
  "'i host \<Rightarrow> transaction \<Rightarrow> 'i app \<times> proposal \<Rightarrow> (bool \<times> 'i app \<times> proposal) res" where
  "proposal_checks_and_tx_execution H tx = (\<lambda>(A, P).
     let tx_len = of_nat (length (encode_tx H tx)) :: usize;
         data_len = tx_sequence_data_bytes (tx_action_list tx) 0;
         tx_group = acts_group (tx_actions tx) in
     if cometbft_full tx_len P then
       and_then (exclude_tx [] P) (\<lambda>P1. Inr (True, A, P1))
     else if \<not> sequencer_has_space (proposal_constraints P) data_len then
       and_then (exclude_tx ''max block sequenced data limit passed'' P) (\<lambda>P1. Inr (False, A, P1))
     else if tx_group > current_tx_group P then
       and_then (exclude_tx ''transactions have incorrect transaction group ordering'' P)
         (\<lambda>P1. Inr (False, A, P1))
     else
       and_then
         (case app_execute_transaction H tx A of
            Inr (A1, evs) \<Rightarrow> and_then (include_tx H tx evs data_len tx_len P) (\<lambda>P1. Inr (A1, P1))
          | Inl e \<Rightarrow> and_then (note_failed_tx tx e P) (\<lambda>P1. Inr (A, P1)))
         (\<lambda>(A1, P1). Inr (False, A1, set_current_tx_group tx_group P1)))"

fun proposal_loop ::
  "'i host \<Rightarrow> transaction list \<Rightarrow> 'i app \<times> proposal \<Rightarrow> ('i app \<times> proposal) res" where
  "proposal_loop H [] AP = Inr AP"
| "proposal_loop H (tx # txs) AP =
     and_then (proposal_checks_and_tx_execution H tx AP) (\<lambda>(should_break, AP1).
     if should_break then Inr AP1 else proposal_loop H txs AP1)"

text \<open>
  The proposer's loop over the mempool's queue: the new state, the included transactions with their
  encodings, the results and the calls to the mempool.
\<close>

definition prepare_proposal_tx_execution ::
  "'i host \<Rightarrow> block_size_constraints \<Rightarrow> transaction list \<Rightarrow> 'i app \<Rightarrow> ('i app \<times> proposal) res" where
  "prepare_proposal_tx_execution H b pending_txs A =
     proposal_loop H pending_txs (A, Prepare b [] [] 0 [] 0 BundleableGeneral [])"

definition process_proposal_tx_execution ::
  "'i host \<Rightarrow> transaction list \<Rightarrow> block_size_constraints \<Rightarrow> 'i app \<Rightarrow>
   ('i app \<times> exec_tx_result list) res" where
  "process_proposal_tx_execution H txs b A =
     and_then (proposal_loop H txs (A, Process b [] BundleableGeneral)) (\<lambda>(A1, P).
     Inr (A1, proposal_results P))"

text \<open>
  The loop of \<open>finalize_block\<close>, for a node that has not executed the block before: a transaction that
  fails is skipped and reported.
\<close>

fun finalize_transactions ::
  "'i host \<Rightarrow> transaction list \<Rightarrow> 'i app \<times> exec_tx_result list \<Rightarrow>
   ('i app \<times> exec_tx_result list) res" where
  "finalize_transactions H [] Ar = Inr Ar"
| "finalize_transactions H (tx # txs) (A, r) =
     (case app_execute_transaction H tx A of
        Inr (A1, evs) \<Rightarrow> finalize_transactions H txs (A1, r @ [TxOk evs])
      | Inl (Panic msg) \<Rightarrow> Inl (Panic msg)
      | Inl (InvalidNonce n) \<Rightarrow> finalize_transactions H txs (A, r @ [TxInvalidNonce])
      | Inl (Eyre msg) \<Rightarrow> finalize_transactions H txs (A, r @ [TxInternalError]))"

section \<open>The end of a block\<close>

text \<open>The new state, and the validator updates handed to CometBFT.\<close>

definition app_end_block ::
  "'i host \<Rightarrow> address_bytes \<Rightarrow> 'i state \<Rightarrow> ('i state \<times> validator_update list) res" where
  "app_end_block H fee_recipient s =
     and_then (authority_end_block s) (\<lambda>s1.
     let s2 = s1\<lparr>ibc := ibc_end_block H s1\<rparr>;
         s3 = clear_block_validator_updates s2 in
     and_then (fold_res (\<lambda>f. increase_balance fee_recipient
         (to_ibc_prefixed (sha256 (h_ext H)) (fee_asset_paid f)) (fee_amount f))
         (get_block_fees s) s3) (\<lambda>s4.
     Inr (s4, map snd (get_block_validator_updates s))))"

text \<open>
  After the transactions of a block: the fees go to the sudo address and the deposits of the block are
  stored. Storing the \<open>SequencerBlock\<close> and the consensus parameters of an upgrade are not part of the
  model. CometBFT expects a result for every item of the block, so the results are preceded by one for
  each of the \<open>injected\<close> items that are not transactions.
\<close>

definition post_execute_transactions ::
  "'i host \<Rightarrow> bytes \<Rightarrow> nat \<Rightarrow> exec_tx_result list \<Rightarrow> 'i app \<Rightarrow> 'i app res" where
  "post_execute_transactions H block_hash injected tx_results A =
     and_then (get_chain_id (app_state A)) (\<lambda>_.
     and_then (get_sudo_address (app_state A)) (\<lambda>sudo.
     and_then (app_end_block H sudo (app_state A)) (\<lambda>(s1, updates).
     Inr (A\<lparr>app_state := put_deposits block_hash (get_cached_block_deposits s1) s1,
            post_transaction_execution_result := Some
              \<lparr>per_tx_results = replicate injected (TxOk []) @ tx_results,
               per_validator_updates = updates\<rparr>\<rparr>))))"

section \<open>Processing and finalizing a block\<close>

text \<open>
  A block as CometBFT delivers it, parsed: the hashes of the upgrade changes, the prices calculated
  from the extended commit info and the transactions. The checks of the commitments and of the extended
  commit info are not part of the model.
\<close>

record block =
  blk_data :: block_data
  blk_hash :: bytes
  blk_injected :: nat
  blk_upgrade_change_hashes :: "bytes list"
  blk_prices :: "(currency_pair \<times> u128) list"
  blk_txs :: "transaction list"

definition apply_prices_from_vote_extensions ::
  "(currency_pair \<times> u128) list \<Rightarrow> int \<Rightarrow> u64 \<Rightarrow> 'i state \<Rightarrow> 'i state res" where
  "apply_prices_from_vote_extensions prices timestamp height =
     fold_res (\<lambda>(pair, price). put_price_for_currency_pair pair
       \<lparr>qp_price = price, qp_block_timestamp = timestamp, qp_block_height = height\<rparr>) prices"

definition ensure_upgrade_change_hashes_as_expected :: "block \<Rightarrow> bytes list \<Rightarrow> unit res" where
  "ensure_upgrade_change_hashes_as_expected blk calculated =
     ensure (blk_upgrade_change_hashes blk = calculated) ''upgrade change hashes do not match expected''"

text \<open>The execution in \<open>process_proposal\<close>, from the last committed state.\<close>

definition process_proposal_execution ::
  "'i host \<Rightarrow> upgrades \<Rightarrow> block \<Rightarrow> 'i app \<Rightarrow> 'i app res" where
  "process_proposal_execution H us blk A =
     and_then (pre_execute_transactions H us (blk_data blk) A) (\<lambda>(A1, hashes).
     and_then (ensure_upgrade_change_hashes_as_expected blk hashes) (\<lambda>_.
     and_then (process_proposal_tx_execution H (blk_txs blk) new_unlimited_cometbft A1) (\<lambda>(A2, results).
     post_execute_transactions H (blk_hash blk) (blk_injected blk) results A2)))"

text \<open>
  \<open>finalize_block\<close> applies the prices of the block first. Then it executes the block, unless the state
  already is the result of executing it in \<open>process_proposal\<close>.
\<close>

definition finalize_block ::
  "'i host \<Rightarrow> upgrades \<Rightarrow> bool \<Rightarrow> block \<Rightarrow> 'i app \<Rightarrow> ('i app \<times> post_execution_result) res" where
  "finalize_block H us skip_execution blk A =
     and_then (apply_prices_from_vote_extensions (blk_prices blk) (bd_time (blk_data blk))
         (bd_height (blk_data blk)) (app_state A)) (\<lambda>s1.
     and_then
       (if skip_execution then Inr (A\<lparr>app_state := s1\<rparr>)
        else
          and_then (pre_execute_transactions H us (blk_data blk) (A\<lparr>app_state := s1\<rparr>)) (\<lambda>(A1, hashes).
          and_then (ensure_upgrade_change_hashes_as_expected blk hashes) (\<lambda>_.
          and_then (finalize_transactions H (blk_txs blk) (A1, [])) (\<lambda>(A2, results).
          post_execute_transactions H (blk_hash blk) (blk_injected blk) results A2)))) (\<lambda>A3.
     and_then (expect (post_transaction_execution_result A3)
         ''post_transaction_execution_result must be present'') (\<lambda>r.
     Inr (A3, r))))"

text \<open>
  Committing a block writes the state and starts the next round on it, without the ephemeral objects.
\<close>

definition update_state_for_new_round :: "'i app \<Rightarrow> 'i app" where
  "update_state_for_new_round A =
     A\<lparr>app_state := (app_state A)\<lparr>block_fees := None, cached_deposits := Map.empty,
         transaction_context := None, events := []\<rparr>,
       post_transaction_execution_result := None\<rparr>"

end
