(* ===== verification/Proposals.thy ===== *)
theory Proposals
  imports App Sample_Chain
begin

text \<open>
  What a proposer puts into a block is what the other validators accept. The proofs relate the
  proposer's loop to the validators' loop over the transactions it included.
\<close>

section \<open>Sizes\<close>

lemma sequencer_checked_add_ok:
  assumes "sequencer_has_space b n" "current_size_sequencer b \<le> max_size_sequencer b"
  shows "sequencer_checked_add n b = Inr (b\<lparr>current_size_sequencer := current_size_sequencer b + n\<rparr>)"
    and "current_size_sequencer b + n \<le> max_size_sequencer b"
proof -
  have le: "unat n + unat (current_size_sequencer b) \<le> unat (max_size_sequencer b)"
    using assms by (auto simp: sequencer_has_space_def word_le_nat_alt unat_saturating_sub)
  then have lt: "unat (current_size_sequencer b) + unat n < 2 ^ 64"
    using unat_less_pow [of "max_size_sequencer b"] by simp
  then have u: "unat (current_size_sequencer b + n) = unat (current_size_sequencer b) + unat n"
    by (simp add: unat_word_ariths)
  then show le': "current_size_sequencer b + n \<le> max_size_sequencer b"
    using le by (simp add: word_le_nat_alt)
  then show "sequencer_checked_add n b = Inr (b\<lparr>current_size_sequencer := current_size_sequencer b + n\<rparr>)"
    using lt by (simp add: sequencer_checked_add_def checked_add_def ensure_def)
qed

lemma cometbft_checked_add_Inr:
  "cometbft_checked_add n b = Inr b' \<longleftrightarrow>
     unat (current_size_cometbft b) + unat n \<le> unat (max_size_cometbft b) \<and>
     b' = b\<lparr>current_size_cometbft := current_size_cometbft b + n\<rparr>"
proof -
  have "unat (current_size_cometbft b) + unat n < 2 ^ 64 \<and>
      current_size_cometbft b + n \<le> max_size_cometbft b \<longleftrightarrow>
      unat (current_size_cometbft b) + unat n \<le> unat (max_size_cometbft b)"
    using unat_less_pow [of "max_size_cometbft b"] by (auto simp: word_le_nat_alt unat_word_ariths)
  then show ?thesis
    by (auto simp: cometbft_checked_add_def checked_add_def)
qed

lemma cometbft_checked_add_total:
  assumes "cometbft_has_space b n" "current_size_cometbft b \<le> max_size_cometbft b"
  shows "cometbft_checked_add n b = Inr (b\<lparr>current_size_cometbft := current_size_cometbft b + n\<rparr>)"
  using assms
  by (auto simp: cometbft_checked_add_Inr cometbft_has_space_def word_le_nat_alt unat_saturating_sub)

section \<open>The validators' loop\<close>

text \<open>A validator's loop never stops early, so it is a fold over the transactions.\<close>

lemma process_step:
  assumes "proposal_checks_and_tx_execution H tx (A, Process b r g) = Inr (brk, A1, P1)"
  shows "\<exists>b1 r1 g1. P1 = Process b1 r1 g1 \<and> \<not> brk"
proof -
  have note_err: "note_failed_tx tx e (Process b r g) = Inl e" for e by (cases e) simp_all
  from assms show ?thesis
    by (auto simp: proposal_checks_and_tx_execution_def Let_def cometbft_full_def note_err
        split: if_splits sum.splits)
qed

lemma process_loop_snoc:
  assumes "proposal_loop H txs (A, Process b r g) = Inr (A1, P1)"
    and "proposal_checks_and_tx_execution H tx (A1, P1) = Inr (brk, A2, P2)"
  shows "proposal_loop H (txs @ [tx]) (A, Process b r g) = Inr (A2, P2)"
  using assms
proof (induction txs arbitrary: A b r g)
  case Nil
  then show ?case by (auto split: if_splits)
next
  case (Cons tx' txs)
  from Cons.prems(1) obtain brk' A' P' where
    s: "proposal_checks_and_tx_execution H tx' (A, Process b r g) = Inr (brk', A', P')"
    and l: "(if brk' then Inr (A', P') else proposal_loop H txs (A', P')) = Inr (A1, P1)"
    by auto
  from process_step [OF s] obtain b' r' g' where P': "P' = Process b' r' g'" "\<not> brk'" by blast
  with l Cons.IH [of A' b' r' g'] Cons.prems(2) s show ?case by simp
qed

section \<open>The proposer's loop\<close>

text \<open>
  The relation between the proposer after some transactions and a validator that has processed the
  transactions included so far: the same state and results, the same amount of rollup data, and a
  group bound for the validator that is not lower than the proposer's.
\<close>

definition mirrors :: "'i host \<Rightarrow> 'i app \<Rightarrow> 'i app \<times> proposal \<Rightarrow> bool" where
  "mirrors H A0 = (\<lambda>(A, P). \<exists>b v inc f r x g m b' g'.
     P = Prepare b v inc f r x g m \<and>
     proposal_loop H inc (A0, Process new_unlimited_cometbft [] BundleableGeneral) =
       Inr (A, Process b' r g') \<and>
     g \<le> g' \<and>
     current_size_sequencer b' = current_size_sequencer b \<and>
     max_size_sequencer b' = max_size_sequencer b \<and>
     current_size_sequencer b \<le> max_size_sequencer b \<and>
     max_size_cometbft b' = - 1 \<and>
     unat (current_size_cometbft b') \<le> unat (current_size_cometbft b) + 4 \<and>
     current_size_cometbft b \<le> max_size_cometbft b \<and>
     unat (max_size_cometbft b) < 2 ^ 63)"

lemma mirrors_step_include:
  assumes m: "mirrors H A0 (A, Prepare b v inc f r x g m)"
    and tx: "app_execute_transaction H tx A = Inr (A1, evs)"
    and space: "sequencer_has_space b (tx_sequence_data_bytes (tx_action_list tx) 0)"
      "cometbft_has_space b (of_nat (length (encode_tx H tx)))"
    and g: "acts_group (tx_actions tx) \<le> g"
    and P1: "include_tx H tx evs (tx_sequence_data_bytes (tx_action_list tx) 0)
      (of_nat (length (encode_tx H tx))) (Prepare b v inc f r x g m) = Inr P1"
  shows "mirrors H A0 (A1, set_current_tx_group (acts_group (tx_actions tx)) P1)"
proof -
  let ?d = "tx_sequence_data_bytes (tx_action_list tx) 0"
  let ?l = "of_nat (length (encode_tx H tx)) :: usize" and ?g = "acts_group (tx_actions tx)"
  from m obtain b' g' where
    loop: "proposal_loop H inc (A0, Process new_unlimited_cometbft [] BundleableGeneral) =
       Inr (A, Process b' r g')"
    and g': "g \<le> g'"
    and seq: "current_size_sequencer b' = current_size_sequencer b"
      "max_size_sequencer b' = max_size_sequencer b" "current_size_sequencer b \<le> max_size_sequencer b"
    and com: "max_size_cometbft b' = - 1"
      "unat (current_size_cometbft b') \<le> unat (current_size_cometbft b) + 4"
      "current_size_cometbft b \<le> max_size_cometbft b" "unat (max_size_cometbft b) < 2 ^ 63"
    unfolding mirrors_def by auto
  note add = sequencer_checked_add_ok [OF space(1) seq(3)]
  have space': "sequencer_has_space b' ?d" using space(1) seq by (simp add: sequencer_has_space_def)
  have "current_size_sequencer b' \<le> max_size_sequencer b'" using seq by simp
  note add' = sequencer_checked_add_ok [OF space' this]
  have len: "unat (current_size_cometbft b) + unat ?l \<le> unat (max_size_cometbft b)"
    using space(2) com(3) by (auto simp: cometbft_has_space_def word_le_nat_alt unat_saturating_sub)
  then have len': "unat (current_size_cometbft b') + unat ?l \<le> unat (max_size_cometbft b')"
    using com by (simp add: unat_max_word)
  have u: "unat (current_size_cometbft b + ?l) = unat (current_size_cometbft b) + unat ?l"
    "unat (current_size_cometbft b' + ?l) = unat (current_size_cometbft b') + unat ?l"
    using len len' unat_less_pow [of "max_size_cometbft b"] unat_less_pow [of "max_size_cometbft b'"]
    by (auto simp: unat_word_ariths)
  define c where "c = b\<lparr>current_size_sequencer := current_size_sequencer b + ?d,
    current_size_cometbft := current_size_cometbft b + ?l\<rparr>"
  define c' where "c' = b'\<lparr>current_size_sequencer := current_size_sequencer b' + ?d,
    current_size_cometbft := current_size_cometbft b' + ?l\<rparr>"
  have P1': "P1 = Prepare c (v @ [encode_tx H tx]) (inc @ [tx]) f (r @ [TxOk evs]) x g m"
    using P1 add(1) by (simp add: cometbft_checked_add_Inr c_def)
  have "include_tx H tx evs ?d ?l (Process b' r g') = Inr (Process c' (r @ [TxOk evs]) g')"
    using add'(1) len' by (simp add: cometbft_checked_add_Inr c'_def)
  then have "proposal_checks_and_tx_execution H tx (A, Process b' r g') =
      Inr (False, A1, Process c' (r @ [TxOk evs]) ?g)"
    using space' g g' tx by (simp add: proposal_checks_and_tx_execution_def Let_def cometbft_full_def)
  from process_loop_snoc [OF loop this] show ?thesis
    using seq com len u add(2) unfolding mirrors_def P1'
    by (simp add: c_def c'_def word_le_nat_alt)
qed

lemma mirrors_step:
  assumes m: "mirrors H A0 (A, P)"
    and s: "proposal_checks_and_tx_execution H tx (A, P) = Inr (brk, A1, P1)"
  shows "mirrors H A0 (A1, P1)"
proof -
  obtain b v inc f r x g rm where P: "P = Prepare b v inc f r x g rm"
    using m unfolding mirrors_def by auto
  let ?d = "tx_sequence_data_bytes (tx_action_list tx) 0"
  let ?l = "of_nat (length (encode_tx H tx)) :: usize" and ?g = "acts_group (tx_actions tx)"
  have keep: "mirrors H A0 (A, Prepare b v inc f' r x' g' rm')" if "g' \<le> g" for f' x' rm' g'
    using m that unfolding mirrors_def P by fastforce
  consider (excluded) x' where "P1 = Prepare b v inc f r x' g rm" "A1 = A"
    | (failed) e P2 where "note_failed_tx tx e P = Inr P2" "P1 = set_current_tx_group ?g P2"
        "A1 = A" "?g \<le> g"
    | (included) evs P2 where "app_execute_transaction H tx A = Inr (A1, evs)"
        "include_tx H tx evs ?d ?l P = Inr P2" "P1 = set_current_tx_group ?g P2" "?g \<le> g"
        "sequencer_has_space b ?d" "cometbft_has_space b ?l"
    using s unfolding P
    by (auto simp: proposal_checks_and_tx_execution_def Let_def cometbft_full_def
        split: if_splits sum.splits)
  then show ?thesis
  proof cases
    case excluded
    then show ?thesis using keep by simp
  next
    case failed
    then show ?thesis using keep unfolding P by (cases e) auto
  next
    case included
    then show ?thesis using mirrors_step_include m unfolding P by blast
  qed
qed

lemma mirrors_loop:
  "mirrors H A0 (A, P) \<Longrightarrow> proposal_loop H txs (A, P) = Inr (A1, P1) \<Longrightarrow> mirrors H A0 (A1, P1)"
proof (induction txs arbitrary: A P)
  case Nil
  then show ?case by simp
next
  case (Cons tx txs)
  then obtain brk A' P' where
    "proposal_checks_and_tx_execution H tx (A, P) = Inr (brk, A', P')"
    "(if brk then Inr (A', P') else proposal_loop H txs (A', P')) = Inr (A1, P1)"
    by auto
  with Cons.prems(1) Cons.IH mirrors_step show ?case by (metis sum.inject(2))
qed

text \<open>Adding items to the block keeps its limits and only grows its size.\<close>

definition grown :: "block_size_constraints \<Rightarrow> block_size_constraints \<Rightarrow> bool" where
  "grown b c \<longleftrightarrow>
     current_size_sequencer c = current_size_sequencer b \<and> max_size_sequencer c = max_size_sequencer b \<and>
     max_size_cometbft c = max_size_cometbft b \<and> current_size_cometbft c \<le> max_size_cometbft b \<and>
     current_size_cometbft b \<le> current_size_cometbft c"

lemma fold_cometbft_checked_add_grown:
  assumes "fold_res cometbft_checked_add sizes b = Inr c" "current_size_cometbft b \<le> max_size_cometbft b"
  shows "grown b c"
proof (rule fold_res_invariant [OF assms(1), of "grown b"])
  fix n c d
  assume c: "grown b c" and "cometbft_checked_add n c = Inr d"
  then have n: "unat (current_size_cometbft c) + unat n \<le> unat (max_size_cometbft c)"
    and d: "d = c\<lparr>current_size_cometbft := current_size_cometbft c + n\<rparr>"
    by (simp_all add: cometbft_checked_add_Inr)
  have "unat (current_size_cometbft c + n) = unat (current_size_cometbft c) + unat n"
    using n unat_less_pow [of "max_size_cometbft c"] by (simp add: unat_word_ariths)
  with c n show "grown b d" by (simp add: d grown_def word_le_nat_alt)
qed (use assms(2) in \<open>simp add: grown_def\<close>)

lemma block_size_constraints_new_Inr:
  assumes "block_size_constraints_new m e = Inr b" "m < 2 ^ 63"
  shows "current_size_sequencer b = 0" "max_size_sequencer b = MAX_SEQUENCE_DATA_BYTES_PER_BLOCK"
    "current_size_cometbft b \<le> max_size_cometbft b" "64 \<le> unat (current_size_cometbft b)"
    "unat (max_size_cometbft b) < 2 ^ 63"
proof -
  from assms(1) have m: "0 \<le> m" "commitments_total_size e \<le> of_int m"
    and b: "b = \<lparr>max_size_sequencer = MAX_SEQUENCE_DATA_BYTES_PER_BLOCK, max_size_cometbft = of_int m,
          current_size_sequencer = 0, current_size_cometbft = commitments_total_size e\<rparr>"
    by (auto simp: block_size_constraints_new_def Let_def)
  show "current_size_sequencer b = 0" "max_size_sequencer b = MAX_SEQUENCE_DATA_BYTES_PER_BLOCK"
    "current_size_cometbft b \<le> max_size_cometbft b" using m by (simp_all add: b)
  show "64 \<le> unat (current_size_cometbft b)" by (simp add: b commitments_total_size_def)
  have "unat (of_int m :: usize) = nat m"
    using m(1) assms(2) by (simp add: unsigned_of_int take_bit_int_eq_self nat_less_iff)
  then show "unat (max_size_cometbft b) < 2 ^ 63" using m(1) assms(2) by (simp add: b nat_less_iff)
qed

section \<open>Finalizing\<close>

lemma process_step_executes:
  assumes "proposal_checks_and_tx_execution H tx (A, Process b r g) = Inr (brk, A1, P1)"
  obtains evs where "app_execute_transaction H tx A = Inr (A1, evs)"
    "proposal_results P1 = r @ [TxOk evs]"
proof -
  have note_err: "note_failed_tx tx e (Process b r g) = Inl e" for e by (cases e) simp_all
  have "\<exists>evs. app_execute_transaction H tx A = Inr (A1, evs) \<and> proposal_results P1 = r @ [TxOk evs]"
    using assms by (auto simp: proposal_checks_and_tx_execution_def Let_def cometbft_full_def note_err
        split: if_splits sum.splits)
  then show ?thesis using that by blast
qed

lemma processed_block_finalizes:
  "proposal_loop H txs (A, Process b r g) = Inr (A1, P1) \<Longrightarrow>
    finalize_transactions H txs (A, r) = Inr (A1, proposal_results P1)"
proof (induction txs arbitrary: A b r g)
  case Nil
  then show ?case by auto
next
  case (Cons tx txs)
  from Cons.prems obtain brk A' P' where
    s: "proposal_checks_and_tx_execution H tx (A, Process b r g) = Inr (brk, A', P')"
    and l: "(if brk then Inr (A', P') else proposal_loop H txs (A', P')) = Inr (A1, P1)"
    by auto
  from process_step [OF s] obtain b' r' g' where P': "P' = Process b' r' g'" "\<not> brk" by blast
  from s obtain evs where e: "app_execute_transaction H tx A = Inr (A', evs)" "r' = r @ [TxOk evs]"
    by (rule process_step_executes) (simp add: P')
  from l P' Cons.IH [of A' b' r' g'] e show ?case by simp
qed

text \<open>
  C4. Blocks are built consistently: the transactions a proposer includes, in the order it includes
  them, pass every validator's checks of the proposal from the same state, and lead the validator to the proposer's
  state and execution results; a node that first sees the block when it is finalized gets them too,
  with no transaction reported as failed. The sizes of injected items and the limit passed by
  CometBFT (an \<open>i64\<close>) are arbitrary.
\<close>

theorem prepared_proposal_is_accepted:
  assumes "block_size_constraints_new m e = Inr b0" "m < 2 ^ 63"
    and "fold_res cometbft_checked_add injected_sizes b0 = Inr b"
    and "prepare_proposal_tx_execution H b pending_txs A = Inr (A1, P)"
  shows "process_proposal_tx_execution H (included_signed_txs P) new_unlimited_cometbft A =
      Inr (A1, proposal_results P) \<and>
    finalize_transactions H (included_signed_txs P) (A, []) = Inr (A1, proposal_results P)"
proof -
  note new = block_size_constraints_new_Inr [OF assms(1,2)]
  note g = fold_cometbft_checked_add_grown [OF assms(3) new(3)]
  have "mirrors H A (A, Prepare b [] [] 0 [] 0 BundleableGeneral [])"
    using new g unfolding mirrors_def
    by (simp add: new_unlimited_cometbft_def grown_def word_le_nat_alt commitments_total_size_def)
  from mirrors_loop [OF this assms(4) [unfolded prepare_proposal_tx_execution_def]]
  obtain b1 g1 where l: "proposal_loop H (included_signed_txs P)
      (A, Process new_unlimited_cometbft [] BundleableGeneral) =
      Inr (A1, Process b1 (proposal_results P) g1)"
    unfolding mirrors_def by auto
  then show ?thesis
    using processed_block_finalizes [OF l] by (simp add: process_proposal_tx_execution_def)
qed

text \<open>The proposer's queue of the witness: a transfer, one with a wrong nonce and one without funds.\<close>

definition sample_host :: "unit host" where
  "sample_host = \<lparr>h_ext = sample_ext, encode_tx = (\<lambda>tx. tx_id tx), change_hash = (\<lambda>_ name. [of_nat (length name)]),
     ibc_init_chain = ibc, ibc_begin_block = ibc, ibc_end_block = ibc\<rparr>"

definition sample_app :: "unit app" where
  "sample_app = \<lparr>app_state = sample_state, recost_mempool = False,
     post_transaction_execution_result = None\<rparr>"

definition sample_pending :: "transaction list" where
  "sample_pending =
     [sample_tx 1 0 [sample_transfer], sample_tx 1 7 [sample_transfer], sample_tx 9 0 [sample_transfer]]"

definition sample_constraints :: block_size_constraints where
  "sample_constraints = projr (block_size_constraints_new 1000 True)"

definition sample_prepared :: "unit app \<times> proposal" where
  "sample_prepared = projr (prepare_proposal_tx_execution sample_host
     (projr (fold_res cometbft_checked_add [3] sample_constraints)) sample_pending sample_app)"

lemma sample_prepared_runs:
  "\<not> isl (prepare_proposal_tx_execution sample_host
     (projr (fold_res cometbft_checked_add [3] sample_constraints)) sample_pending sample_app)"
  by code_simp

lemma sample_constraints_ok:
  "\<not> isl (block_size_constraints_new 1000 True)"
  "\<not> isl (fold_res cometbft_checked_add [3] sample_constraints)"
  by code_simp+

theorem prepared_proposal_is_accepted_witness:
  "process_proposal_tx_execution sample_host (included_signed_txs (snd sample_prepared))
      new_unlimited_cometbft sample_app =
      Inr (fst sample_prepared, proposal_results (snd sample_prepared)) \<and>
    finalize_transactions sample_host (included_signed_txs (snd sample_prepared)) (sample_app, []) =
      Inr (fst sample_prepared, proposal_results (snd sample_prepared))"
proof (rule prepared_proposal_is_accepted)
  show "block_size_constraints_new 1000 True = Inr sample_constraints"
    unfolding sample_constraints_def by (rule Inr_projr [OF sample_constraints_ok(1)])
  show "(1000 :: int) < 2 ^ 63" by simp
  show "fold_res cometbft_checked_add [3] sample_constraints =
      Inr (projr (fold_res cometbft_checked_add [3] sample_constraints))"
    by (rule Inr_projr [OF sample_constraints_ok(2)])
  show "prepare_proposal_tx_execution sample_host
     (projr (fold_res cometbft_checked_add [3] sample_constraints)) sample_pending sample_app =
     Inr (fst sample_prepared, snd sample_prepared)"
    unfolding sample_prepared_def prod.collapse by (rule Inr_projr [OF sample_prepared_runs])
qed

end
