(* ===== verification/Chain_Relations.thy ===== *)
theory Chain_Relations
  imports Frames App
begin

text \<open>
  Relations between states that every step of the chain keeps. A client proves that each action
  handler and the charge of fees keep a relation; the locales lift it to transactions, to the loop of a
  block and to the whole processing of blocks. Invariants and frame properties of the chain are instances.

  Relayed IBC messages are executed by code outside the repository, so a lifted fact has the hypothesis
  that they keep the relation too (\<open>relays_keep\<close>).
\<close>

section \<open>Steps\<close>

definition relays_keep :: "('i state \<Rightarrow> 'i state \<Rightarrow> bool) \<Rightarrow> 'i ext \<Rightarrow> bool" where
  "relays_keep R E \<longleftrightarrow> (\<forall>relay s t. relay_check_and_execute E relay s = Inr t \<longrightarrow> R s t)"

text \<open>The state in which a transaction's actions start.\<close>

definition tx_start :: "'i ext \<Rightarrow> transaction \<Rightarrow> (address_bytes \<rightharpoonup> transaction_id) \<Rightarrow> 'i state \<Rightarrow> 'i state" where
  "tx_start E tx l s = s\<lparr>transaction_context := Some (context_of_transaction (sha256 E) tx),
     last_transaction_ids := l,
     nonces := (nonces s)(tx_address_bytes (sha256 E) tx \<mapsto> tx_nonce tx + 1)\<rparr>"

text \<open>
  The general contract is for the transactions of one signer \<open>a\<close>: what every handler and the charge
  keep when they run in a context of this signer.
\<close>

locale signed_relation =
  fixes R :: "'i state \<Rightarrow> 'i state \<Rightarrow> bool" and a :: address_bytes
  assumes refl: "R s s"
    and trans: "R s t \<Longrightarrow> R t u \<Longrightarrow> R s u"
    and signed_handler: "action_check_and_execute E act s = Inr t \<Longrightarrow> \<not> is_ibc_relay act \<Longrightarrow>
      transaction_context s = Some c \<Longrightarrow> ctx_address_bytes c = a \<Longrightarrow> R s t"
    and signed_fees: "check_and_pay_fees E act s = Inr t \<Longrightarrow>
      transaction_context s = Some c \<Longrightarrow> ctx_address_bytes c = a \<Longrightarrow> R s t"
    and with_context: "R s (s\<lparr>transaction_context := co\<rparr>)"
begin

lemma execute_action_rel:
  assumes "execute_action E c (i, act) s = Inr t" "relays_keep R E" "ctx_address_bytes c = a"
  shows "R s t"
  using assms(1)
proof (cases rule: execute_action_cases)
  case (relay r)
  with assms(2) with_context trans show ?thesis unfolding relays_keep_def by blast
next
  case (action u)
  let ?c = "c\<lparr>ctx_position_in_transaction := of_nat i\<rparr>"
  have a: "ctx_address_bytes ?c = a" using assms(3) by simp
  have "transaction_context u = Some ?c"
    using action_same_base [OF action(2,1)] by (simp add: same_base_def)
  note f = signed_fees [OF action(3) this a]
  have "R (s\<lparr>transaction_context := Some ?c\<rparr>) u"
    by (rule signed_handler [OF action(2,1) _ a]) simp
  then show ?thesis by (rule trans [OF with_context trans [OF _ f]])
qed

lemma execute_actions_rel:
  assumes "fold_res (execute_action E c) (List.enumerate i acts) s = Inr t" "relays_keep R E"
    and "ctx_address_bytes c = a"
  shows "R s t"
  using assms(1)
proof (induction acts arbitrary: i s)
  case Nil
  then show ?case using refl by simp
next
  case (Cons act acts)
  then obtain u where "execute_action E c (i, act) s = Inr u"
    "fold_res (execute_action E c) (List.enumerate (Suc i) acts) u = Inr t" by auto
  then show ?case using Cons.IH execute_action_rel assms(2,3) trans by blast
qed

lemma signed_transaction_rel_start:
  assumes "transaction_check_and_execute E tx s = Inr t" "relays_keep R E"
    and "tx_address_bytes (sha256 E) tx = a"
  shows "\<exists>l. R (tx_start E tx l s) t"
  using assms(1)
proof (rule transaction_Inr)
  fix l u
  assume "fold_res (execute_action E (context_of_transaction (sha256 E) tx))
       (List.enumerate 0 (tx_action_list tx))
       (s\<lparr>transaction_context := Some (context_of_transaction (sha256 E) tx), last_transaction_ids := l,
         nonces := (nonces s)(tx_address_bytes (sha256 E) tx \<mapsto> tx_nonce tx + 1)\<rparr>) = Inr u"
    and t: "t = delete_current_transaction_context u"
  then have "R (tx_start E tx l s) u"
    using execute_actions_rel assms(2,3) unfolding tx_start_def
    by (metis context_of_transaction_def transaction_context.select_convs(1))
  moreover have "R u t" unfolding t delete_current_transaction_context_def by (rule with_context)
  ultimately show ?thesis using trans by blast
qed

end

text \<open>The contract without a signer: the handlers keep the relation for everyone.\<close>

locale handler_relation =
  fixes R :: "'i state \<Rightarrow> 'i state \<Rightarrow> bool"
  assumes refl: "R s s"
    and trans: "R s t \<Longrightarrow> R t u \<Longrightarrow> R s u"
    and handler: "action_check_and_execute E act s = Inr t \<Longrightarrow> \<not> is_ibc_relay act \<Longrightarrow> R s t"
    and fees: "check_and_pay_fees E act s = Inr t \<Longrightarrow> R s t"
    and with_context: "R s (s\<lparr>transaction_context := c\<rparr>)"

sublocale handler_relation \<subseteq> signed: signed_relation R a for a
  by unfold_locales (blast intro: refl trans handler fees with_context)+

context handler_relation
begin

lemma transaction_rel_start:
  "transaction_check_and_execute E tx s = Inr t \<Longrightarrow> relays_keep R E \<Longrightarrow>
    \<exists>l. R (tx_start E tx l s) t"
  by (rule signed.signed_transaction_rel_start) simp_all

end

text \<open>A relation that does not speak of nonces is kept by whole transactions.\<close>

locale tx_relation = handler_relation +
  assumes with_start: "R s (s\<lparr>transaction_context := c, last_transaction_ids := l, nonces := n\<rparr>)"
begin

lemma transaction_rel:
  assumes "transaction_check_and_execute E tx s = Inr t" "relays_keep R E"
  shows "R s t"
proof -
  from transaction_rel_start [OF assms] obtain l where "R (tx_start E tx l s) t" by blast
  moreover have "R s (tx_start E tx l s)" unfolding tx_start_def by (rule with_start)
  ultimately show ?thesis using trans by blast
qed

lemma transactions_rel:
  "fold_res (transaction_check_and_execute E) txs s = Inr t \<Longrightarrow> relays_keep R E \<Longrightarrow> R s t"
  by (induction txs arbitrary: s) (auto intro: refl trans transaction_rel)

end

text \<open>A relation that the rest of the processing of a block keeps too.\<close>

locale chain_relation = tx_relation +
  assumes with_events: "R s (s\<lparr>events := e\<rparr>)"
    and pre_execute: "pre_execute_transactions H us bd A = Inr (A', hs) \<Longrightarrow>
      R (app_state A) (app_state A')"
    and prices: "put_price_for_currency_pair p q s = Inr t \<Longrightarrow> R s t"
    and post_execute: "post_execute_transactions H h i rs A = Inr A' \<Longrightarrow>
      R (app_state A) (app_state A')"
    and new_round: "R (app_state A) (app_state (update_state_for_new_round A))"
begin

lemma app_execute_transaction_rel:
  assumes "app_execute_transaction H tx A = Inr (A', evs)" "relays_keep R (h_ext H)"
  shows "R (app_state A) (app_state A')"
proof -
  from assms(1) obtain u where
    "transaction_check_and_execute (h_ext H) tx ((app_state A)\<lparr>events := []\<rparr>) = Inr u"
    "app_state A' = u\<lparr>events := []\<rparr>"
    by (auto simp: app_execute_transaction_def Let_def)
  then show ?thesis using transaction_rel assms(2) with_events trans by metis
qed

lemma finalize_transactions_rel:
  assumes "finalize_transactions H txs (A, r) = Inr (A', r')" "relays_keep R (h_ext H)"
  shows "R (app_state A) (app_state A')"
  using assms(1)
proof (induction txs arbitrary: A r)
  case Nil
  then show ?case by (simp add: refl)
next
  case (Cons tx txs)
  show ?case
  proof (cases "app_execute_transaction H tx A")
    case (Inl e)
    then show ?thesis using Cons by (cases e) auto
  next
    case (Inr p)
    then obtain B evs where p: "app_execute_transaction H tx A = Inr (B, evs)" by (cases p) auto
    with Cons have "R (app_state B) (app_state A')" by simp
    then show ?thesis using app_execute_transaction_rel [OF p assms(2)] trans by blast
  qed
qed

lemma finalize_block_rel:
  assumes "finalize_block H us skip blk A = Inr (A', r)" "relays_keep R (h_ext H)"
  shows "R (app_state A) (app_state A')"
proof -
  from assms(1) obtain s where
    s: "apply_prices_from_vote_extensions (blk_prices blk) (bd_time (blk_data blk))
         (bd_height (blk_data blk)) (app_state A) = Inr s"
    and A': "A' = A\<lparr>app_state := s\<rparr> \<or> (\<exists>A1 hs A2 rs.
         pre_execute_transactions H us (blk_data blk) (A\<lparr>app_state := s\<rparr>) = Inr (A1, hs) \<and>
         finalize_transactions H (blk_txs blk) (A1, []) = Inr (A2, rs) \<and>
         post_execute_transactions H (blk_hash blk) (blk_injected blk) rs A2 = Inr A')"
    by (auto simp: finalize_block_def split: if_splits)
  have ps: "R (app_state A) s"
    by (rule fold_res_invariant [OF s [unfolded apply_prices_from_vote_extensions_def],
          of "R (app_state A)"]) (auto intro: refl trans prices)
  show ?thesis
  proof (cases "A' = A\<lparr>app_state := s\<rparr>")
    case True
    then show ?thesis using ps by simp
  next
    case False
    with A' obtain A1 hs A2 rs where
      "pre_execute_transactions H us (blk_data blk) (A\<lparr>app_state := s\<rparr>) = Inr (A1, hs)"
      "finalize_transactions H (blk_txs blk) (A1, []) = Inr (A2, rs)"
      "post_execute_transactions H (blk_hash blk) (blk_injected blk) rs A2 = Inr A'" by blast
    then have "R s (app_state A1)" "R (app_state A1) (app_state A2)" "R (app_state A2) (app_state A')"
      using pre_execute [of H us "blk_data blk" "A\<lparr>app_state := s\<rparr>"] finalize_transactions_rel assms(2)
        post_execute by auto
    with ps trans show ?thesis by blast
  qed
qed

end

section \<open>Chains of blocks\<close>

text \<open>
  A chain: blocks that a node without a cached execution finalizes and commits one after the other.
\<close>

definition commit_block :: "'i host \<Rightarrow> upgrades \<Rightarrow> block \<Rightarrow> 'i app \<Rightarrow> 'i app res" where
  "commit_block H us blk A =
     and_then (finalize_block H us False blk A) (\<lambda>(A1, _). Inr (update_state_for_new_round A1))"

abbreviation run_chain :: "'i host \<Rightarrow> upgrades \<Rightarrow> block list \<Rightarrow> 'i app \<Rightarrow> 'i app res" where
  "run_chain H us \<equiv> fold_res (commit_block H us)"

context chain_relation
begin

lemma run_chain_rel:
  assumes "run_chain H us blks A = Inr A'" "relays_keep R (h_ext H)"
  shows "R (app_state A) (app_state A')"
  using assms(1)
proof (induction blks arbitrary: A)
  case Nil
  then show ?case by (simp add: refl)
next
  case (Cons blk blks)
  then obtain C where C0: "commit_block H us blk A = Inr C" and C1: "run_chain H us blks C = Inr A'"
    by auto
  then obtain B r where f: "finalize_block H us False blk A = Inr (B, r)"
    and C: "C = update_state_for_new_round B"
    by (auto simp: commit_block_def)
  from finalize_block_rel [OF f assms(2)] new_round [of B] Cons.IH [OF C1] C trans
  show ?case by blast
qed

end

section \<open>Frame conditions of the components\<close>

text \<open>What the processing of a block outside its transactions leaves alone.\<close>

definition same_accounts :: "'i state \<Rightarrow> 'i state \<Rightarrow> bool" where
  "same_accounts s t \<longleftrightarrow>
     nonces t = nonces s \<and> base_prefix t = base_prefix s \<and> ibc_compat_prefix t = ibc_compat_prefix s \<and>
     native_asset t = native_asset s \<and> ibc_assets t = ibc_assets s \<and>
     bridge_rollup_ids t = bridge_rollup_ids s \<and> bridge_assets t = bridge_assets s \<and>
     bridge_sudos t = bridge_sudos s \<and> bridge_withdrawers t = bridge_withdrawers s \<and>
     withdrawal_events t = withdrawal_events s \<and> last_transaction_ids t = last_transaction_ids s \<and>
     sudo_address t = sudo_address s \<and> fees t = fees s \<and> allowed_fee_assets t = allowed_fee_assets s \<and>
     channel_balances t = channel_balances s \<and> ibc_sudo_address t = ibc_sudo_address s \<and>
     ibc_relayers t = ibc_relayers s \<and> chain_id t = chain_id s"

lemma same_accounts_refl [simp]: "same_accounts s s"
  by (simp add: same_accounts_def)

lemma same_accounts_trans: "same_accounts s t \<Longrightarrow> same_accounts t u \<Longrightarrow> same_accounts s u"
  by (simp add: same_accounts_def)

text \<open>What happens before the transactions also leaves funds and deposits alone.\<close>

definition same_hooks :: "'i state \<Rightarrow> 'i state \<Rightarrow> bool" where
  "same_hooks s t \<longleftrightarrow>
     same_accounts s t \<and> balances t = balances s \<and> block_fees t = block_fees s \<and>
     cached_deposits t = cached_deposits s \<and> stored_deposits t = stored_deposits s \<and>
     transaction_context t = transaction_context s"

lemma same_hooks_refl [simp]: "same_hooks s s"
  by (simp add: same_hooks_def)

lemma same_hooks_trans: "same_hooks s t \<Longrightarrow> same_hooks t u \<Longrightarrow> same_hooks s u"
  by (auto simp: same_hooks_def intro: same_accounts_trans)

lemma foldl_same_hooks:
  assumes "\<And>s x. same_hooks s (f s x)"
  shows "same_hooks s (foldl f s xs)"
proof (induction xs arbitrary: s)
  case (Cons x xs)
  then show ?case using assms same_hooks_trans by (metis foldl_Cons)
qed simp

lemma fold_res_same_hooks:
  assumes "fold_res f xs s = Inr t" "\<And>x s t. f x s = Inr t \<Longrightarrow> same_hooks s t"
  shows "same_hooks s t"
  using assms(1) by (rule fold_res_invariant) (auto intro: same_hooks_trans assms(2))

lemma remove_byzantine_validator_same_hooks:
  "remove_byzantine_validator a s = Inr t \<Longrightarrow> same_hooks s t"
  by (auto simp: remove_byzantine_validator_def remove_validator_def put_validator_count_def
      same_hooks_def same_accounts_def split: if_splits prod.splits)

lemma authority_begin_block_same_hooks:
  "authority_begin_block byz s = Inr t \<Longrightarrow> same_hooks s t"
  by (auto simp: authority_begin_block_def pre_aspen_put_validator_set_def same_hooks_def same_accounts_def
      split: if_splits dest: fold_res_same_hooks [OF _ remove_byzantine_validator_same_hooks])

lemma execute_upgrade_same_hooks:
  assumes "execute_upgrade_if_due H us h s = Inr (t, hs)"
  shows "same_hooks s t"
proof (cases "upgrade_activating_at_height us h")
  case None
  then show ?thesis using assms by (simp add: execute_upgrade_if_due_def)
next
  case (Some u)
  then obtain a where a: "upgrade_activating_at_height us h = Some (Aspen a)" by (cases u) auto
  define s1 where "s1 = foldl (\<lambda>s' name.
    put_upgrade_change_info aspen_name name (aspen_change_info H a name) s') s (aspen_changes a)"
  define s3 where "s3 = oracle_handle_genesis (as_oracle_genesis a)
    (market_map_handle_genesis (as_market_map_genesis a) s1)"
  have 1: "same_hooks s s1" unfolding s1_def
    by (rule foldl_same_hooks) (simp add: put_upgrade_change_info_def same_hooks_def same_accounts_def)
  have put: "same_hooks u (put_currency_pair_state p st u)" for u :: "'a state" and p st
    by (simp add: put_currency_pair_state_def same_hooks_def same_accounts_def)
  have "same_hooks s1 (market_map_handle_genesis (as_market_map_genesis a) s1)"
    by (simp add: market_map_handle_genesis_def put_market_map_def same_hooks_def same_accounts_def)
  also have gen: "same_hooks u (oracle_handle_genesis g u)" for u :: "'a state" and g
    using foldl_same_hooks [of "\<lambda>s' p. put_currency_pair_state (cpg_currency_pair p)
        \<lparr>cps_price = cpg_price p, cps_nonce = cpg_nonce p, cps_id = cpg_id p\<rparr> s'" u
        "og_currency_pair_genesis g", OF put]
    by (simp add: oracle_handle_genesis_def Let_def same_hooks_def same_accounts_def put_next_currency_pair_id_def
        put_num_currency_pairs_def)
  have 3: "same_hooks s1 s3" unfolding s3_def
    using same_hooks_trans [OF calculation gen] .
  from assms a obtain vs where t: "t = foldl (\<lambda>s' (a, v). put_validator (sha256 (h_ext H)) v s')
      (put_validator_count (of_nat (validator_set_len vs)) (aspen_upgrade_remove_validator_set s3)) vs"
    by (auto simp: execute_upgrade_if_due_def handle_aspen_upgrade_def Let_def s3_def s1_def)
  have 4: "same_hooks (put_validator_count n (aspen_upgrade_remove_validator_set s3))
      (foldl (\<lambda>s' (a, v). put_validator (sha256 (h_ext H)) v s')
        (put_validator_count n (aspen_upgrade_remove_validator_set s3)) vs)" for n
    by (rule foldl_same_hooks) (auto simp: put_validator_def same_hooks_def same_accounts_def)
  have 5: "same_hooks s3 (put_validator_count n (aspen_upgrade_remove_validator_set s3))" for n
    by (simp add: put_validator_count_def aspen_upgrade_remove_validator_set_def same_hooks_def same_accounts_def)
  show ?thesis unfolding t
    by (rule same_hooks_trans [OF 1 same_hooks_trans [OF 3 same_hooks_trans [OF 5 4]]])
qed

lemma pre_execute_same_hooks:
  assumes "pre_execute_transactions H us bd A = Inr (A', hs)"
  shows "same_hooks (app_state A) (app_state A')"
proof -
  from assms obtain s1 s2 s3 where
    1: "execute_upgrade_if_due H us (bd_height bd) (app_state A) = Inr (s1, hs)"
    and 2: "s2 = (if hs = [] then app_state A else s1)"
    and 3: "authority_begin_block (bd_misbehavior bd)
        (put_block_timestamp (bd_time bd) (put_block_height (bd_height bd) s2)) = Inr s3"
    and 4: "app_state A' = s3\<lparr>ibc := ibc_begin_block H s3\<rparr>"
    by (auto simp: pre_execute_transactions_def app_begin_block_def Let_def)
  have "same_hooks (app_state A) s2"
    unfolding 2 using execute_upgrade_same_hooks [OF 1] by simp
  moreover have "same_hooks s2 s3"
    using authority_begin_block_same_hooks [OF 3]
    by (simp add: same_hooks_def same_accounts_def put_block_timestamp_def put_block_height_def)
  moreover have "same_hooks s3 (app_state A')" by (simp add: 4 same_hooks_def same_accounts_def)
  ultimately show ?thesis using same_hooks_trans by blast
qed

lemma put_price_same_hooks: "put_price_for_currency_pair p q s = Inr t \<Longrightarrow> same_hooks s t"
  by (auto simp: put_price_for_currency_pair_def put_currency_pair_state_def same_hooks_def same_accounts_def)

lemma pre_execute_same_accounts:
  "pre_execute_transactions H us bd A = Inr (A', hs) \<Longrightarrow> same_accounts (app_state A) (app_state A')"
  by (drule pre_execute_same_hooks) (simp add: same_hooks_def)

lemma put_price_same_accounts: "put_price_for_currency_pair p q s = Inr t \<Longrightarrow> same_accounts s t"
  by (drule put_price_same_hooks) (simp add: same_hooks_def)

lemma apply_prices_same_hooks:
  "apply_prices_from_vote_extensions ps time h s = Inr t \<Longrightarrow> same_hooks s t"
  unfolding apply_prices_from_vote_extensions_def
  by (erule fold_res_same_hooks) (auto intro: put_price_same_hooks)

lemma increase_balance_same_accounts: "increase_balance a k n s = Inr t \<Longrightarrow> same_accounts s t"
  by (auto simp: increase_balance_def put_account_balance_def same_accounts_def)

lemma app_end_block_same_accounts:
  assumes "app_end_block H a s = Inr (t, us)"
  shows "same_accounts s t"
proof -
  from assms obtain s1 where 1: "authority_end_block s = Inr s1"
    and 2: "fold_res (\<lambda>f. increase_balance a (to_ibc_prefixed (sha256 (h_ext H)) (fee_asset_paid f))
        (fee_amount f)) (get_block_fees s)
        (clear_block_validator_updates (s1\<lparr>ibc := ibc_end_block H s1\<rparr>)) = Inr t"
    by (auto simp: app_end_block_def Let_def)
  have "same_accounts s s1"
    using 1 by (auto simp: authority_end_block_def pre_aspen_put_validator_set_def same_accounts_def
        split: if_splits)
  moreover have "same_accounts s1 (clear_block_validator_updates (s1\<lparr>ibc := ibc_end_block H s1\<rparr>))"
    by (simp add: clear_block_validator_updates_def same_accounts_def)
  moreover have "same_accounts (clear_block_validator_updates (s1\<lparr>ibc := ibc_end_block H s1\<rparr>)) t"
    using 2 by (rule fold_res_invariant) (auto intro: same_accounts_trans increase_balance_same_accounts)
  ultimately show ?thesis using same_accounts_trans by blast
qed

lemma post_execute_same_accounts:
  assumes "post_execute_transactions H h i rs A = Inr A'"
  shows "same_accounts (app_state A) (app_state A')"
proof -
  from assms obtain a s us where e: "app_end_block H a (app_state A) = Inr (s, us)"
    and "app_state A' = put_deposits h (get_cached_block_deposits s) s"
    by (auto simp: post_execute_transactions_def)
  then show ?thesis
    using app_end_block_same_accounts [OF e] by (simp add: put_deposits_def same_accounts_def)
qed

lemma new_round_same_accounts: "same_accounts (app_state A) (app_state (update_state_for_new_round A))"
  by (simp add: update_state_for_new_round_def same_accounts_def)

lemmas block_same_accounts =
  pre_execute_same_accounts put_price_same_accounts post_execute_same_accounts new_round_same_accounts

text \<open>
  A relation that only speaks of what \<open>same_accounts\<close> covers is kept by the rest of the processing of a
  block without further proof.
\<close>

locale account_relation = tx_relation +
  assumes accounts: "same_accounts s t \<Longrightarrow> R s t"

sublocale account_relation \<subseteq> chain_relation
proof
  show "R s (s\<lparr>events := e\<rparr>)" for s e by (rule accounts) (simp add: same_accounts_def)
qed (rule accounts, erule block_same_accounts | rule accounts, rule block_same_accounts)+

end
