(* ===== verification/Replay.thy ===== *)
theory Replay
  imports Chain_Relations Proposals
begin

text \<open>
  Nothing is executed twice. A chain is run with a log of the transactions that were executed, in their
  order. The nonces of each signer's transactions in the log are consecutive, so no transaction appears twice,
  and no rollup withdrawal event is paid out twice.
\<close>

section \<open>The log of a chain\<close>

definition executed_txs :: "block \<Rightarrow> post_execution_result \<Rightarrow> transaction list" where
  "executed_txs blk r =
     map fst (filter (\<lambda>(tx, result). case result of TxOk _ \<Rightarrow> True | _ \<Rightarrow> False)
       (zip (blk_txs blk) (drop (blk_injected blk) (per_tx_results r))))"

definition commit_block_log ::
  "'i host \<Rightarrow> upgrades \<Rightarrow> block \<Rightarrow> 'i app \<times> transaction list \<Rightarrow> ('i app \<times> transaction list) res" where
  "commit_block_log H us blk = (\<lambda>(A, log).
     and_then (finalize_block H us False blk A) (\<lambda>(A1, r).
     Inr (update_state_for_new_round A1, log @ executed_txs blk r)))"

text \<open>Without its log this is the chain of \<open>run_chain\<close>.\<close>

lemma commit_block_log_run:
  "fold_res (commit_block_log H us) blks (A, log) = Inr (A', log') \<Longrightarrow> run_chain H us blks A = Inr A'"
proof (induction blks arbitrary: A log)
  case (Cons blk blks)
  then obtain B l where "commit_block_log H us blk (A, log) = Inr (B, l)"
    "fold_res (commit_block_log H us) blks (B, l) = Inr (A', log')" by auto
  moreover from this(1) have "commit_block H us blk A = Inr B"
    by (auto simp: commit_block_log_def commit_block_def)
  ultimately show ?case using Cons.IH by simp
qed simp

lemma finalize_transactions_results:
  "finalize_transactions H txs (A, r) = Inr (A', r') \<Longrightarrow> \<exists>r''. r' = r @ r''"
proof (induction txs arbitrary: A r)
  case Nil
  then show ?case by simp
next
  case (Cons tx txs)
  show ?case
  proof (cases "app_execute_transaction H tx A")
    case (Inl e)
    then show ?thesis using Cons by (cases e) (auto dest!: Cons.IH)
  next
    case (Inr p)
    then show ?thesis using Cons by (cases p) (auto dest!: Cons.IH)
  qed
qed

text \<open>
  An invariant of state and log: it survives the writes of \<open>same_accounts\<close>, and a transaction that is
  executed extends the log. The weaker \<open>tx_log_invariant\<close> is for the loop over the transactions of a
  block alone, for transactions with the property \<open>Q\<close>.
\<close>

definition tx_log_invariant ::
  "'i ext \<Rightarrow> (transaction \<Rightarrow> bool) \<Rightarrow> ('i state \<Rightarrow> transaction list \<Rightarrow> bool) \<Rightarrow> bool" where
  "tx_log_invariant E Q I \<longleftrightarrow>
     (\<forall>s e log. I s log \<longrightarrow> I (s\<lparr>events := e\<rparr>) log) \<and>
     (\<forall>s t tx log. Q tx \<longrightarrow> I s log \<longrightarrow> transaction_check_and_execute E tx s = Inr t \<longrightarrow> I t (log @ [tx]))"

definition log_invariant :: "'i ext \<Rightarrow> ('i state \<Rightarrow> transaction list \<Rightarrow> bool) \<Rightarrow> bool" where
  "log_invariant E I \<longleftrightarrow>
     (\<forall>s t log. I s log \<longrightarrow> same_accounts s t \<longrightarrow> I t log) \<and>
     (\<forall>s t tx log. I s log \<longrightarrow> transaction_check_and_execute E tx s = Inr t \<longrightarrow> I t (log @ [tx]))"

lemma log_invariant_tx: "log_invariant E I \<Longrightarrow> tx_log_invariant E (\<lambda>_. True) I"
  unfolding log_invariant_def tx_log_invariant_def
proof (intro conjI allI impI; elim conjE)
  fix s :: "'a state" and e log
  assume "\<forall>s t log. I s log \<longrightarrow> same_accounts s t \<longrightarrow> I t log" "I s log"
  moreover have "same_accounts s (s\<lparr>events := e\<rparr>)" by (simp add: same_accounts_def)
  ultimately show "I (s\<lparr>events := e\<rparr>) log" by blast
qed blast

lemma tx_log_invariant_finalize:
  assumes inv: "tx_log_invariant (h_ext H) Q I"
  shows "finalize_transactions H txs (A, r) = Inr (A', r @ r') \<Longrightarrow> I (app_state A) log \<Longrightarrow>
    list_all Q txs \<Longrightarrow>
    I (app_state A') (log @ map fst (filter (\<lambda>(tx, result). case result of TxOk _ \<Rightarrow> True | _ \<Rightarrow> False)
      (zip txs r')))"
proof (induction txs arbitrary: A r r' log)
  case Nil
  then show ?case by simp
next
  case (Cons tx txs)
  show ?case
  proof (cases "app_execute_transaction H tx A")
    case (Inl e)
    then obtain x where x: "\<And>evs. x \<noteq> TxOk evs"
      "finalize_transactions H txs (A, r @ [x]) = Inr (A', r @ r')"
      using Cons.prems(1) by (cases e) auto
    from finalize_transactions_results [OF x(2)] obtain r'' where r'': "r' = x # r''" by auto
    from Cons.IH [of A "r @ [x]" r'' log] Cons.prems(2,3) x r'' show ?thesis
      by (cases x) auto
  next
    case (Inr p)
    then obtain B evs where p: "app_execute_transaction H tx A = Inr (B, evs)" by (cases p) auto
    with Cons.prems have l: "finalize_transactions H txs (B, r @ [TxOk evs]) = Inr (A', r @ r')" by simp
    from finalize_transactions_results [OF l] obtain r'' where r'': "r' = TxOk evs # r''" by auto
    from p obtain u where u: "transaction_check_and_execute (h_ext H) tx ((app_state A)\<lparr>events := []\<rparr>) = Inr u"
      "app_state B = u\<lparr>events := []\<rparr>"
      by (auto simp: app_execute_transaction_def Let_def)
    have "I ((app_state A)\<lparr>events := []\<rparr>) log"
      using inv Cons.prems(2) unfolding tx_log_invariant_def by blast
    with inv u(1) Cons.prems(3) have "I u (log @ [tx])" unfolding tx_log_invariant_def by auto
    with inv have "I (app_state B) (log @ [tx])" unfolding tx_log_invariant_def u(2) by blast
    from Cons.IH [of B "r @ [TxOk evs]" r'' "log @ [tx]"] this l r'' Cons.prems(3) show ?thesis by simp
  qed
qed

lemma commit_block_log_Inr:
  assumes "commit_block_log H us blk (A, log) = Inr (A', log')"
  obtains s A1 hs A2 rs A3 where
    "apply_prices_from_vote_extensions (blk_prices blk) (bd_time (blk_data blk))
         (bd_height (blk_data blk)) (app_state A) = Inr s"
    "pre_execute_transactions H us (blk_data blk) (A\<lparr>app_state := s\<rparr>) = Inr (A1, hs)"
    "finalize_transactions H (blk_txs blk) (A1, []) = Inr (A2, rs)"
    "post_execute_transactions H (blk_hash blk) (blk_injected blk) rs A2 = Inr A3"
    "A' = update_state_for_new_round A3"
    "log' = log @ map fst (filter (\<lambda>(tx, result). case result of TxOk _ \<Rightarrow> True | _ \<Rightarrow> False)
       (zip (blk_txs blk) rs))"
proof -
  from assms obtain s A1 hs A2 rs A3 where
    *: "apply_prices_from_vote_extensions (blk_prices blk) (bd_time (blk_data blk))
         (bd_height (blk_data blk)) (app_state A) = Inr s"
    "pre_execute_transactions H us (blk_data blk) (A\<lparr>app_state := s\<rparr>) = Inr (A1, hs)"
    "finalize_transactions H (blk_txs blk) (A1, []) = Inr (A2, rs)"
    "post_execute_transactions H (blk_hash blk) (blk_injected blk) rs A2 = Inr A3"
    "A' = update_state_for_new_round A3"
    "log' = log @ executed_txs blk (the (post_transaction_execution_result A3))"
    by (auto simp: commit_block_log_def finalize_block_def)
  have "per_tx_results (the (post_transaction_execution_result A3)) = replicate (blk_injected blk) (TxOk []) @ rs"
    using *(4) by (auto simp: post_execute_transactions_def)
  with *(6) have "log' = log @ map fst (filter (\<lambda>(tx, result). case result of TxOk _ \<Rightarrow> True | _ \<Rightarrow> False)
       (zip (blk_txs blk) rs))" by (simp add: executed_txs_def)
  with * show ?thesis using that by blast
qed

lemma log_invariant_commit:
  assumes inv: "log_invariant (h_ext H) I"
    and "commit_block_log H us blk (A, log) = Inr (A', log')" "I (app_state A) log"
  shows "I (app_state A') log'"
  using assms(2)
proof (rule commit_block_log_Inr)
  fix s A1 hs A2 rs A3
  assume s: "apply_prices_from_vote_extensions (blk_prices blk) (bd_time (blk_data blk))
         (bd_height (blk_data blk)) (app_state A) = Inr s"
    and A1: "pre_execute_transactions H us (blk_data blk) (A\<lparr>app_state := s\<rparr>) = Inr (A1, hs)"
    and A2: "finalize_transactions H (blk_txs blk) (A1, []) = Inr (A2, rs)"
    and A3: "post_execute_transactions H (blk_hash blk) (blk_injected blk) rs A2 = Inr A3"
    and A': "A' = update_state_for_new_round A3"
    and log': "log' = log @ map fst (filter (\<lambda>(tx, result). case result of TxOk _ \<Rightarrow> True | _ \<Rightarrow> False)
       (zip (blk_txs blk) rs))"
  have "same_accounts (app_state A) s"
    using apply_prices_same_hooks [OF s] by (simp add: same_hooks_def)
  with pre_execute_same_accounts [OF A1] have "same_accounts (app_state A) (app_state A1)"
    by (auto intro: same_accounts_trans)
  with assms(3) inv have "I (app_state A1) log" unfolding log_invariant_def by blast
  from tx_log_invariant_finalize [OF log_invariant_tx [OF inv], of "blk_txs blk" A1 "[]" A2 rs, OF _ this] A2
  have "I (app_state A2) log'" unfolding log' by (simp add: list_all_iff)
  moreover have "same_accounts (app_state A2) (app_state A')"
    unfolding A' by (rule same_accounts_trans [OF post_execute_same_accounts [OF A3] new_round_same_accounts])
  ultimately show ?thesis using inv unfolding log_invariant_def by blast
qed

lemma log_invariant_chain:
  assumes "log_invariant (h_ext H) I" "fold_res (commit_block_log H us) blks (A, log) = Inr (A', log')"
    and "I (app_state A) log"
  shows "I (app_state A') log'"
proof -
  have "(\<lambda>(B, l). I (app_state B) l) (A', log')"
    using assms(2)
    by (rule fold_res_invariant) (auto simp: assms(3) intro: log_invariant_commit [OF assms(1)])
  then show ?thesis by simp
qed

section \<open>Nonces\<close>

interpretation nonces_kept: handler_relation "\<lambda>s t :: 'i state. nonces t = nonces s"
proof
  show "action_check_and_execute E act s = Inr t \<Longrightarrow> \<not> is_ibc_relay act \<Longrightarrow> nonces t = nonces s"
    for E act and s t :: "'i state" by (drule (1) action_same_base) (simp add: same_base_def)
  show "check_and_pay_fees E act s = Inr t \<Longrightarrow> nonces t = nonces s" for E act and s t :: "'i state"
    by (drule handler_same_base(16)) (simp add: same_base_def)
qed simp_all

abbreviation relays_keep_nonces :: "'i ext \<Rightarrow> bool" where
  "relays_keep_nonces \<equiv> relays_keep (\<lambda>s t. nonces t = nonces s)"

lemma transaction_nonces:
  assumes "transaction_check_and_execute E tx s = Inr t" "relays_keep_nonces E"
  shows "nonces t = (nonces s)(tx_address_bytes (sha256 E) tx \<mapsto> tx_nonce tx + 1)"
    and "get_account_nonce s (tx_address_bytes (sha256 E) tx) = tx_nonce tx"
    and "unat (tx_nonce tx + 1) = unat (tx_nonce tx) + 1"
proof -
  show "nonces t = (nonces s)(tx_address_bytes (sha256 E) tx \<mapsto> tx_nonce tx + 1)"
    using nonces_kept.transaction_rel_start [OF assms] by (simp add: tx_start_def)
  show "get_account_nonce s (tx_address_bytes (sha256 E) tx) = tx_nonce tx"
    "unat (tx_nonce tx + 1) = unat (tx_nonce tx) + 1"
    by (rule transaction_Inr [OF assms(1)], simp add: unat_word_ariths)+
qed

text \<open>The transactions of a signer in a log.\<close>

definition txs_of :: "hash_fun \<Rightarrow> address_bytes \<Rightarrow> transaction list \<Rightarrow> transaction list" where
  "txs_of H a log = filter (\<lambda>tx. tx_address_bytes H tx = a) log"

definition nonces_used :: "hash_fun \<Rightarrow> address_bytes \<Rightarrow> transaction list \<Rightarrow> nat list" where
  "nonces_used H a log = map (\<lambda>tx. unat (tx_nonce tx)) (txs_of H a log)"

definition nonce_log :: "'i ext \<Rightarrow> (address_bytes \<Rightarrow> nat) \<Rightarrow> 'i state \<Rightarrow> transaction list \<Rightarrow> bool" where
  "nonce_log E n0 s log \<longleftrightarrow>
     (\<forall>a. nonces_used (sha256 E) a log = [n0 a..<unat (get_account_nonce s a)] \<and>
          n0 a \<le> unat (get_account_nonce s a))"

lemma nonce_log_invariant:
  assumes "relays_keep_nonces E"
  shows "log_invariant E (nonce_log E n0)"
  unfolding log_invariant_def
proof (intro conjI allI impI)
  fix s t :: "'a state" and log
  assume "nonce_log E n0 s log" "same_accounts s t"
  then show "nonce_log E n0 t log"
    by (simp add: nonce_log_def get_account_nonce_def same_accounts_def)
next
  fix s t :: "'a state" and tx log
  let ?a = "tx_address_bytes (sha256 E) tx"
  assume log: "nonce_log E n0 s log" and tx: "transaction_check_and_execute E tx s = Inr t"
  note n = transaction_nonces [OF tx assms]
  have "nonces_used (sha256 E) a (log @ [tx]) = [n0 a..<unat (get_account_nonce t a)] \<and>
      n0 a \<le> unat (get_account_nonce t a)" for a
  proof (cases "a = ?a")
    case True
    have t: "unat (get_account_nonce t a) = Suc (unat (get_account_nonce s a))"
      using n True by (simp add: get_account_nonce_def)
    moreover have le: "n0 a \<le> unat (get_account_nonce s a)" using log by (simp add: nonce_log_def)
    ultimately have "[n0 a..<unat (get_account_nonce t a)] =
        [n0 a..<unat (get_account_nonce s a)] @ [unat (tx_nonce tx)]"
      using True n(2) by simp
    with log True t le n(2) show ?thesis by (simp add: nonce_log_def nonces_used_def txs_of_def)
  next
    case False
    then show ?thesis using log n(1)
      by (simp add: nonce_log_def nonces_used_def txs_of_def get_account_nonce_def)
  qed
  then show "nonce_log E n0 t (log @ [tx])" by (simp add: nonce_log_def)
qed

lemma distinct_by_key:
  "(\<And>a. distinct (map g (filter (\<lambda>x. f x = a) xs))) \<Longrightarrow> distinct (map (\<lambda>x. (f x, g x)) xs)"
proof (induction xs)
  case Nil
  then show ?case by simp
next
  case (Cons x xs)
  have "(f x, g x) \<notin> set (map (\<lambda>x. (f x, g x)) xs)"
    using Cons.prems [of "f x"] by auto
  moreover have "distinct (map g (filter (\<lambda>x. f x = a) xs))" for a
    using Cons.prems [of a] by (auto split: if_splits)
  ultimately show ?case using Cons.IH by simp
qed

text \<open>
  C5. No replay: in every chain of committed blocks, the nonces of the transactions executed for a signer
  are exactly the numbers from the signer's first nonce up to the last one, in order and without gaps.
  So no transaction of a signer is executed twice, and none out of order. (Relayed IBC messages, which code outside
  the repository executes, must not write nonces.)
\<close>

theorem chain_executes_consecutive_nonces:
  assumes "fold_res (commit_block_log H us) blks (A, []) = Inr (A', log)"
    and "relays_keep_nonces (h_ext H)"
  shows "nonces_used (sha256 (h_ext H)) a log =
      [unat (get_account_nonce (app_state A) a)..<unat (get_account_nonce (app_state A') a)] \<and>
    distinct (map (\<lambda>tx. (tx_address_bytes (sha256 (h_ext H)) tx, tx_nonce tx)) log)"
proof -
  let ?n0 = "\<lambda>a. unat (get_account_nonce (app_state A) a)"
  have "nonce_log (h_ext H) ?n0 (app_state A) []"
    by (simp add: nonce_log_def nonces_used_def txs_of_def)
  from log_invariant_chain [OF nonce_log_invariant [OF assms(2)] assms(1) this]
  have used: "nonces_used (sha256 (h_ext H)) a log = [?n0 a..<unat (get_account_nonce (app_state A') a)]" for a
    by (simp add: nonce_log_def)
  have "distinct (map (\<lambda>tx. unat (tx_nonce tx)) (filter (\<lambda>tx. tx_address_bytes (sha256 (h_ext H)) tx = a) log))" for a
    using used [of a] by (simp add: nonces_used_def txs_of_def)
  then have "distinct (map tx_nonce (filter (\<lambda>tx. tx_address_bytes (sha256 (h_ext H)) tx = a) log))" for a
    by (auto simp: distinct_map inj_on_def)
  from distinct_by_key [OF this] used show ?thesis by blast
qed

section \<open>Withdrawal events\<close>

text \<open>The rollup withdrawal event that an action pays out, with the bridge account that pays.\<close>

fun claimed_event :: "'i ext \<Rightarrow> action \<Rightarrow> (address_bytes \<times> string) option" where
  "claimed_event E (BridgeUnlock act) =
     Some (addr_bytes (bu_bridge_address act), bu_rollup_withdrawal_event_id act)"
| "claimed_event E (BridgeTransfer act) =
     Some (addr_bytes (bt_bridge_address act), bt_rollup_withdrawal_event_id act)"
| "claimed_event E (Ics20Withdrawal act) =
     (case (iw_bridge_address act, parse_bridge_memo E (iw_memo act)) of
        (Some b, Inr memo) \<Rightarrow> Some (addr_bytes b, bm_rollup_withdrawal_event_id memo)
      | _ \<Rightarrow> None)"
| "claimed_event E _ = None"

definition claims_of :: "'i ext \<Rightarrow> action list \<Rightarrow> (address_bytes \<times> string) list" where
  "claims_of E acts = List.map_filter (claimed_event E) acts"

lemma claims_of_Cons: "claims_of E (act # acts) = claims_of E [act] @ claims_of E acts"
  by (simp add: claims_of_def map_filter_simps split: option.split)

abbreviation relays_keep_events :: "'i ext \<Rightarrow> bool" where
  "relays_keep_events \<equiv> relays_keep (\<lambda>s t. withdrawal_events t = withdrawal_events s)"

text \<open>How the events of a state grow by new ones, none of them twice.\<close>

definition events_claimed ::
  "'i state \<Rightarrow> (address_bytes \<times> string) list \<Rightarrow> 'i state \<Rightarrow> bool" where
  "events_claimed s ks t \<longleftrightarrow>
     distinct ks \<and> set ks \<inter> dom (withdrawal_events s) = {} \<and>
     dom (withdrawal_events t) = dom (withdrawal_events s) \<union> set ks"

lemma events_claimed_trans:
  "events_claimed s ks t \<Longrightarrow> events_claimed t js u \<Longrightarrow> events_claimed s (ks @ js) u"
  unfolding events_claimed_def by auto

lemma events_claimed_same: "withdrawal_events t = withdrawal_events s \<Longrightarrow> events_claimed s [] t"
  by (simp add: events_claimed_def)

lemma withdrawal_event_claimed:
  assumes "check_and_set_withdrawal_event_block_for_bridge_account a i n s = Inr u"
    and "withdrawal_events t = withdrawal_events u"
  shows "events_claimed s [(a, i)] t"
  using withdrawal_event_frame [OF assms(1)] assms(2) by (auto simp: events_claimed_def)

lemma bridge_unlock_claims:
  assumes "bridge_unlock_check_and_execute E act s = Inr t"
  shows "events_claimed s [(addr_bytes (bu_bridge_address act), bu_rollup_withdrawal_event_id act)] t"
proof -
  from assms obtain tr u where
    u: "check_and_set_withdrawal_event_block_for_bridge_account (addr_bytes (bu_bridge_address act))
      (bu_rollup_withdrawal_event_id act) (bu_rollup_block_number act) s = Inr u"
    and t: "execute_transfer E tr (addr_bytes (bu_bridge_address act)) u = Inr t"
    by (auto simp: bridge_unlock_check_and_execute_def Let_def)
  have "withdrawal_events t = withdrawal_events u" by (subst execute_transfer_frame [OF t], simp)
  with u show ?thesis by (rule withdrawal_event_claimed)
qed

lemma bridge_transfer_claims:
  assumes "bridge_transfer_check_and_execute E act s = Inr t"
  shows "events_claimed s [(addr_bytes (bt_bridge_address act), bt_rollup_withdrawal_event_id act)] t"
proof -
  from assms obtain bl u where
    u: "check_and_set_withdrawal_event_block_for_bridge_account (addr_bytes (bt_bridge_address act))
      (bt_rollup_withdrawal_event_id act) (bt_rollup_block_number act) s = Inr u"
    and t: "execute_bridge_lock E bl u = Inr t"
    by (auto simp: bridge_transfer_check_and_execute_def)
  have "withdrawal_events t = withdrawal_events u" by (subst execute_bridge_lock_frame [OF t], simp)
  with u show ?thesis by (rule withdrawal_event_claimed)
qed

lemma ics20_withdrawal_claims:
  assumes "ics20_withdrawal_check_and_execute E act s = Inr t"
  shows "events_claimed s (claims_of E [Ics20Withdrawal act]) t"
  using assms
proof (rule ics20_withdrawal_Inr)
  fix a s1 target time raw packet s2 s3
  assume s1: "claim_withdrawal_event E act s = Inr s1"
    and s2: "decrease_balance target (ibc_of E (iw_denom act)) (iw_amount act) s1 = Inr s2"
    and s3: "escrow_withdrawal E act packet s2 = Inr s3"
    and t: "t = s3\<lparr>ibc := send_packet_execute E packet (ibc s3)\<rparr>"
  have "withdrawal_events s3 = withdrawal_events s2" by (subst escrow_withdrawal_frame [OF s3], simp)
  moreover have "withdrawal_events s2 = withdrawal_events s1" by (subst decrease_balance_frame [OF s2], simp)
  ultimately have e: "withdrawal_events t = withdrawal_events s1" by (simp add: t)
  show ?thesis
  proof (cases "iw_bridge_address act")
    case None
    then show ?thesis using s1 e
      by (simp add: claim_withdrawal_event_def claims_of_def map_filter_simps events_claimed_same)
  next
    case (Some b)
    with s1 obtain memo where "parse_bridge_memo E (iw_memo act) = Inr memo"
      "check_and_set_withdrawal_event_block_for_bridge_account (addr_bytes b)
        (bm_rollup_withdrawal_event_id memo) (bm_rollup_block_number memo) s = Inr s1"
      by (auto simp: claim_withdrawal_event_def)
    with Some show ?thesis
      using withdrawal_event_claimed [OF _ e] by (simp add: claims_of_def map_filter_simps)
  qed
qed

lemma events_kept:
  "transfer_check_and_execute E x1 s = Inr t \<Longrightarrow> withdrawal_events t = withdrawal_events s"
  "bridge_lock_check_and_execute E x2 s = Inr t \<Longrightarrow> withdrawal_events t = withdrawal_events s"
  "bridge_sudo_change_check_and_execute x5 s = Inr t \<Longrightarrow> withdrawal_events t = withdrawal_events s"
  "init_bridge_account_check_and_execute E x6 s = Inr t \<Longrightarrow> withdrawal_events t = withdrawal_events s"
  "sudo_address_change_check_and_execute x7 s = Inr t \<Longrightarrow> withdrawal_events t = withdrawal_events s"
  "ibc_sudo_change_check_and_execute x8 s = Inr t \<Longrightarrow> withdrawal_events t = withdrawal_events s"
  "ibc_relayer_change_check_and_execute x9 s = Inr t \<Longrightarrow> withdrawal_events t = withdrawal_events s"
  "fee_asset_change_check_and_execute E x10 s = Inr t \<Longrightarrow> withdrawal_events t = withdrawal_events s"
  "fee_change_check_and_execute x11 s = Inr t \<Longrightarrow> withdrawal_events t = withdrawal_events s"
  "validator_update_check_and_execute E x12 s = Inr t \<Longrightarrow> withdrawal_events t = withdrawal_events s"
  "recover_ibc_client_check_and_execute E x13 s = Inr t \<Longrightarrow> withdrawal_events t = withdrawal_events s"
  "markets_change_check_and_execute x14 s = Inr t \<Longrightarrow> withdrawal_events t = withdrawal_events s"
  "check_and_pay_fees E x16 s = Inr t \<Longrightarrow> withdrawal_events t = withdrawal_events s"
  by ((drule transfer_frame bridge_lock_frame
    bridge_sudo_change_frame init_bridge_account_frame sudo_address_change_frame ibc_sudo_change_frame
    ibc_relayer_change_frame fee_asset_change_frame fee_change_frame validator_update_frame
    recover_ibc_client_frame markets_change_frame check_and_pay_fees_frame),
    erule ssubst, simp)+

lemma currency_pairs_change_events_kept:
  "currency_pairs_change_check_and_execute x s = Inr t \<Longrightarrow> withdrawal_events t = withdrawal_events s"
  by (auto simp: pairs_updated_def dest!: currency_pairs_change_frame)

lemma action_claims:
  assumes "action_check_and_execute E act s = Inr t" "\<not> is_ibc_relay act"
  shows "events_claimed s (claims_of E [act]) t"
  using assms
proof (cases act)
  case (Ics20Withdrawal x)
  then show ?thesis using assms ics20_withdrawal_claims by simp
qed (auto simp: is_ibc_relay_def claims_of_def map_filter_simps rollup_data_submission_check_and_execute_def
    intro: bridge_unlock_claims bridge_transfer_claims events_claimed_same
    dest: events_kept currency_pairs_change_events_kept)

lemma execute_actions_claims:
  assumes "relays_keep_events E"
  shows "fold_res (execute_action E c) (List.enumerate i acts) s = Inr t \<Longrightarrow>
    events_claimed s (claims_of E acts) t"
proof (induction acts arbitrary: i s)
  case Nil
  then show ?case by (simp add: claims_of_def map_filter_simps events_claimed_same)
next
  case (Cons act acts)
  then obtain u where u: "execute_action E c (i, act) s = Inr u"
    "fold_res (execute_action E c) (List.enumerate (Suc i) acts) u = Inr t" by auto
  let ?s = "s\<lparr>transaction_context := Some (c\<lparr>ctx_position_in_transaction := of_nat i\<rparr>)\<rparr>"
  have "events_claimed ?s (claims_of E [act]) u"
    using u(1)
  proof (cases rule: execute_action_cases)
    case (relay r)
    then show ?thesis using assms
      by (auto simp: relays_keep_def claims_of_def map_filter_simps dest!: events_claimed_same)
  next
    case (action v)
    from action_claims [OF action(2,1)] events_kept(13) [OF action(3)]
    show ?thesis by (simp add: events_claimed_def)
  qed
  then have "events_claimed s (claims_of E [act]) u" by (simp add: events_claimed_def)
  from events_claimed_trans [OF this Cons.IH [OF u(2)]] show ?case
    by (subst claims_of_Cons)
qed

lemma transaction_claims:
  assumes "transaction_check_and_execute E tx s = Inr t" "relays_keep_events E"
  shows "events_claimed s (claims_of E (tx_action_list tx)) t"
  using assms(1)
  by (rule transaction_Inr)
    (drule execute_actions_claims [OF assms(2)],
      simp add: events_claimed_def delete_current_transaction_context_def)

definition claims_log ::
  "'i ext \<Rightarrow> 'i state \<Rightarrow> 'i state \<Rightarrow> transaction list \<Rightarrow> bool" where
  "claims_log E s0 s log \<longleftrightarrow> events_claimed s0 (concat (map (\<lambda>tx. claims_of E (tx_action_list tx)) log)) s"

lemma claims_log_invariant:
  assumes "relays_keep_events E"
  shows "log_invariant E (claims_log E s0)"
  unfolding log_invariant_def
proof (intro conjI allI impI)
  fix s t :: "'a state" and log
  assume "claims_log E s0 s log" "same_accounts s t"
  then show "claims_log E s0 t log" by (simp add: claims_log_def events_claimed_def same_accounts_def)
next
  fix s t :: "'a state" and tx log
  assume "claims_log E s0 s log" and "transaction_check_and_execute E tx s = Inr t"
  then show "claims_log E s0 t (log @ [tx])"
    by (auto simp: claims_log_def intro: events_claimed_trans transaction_claims [OF _ assms])
qed

text \<open>
  C6. No double payout: over every chain of committed blocks, the rollup withdrawal events for which
  bridge accounts paid out are pairwise different for each bridge account, and different from those
  paid out before.
\<close>

theorem chain_pays_withdrawal_events_once:
  assumes "fold_res (commit_block_log H us) blks (A, []) = Inr (A', log)"
    and "relays_keep_events (h_ext H)"
  shows "distinct (concat (map (\<lambda>tx. claims_of (h_ext H) (tx_action_list tx)) log)) \<and>
    list_all (\<lambda>k. withdrawal_events (app_state A) k = None)
      (concat (map (\<lambda>tx. claims_of (h_ext H) (tx_action_list tx)) log))"
proof -
  have "claims_log (h_ext H) (app_state A) (app_state A) []"
    by (simp add: claims_log_def events_claimed_def)
  from log_invariant_chain [OF claims_log_invariant [OF assms(2)] assms(1) this]
  show ?thesis unfolding claims_log_def events_claimed_def list_all_iff by auto
qed

section \<open>A chain of two blocks\<close>

definition sample_block :: "u64 \<Rightarrow> transaction list \<Rightarrow> block" where
  "sample_block h txs =
     \<lparr>blk_data = \<lparr>bd_misbehavior = [], bd_height = h, bd_time = 5\<rparr>, blk_hash = [1], blk_injected = 2,
      blk_upgrade_change_hashes = [], blk_prices = [], blk_txs = txs\<rparr>"

definition sample_blocks :: "block list" where
  "sample_blocks =
     [sample_block 2 [sample_tx 1 0 [sample_bridge_unlock], sample_tx 1 7 [sample_transfer]],
      sample_block 3 []]"

definition sample_chain_end :: "unit app \<times> transaction list" where
  "sample_chain_end = projr (fold_res (commit_block_log sample_host []) sample_blocks (sample_app, []))"

lemma sample_chain_not_err:
  "\<not> isl (fold_res (commit_block_log sample_host []) sample_blocks (sample_app, []))"
  by code_simp

lemma sample_chain_runs:
  "fold_res (commit_block_log sample_host []) sample_blocks (sample_app, []) =
     Inr (fst sample_chain_end, snd sample_chain_end)"
  unfolding sample_chain_end_def prod.collapse by (rule Inr_projr [OF sample_chain_not_err])

lemma sample_relays_keep: "(\<And>s. R s s) \<Longrightarrow> relays_keep R (h_ext sample_host)"
  by (simp add: relays_keep_def sample_host_def sample_ext_def)

theorem chain_executes_consecutive_nonces_witness:
  "nonces_used (sha256 (h_ext sample_host)) (sample_account 1) (snd sample_chain_end) =
      [unat (get_account_nonce (app_state sample_app) (sample_account 1))..<
        unat (get_account_nonce (app_state (fst sample_chain_end)) (sample_account 1))] \<and>
    distinct (map (\<lambda>tx. (tx_address_bytes (sha256 (h_ext sample_host)) tx, tx_nonce tx)) (snd sample_chain_end))"
  by (rule chain_executes_consecutive_nonces [OF sample_chain_runs]) (rule sample_relays_keep, rule refl)

theorem chain_pays_withdrawal_events_once_witness:
  "distinct (concat (map (\<lambda>tx. claims_of (h_ext sample_host) (tx_action_list tx)) (snd sample_chain_end))) \<and>
    list_all (\<lambda>k. withdrawal_events (app_state sample_app) k = None)
      (concat (map (\<lambda>tx. claims_of (h_ext sample_host) (tx_action_list tx)) (snd sample_chain_end)))"
  by (rule chain_pays_withdrawal_events_once [OF sample_chain_runs]) (rule sample_relays_keep, rule refl)

end
