(* ===== verification/Action_Writes.thy ===== *)
theory Action_Writes
  imports Frames
begin

text \<open>
  The actions by what they write: funds, the administered state, or a bridge account. A property of
  all actions follows from one argument for each class.
\<close>

definition funds_written :: "'i state \<Rightarrow> 'i state \<Rightarrow> bool" where
  "funds_written s t \<longleftrightarrow> (\<exists>b w d e c i. t = s\<lparr>balances := b, withdrawal_events := w, cached_deposits := d,
     events := e, channel_balances := c, ibc := i\<rparr>)"

definition admin_written :: "'i state \<Rightarrow> 'i state \<Rightarrow> bool" where
  "admin_written s t \<longleftrightarrow> (\<exists>x1 x2 x3 x4 x5 x6 x7 x8 x9 x10 x11 x12 x13 x14 x15 x16.
     t = s\<lparr>sudo_address := x1, block_validator_updates := x2, validators := x3, validator_count := x4,
       fees := x5, allowed_fee_assets := x6, ibc_sudo_address := x7, ibc_relayers := x8,
       num_currency_pairs := x9, next_currency_pair_id := x10, currency_pair_ids := x11,
       currency_pairs_by_id := x12, currency_pair_states := x13, stored_market_map := x14,
       market_map_last_updated := x15, ibc := x16\<rparr>)"

fun is_fund_action :: "action \<Rightarrow> bool" where
  "is_fund_action (Transfer _) = True"
| "is_fund_action (RollupDataSubmission _) = True"
| "is_fund_action (BridgeLock _) = True"
| "is_fund_action (BridgeUnlock _) = True"
| "is_fund_action (BridgeTransfer _) = True"
| "is_fund_action (Ics20Withdrawal _) = True"
| "is_fund_action _ = False"

text \<open>The actions only the sudo address may sign, and the one of the IBC sudo address.\<close>

fun is_sudo_action :: "action \<Rightarrow> bool" where
  "is_sudo_action (SudoAddressChange _) = True"
| "is_sudo_action (IbcSudoChange _) = True"
| "is_sudo_action (FeeChange _) = True"
| "is_sudo_action (FeeAssetChange _) = True"
| "is_sudo_action (ValidatorUpdate _) = True"
| "is_sudo_action (RecoverIbcClient _) = True"
| "is_sudo_action (CurrencyPairsChange _) = True"
| "is_sudo_action (MarketsChange _) = True"
| "is_sudo_action _ = False"

section \<open>Funds\<close>

lemma funds_writtenI:
  "t = s\<lparr>balances := balances t, withdrawal_events := withdrawal_events t,
     cached_deposits := cached_deposits t, events := events t, channel_balances := channel_balances t,
     ibc := ibc t\<rparr> \<Longrightarrow> funds_written s t"
  unfolding funds_written_def by blast

lemma handler_funds_written:
  "transfer_check_and_execute E x1 s = Inr t \<Longrightarrow> funds_written s t"
  "bridge_lock_check_and_execute E x2 s = Inr t \<Longrightarrow> funds_written s t"
  "bridge_unlock_check_and_execute E x3 s = Inr t \<Longrightarrow> funds_written s t"
  "bridge_transfer_check_and_execute E x4 s = Inr t \<Longrightarrow> funds_written s t"
  "ics20_withdrawal_check_and_execute E x5 s = Inr t \<Longrightarrow> funds_written s t"
  by (rule funds_writtenI; (drule transfer_frame bridge_lock_frame bridge_unlock_frame
    bridge_transfer_frame ics20_withdrawal_frame), erule ssubst, simp)+

lemma fund_action_writes:
  "action_check_and_execute E act s = Inr t \<Longrightarrow> is_fund_action act \<Longrightarrow> funds_written s t"
  by (cases act) (auto intro: handler_funds_written funds_writtenI
    simp: rollup_data_submission_check_and_execute_def)

section \<open>Administration\<close>

lemma admin_writtenI:
  "t = s\<lparr>sudo_address := sudo_address t, block_validator_updates := block_validator_updates t,
     validators := validators t, validator_count := validator_count t,
     fees := fees t, allowed_fee_assets := allowed_fee_assets t,
     ibc_sudo_address := ibc_sudo_address t, ibc_relayers := ibc_relayers t,
     num_currency_pairs := num_currency_pairs t, next_currency_pair_id := next_currency_pair_id t,
     currency_pair_ids := currency_pair_ids t, currency_pairs_by_id := currency_pairs_by_id t,
     currency_pair_states := currency_pair_states t, stored_market_map := stored_market_map t,
     market_map_last_updated := market_map_last_updated t, ibc := ibc t\<rparr> \<Longrightarrow> admin_written s t"
  unfolding admin_written_def by blast

lemma handler_admin_written:
  "sudo_address_change_check_and_execute x7 s = Inr t \<Longrightarrow> admin_written s t"
  "ibc_sudo_change_check_and_execute x8 s = Inr t \<Longrightarrow> admin_written s t"
  "ibc_relayer_change_check_and_execute x9 s = Inr t \<Longrightarrow> admin_written s t"
  "fee_asset_change_check_and_execute E x10 s = Inr t \<Longrightarrow> admin_written s t"
  "fee_change_check_and_execute x11 s = Inr t \<Longrightarrow> admin_written s t"
  "validator_update_check_and_execute E x12 s = Inr t \<Longrightarrow> admin_written s t"
  "recover_ibc_client_check_and_execute E x13 s = Inr t \<Longrightarrow> admin_written s t"
  "markets_change_check_and_execute x14 s = Inr t \<Longrightarrow> admin_written s t"
  by (rule admin_writtenI; (drule sudo_address_change_frame ibc_sudo_change_frame
    ibc_relayer_change_frame fee_asset_change_frame fee_change_frame validator_update_frame
    recover_ibc_client_frame markets_change_frame), erule ssubst, simp)+

lemma pairs_updated_admin_written: "pairs_updated s t \<Longrightarrow> admin_written s t"
  unfolding pairs_updated_def by (elim exE, rule admin_writtenI) simp

lemma admin_action_writes:
  "action_check_and_execute E act s = Inr t \<Longrightarrow>
    is_sudo_action act \<or> (\<exists>x. act = IbcRelayerChange x) \<Longrightarrow> admin_written s t"
  by (cases act) (auto intro: handler_admin_written pairs_updated_admin_written currency_pairs_change_frame)

lemma sudo_action_signer:
  "action_check_and_execute E act s = Inr t \<Longrightarrow> is_sudo_action act \<Longrightarrow>
    transaction_context s = Some c \<Longrightarrow> sudo_address s = Some (ctx_address_bytes c)"
  by (cases act) (auto simp: sudo_address_change_check_and_execute_def
      ibc_sudo_change_check_and_execute_def fee_change_check_and_execute_def
      fee_asset_change_check_and_execute_def validator_update_check_and_execute_def
      recover_ibc_client_check_and_execute_def markets_change_check_and_execute_def
      currency_pairs_change_check_and_execute_def check_and_execute_currency_pairs_addition_def
      check_and_execute_currency_pairs_removal_def validate_signer_is_sudo_def get_sudo_address_def
      split: currency_pairs_change.splits)

lemma relayer_change_signer:
  "ibc_relayer_change_check_and_execute x s = Inr t \<Longrightarrow> transaction_context s = Some c \<Longrightarrow>
    ibc_sudo_address s = Some (ctx_address_bytes c) \<and> t = s\<lparr>ibc_relayers := ibc_relayers t\<rparr>"
  using ibc_relayer_change_frame [of x s t]
  by (auto simp: ibc_relayer_change_check_and_execute_def get_ibc_sudo_address_def)

section \<open>The classes cover every action\<close>

lemma action_classes:
  assumes "action_check_and_execute E act s = Inr t" "\<not> is_ibc_relay act"
  obtains (funds) "is_fund_action act" "funds_written s t"
  | (admin) "is_sudo_action act" "admin_written s t"
  | (relayers) x where "act = IbcRelayerChange x" "ibc_relayer_change_check_and_execute x s = Inr t"
  | (bridge_sudo) x where "act = BridgeSudoChange x" "bridge_sudo_change_check_and_execute x s = Inr t"
  | (init_bridge) x where "act = InitBridgeAccount x" "init_bridge_account_check_and_execute E x s = Inr t"
proof -
  consider "is_fund_action act" | "is_sudo_action act" | x where "act = IbcRelayerChange x"
    | x where "act = BridgeSudoChange x" | x where "act = InitBridgeAccount x"
    using assms(2) by (cases act) (auto simp: is_ibc_relay_def)
  then show ?thesis
  proof cases
    case 1
    then show ?thesis using that(1) fund_action_writes [OF assms(1)] by blast
  next
    case 2
    then show ?thesis using that(2) admin_action_writes [OF assms(1)] by blast
  qed (use assms(1) that(3,4,5) in auto)
qed

end
