(* ===== verification/Block_Conservation.thy ===== *)
theory Block_Conservation
  imports Conservation Replay Action_Writes
begin

text \<open>
  Funds over whole blocks. At the end of a block the fees of its transactions are paid out, so the
  supply of a committed state consists of balances and escrow alone, and a chain of blocks keeps it.
\<close>

section \<open>Recorded fees\<close>







section \<open>The end of a block\<close>











section \<open>Chains\<close>











end
