(* ===== verification/Bridge_Safety.thy ===== *)
theory Bridge_Safety
  imports Chain_Relations Action_Writes Replay
begin

text \<open>
  Bridge accounts: a bridge account is complete, keeps its rollup and its asset for ever, and only its
  withdrawer (or the account itself, for the fees of its transactions) takes funds from it.
\<close>

section \<open>Well-formed bridge accounts\<close>

definition bridge_wf :: "'i state \<Rightarrow> bool" where
  "bridge_wf s \<longleftrightarrow>
     dom (bridge_assets s) = dom (bridge_rollup_ids s) \<and>
     dom (bridge_sudos s) = dom (bridge_rollup_ids s) \<and>
     dom (bridge_withdrawers s) = dom (bridge_rollup_ids s)"

definition bridge_step :: "'i state \<Rightarrow> 'i state \<Rightarrow> bool" where
  "bridge_step s t \<longleftrightarrow>
     (bridge_wf s \<longrightarrow> bridge_wf t \<and> bridge_rollup_ids s \<subseteq>\<^sub>m bridge_rollup_ids t \<and>
        bridge_assets s \<subseteq>\<^sub>m bridge_assets t)"

definition same_bridges :: "'i state \<Rightarrow> 'i state \<Rightarrow> bool" where
  "same_bridges s t \<longleftrightarrow>
     bridge_rollup_ids t = bridge_rollup_ids s \<and> bridge_assets t = bridge_assets s \<and>
     bridge_sudos t = bridge_sudos s \<and> bridge_withdrawers t = bridge_withdrawers s"

lemma same_bridges_step: "same_bridges s t \<Longrightarrow> bridge_step s t"
  by (simp add: same_bridges_def bridge_step_def bridge_wf_def)

lemma same_accounts_bridges: "same_accounts s t \<Longrightarrow> same_bridges s t"
  by (simp add: same_accounts_def same_bridges_def)

lemma written_same_bridges:
  "funds_written s t \<Longrightarrow> same_bridges s t" "admin_written s t \<Longrightarrow> same_bridges s t"
  by (auto simp: funds_written_def admin_written_def same_bridges_def)

lemma fees_same_bridges: "check_and_pay_fees E act s = Inr t \<Longrightarrow> same_bridges s t"
  unfolding same_bridges_def by (intro conjI; drule check_and_pay_fees_frame, erule ssubst, simp)

lemma bridge_sudo_change_Inr:
  assumes "bridge_sudo_change_check_and_execute act s = Inr t"
  obtains c so wi where "transaction_context s = Some c"
    "bridge_sudos s (addr_bytes (bsc_bridge_address act)) = Some (ctx_address_bytes c)"
    "so \<noteq> None" "wi = None \<longrightarrow> bridge_withdrawers s (addr_bytes (bsc_bridge_address act)) = None"
    "t = s\<lparr>bridge_sudos := (bridge_sudos s)(addr_bytes (bsc_bridge_address act) := so),
      bridge_withdrawers := (bridge_withdrawers s)(addr_bytes (bsc_bridge_address act) := wi)\<rparr>"
proof -
  let ?b = "addr_bytes (bsc_bridge_address act)"
  define so where "so = (case bsc_new_sudo_address act of None \<Rightarrow> bridge_sudos s ?b | Some a \<Rightarrow> Some (addr_bytes a))"
  define wi where "wi = (case bsc_new_withdrawer_address act of None \<Rightarrow> bridge_withdrawers s ?b
    | Some a \<Rightarrow> Some (addr_bytes a))"
  from assms obtain c where c: "transaction_context s = Some c" "bridge_sudos s ?b = Some (ctx_address_bytes c)"
    and t: "t = s\<lparr>bridge_sudos := (bridge_sudos s)(?b := so), bridge_withdrawers := (bridge_withdrawers s)(?b := wi)\<rparr>"
    by (auto simp: bridge_sudo_change_check_and_execute_def Let_def put_opt_def bridge_write_defs
        get_bridge_account_sudo_address_def so_def wi_def fun_upd_idem split: option.splits)
  show ?thesis by (rule that [OF c _ _ t]) (auto simp: so_def wi_def c split: option.splits)
qed

lemma init_bridge_account_Inr:
  assumes "init_bridge_account_check_and_execute E act s = Inr t"
  obtains c so wi where "transaction_context s = Some c"
    "bridge_rollup_ids s (ctx_address_bytes c) = None"
    "t = s\<lparr>bridge_rollup_ids := (bridge_rollup_ids s)(ctx_address_bytes c \<mapsto> iba_rollup_id act),
      bridge_assets := (bridge_assets s)(ctx_address_bytes c \<mapsto> ibc_of E (iba_asset act)),
      bridge_sudos := (bridge_sudos s)(ctx_address_bytes c \<mapsto> so),
      bridge_withdrawers := (bridge_withdrawers s)(ctx_address_bytes c \<mapsto> wi)\<rparr>"
  using assms
  by (auto simp: init_bridge_account_check_and_execute_def Let_def bridge_write_defs
      get_bridge_account_rollup_id_def)

lemma init_bridge_account_step:
  assumes "init_bridge_account_check_and_execute E act s = Inr t"
  shows "bridge_step s t"
  using assms
proof (rule init_bridge_account_Inr)
  fix c so wi
  assume *: "bridge_rollup_ids s (ctx_address_bytes c) = None"
    "t = s\<lparr>bridge_rollup_ids := (bridge_rollup_ids s)(ctx_address_bytes c \<mapsto> iba_rollup_id act),
      bridge_assets := (bridge_assets s)(ctx_address_bytes c \<mapsto> ibc_of E (iba_asset act)),
      bridge_sudos := (bridge_sudos s)(ctx_address_bytes c \<mapsto> so),
      bridge_withdrawers := (bridge_withdrawers s)(ctx_address_bytes c \<mapsto> wi)\<rparr>"
  have "ctx_address_bytes c \<notin> dom (bridge_assets s)" if "bridge_wf s"
    using that * by (auto simp: bridge_wf_def)
  then show ?thesis using * by (auto simp: bridge_step_def bridge_wf_def map_le_def)
qed

lemma bridge_sudo_change_step:
  assumes "bridge_sudo_change_check_and_execute act s = Inr t"
  shows "bridge_step s t"
  using assms
proof (rule bridge_sudo_change_Inr)
  fix c so wi
  let ?b = "addr_bytes (bsc_bridge_address act)"
  assume *: "bridge_sudos s ?b = Some (ctx_address_bytes c)" "so \<noteq> None"
    "wi = None \<longrightarrow> bridge_withdrawers s ?b = None"
    and t: "t = s\<lparr>bridge_sudos := (bridge_sudos s)(?b := so), bridge_withdrawers := (bridge_withdrawers s)(?b := wi)\<rparr>"
  show ?thesis unfolding bridge_step_def
  proof
    assume wf: "bridge_wf s"
    then have "?b \<in> dom (bridge_withdrawers s)" "?b \<in> dom (bridge_sudos s)"
      using *(1) by (auto simp: bridge_wf_def)
    then have "dom (bridge_sudos t) = dom (bridge_sudos s)"
      "dom (bridge_withdrawers t) = dom (bridge_withdrawers s)"
      using * by (auto simp: t)
    then show "bridge_wf t \<and> bridge_rollup_ids s \<subseteq>\<^sub>m bridge_rollup_ids t \<and> bridge_assets s \<subseteq>\<^sub>m bridge_assets t"
      using wf by (simp add: bridge_wf_def t)
  qed
qed

lemma action_bridge_step:
  assumes "action_check_and_execute E act s = Inr t" "\<not> is_ibc_relay act"
  shows "bridge_step s t"
  using assms
proof (cases rule: action_classes)
  case (relayers x)
  then show ?thesis
    using same_bridges_step written_same_bridges(2) handler_admin_written(3) by blast
qed (auto intro: same_bridges_step written_same_bridges init_bridge_account_step bridge_sudo_change_step)

interpretation bridges: account_relation "bridge_step :: 'i state \<Rightarrow> 'i state \<Rightarrow> bool"
proof
  show "bridge_step s t \<Longrightarrow> bridge_step t u \<Longrightarrow> bridge_step s u" for s t u :: "'i state"
    by (auto simp: bridge_step_def intro: map_le_trans)
  show "action_check_and_execute E act s = Inr t \<Longrightarrow> \<not> is_ibc_relay act \<Longrightarrow> bridge_step s t"
    for E act and s t :: "'i state" by (rule action_bridge_step)
  show "check_and_pay_fees E act s = Inr t \<Longrightarrow> bridge_step s t" for E act and s t :: "'i state"
    by (intro same_bridges_step fees_same_bridges)
  show "same_accounts s t \<Longrightarrow> bridge_step s t" for s t :: "'i state"
    by (intro same_bridges_step same_accounts_bridges)
qed (simp_all add: same_bridges_step same_bridges_def)

text \<open>
  C16. Bridge accounts are complete and keep their identity: from a state in which every bridge account has
  a rollup, an asset, a sudo and a withdrawer address, any chain of blocks leads to such a
  state, and the rollup and the asset of every bridge account are what they were.
\<close>

theorem chain_keeps_bridge_accounts:
  assumes "run_chain H us blks A = Inr A'" "bridge_wf (app_state A)"
    and "relays_keep bridge_step (h_ext H)"
  shows "bridge_wf (app_state A') \<and>
    bridge_rollup_ids (app_state A) \<subseteq>\<^sub>m bridge_rollup_ids (app_state A') \<and>
    bridge_assets (app_state A) \<subseteq>\<^sub>m bridge_assets (app_state A')"
  using bridges.run_chain_rel [OF assms(1,3)] assms(2) by (simp add: bridge_step_def)

theorem chain_keeps_bridge_accounts_witness:
  "bridge_wf (app_state (fst sample_chain_end)) \<and>
    bridge_rollup_ids (app_state sample_app) \<subseteq>\<^sub>m bridge_rollup_ids (app_state (fst sample_chain_end)) \<and>
    bridge_assets (app_state sample_app) \<subseteq>\<^sub>m bridge_assets (app_state (fst sample_chain_end))"
proof (rule chain_keeps_bridge_accounts)
  show "run_chain sample_host [] sample_blocks sample_app = Inr (fst sample_chain_end)"
    by (rule commit_block_log_run [OF sample_chain_runs])
  show "bridge_wf (app_state sample_app)"
    by (simp add: bridge_wf_def sample_app_def sample_state_def)
  show "relays_keep bridge_step (h_ext sample_host)"
    by (rule sample_relays_keep) (rule bridges.refl)
qed

section \<open>Who moves the funds of an account\<close>

text \<open>
  \<open>a\<close> has no authority over the account \<open>b\<close>: it is not \<open>b\<close> itself, not its withdrawer, and not its
  bridge sudo address (which could make itself the withdrawer).
\<close>

definition no_authority :: "address_bytes \<Rightarrow> address_bytes \<Rightarrow> 'i state \<Rightarrow> bool" where
  "no_authority a b s \<longleftrightarrow>
     a \<noteq> b \<and> bridge_wf s \<and> bridge_withdrawers s b \<noteq> Some a \<and> bridge_sudos s b \<noteq> Some a"

definition not_taken :: "address_bytes \<Rightarrow> 'i state \<Rightarrow> 'i state \<Rightarrow> bool" where
  "not_taken b s t \<longleftrightarrow> (\<forall>k. get_account_balance s b k \<le> get_account_balance t b k)"

definition spares :: "address_bytes \<Rightarrow> address_bytes \<Rightarrow> 'i state \<Rightarrow> 'i state \<Rightarrow> bool" where
  "spares a b s t \<longleftrightarrow> (no_authority a b s \<longrightarrow> no_authority a b t \<and> not_taken b s t)"

lemma not_taken_same: "balances t = balances s \<Longrightarrow> not_taken b s t"
  by (simp add: not_taken_def get_account_balance_def)

lemma not_taken_cong:
  "not_taken b s t \<Longrightarrow> balances s' = balances s \<Longrightarrow> balances t' = balances t \<Longrightarrow> not_taken b s' t'"
  by (simp add: not_taken_def get_account_balance_def)

lemma decrease_not_taken:
  assumes "decrease_balance c k n s = Inr t" "c \<noteq> b" shows "not_taken b s t"
  unfolding not_taken_def
proof
  fix j
  have "get_account_balance t b j = get_account_balance s b j"
    by (rule accounts.dec_other [OF assms(1)]) (use assms(2) in simp)
  then show "get_account_balance s b j \<le> get_account_balance t b j" by simp
qed

lemma increase_not_taken:
  assumes "increase_balance c k n s = Inr t" shows "not_taken b s t"
  unfolding not_taken_def
proof
  fix j
  show "get_account_balance s b j \<le> get_account_balance t b j"
  proof (cases "(b, j) = (c, k)")
    case True
    then show ?thesis using accounts.inc_unat [OF assms] by (simp add: word_le_nat_alt)
  next
    case False
    then show ?thesis using accounts.inc_other [OF assms] by simp
  qed
qed

lemma not_taken_trans: "not_taken b s t \<Longrightarrow> not_taken b t u \<Longrightarrow> not_taken b s u"
  unfolding not_taken_def by (blast intro: order_trans)

lemma execute_transfer_not_taken:
  assumes "execute_transfer E act c s = Inr t" "c \<noteq> b" shows "not_taken b s t"
proof -
  from assms(1) obtain u where
    "decrease_balance c (ibc_of E (tr_asset act)) (tr_amount act) s = Inr u"
    "increase_balance (addr_bytes (tr_to act)) (ibc_of E (tr_asset act)) (tr_amount act) u = Inr t"
    by (auto simp: execute_transfer_def)
  then show ?thesis using decrease_not_taken increase_not_taken not_taken_trans assms(2) by blast
qed

lemma execute_bridge_lock_not_taken:
  assumes "execute_bridge_lock E act s = Inr t" "transaction_context s = Some c" "ctx_address_bytes c \<noteq> b"
  shows "not_taken b s t"
proof -
  from assms obtain d tr u where u: "execute_transfer E tr (ctx_address_bytes c) s = Inr u"
    "t = (cache_deposit_event d u)\<lparr>events := events u @ [DepositEvent d]\<rparr>"
    by (auto simp: execute_bridge_lock_def Let_def)
  show ?thesis
    by (rule not_taken_cong [OF execute_transfer_not_taken [OF u(1) assms(3)]])
      (simp_all add: u(2) cache_deposit_event_def Let_def)
qed

lemma bridge_unlock_not_taken:
  assumes "bridge_unlock_check_and_execute E act s = Inr t" "transaction_context s = Some c"
    and "no_authority (ctx_address_bytes c) b s"
  shows "not_taken b s t"
proof -
  let ?bridge = "addr_bytes (bu_bridge_address act)"
  from assms(1) obtain k tr u where k: "bridge_assets s ?bridge = Some k"
    and check: "check_transfer E tr ?bridge s = Inr ()"
    and u: "check_and_set_withdrawal_event_block_for_bridge_account ?bridge
      (bu_rollup_withdrawal_event_id act) (bu_rollup_block_number act) s = Inr u"
    and t: "execute_transfer E tr ?bridge u = Inr t"
    by (auto simp: bridge_unlock_check_and_execute_def Let_def get_bridge_account_ibc_asset_def)
  have "is_a_bridge_account s ?bridge"
    using k assms(3) by (auto simp: no_authority_def bridge_wf_def is_a_bridge_account_def
        get_bridge_account_rollup_id_def)
  with check assms(2) have "bridge_withdrawers s ?bridge = Some (ctx_address_bytes c)"
    by (auto simp: check_transfer_def get_bridge_account_withdrawer_address_def get_transaction_context_def)
  with assms(3) have "?bridge \<noteq> b" by (auto simp: no_authority_def)
  from execute_transfer_not_taken [OF t this] show ?thesis
    by (rule not_taken_cong) (use withdrawal_event_frame [OF u] in simp_all)
qed

lemma bridge_transfer_not_taken:
  assumes "bridge_transfer_check_and_execute E act s = Inr t" "transaction_context s = Some c"
    and "ctx_address_bytes c \<noteq> b"
  shows "not_taken b s t"
proof -
  from assms obtain bl u where
    u: "check_and_set_withdrawal_event_block_for_bridge_account (addr_bytes (bt_bridge_address act))
      (bt_rollup_withdrawal_event_id act) (bt_rollup_block_number act) s = Inr u"
    and t: "execute_bridge_lock E bl u = Inr t"
    by (auto simp: bridge_transfer_check_and_execute_def)
  have f: "transaction_context u = Some c" "balances s = balances u"
    using withdrawal_event_frame [OF u] assms(2) by simp_all
  show ?thesis
    by (rule not_taken_cong [OF execute_bridge_lock_not_taken [OF t f(1) assms(3)] f(2) refl])
qed

lemma ics20_withdrawal_not_taken:
  assumes "ics20_withdrawal_check_and_execute E act s = Inr t" "transaction_context s = Some c"
    and "no_authority (ctx_address_bytes c) b s"
  shows "not_taken b s t"
  using assms(1)
proof (rule ics20_withdrawal_Inr)
  fix a s1 target time raw packet s2 s3
  assume a: "signer s = Inr a" and s1: "claim_withdrawal_event E act s = Inr s1"
    and tg: "establish_withdrawal_target act s1 a = Inr target"
    and s2: "decrease_balance target (ibc_of E (iw_denom act)) (iw_amount act) s1 = Inr s2"
    and s3: "escrow_withdrawal E act packet s2 = Inr s3"
    and t: "t = s3\<lparr>ibc := send_packet_execute E packet (ibc s3)\<rparr>"
  have w: "bridge_withdrawers s1 = bridge_withdrawers s" "balances s1 = balances s"
    by (subst claim_withdrawal_event_frame [OF s1], simp)+
  have "target \<noteq> b"
    using tg a assms(2,3) w(1)
    by (auto simp: establish_withdrawal_target_def get_bridge_account_withdrawer_address_def
        no_authority_def split: option.splits)
  from decrease_not_taken [OF s2 this] show ?thesis
  proof (rule not_taken_cong)
    show "balances s = balances s1" using w by simp
    show "balances t = balances s2" unfolding t by (simp, subst escrow_withdrawal_frame [OF s3], simp)
  qed
qed

lemma fund_action_not_taken:
  assumes "action_check_and_execute E act s = Inr t" "is_fund_action act" "transaction_context s = Some c"
    and "no_authority (ctx_address_bytes c) b s"
  shows "not_taken b s t"
proof -
  have b: "ctx_address_bytes c \<noteq> b" using assms(4) by (simp add: no_authority_def)
  show ?thesis
  proof (cases act)
    case (Transfer x)
    with assms show ?thesis using b
      by (auto simp: transfer_check_and_execute_def intro: execute_transfer_not_taken)
  next
    case (BridgeLock x)
    with assms show ?thesis using b
      by (auto simp: bridge_lock_check_and_execute_def intro: execute_bridge_lock_not_taken)
  qed (use assms b in \<open>auto intro: bridge_unlock_not_taken bridge_transfer_not_taken
      ics20_withdrawal_not_taken not_taken_same simp: rollup_data_submission_check_and_execute_def\<close>)
qed

lemma no_authority_same_bridges: "same_bridges s t \<Longrightarrow> no_authority a b s \<longleftrightarrow> no_authority a b t"
  by (simp add: same_bridges_def no_authority_def bridge_wf_def)

lemma spares_same_bridges: "same_bridges s t \<Longrightarrow> balances t = balances s \<Longrightarrow> spares a b s t"
  using no_authority_same_bridges [of s t a b] not_taken_same [of t s b] by (simp add: spares_def)

lemma admin_written_balances: "admin_written s t \<Longrightarrow> balances t = balances s"
  by (auto simp: admin_written_def)

lemma action_spares:
  assumes act: "action_check_and_execute E act s = Inr t" "\<not> is_ibc_relay act"
    and c: "transaction_context s = Some c" "ctx_address_bytes c = a"
  shows "spares a b s t"
  using act
proof (cases rule: action_classes)
  case funds
  then show ?thesis
    using fund_action_not_taken [OF act(1) _ c(1)] c(2)
      no_authority_same_bridges [OF written_same_bridges(1) [OF funds(2)]]
    by (auto simp: spares_def)
next
  case admin
  then show ?thesis by (intro spares_same_bridges written_same_bridges admin_written_balances)
next
  case (relayers x)
  then show ?thesis
    by (intro spares_same_bridges written_same_bridges(2) admin_written_balances handler_admin_written(3))
next
  case (bridge_sudo x)
  from bridge_sudo(2) show ?thesis
  proof (rule bridge_sudo_change_Inr)
    fix c' so wi
    let ?b = "addr_bytes (bsc_bridge_address x)"
    assume *: "transaction_context s = Some c'" "bridge_sudos s ?b = Some (ctx_address_bytes c')"
      and t: "t = s\<lparr>bridge_sudos := (bridge_sudos s)(?b := so),
        bridge_withdrawers := (bridge_withdrawers s)(?b := wi)\<rparr>"
    have "no_authority a b t \<and> not_taken b s t" if "no_authority a b s"
    proof -
      have "?b \<noteq> b" using that * c by (auto simp: no_authority_def)
      moreover have "bridge_wf t"
        using bridge_sudo_change_step [OF bridge_sudo(2)] that by (simp add: bridge_step_def no_authority_def)
      ultimately show ?thesis using that by (simp add: no_authority_def t not_taken_same)
    qed
    then show ?thesis by (simp add: spares_def)
  qed
next
  case (init_bridge x)
  from init_bridge(2) show ?thesis
  proof (rule init_bridge_account_Inr)
    fix c' so wi
    assume *: "transaction_context s = Some c'"
      and t: "t = s\<lparr>bridge_rollup_ids := (bridge_rollup_ids s)(ctx_address_bytes c' \<mapsto> iba_rollup_id x),
      bridge_assets := (bridge_assets s)(ctx_address_bytes c' \<mapsto> ibc_of E (iba_asset x)),
      bridge_sudos := (bridge_sudos s)(ctx_address_bytes c' \<mapsto> so),
      bridge_withdrawers := (bridge_withdrawers s)(ctx_address_bytes c' \<mapsto> wi)\<rparr>"
    have "no_authority a b t \<and> not_taken b s t" if "no_authority a b s"
    proof -
      have "bridge_wf t"
        using init_bridge_account_step [OF init_bridge(2)] that by (simp add: bridge_step_def no_authority_def)
      then show ?thesis using that * c by (auto simp: no_authority_def t not_taken_same)
    qed
    then show ?thesis by (simp add: spares_def)
  qed
qed

lemma fees_spare:
  assumes "check_and_pay_fees E act s = Inr t" "transaction_context s = Some c" "ctx_address_bytes c = a"
  shows "spares a b s t"
proof (cases "fee_asset act")
  case None
  then have "t = s" using assms by (auto simp: check_and_pay_fees_def)
  then show ?thesis by (simp add: spares_same_bridges same_bridges_def)
next
  case (Some fa)
  with assms obtain k n p where
    d: "decrease_balance a k n (add_fee_to_block_fees (type_of_action act) k n p s) = Inr t"
    by (auto simp: check_and_pay_fees_def Let_def get_transaction_context_def)
  have "not_taken b s t" if "a \<noteq> b"
    by (rule not_taken_cong [OF decrease_not_taken [OF d that]])
      (simp_all add: add_fee_to_block_fees_def Let_def)
  then show ?thesis
    using no_authority_same_bridges [OF fees_same_bridges [OF assms(1)]]
    by (auto simp: spares_def no_authority_def)
qed

interpretation spare: signed_relation "spares a b :: 'i state \<Rightarrow> 'i state \<Rightarrow> bool" a for a b
proof
  show "spares a b s t \<Longrightarrow> spares a b t u \<Longrightarrow> spares a b s u" for s t u :: "'i state"
    by (auto simp: spares_def intro: not_taken_trans)
  show "action_check_and_execute E act s = Inr t \<Longrightarrow> \<not> is_ibc_relay act \<Longrightarrow>
      transaction_context s = Some c \<Longrightarrow> ctx_address_bytes c = a \<Longrightarrow> spares a b s t"
    for E act c and s t :: "'i state" by (rule action_spares)
  show "check_and_pay_fees E act s = Inr t \<Longrightarrow> transaction_context s = Some c \<Longrightarrow>
      ctx_address_bytes c = a \<Longrightarrow> spares a b s t" for E act c and s t :: "'i state"
    by (rule fees_spare)
qed (simp_all add: spares_same_bridges same_bridges_def)

text \<open>
  C8. Funds move with authority only: a transaction never lowers a balance of an account that is not the
  signer's and of which the signer is neither the bridge withdrawer nor the bridge sudo
  address. (Bridge accounts are well-formed, and relayed IBC messages spare the account too.)
\<close>

theorem transaction_spares_other_accounts:
  assumes "transaction_check_and_execute E tx s = Inr t"
    and "no_authority (tx_address_bytes (sha256 E) tx) b s"
    and "relays_keep (spares (tx_address_bytes (sha256 E) tx) b) E"
  shows "get_account_balance s b k \<le> get_account_balance t b k"
proof -
  from spare.signed_transaction_rel_start [OF assms(1,3) refl]
  obtain l where "spares (tx_address_bytes (sha256 E) tx) b (tx_start E tx l s) t" by blast
  moreover have "spares (tx_address_bytes (sha256 E) tx) b s (tx_start E tx l s)"
    by (rule spares_same_bridges) (simp_all add: same_bridges_def tx_start_def)
  ultimately show ?thesis using assms(2) not_taken_trans unfolding spares_def not_taken_def
    by (meson order_trans)
qed

theorem transaction_spares_other_accounts_witness:
  "get_account_balance sample_state (sample_account 2) nria_ibc \<le>
   get_account_balance sample_after (sample_account 2) nria_ibc"
proof (rule transaction_spares_other_accounts [OF sample_tx_all_executes])
  have a: "tx_address_bytes (sha256 sample_ext) sample_tx_all = sample_account 1" by code_simp
  show "no_authority (tx_address_bytes (sha256 sample_ext) sample_tx_all) (sample_account 2) sample_state"
    unfolding a by (simp add: no_authority_def bridge_wf_def sample_state_def sample_account_def)
  show "relays_keep (spares (tx_address_bytes (sha256 sample_ext) sample_tx_all) (sample_account 2)) sample_ext"
    using sample_relays_keep [of "spares (tx_address_bytes (sha256 sample_ext) sample_tx_all) (sample_account 2)",
        OF spare.refl] by (simp add: sample_host_def)
qed

end
