(* ===== verification/Authorization.thy ===== *)
theory Authorization
  imports Bridge_Safety
begin











end
