(* ===== verification/Finalization.thy ===== *)
theory Finalization
  imports Replay
begin

text \<open>
  A node may execute a block when it processes the proposal and reuse the result when the block is
  finalized. The two ways agree for a block without prices. For a block with prices they do not: the
  prices are applied before the transactions in one case and after them in the other.
\<close>

lemma finalize_transactions_accepted:
  assumes "process_proposal_tx_execution H txs b A = Inr (A1, rs)"
  shows "finalize_transactions H txs (A, []) = Inr (A1, rs)"
proof -
  from assms obtain P where "proposal_loop H txs (A, Process b [] BundleableGeneral) = Inr (A1, P)"
    "rs = proposal_results P" by (auto simp: process_proposal_tx_execution_def)
  then show ?thesis using processed_block_finalizes by blast
qed

text \<open>
  C13. Reusing the execution of a proposal is sound: if a block without prices was executed while processing the
  proposal, then finalizing it from the cached state gives the same App and the same results as
  executing it again from the last committed state.
\<close>

theorem cached_execution_equals_fresh:
  assumes "process_proposal_execution H us blk A = Inr A1" "blk_prices blk = []"
  shows "finalize_block H us True blk A1 = finalize_block H us False blk A \<and>
    (\<exists>r. finalize_block H us True blk A1 = Inr (A1, r))"
proof -
  from assms(1) obtain B hs C rs where
    "pre_execute_transactions H us (blk_data blk) A = Inr (B, hs)"
    "ensure_upgrade_change_hashes_as_expected blk hs = Inr ()"
    "process_proposal_tx_execution H (blk_txs blk) new_unlimited_cometbft B = Inr (C, rs)"
    and p: "post_execute_transactions H (blk_hash blk) (blk_injected blk) rs C = Inr A1"
    by (auto simp: process_proposal_execution_def)
  moreover from this(3) have "finalize_transactions H (blk_txs blk) (B, []) = Inr (C, rs)"
    by (rule finalize_transactions_accepted)
  moreover from p obtain r where "post_transaction_execution_result A1 = Some r"
    by (auto simp: post_execute_transactions_def)
  ultimately show ?thesis
    using assms(2) by (simp add: finalize_block_def apply_prices_from_vote_extensions_def)
qed

definition sample_empty_block :: block where
  "sample_empty_block = sample_block 2 [sample_tx 1 0 [sample_transfer]]"

definition sample_processed :: "unit app" where
  "sample_processed = projr (process_proposal_execution sample_host [] sample_empty_block sample_app)"

lemma sample_processes: "\<not> isl (process_proposal_execution sample_host [] sample_empty_block sample_app)"
  by code_simp

theorem cached_execution_equals_fresh_witness:
  "finalize_block sample_host [] True sample_empty_block sample_processed =
     finalize_block sample_host [] False sample_empty_block sample_app \<and>
    (\<exists>r. finalize_block sample_host [] True sample_empty_block sample_processed = Inr (sample_processed, r))"
proof (rule cached_execution_equals_fresh)
  show "process_proposal_execution sample_host [] sample_empty_block sample_app = Inr sample_processed"
    unfolding sample_processed_def by (rule Inr_projr [OF sample_processes])
  show "blk_prices sample_empty_block = []" by (simp add: sample_empty_block_def sample_block_def)
qed

section \<open>Currency pairs during a block\<close>

definition same_pairs :: "'i state \<Rightarrow> 'i state \<Rightarrow> bool" where
  "same_pairs s t \<longleftrightarrow>
     currency_pair_states t = currency_pair_states s \<and> currency_pair_ids t = currency_pair_ids s"

lemma same_pairs_trans: "same_pairs s t \<Longrightarrow> same_pairs t u \<Longrightarrow> same_pairs s u"
  by (simp add: same_pairs_def)

lemma same_pairs_cong: "t = u \<Longrightarrow> same_pairs s u \<Longrightarrow> same_pairs s t"
  by simp

lemma handler_same_pairs:
  "transfer_check_and_execute E x1 s = Inr t \<Longrightarrow> same_pairs s t"
  "bridge_lock_check_and_execute E x2 s = Inr t \<Longrightarrow> same_pairs s t"
  "bridge_unlock_check_and_execute E x3 s = Inr t \<Longrightarrow> same_pairs s t"
  "bridge_transfer_check_and_execute E x4 s = Inr t \<Longrightarrow> same_pairs s t"
  "bridge_sudo_change_check_and_execute x5 s = Inr t \<Longrightarrow> same_pairs s t"
  "init_bridge_account_check_and_execute E x6 s = Inr t \<Longrightarrow> same_pairs s t"
  "sudo_address_change_check_and_execute x7 s = Inr t \<Longrightarrow> same_pairs s t"
  "ibc_sudo_change_check_and_execute x8 s = Inr t \<Longrightarrow> same_pairs s t"
  "ibc_relayer_change_check_and_execute x9 s = Inr t \<Longrightarrow> same_pairs s t"
  "fee_asset_change_check_and_execute E x10 s = Inr t \<Longrightarrow> same_pairs s t"
  "fee_change_check_and_execute x11 s = Inr t \<Longrightarrow> same_pairs s t"
  "validator_update_check_and_execute E x12 s = Inr t \<Longrightarrow> same_pairs s t"
  "recover_ibc_client_check_and_execute E x13 s = Inr t \<Longrightarrow> same_pairs s t"
  "markets_change_check_and_execute x14 s = Inr t \<Longrightarrow> same_pairs s t"
  "ics20_withdrawal_check_and_execute E x15 s = Inr t \<Longrightarrow> same_pairs s t"
  "check_and_pay_fees E x16 s = Inr t \<Longrightarrow> same_pairs s t"
  by ((drule transfer_frame bridge_lock_frame bridge_unlock_frame bridge_transfer_frame
    bridge_sudo_change_frame init_bridge_account_frame sudo_address_change_frame ibc_sudo_change_frame
    ibc_relayer_change_frame fee_asset_change_frame fee_change_frame validator_update_frame
    recover_ibc_client_frame markets_change_frame ics20_withdrawal_frame check_and_pay_fees_frame),
    erule same_pairs_cong, simp add: same_pairs_def)+

lemma action_same_pairs:
  assumes "action_check_and_execute E act s = Inr t" "\<not> is_ibc_relay act"
  obtains "same_pairs s t" "\<And>x. act \<noteq> CurrencyPairsChange x"
  | x where "act = CurrencyPairsChange x" "currency_pairs_change_check_and_execute x s = Inr t"
  using assms
  by (cases act) (auto simp: is_ibc_relay_def rollup_data_submission_check_and_execute_def same_pairs_def
    dest: handler_same_pairs [unfolded same_pairs_def])

text \<open>
  A pair that is recorded has an identifier, by which a removal finds it; a pair that is gone comes back
  only by an action that adds it.
\<close>

definition pair_indexed :: "currency_pair \<Rightarrow> 'i state \<Rightarrow> bool" where
  "pair_indexed p s \<longleftrightarrow> (currency_pair_states s p \<noteq> None \<longrightarrow> currency_pair_ids s p \<noteq> None)"

definition pair_gone :: "currency_pair \<Rightarrow> 'i state \<Rightarrow> bool" where
  "pair_gone p s \<longleftrightarrow> currency_pair_states s p = None"

fun adds_pair :: "currency_pair \<Rightarrow> action \<Rightarrow> bool" where
  "adds_pair p (CurrencyPairsChange (CpAddition ps)) = (p \<in> set ps)"
| "adds_pair p _ = False"

lemma same_pairs_pair:
  "same_pairs s t \<Longrightarrow> pair_indexed p t = pair_indexed p s" "same_pairs s t \<Longrightarrow> pair_gone p t = pair_gone p s"
  by (simp_all add: same_pairs_def pair_indexed_def pair_gone_def)

lemmas pair_defs = pair_indexed_def pair_gone_def put_currency_pair_state_def remove_currency_pair_def
  get_currency_pair_id_def get_currency_pair_state_def put_num_currency_pairs_def put_next_currency_pair_id_def

lemma add_currency_pair_pair:
  assumes "add_currency_pair q (s, x) = Inr (t, y)"
  shows "pair_indexed p s \<Longrightarrow> pair_indexed p t" "p \<noteq> q \<Longrightarrow> pair_gone p s \<Longrightarrow> pair_gone p t"
  using assms by (cases x; cases y; auto simp: add_currency_pair_def Let_def pair_defs split: if_splits)+

lemma remove_one_currency_pair_pair:
  assumes "remove_one_currency_pair q (s, n) = Inr (t, m)"
  shows "pair_indexed p s \<Longrightarrow> pair_indexed p t" "pair_gone p s \<Longrightarrow> pair_gone p t"
    "pair_indexed q s \<Longrightarrow> pair_gone q t"
  using assms by (auto simp: remove_one_currency_pair_def Let_def pair_defs split: if_splits option.splits)

lemma add_pairs_pair:
  assumes "fold_res add_currency_pair ps (s, x) = Inr (t, y)" "pair_indexed p s"
  shows "pair_indexed p t \<and> (p \<notin> set ps \<longrightarrow> pair_gone p s \<longrightarrow> pair_gone p t)"
  using assms
proof (induction ps arbitrary: s x)
  case (Cons q ps)
  from Cons.prems(1) obtain u z where u: "add_currency_pair q (s, x) = Inr (u, z)"
    and t: "fold_res add_currency_pair ps (u, z) = Inr (t, y)" by auto
  note r = add_currency_pair_pair [OF u, of p]
  from Cons.IH [OF t] r Cons.prems(2) show ?case by auto
qed simp

lemma remove_pairs_pair:
  assumes "fold_res remove_one_currency_pair ps (s, n) = Inr (t, m)" "pair_indexed p s"
  shows "pair_indexed p t \<and> (p \<in> set ps \<or> pair_gone p s \<longrightarrow> pair_gone p t)"
  using assms
proof (induction ps arbitrary: s n)
  case (Cons q ps)
  from Cons.prems(1) obtain u k where u: "remove_one_currency_pair q (s, n) = Inr (u, k)"
    and t: "fold_res remove_one_currency_pair ps (u, k) = Inr (t, m)" by auto
  note r = remove_one_currency_pair_pair [OF u]
  from Cons.IH [OF t] r(1) [of p] r(2) [of p] r(3) Cons.prems(2) show ?case by auto
qed simp

lemma pairs_change_pair:
  assumes "currency_pairs_change_check_and_execute x s = Inr t" "pair_indexed p s"
  shows "pair_indexed p t" "\<not> adds_pair p (CurrencyPairsChange x) \<Longrightarrow> pair_gone p s \<Longrightarrow> pair_gone p t"
    "x = CpRemoval ps \<Longrightarrow> p \<in> set ps \<Longrightarrow> pair_gone p t"
proof -
  have "pair_indexed p t \<and> (\<not> adds_pair p (CurrencyPairsChange x) \<longrightarrow> pair_gone p s \<longrightarrow> pair_gone p t) \<and>
    (\<forall>ps. x = CpRemoval ps \<longrightarrow> p \<in> set ps \<longrightarrow> pair_gone p t)"
  proof (cases x)
    case (CpAddition qs)
    with assms(1) obtain u i n where
      f: "fold_res add_currency_pair qs (s, get_next_currency_pair_id s, get_num_currency_pairs s) = Inr (u, i, n)"
      and t: "t = put_num_currency_pairs n (put_next_currency_pair_id i u)"
      by (auto simp: currency_pairs_change_check_and_execute_def check_and_execute_currency_pairs_addition_def)
    then show ?thesis using add_pairs_pair [OF f assms(2)] by (simp add: CpAddition pair_defs)
  next
    case (CpRemoval qs)
    with assms(1) obtain u n where
      f: "fold_res remove_one_currency_pair qs (s, get_num_currency_pairs s) = Inr (u, n)"
      and t: "t = put_num_currency_pairs n u"
      by (auto simp: currency_pairs_change_check_and_execute_def check_and_execute_currency_pairs_removal_def)
    then show ?thesis using remove_pairs_pair [OF f assms(2)] by (auto simp: CpRemoval pair_defs)
  qed
  then show "pair_indexed p t" "\<not> adds_pair p (CurrencyPairsChange x) \<Longrightarrow> pair_gone p s \<Longrightarrow> pair_gone p t"
    "x = CpRemoval ps \<Longrightarrow> p \<in> set ps \<Longrightarrow> pair_gone p t" by blast+
qed

lemma execute_action_pair:
  assumes "execute_action E c (i, act) s = Inr t" "\<not> is_ibc_relay act" "pair_indexed p s"
  shows "pair_indexed p t" "\<not> adds_pair p act \<Longrightarrow> pair_gone p s \<Longrightarrow> pair_gone p t"
    "act = CurrencyPairsChange (CpRemoval ps) \<Longrightarrow> p \<in> set ps \<Longrightarrow> pair_gone p t"
proof -
  obtain s' u where s': "same_pairs s s'" and u: "action_check_and_execute E act s' = Inr u"
    and t: "same_pairs u t"
    using assms(1,2)
    by (cases rule: execute_action_cases)
      (auto simp: is_ibc_relay_def same_pairs_def dest!: handler_same_pairs(16)
        intro!: that [of "s\<lparr>transaction_context := Some (c\<lparr>ctx_position_in_transaction := of_nat i\<rparr>)\<rparr>"])
  have idx: "pair_indexed p s'" using assms(3) same_pairs_pair [OF s'] by simp
  show "pair_indexed p t" "\<not> adds_pair p act \<Longrightarrow> pair_gone p s \<Longrightarrow> pair_gone p t"
    "act = CurrencyPairsChange (CpRemoval ps) \<Longrightarrow> p \<in> set ps \<Longrightarrow> pair_gone p t"
    using u assms(2)
    by (cases rule: action_same_pairs;
        use idx pairs_change_pair [OF _ idx] same_pairs_pair [OF s'] same_pairs_pair [OF t] same_pairs_pair in fastforce)+
qed

text \<open>Whether the last of the actions that adds or removes the pair, if there is one, removes it.\<close>

fun removes_pair :: "currency_pair \<Rightarrow> action \<Rightarrow> bool" where
  "removes_pair p (CurrencyPairsChange (CpRemoval ps)) = (p \<in> set ps)"
| "removes_pair p _ = False"

fun removed_at_end :: "currency_pair \<Rightarrow> action list \<Rightarrow> bool \<Rightarrow> bool" where
  "removed_at_end p [] g = g"
| "removed_at_end p (act # acts) g = removed_at_end p acts (removes_pair p act \<or> g \<and> \<not> adds_pair p act)"

lemma removed_at_end_append:
  "removed_at_end p (xs @ ys) g = removed_at_end p ys (removed_at_end p xs g)"
  by (induction xs arbitrary: g) simp_all

lemma removes_pair_iff: "removes_pair p act \<longleftrightarrow> (\<exists>ps. act = CurrencyPairsChange (CpRemoval ps) \<and> p \<in> set ps)"
  by (rule removes_pair.cases [of "(p, act)"]) auto

text \<open>A state in which the pair has an identifier if it is recorded, and in which it is gone if \<open>g\<close>.\<close>

definition pair_tracked :: "currency_pair \<Rightarrow> bool \<Rightarrow> 'i state \<Rightarrow> bool" where
  "pair_tracked p g s \<longleftrightarrow> pair_indexed p s \<and> (g \<longrightarrow> pair_gone p s)"

lemma same_pairs_tracked: "same_pairs s t \<Longrightarrow> pair_tracked p g t = pair_tracked p g s"
  by (simp add: pair_tracked_def same_pairs_pair)

lemma execute_actions_tracked:
  assumes "fold_res (execute_action E c) (List.enumerate n acts) s = Inr t" "pair_tracked p g s"
    and "list_all (\<lambda>act. \<not> is_ibc_relay act) acts"
  shows "pair_tracked p (removed_at_end p acts g) t"
  using assms
proof (induction acts arbitrary: n s g)
  case (Cons act acts)
  from Cons.prems(1) obtain u where u: "execute_action E c (n, act) s = Inr u"
    and t: "fold_res (execute_action E c) (List.enumerate (Suc n) acts) u = Inr t" by auto
  have "pair_indexed p s" "\<not> is_ibc_relay act" using Cons.prems(2,3) by (simp_all add: pair_tracked_def)
  note step = execute_action_pair [OF u this(2,1)]
  have "pair_tracked p (removes_pair p act \<or> g \<and> \<not> adds_pair p act) u"
    using step Cons.prems(2) by (auto simp: pair_tracked_def removes_pair_iff)
  from Cons.IH [OF t this] Cons.prems(3) show ?case by simp
qed simp

lemma transaction_tracked:
  assumes "transaction_check_and_execute E tx s = Inr t" "pair_tracked p g s"
    and "list_all (\<lambda>act. \<not> is_ibc_relay act) (tx_action_list tx)"
  shows "pair_tracked p (removed_at_end p (tx_action_list tx) g) t"
  using assms(1)
proof (rule transaction_Inr)
  fix l u
  let ?c = "context_of_transaction (sha256 E) tx"
  let ?s = "s\<lparr>transaction_context := Some ?c, last_transaction_ids := l,
         nonces := (nonces s)(tx_address_bytes (sha256 E) tx \<mapsto> tx_nonce tx + 1)\<rparr>"
  assume fold: "fold_res (execute_action E ?c) (List.enumerate 0 (tx_action_list tx)) ?s = Inr u"
    and t: "t = delete_current_transaction_context u"
  have "pair_tracked p g ?s" using assms(2) by (subst same_pairs_tracked [of s]) (simp_all add: same_pairs_def)
  from execute_actions_tracked [OF fold this assms(3)]
  show ?thesis unfolding t
    by (subst same_pairs_tracked [of u]) (simp_all add: same_pairs_def delete_current_transaction_context_def)
qed

lemma process_loop_tracked:
  assumes "proposal_loop H txs (A, Process b r gr) = Inr (A1, P)" "pair_tracked p g (app_state A)"
    and "list_all (\<lambda>act. \<not> is_ibc_relay act) (concat (map tx_action_list txs))"
  shows "pair_tracked p (removed_at_end p (concat (map tx_action_list txs)) g) (app_state A1)"
  using assms
proof (induction txs arbitrary: A b r gr g)
  case (Cons tx txs)
  from Cons.prems(1) obtain brk B Q where
    s: "proposal_checks_and_tx_execution H tx (A, Process b r gr) = Inr (brk, B, Q)"
    and l: "(if brk then Inr (B, Q) else proposal_loop H txs (B, Q)) = Inr (A1, P)" by auto
  from process_step [OF s] obtain b' r' g' where Q: "Q = Process b' r' g'" "\<not> brk" by blast
  obtain evs where "app_execute_transaction H tx A = Inr (B, evs)" by (rule process_step_executes [OF s])
  then obtain u where u: "transaction_check_and_execute (h_ext H) tx ((app_state A)\<lparr>events := []\<rparr>) = Inr u"
    "app_state B = u\<lparr>events := []\<rparr>" by (auto simp: app_execute_transaction_def Let_def)
  have "pair_tracked p g ((app_state A)\<lparr>events := []\<rparr>)"
    using Cons.prems(2) by (subst same_pairs_tracked [of "app_state A"]) (simp_all add: same_pairs_def)
  from transaction_tracked [OF u(1) this] Cons.prems(3)
  have "pair_tracked p (removed_at_end p (tx_action_list tx) g) (app_state B)"
    unfolding u(2) by (subst same_pairs_tracked [of u]) (simp_all add: same_pairs_def)
  from Cons.IH [OF _ this] l Q Cons.prems(3) show ?case by (simp add: removed_at_end_append)
qed simp

section \<open>Removing a currency pair in a block with its price\<close>

lemma upgrade_pair_indexed:
  assumes "execute_upgrade_if_due H us h s = Inr (t, hs)" "pair_indexed p s"
  shows "pair_indexed p t"
proof (cases "upgrade_activating_at_height us h")
  case None
  then show ?thesis using assms by (simp add: execute_upgrade_if_due_def)
next
  case (Some u)
  obtain a where u: "u = Aspen a" by (cases u)
  let ?s1 = "foldl (\<lambda>s' name. put_upgrade_change_info aspen_name name (aspen_change_info H a name) s') s (aspen_changes a)"
  let ?s3 = "oracle_handle_genesis (as_oracle_genesis a) (market_map_handle_genesis (as_market_map_genesis a) ?s1)"
  have "same_pairs s ?s1" by (simp add: aspen_changes_def same_pairs_def put_upgrade_change_info_def)
  then have 2: "pair_indexed p (market_map_handle_genesis (as_market_map_genesis a) ?s1)"
    using assms(2) by (simp add: same_pairs_def pair_indexed_def market_map_handle_genesis_def put_market_map_def)
  have fold: "pair_indexed p (foldl (\<lambda>s' x. put_currency_pair_state (f x) (g x) s') v xs)"
    if "pair_indexed p v" for f g xs and v :: "'a state"
    using that by (induction xs arbitrary: v) (auto simp: pair_defs)
  have counters: "pair_indexed p (put_num_currency_pairs n (put_next_currency_pair_id i v)) = pair_indexed p v"
    for n i and v :: "'a state" by (simp add: pair_defs)
  have 3: "pair_indexed p ?s3"
    unfolding oracle_handle_genesis_def Let_def counters by (rule fold [OF 2])
  have fold': "same_pairs v (foldl (\<lambda>s' (x, y). put_validator hf y s') v vs)" for hf vs and v :: "'a state"
    by (induction vs arbitrary: v) (auto simp: same_pairs_def put_validator_def)
  from assms(1) Some u obtain vs where
    "t = foldl (\<lambda>s' (x, y). put_validator (sha256 (h_ext H)) y s')
       (put_validator_count (of_nat (validator_set_len vs)) (aspen_upgrade_remove_validator_set ?s3)) vs"
    by (auto simp: execute_upgrade_if_due_def Let_def handle_aspen_upgrade_def)
  then have "same_pairs ?s3 t"
    by (rule same_pairs_cong) (rule same_pairs_trans [OF _ fold'],
      simp add: same_pairs_def put_validator_count_def aspen_upgrade_remove_validator_set_def)
  then show ?thesis using 3 by (simp add: same_pairs_pair)
qed

lemma pre_execute_pair_indexed:
  assumes "pre_execute_transactions H us bd A = Inr (A1, hs)" "pair_indexed p (app_state A)"
  shows "pair_indexed p (app_state A1)"
proof -
  from assms(1) obtain s1 s2 s3 where
    1: "execute_upgrade_if_due H us (bd_height bd) (app_state A) = Inr (s1, hs)"
    and 2: "s2 = (if hs = [] then app_state A else s1)"
    and 3: "authority_begin_block (bd_misbehavior bd)
        (put_block_timestamp (bd_time bd) (put_block_height (bd_height bd) s2)) = Inr s3"
    and 4: "app_state A1 = s3\<lparr>ibc := ibc_begin_block H s3\<rparr>"
    by (auto simp: pre_execute_transactions_def app_begin_block_def Let_def)
  have byz: "same_pairs u v" if "remove_byzantine_validator a u = Inr v" for a and u v :: "'a state"
    using that by (auto simp: remove_byzantine_validator_def remove_validator_def put_validator_count_def Let_def
        same_pairs_def split: if_splits)
  have fold: "same_pairs u v" if "fold_res remove_byzantine_validator as u = Inr v" for as and u v :: "'a state"
    by (rule fold_res_invariant [OF that]) (use byz same_pairs_trans in \<open>auto simp: same_pairs_def\<close>)
  have "same_pairs s2 s3"
    using 3 fold by (fastforce simp: authority_begin_block_def pre_aspen_put_validator_set_def same_pairs_def
        put_block_timestamp_def put_block_height_def split: if_splits)
  then have "same_pairs s2 (app_state A1)" by (simp add: 4 same_pairs_def)
  moreover have "pair_indexed p s2" using upgrade_pair_indexed [OF 1 assms(2)] assms(2) 2 by simp
  ultimately show ?thesis by (simp add: same_pairs_pair)
qed

lemma post_execute_same_pairs:
  assumes "post_execute_transactions H h i rs A = Inr A1"
  shows "same_pairs (app_state A) (app_state A1)"
proof -
  from assms obtain a s us where e: "app_end_block H a (app_state A) = Inr (s, us)"
    and A1: "app_state A1 = put_deposits h (get_cached_block_deposits s) s"
    by (auto simp: post_execute_transactions_def)
  from e obtain s1 where 1: "authority_end_block (app_state A) = Inr s1"
    and 2: "fold_res (\<lambda>f. increase_balance a (to_ibc_prefixed (sha256 (h_ext H)) (fee_asset_paid f))
        (fee_amount f)) (get_block_fees (app_state A))
        (clear_block_validator_updates (s1\<lparr>ibc := ibc_end_block H s1\<rparr>)) = Inr s"
    by (auto simp: app_end_block_def Let_def)
  have inc: "same_pairs u v" if "increase_balance b k n u = Inr v" for b k n and u v :: "'a state"
    by (subst increase_balance_frame [OF that]) (simp add: same_pairs_def)
  have "same_pairs (clear_block_validator_updates (s1\<lparr>ibc := ibc_end_block H s1\<rparr>)) s"
    by (rule fold_res_invariant [OF 2]) (use inc same_pairs_trans in \<open>auto simp: same_pairs_def\<close>)
  moreover have "same_pairs (app_state A) s1"
    using 1 by (auto simp: authority_end_block_def pre_aspen_put_validator_set_def same_pairs_def split: if_splits)
  ultimately show ?thesis
    by (simp add: A1 same_pairs_def put_deposits_def clear_block_validator_updates_def)
qed

lemma prices_of_gone_pair:
  assumes "(p, price) \<in> set prices" "pair_gone p s"
  shows "isl (apply_prices_from_vote_extensions prices time height s)"
proof (rule ccontr)
  let ?f = "\<lambda>(pair, price). put_price_for_currency_pair pair
    \<lparr>qp_price = price, qp_block_timestamp = time, qp_block_height = height\<rparr>"
  assume "\<not> isl (apply_prices_from_vote_extensions prices time height s)"
  then obtain t where t: "fold_res ?f prices s = Inr t"
    by (auto simp: apply_prices_from_vote_extensions_def dest: Inr_projr)
  obtain xs ys where "prices = xs @ (p, price) # ys" using assms(1) by (meson split_list)
  with t obtain u v where u: "fold_res ?f xs s = Inr u" and v: "?f (p, price) u = Inr v"
    by (auto simp: fold_res_append)
  have "pair_gone p u"
    by (rule fold_res_invariant [OF u, of "pair_gone p"])
      (use assms(2) in \<open>auto simp: put_price_for_currency_pair_def pair_defs split: if_splits\<close>)
  then show False using v by (simp add: put_price_for_currency_pair_def pair_defs)
qed

text \<open>
  C14. A block can be accepted by a validator that then cannot finalize it: if the block carries a price for a currency
  pair, and the last of its actions that adds or removes this pair removes it, then a node that executed the
  block in \<open>process_proposal\<close> successfully, and reuses this execution, fails to finalize the block. It
  applies the prices to the state after the transactions, where the pair is gone. The block relays no IBC messages, and
  the pair, if it is recorded at all, has an identifier.
\<close>

theorem removed_pair_with_price_breaks_finalization:
  assumes "process_proposal_execution H us blk A = Inr A1" "pair_indexed p (app_state A)"
    and "list_all (\<lambda>act. \<not> is_ibc_relay act) (concat (map tx_action_list (blk_txs blk)))"
    and "removed_at_end p (concat (map tx_action_list (blk_txs blk))) False"
    and "(p, price) \<in> set (blk_prices blk)"
  shows "isl (finalize_block H us True blk A1)"
proof -
  from assms(1) obtain B hs C rs where
    1: "pre_execute_transactions H us (blk_data blk) A = Inr (B, hs)"
    and 2: "process_proposal_tx_execution H (blk_txs blk) new_unlimited_cometbft B = Inr (C, rs)"
    and 3: "post_execute_transactions H (blk_hash blk) (blk_injected blk) rs C = Inr A1"
    by (auto simp: process_proposal_execution_def)
  from 2 obtain P where P: "proposal_loop H (blk_txs blk) (B, Process new_unlimited_cometbft [] BundleableGeneral) = Inr (C, P)"
    by (auto simp: process_proposal_tx_execution_def)
  have "pair_tracked p False (app_state B)"
    using pre_execute_pair_indexed [OF 1 assms(2)] by (simp add: pair_tracked_def)
  from process_loop_tracked [OF P this assms(3)] assms(4) have "pair_gone p (app_state C)"
    by (simp add: pair_tracked_def)
  with post_execute_same_pairs [OF 3] have "pair_gone p (app_state A1)" by (simp add: same_pairs_pair)
  from prices_of_gone_pair [OF assms(5) this, of "bd_time (blk_data blk)" "bd_height (blk_data blk)"]
  show ?thesis by (auto simp: finalize_block_def isl_def)
qed

text \<open>
  An example after the upgrade: Aspen, whose genesis holds a currency pair, was activated in block 2; in block 3, which
  carries a price for the pair, the sudo address removes it. A node that has not executed block 3 before
  finalizes it.
\<close>

definition btc_usd :: currency_pair where
  "btc_usd = \<lparr>cp_base = ''BTC'', cp_quote = ''USD''\<rparr>"

definition sample_aspen :: aspen where
  "sample_aspen = \<lparr>as_activation_height = 2, as_app_version = 2, as_market_map_genesis = [],
     as_oracle_genesis = \<lparr>og_currency_pair_genesis =
       [\<lparr>cpg_currency_pair = btc_usd, cpg_price = None, cpg_id = 0, cpg_nonce = 0\<rparr>], og_next_id = 1\<rparr>\<rparr>"

definition priced_state :: "unit state" where
  "priced_state = put_fees TyCurrencyPairsChange \<lparr>fc_base = 0, fc_multiplier = 0\<rparr> sample_state"

definition upgraded_state :: "unit state" where
  "upgraded_state = priced_state\<lparr>
     upgrade_changes := [(aspen_name, price_feed_change_name) \<mapsto> aspen_change_info sample_host sample_aspen price_feed_change_name,
       (aspen_name, validator_update_action_change_name) \<mapsto>
         aspen_change_info sample_host sample_aspen validator_update_action_change_name,
       (aspen_name, ibc_acknowledgement_failure_change_name) \<mapsto>
         aspen_change_info sample_host sample_aspen ibc_acknowledgement_failure_change_name],
     stored_market_map := Some [],
     currency_pair_states := [btc_usd \<mapsto> \<lparr>cps_price = None, cps_nonce = 0, cps_id = 0\<rparr>],
     currency_pair_ids := [btc_usd \<mapsto> 0], currency_pairs_by_id := [0 \<mapsto> btc_usd],
     num_currency_pairs := Some 1, next_currency_pair_id := Some 1,
     pre_aspen_validator_set := None, validator_count := Some 0\<rparr>"

lemma upgraded_state_of_upgrade:
  "execute_upgrade_if_due sample_host [Aspen sample_aspen] 2 priced_state =
     Inr (upgraded_state, map (change_hash sample_host sample_aspen) (aspen_changes sample_aspen))"
  by (simp add: execute_upgrade_if_due_def sample_aspen_def Let_def aspen_changes_def put_upgrade_change_info_def
      market_map_handle_genesis_def put_market_map_def oracle_handle_genesis_def put_currency_pair_state_def
      put_next_currency_pair_id_def put_num_currency_pairs_def handle_aspen_upgrade_def pre_aspen_get_validator_set_def
      put_validator_count_def aspen_upgrade_remove_validator_set_def validator_set_len_def
      upgraded_state_def priced_state_def put_fees_def sample_state_def)

definition upgraded_app :: "unit app" where
  "upgraded_app = sample_app\<lparr>app_state := upgraded_state\<rparr>"

definition removal_tx :: transaction where
  "removal_tx = (sample_tx 1 0 [])\<lparr>tx_actions :=
     \<lparr>acts_group = BundleableSudo, acts_inner = [CurrencyPairsChange (CpRemoval [btc_usd])]\<rparr>\<rparr>"

definition removal_block :: block where
  "removal_block = (sample_block 3 [removal_tx])\<lparr>blk_injected := 3, blk_prices := [(btc_usd, 70000)]\<rparr>"

definition removal_processed :: "unit app" where
  "removal_processed = projr (process_proposal_execution sample_host [Aspen sample_aspen] removal_block upgraded_app)"

lemma removal_block_processed:
  "\<not> isl (process_proposal_execution sample_host [Aspen sample_aspen] removal_block upgraded_app)"
  by code_simp

lemma removal_block_finalized_fresh:
  "\<not> isl (finalize_block sample_host [Aspen sample_aspen] False removal_block upgraded_app)"
  by code_simp

lemma upgraded_pair_indexed: "pair_indexed btc_usd (app_state upgraded_app)"
  by (simp add: pair_indexed_def upgraded_app_def upgraded_state_def)

theorem removed_pair_with_price_breaks_finalization_witness:
  "process_proposal_execution sample_host [Aspen sample_aspen] removal_block upgraded_app = Inr removal_processed \<and>
   isl (finalize_block sample_host [Aspen sample_aspen] True removal_block removal_processed) \<and>
   \<not> isl (finalize_block sample_host [Aspen sample_aspen] False removal_block upgraded_app)"
proof -
  have p: "process_proposal_execution sample_host [Aspen sample_aspen] removal_block upgraded_app = Inr removal_processed"
    unfolding removal_processed_def by (rule Inr_projr [OF removal_block_processed])
  have "isl (finalize_block sample_host [Aspen sample_aspen] True removal_block removal_processed)"
  proof (rule removed_pair_with_price_breaks_finalization [OF p upgraded_pair_indexed])
    show "list_all (\<lambda>act. \<not> is_ibc_relay act) (concat (map tx_action_list (blk_txs removal_block)))"
      by (simp add: removal_block_def sample_block_def removal_tx_def is_ibc_relay_def)
    show "removed_at_end btc_usd (concat (map tx_action_list (blk_txs removal_block))) False"
      by (simp add: removal_block_def sample_block_def removal_tx_def)
    show "(btc_usd, 70000) \<in> set (blk_prices removal_block)" by (simp add: removal_block_def)
  qed
  with p removal_block_finalized_fresh show ?thesis by blast
qed

end
