(* ===== verification/No_Panic.thy ===== *)
theory No_Panic
  imports Frames Proposals
begin

text \<open>
  Executing a transaction does not panic, and so a proposer always gets a block. The handlers \<open>expect\<close>
  the transaction context, which is present while a transaction runs.
\<close>

definition no_panic :: "'a res \<Rightarrow> bool" where
  "no_panic r \<longleftrightarrow> (\<forall>msg. r \<noteq> Inl (Panic msg))"

text \<open>
  The third-party functions that the handlers call return a \<open>Result\<close> and report failures in it: the JSON parser on a
  bridge memo and the JSON printer on packet data (\<open>serde_json\<close>), the conversion of an address to the compatible Bech32
  format (\<open>bech32\<close>), and the functions of the IBC crate that check an outgoing packet and read and write client and
  consensus states. The relay of IBC messages is not among them: it calls back into the transfer handlers of the
  repository, so the lemmas below exclude transactions that relay.
\<close>

definition ext_no_panic :: "'i ext \<Rightarrow> bool" where
  "ext_no_panic E \<longleftrightarrow>
     (\<forall>m. no_panic (parse_bridge_memo E m)) \<and> (\<forall>d. no_panic (packet_to_json E d)) \<and>
     (\<forall>p a. no_panic (bech32_compat E p a)) \<and> (\<forall>i p t. no_panic (send_packet_check E i p t)) \<and>
     (\<forall>i c. no_panic (get_client_state E i c)) \<and>
     (\<forall>i h c. no_panic (get_verified_consensus_state E i h c)) \<and>
     (\<forall>h c b i. no_panic (put_verified_consensus_state E h c b i))"

definition relays_nothing :: "transaction \<Rightarrow> bool" where
  "relays_nothing tx \<longleftrightarrow> list_all (\<lambda>act. \<not> is_ibc_relay act) (tx_action_list tx)"

named_theorems np

lemma np_Inr [np]: "no_panic (Inr x)"
  by (simp add: no_panic_def)

lemma np_fail [np]: "no_panic (fail m)" "no_panic (Inl (Eyre m))" "no_panic (Inl (InvalidNonce n))"
  by (simp_all add: no_panic_def)

lemma np_ensure [np]: "no_panic (ensure b m)"
  by (simp add: no_panic_def ensure_def)

lemma np_ensure_or [np]: "(\<And>m. e \<noteq> Panic m) \<Longrightarrow> no_panic (ensure_or b e)"
  by (simp add: no_panic_def ensure_or_def)

lemma np_ok_or_eyre [np]: "no_panic (ok_or_eyre x m)"
  by (cases x) (simp_all add: no_panic_def)

lemma np_expect: "x \<noteq> None \<Longrightarrow> no_panic (expect x m)"
  by (cases x) (simp_all add: no_panic_def)

lemma np_and_then [np]:
  "no_panic m \<Longrightarrow> (\<And>x. m = Inr x \<Longrightarrow> no_panic (f x)) \<Longrightarrow> no_panic (and_then m f)"
  by (cases m) (auto simp: no_panic_def)

lemma np_if [np]: "(b \<Longrightarrow> no_panic x) \<Longrightarrow> (\<not> b \<Longrightarrow> no_panic y) \<Longrightarrow> no_panic (if b then x else y)"
  by simp

lemma np_fold_res [np]: "(\<And>x s. x \<in> set xs \<Longrightarrow> no_panic (f x s)) \<Longrightarrow> no_panic (fold_res f xs s)"
proof (induction xs arbitrary: s)
  case (Cons x xs)
  then show ?case by (auto intro!: np_and_then)
qed (simp add: np)

lemmas ext_np = ext_no_panic_def [THEN iffD1, rule_format]

section \<open>Operations\<close>

lemma np_signer: "transaction_context s \<noteq> None \<Longrightarrow> no_panic (signer s)"
  by (auto simp: signer_def get_transaction_context_def intro!: np np_expect)

lemma np_get_ops [np]:
  "no_panic (get_base_prefix s)" "no_panic (get_ibc_compat_prefix s)" "no_panic (get_sudo_address s)"
  "no_panic (get_ibc_sudo_address s)" "no_panic (get_validator_count s)"
  "no_panic (pre_aspen_get_validator_set s)" "no_panic (get_bridge_account_ibc_asset s a)"
  "no_panic (get_block_timestamp s)" "no_panic (get_block_height s)" "no_panic (get_chain_id s)"
  by (simp_all add: get_base_prefix_def get_ibc_compat_prefix_def get_sudo_address_def
      get_ibc_sudo_address_def get_validator_count_def pre_aspen_get_validator_set_def
      get_bridge_account_ibc_asset_def get_block_timestamp_def get_block_height_def get_chain_id_def np)

lemma np_ensure_base_prefix [np]: "no_panic (ensure_base_prefix a s)" "no_panic (ensure_base_prefix_opt o' s)"
proof -
  show *: "no_panic (ensure_base_prefix a s)" for a by (simp add: ensure_base_prefix_def np)
  show "no_panic (ensure_base_prefix_opt o' s)"
    by (cases o') (simp_all add: ensure_base_prefix_opt_def * np)
qed

lemma np_balance_ops [np]:
  "no_panic (increase_balance a k n s)" "no_panic (decrease_balance a k n s)"
  "no_panic (increase_ibc_channel_balance ch k n s)"
  by (simp_all add: increase_balance_def decrease_balance_def increase_ibc_channel_balance_def np)

lemma np_withdrawal_event [np]:
  "no_panic (check_and_set_withdrawal_event_block_for_bridge_account a i n s)"
  by (simp add: check_and_set_withdrawal_event_block_for_bridge_account_def np np_fail [simplified]
      split: option.split)

lemma np_check_transfer [np]: "no_panic (check_transfer E act a s)"
  by (simp add: check_transfer_def np)

lemma np_execute_transfer [np]: "no_panic (execute_transfer E act a s)"
  by (simp add: execute_transfer_def np)

section \<open>Handlers\<close>

lemma np_execute_bridge_lock:
  "transaction_context s \<noteq> None \<Longrightarrow> no_panic (execute_bridge_lock E act s)"
  unfolding execute_bridge_lock_def Let_def get_transaction_context_def
  by (intro np np_signer np_expect; (simp add: np split: denom.split)?)

lemma np_transfer: "transaction_context s \<noteq> None \<Longrightarrow> no_panic (transfer_check_and_execute E act s)"
  unfolding transfer_check_and_execute_def by (intro np np_signer)

lemma np_bridge_lock: "transaction_context s \<noteq> None \<Longrightarrow> no_panic (bridge_lock_check_and_execute E act s)"
  unfolding bridge_lock_check_and_execute_def by (intro np np_signer np_execute_bridge_lock)

lemma np_bridge_unlock: "no_panic (bridge_unlock_check_and_execute E act s)"
  unfolding bridge_unlock_check_and_execute_def check_bridge_unlock_def Let_def by (intro np)

lemma np_bridge_transfer:
  "transaction_context s \<noteq> None \<Longrightarrow> no_panic (bridge_transfer_check_and_execute E act s)"
  unfolding bridge_transfer_check_and_execute_def check_bridge_unlock_def
  by (intro np np_execute_bridge_lock) (auto dest!: withdrawal_event_frame)

lemma np_bridge_sudo_change:
  "transaction_context s \<noteq> None \<Longrightarrow> no_panic (bridge_sudo_change_check_and_execute act s)"
  unfolding bridge_sudo_change_check_and_execute_def Let_def by (intro np np_signer)

lemma np_init_bridge_account:
  "transaction_context s \<noteq> None \<Longrightarrow> no_panic (init_bridge_account_check_and_execute E act s)"
  unfolding init_bridge_account_check_and_execute_def Let_def by (intro np np_signer)

lemma np_sudo_handlers:
  assumes "transaction_context s \<noteq> None"
  shows "no_panic (sudo_address_change_check_and_execute x1 s)"
    "no_panic (ibc_sudo_change_check_and_execute x2 s)"
    "no_panic (ibc_relayer_change_check_and_execute x3 s)"
    "no_panic (fee_change_check_and_execute x4 s)"
  unfolding sudo_address_change_check_and_execute_def ibc_sudo_change_check_and_execute_def
    ibc_relayer_change_check_and_execute_def fee_change_check_and_execute_def
  by (intro np np_signer assms)+

lemma np_fee_asset_change:
  "transaction_context s \<noteq> None \<Longrightarrow> no_panic (fee_asset_change_check_and_execute E act s)"
  unfolding fee_asset_change_check_and_execute_def Let_def
  by (cases act) (auto intro!: np np_signer)

lemma np_validator_update:
  "transaction_context s \<noteq> None \<Longrightarrow> no_panic (validator_update_check_and_execute E act s)"
  unfolding validator_update_check_and_execute_def Let_def split_beta by (intro np np_signer)

lemma np_recover_ibc_client:
  "transaction_context s \<noteq> None \<Longrightarrow> ext_no_panic E \<Longrightarrow>
    no_panic (recover_ibc_client_check_and_execute E act s)"
  unfolding recover_ibc_client_check_and_execute_def ensure_required_client_state_fields_match_def
  by (intro np np_signer) (auto simp: ext_no_panic_def)

lemma np_validate_signer: "transaction_context s \<noteq> None \<Longrightarrow> no_panic (validate_signer_is_sudo s)"
  unfolding validate_signer_is_sudo_def by (intro np np_signer)

lemma np_currency_pairs_change:
  "transaction_context s \<noteq> None \<Longrightarrow> no_panic (currency_pairs_change_check_and_execute act s)"
  by (cases act) (auto simp: currency_pairs_change_check_and_execute_def
      check_and_execute_currency_pairs_addition_def check_and_execute_currency_pairs_removal_def
      add_currency_pair_def remove_one_currency_pair_def Let_def split_beta
      intro!: np np_validate_signer)

lemma np_markets_change:
  "transaction_context s \<noteq> None \<Longrightarrow> no_panic (markets_change_check_and_execute act s)"
  unfolding markets_change_check_and_execute_def change_markets_def create_market_def update_market_def
  by (cases act) (auto intro!: np np_signer simp del: fail_def)

lemma np_ics20_withdrawal:
  "transaction_context s \<noteq> None \<Longrightarrow> ext_no_panic E \<Longrightarrow>
    no_panic (ics20_withdrawal_check_and_execute E act s)"
  unfolding ics20_withdrawal_check_and_execute_def claim_withdrawal_event_def
    establish_withdrawal_target_def create_ibc_packet_from_withdrawal_def escrow_withdrawal_def
  by (cases "iw_bridge_address act") (auto intro!: np np_signer simp: ext_no_panic_def)

lemma np_action:
  "transaction_context s \<noteq> None \<Longrightarrow> ext_no_panic E \<Longrightarrow> \<not> is_ibc_relay act \<Longrightarrow>
    no_panic (action_check_and_execute E act s)"
  by (cases act) (simp_all add: is_ibc_relay_def rollup_data_submission_check_and_execute_def np np_transfer np_bridge_lock
    np_bridge_unlock np_bridge_transfer np_bridge_sudo_change np_init_bridge_account np_sudo_handlers
    np_fee_asset_change np_validator_update np_recover_ibc_client np_currency_pairs_change
    np_markets_change np_ics20_withdrawal)

lemma np_check_and_pay_fees:
  "transaction_context s \<noteq> None \<Longrightarrow> no_panic (check_and_pay_fees E act s)"
  unfolding check_and_pay_fees_def Let_def get_transaction_context_def
  by (cases "fee_asset act") (auto intro!: np np_expect)

section \<open>Transactions\<close>

lemma np_execute_action:
  assumes "ext_no_panic E" "\<not> is_ibc_relay act" shows "no_panic (execute_action E c (i, act) s)"
proof -
  let ?s = "put_transaction_context (c\<lparr>ctx_position_in_transaction := of_nat i\<rparr>) s"
  have "execute_action E c (i, act) s = check_execute_and_pay_fees E act ?s"
    using assms(2) by (cases act) (auto simp: execute_action_def Let_def is_ibc_relay_def)
  moreover have "transaction_context ?s \<noteq> None" by (simp add: put_transaction_context_def)
  moreover have "transaction_context u \<noteq> None" if "action_check_and_execute E act ?s = Inr u" for u
    using action_same_base [OF that assms(2)] by (simp add: same_base_def put_transaction_context_def)
  ultimately show ?thesis
    using assms by (auto simp: check_execute_and_pay_fees_def intro!: np_and_then np_action np_check_and_pay_fees)
qed

lemma np_balance_check: "no_panic (check_balance_for_total_fees_and_transfers E tx s)"
proof -
  have "no_panic (add_total_transfer E s act cs)" for act cs
    by (cases act) (auto intro!: np)
  then have "no_panic (get_total_transaction_cost E tx s)"
    unfolding get_total_transaction_cost_def get_fees_for_transaction_def
      add_total_transfers_for_transaction_def get_or_init_fees_def
    by (intro np)
  then show ?thesis unfolding check_balance_for_total_fees_and_transfers_def by (intro np)
qed

lemma np_transaction:
  assumes "ext_no_panic E" "relays_nothing tx" shows "no_panic (transaction_check_and_execute E tx s)"
  unfolding transaction_check_and_execute_def Let_def
  using np_execute_action [OF assms(1)] assms(2)
  by (intro np np_balance_check) (auto simp: relays_nothing_def list_all_iff in_set_enumerate_eq)

lemma np_check_stateless:
  assumes "ext_no_panic E" "relays_nothing tx" shows "no_panic (transaction_check_stateless E tx)"
proof -
  have "no_panic (action_check_stateless E act)" if "\<not> is_ibc_relay act" for act
    using assms(1) that
    by (cases act) (auto simp: is_ibc_relay_def rollup_data_submission_check_stateless_def
        bridge_unlock_check_stateless_def bridge_transfer_check_stateless_def ics20_withdrawal_check_stateless_def
        ext_no_panic_def intro!: np)
  then show ?thesis
    using assms(2) unfolding transaction_check_stateless_def
    by (intro np) (simp_all add: relays_nothing_def list_all_iff)
qed

lemma np_app_execute_transaction:
  "ext_no_panic (h_ext H) \<Longrightarrow> relays_nothing tx \<Longrightarrow> no_panic (app_execute_transaction H tx A)"
  unfolding app_execute_transaction_def Let_def by (intro np np_check_stateless np_transaction)

section \<open>Proposals\<close>

lemma prepare_step:
  assumes sizes: "current_size_sequencer b \<le> max_size_sequencer b"
      "current_size_cometbft b \<le> max_size_cometbft b"
    and np: "ext_no_panic (h_ext H)" "relays_nothing tx"
  shows "\<exists>brk A' b' v' i' f' r' x' g' m'.
      proposal_checks_and_tx_execution H tx (A, Prepare b v i f r x g m) =
        Inr (brk, A', Prepare b' v' i' f' r' x' g' m') \<and>
      current_size_sequencer b' \<le> max_size_sequencer b' \<and> current_size_cometbft b' \<le> max_size_cometbft b'"
proof (cases "cometbft_has_space b (of_nat (length (encode_tx H tx))) \<and>
    sequencer_has_space b (tx_sequence_data_bytes (tx_action_list tx) 0) \<and> \<not> acts_group (tx_actions tx) > g")
  case False
  then show ?thesis
    using sizes by (auto simp: proposal_checks_and_tx_execution_def Let_def cometbft_full_def)
next
  case True
  let ?d = "tx_sequence_data_bytes (tx_action_list tx) 0"
  let ?l = "of_nat (length (encode_tx H tx)) :: usize"
  show ?thesis
  proof (cases "app_execute_transaction H tx A")
    case (Inl e)
    moreover have "e \<noteq> Panic msg" for msg
      using np_app_execute_transaction [OF np, of A] Inl by (auto simp: no_panic_def)
    ultimately show ?thesis
      using True sizes
      by (cases e) (auto simp: proposal_checks_and_tx_execution_def Let_def cometbft_full_def)
  next
    case (Inr p)
    then obtain A1 evs where p: "app_execute_transaction H tx A = Inr (A1, evs)" by (cases p) auto
    note sq = sequencer_checked_add_ok [OF True [THEN conjunct2, THEN conjunct1] sizes(1)]
    let ?b = "b\<lparr>current_size_sequencer := current_size_sequencer b + ?d\<rparr>"
    have "cometbft_has_space ?b ?l" using True by (simp add: cometbft_has_space_def)
    with sizes(2) have c: "cometbft_checked_add ?l ?b =
        Inr (?b\<lparr>current_size_cometbft := current_size_cometbft ?b + ?l\<rparr>)"
      by (intro cometbft_checked_add_total) simp_all
    then have "current_size_cometbft b + ?l \<le> max_size_cometbft b"
      by (auto simp: cometbft_checked_add_def checked_add_def split: if_splits)
    then show ?thesis
      using True sq c p
      by (simp add: proposal_checks_and_tx_execution_def Let_def cometbft_full_def)
        (rule exI [of _ False], simp)
  qed
qed

text \<open>
  C15. A proposer always gets a block: with any queue of transactions that relay no IBC messages, whether valid or not,
  preparing the transactions of a proposal ends without an error and without a panic, in any state, provided that the
  third-party JSON, Bech32 and IBC functions report failures as errors. The handlers' \<open>expect\<close> of the transaction context
  cannot fail, and neither can the checks that the sizes do not exceed the limits, which would abort the proposal, after
  the checks before the execution.
\<close>

theorem prepare_proposal_succeeds:
  assumes "ext_no_panic (h_ext H)" "list_all relays_nothing pending_txs"
    and "current_size_sequencer b \<le> max_size_sequencer b" "current_size_cometbft b \<le> max_size_cometbft b"
  shows "\<exists>A' P. prepare_proposal_tx_execution H b pending_txs A = Inr (A', P)"
proof -
  have "\<exists>A' P'. proposal_loop H txs (A, Prepare b v i f r x g m) = Inr (A', P')"
    if "current_size_sequencer b \<le> max_size_sequencer b" "current_size_cometbft b \<le> max_size_cometbft b"
      "list_all relays_nothing txs"
    for txs A b v i f r x g m
    using that
  proof (induction txs arbitrary: A b v i f r x g m)
    case Nil
    then show ?case by simp
  next
    case (Cons tx txs)
    have tx: "relays_nothing tx" using Cons.prems(3) by simp
    have "\<exists>brk A' b' v' i' f' r' x' g' m'.
      proposal_checks_and_tx_execution H tx (A, Prepare b v i f r x g m) =
        Inr (brk, A', Prepare b' v' i' f' r' x' g' m') \<and>
      current_size_sequencer b' \<le> max_size_sequencer b' \<and> current_size_cometbft b' \<le> max_size_cometbft b'"
      by (rule prepare_step [OF Cons.prems(1,2) assms(1) tx])
    then show ?case using Cons.IH Cons.prems(3) by (fastforce split: if_splits)
  qed
  then show ?thesis using assms(2-4) by (simp add: prepare_proposal_tx_execution_def)
qed

theorem prepare_proposal_succeeds_witness:
  "\<exists>A' P. prepare_proposal_tx_execution sample_host sample_constraints sample_pending sample_app = Inr (A', P)"
proof (rule prepare_proposal_succeeds)
  show "ext_no_panic (h_ext sample_host)"
    by (simp add: ext_no_panic_def sample_host_def sample_ext_def np np_fail [simplified])
  show "list_all relays_nothing sample_pending"
    by (simp add: sample_pending_def sample_tx_def relays_nothing_def is_ibc_relay_def
        sample_bridge_unlock_def sample_transfer_def)
  have c: "sample_constraints = \<lparr>max_size_sequencer = MAX_SEQUENCE_DATA_BYTES_PER_BLOCK,
      max_size_cometbft = 1000, current_size_sequencer = 0, current_size_cometbft = 68\<rparr>"
    by (simp add: sample_constraints_def block_size_constraints_new_def commitments_total_size_def ensure_def)
  show "current_size_sequencer sample_constraints \<le> max_size_sequencer sample_constraints"
    "current_size_cometbft sample_constraints \<le> max_size_cometbft sample_constraints"
    by (simp_all add: c)
qed

end
