(* ===== verification/Wire.thy ===== *)
theory Wire
  imports Actions
begin

text \<open>
  The primitives of the wire format: 128 bit integers, addresses, rollup identifiers, denominations,
  currency pairs and markets, each with its protobuf message and the two conversions
  (\<^verbatim>\<open>crates/astria-core/src/primitive/v1\<close>, \<^verbatim>\<open>crates/astria-core-address\<close>,
  \<^verbatim>\<open>crates/astria-core/src/oracles/price_feed\<close>).

  A message is a record with the fields of the generated struct; an optional field is an \<open>option\<close>. The code
  outside the repository that the conversions call is a \<open>codec\<close>: the Bech32m coder, the hex decoder, the
  check of ed25519 keys, the identifiers of the crate \<^verbatim>\<open>ibc-types\<close> and Penumbra's relay message. What the
  conversions rely on is \<open>codec_ok\<close>.
\<close>

section \<open>Results with an error type of their own\<close>

fun try_bind :: "'e + 'a \<Rightarrow> ('a \<Rightarrow> 'e + 'b) \<Rightarrow> 'e + 'b" where
  "try_bind (Inl e) f = Inl e"
| "try_bind (Inr x) f = f x"

fun map_err :: "('e \<Rightarrow> 'f) \<Rightarrow> 'e + 'a \<Rightarrow> 'f + 'a" where
  "map_err g (Inl e) = Inl (g e)"
| "map_err g (Inr x) = Inr x"

definition ok_or :: "'a option \<Rightarrow> 'e \<Rightarrow> 'e + 'a" where
  "ok_or v e = (case v of None \<Rightarrow> Inl e | Some x \<Rightarrow> Inr x)"

text \<open>\<open>Option::map\<close> followed by \<open>transpose\<close>, and \<open>collect\<close> into a \<open>Result\<close>.\<close>

definition try_opt :: "('a \<Rightarrow> 'e + 'b) \<Rightarrow> 'a option \<Rightarrow> 'e + 'b option" where
  "try_opt f v = (case v of None \<Rightarrow> Inr None | Some x \<Rightarrow> try_bind (f x) (\<lambda>y. Inr (Some y)))"

fun try_map :: "('a \<Rightarrow> 'e + 'b) \<Rightarrow> 'a list \<Rightarrow> 'e + 'b list" where
  "try_map f [] = Inr []"
| "try_map f (x # xs) = try_bind (f x) (\<lambda>y. try_bind (try_map f xs) (\<lambda>ys. Inr (y # ys)))"

lemma try_bind_Inr_iff [simp]: "try_bind m f = Inr y \<longleftrightarrow> (\<exists>x. m = Inr x \<and> f x = Inr y)"
  by (cases m) auto

lemma map_err_Inr_iff [simp]: "map_err g m = Inr x \<longleftrightarrow> m = Inr x"
  by (cases m) auto

lemma ok_or_Inr_iff [simp]: "ok_or v e = Inr x \<longleftrightarrow> v = Some x"
  by (cases v) (auto simp: ok_or_def)

lemma ok_or_simps [simp]: "ok_or None e = Inl e" "ok_or (Some x) e = Inr x"
  by (simp_all add: ok_or_def)

lemma try_opt_Inr_iff [simp]:
  "try_opt f v = Inr w \<longleftrightarrow> (case v of None \<Rightarrow> w = None | Some x \<Rightarrow> (\<exists>y. f x = Inr y \<and> w = Some y))"
  by (cases v) (auto simp: try_opt_def)

section \<open>Integers\<close>

definition to_be_bytes :: "nat \<Rightarrow> 'a::len word \<Rightarrow> bytes" where
  "to_be_bytes n w = map (\<lambda>i. ucast (drop_bit (8 * (n - 1 - i)) w)) [0..<n]"

definition from_be_bytes :: "bytes \<Rightarrow> 'a::len word" where
  "from_be_bytes bs = foldl (\<lambda>w b. 256 * w + ucast b) 0 bs"

record uint128 =
  lo :: u64
  hi :: u64

definition uint128_from_u128 :: "u128 \<Rightarrow> uint128" where
  "uint128_from_u128 primitive =
     (let bs = to_be_bytes 16 primitive in
      \<lparr>lo = from_be_bytes (drop 8 bs), hi = from_be_bytes (take 8 bs)\<rparr>)"

definition u128_from_uint128 :: "uint128 \<Rightarrow> u128" where
  "u128_from_uint128 pb = from_be_bytes (to_be_bytes 8 (hi pb) @ to_be_bytes 8 (lo pb))"

text \<open>The number that a byte string stands for in big-endian order.\<close>

definition be_value :: "bytes \<Rightarrow> nat" where
  "be_value bs = foldl (\<lambda>n b. 256 * n + unat b) 0 bs"

lemma be_value_Nil: "be_value [] = 0"
  by (simp add: be_value_def)

lemma be_value_snoc: "be_value (bs @ [b]) = 256 * be_value bs + unat b"
  by (simp add: be_value_def)

lemma be_value_less: "be_value bs < 256 ^ length bs"
proof (induction bs rule: rev_induct)
  case (snoc b bs)
  then show ?case using unat_less_pow [of b] by (simp add: be_value_snoc)
qed (simp add: be_value_Nil)

lemma from_be_bytes_eq: "from_be_bytes bs = of_nat (be_value bs)"
proof (induction bs rule: rev_induct)
  case (snoc b bs)
  have "from_be_bytes (bs @ [b]) = 256 * from_be_bytes bs + (ucast b :: 'a word)"
    by (simp add: from_be_bytes_def)
  then show ?case by (simp add: snoc be_value_snoc word_unat_eq_iff unat_word_ariths unsigned_of_nat
      unsigned_ucast_eq take_bit_eq_mod mod_simps)
qed (simp add: from_be_bytes_def be_value_Nil)

lemma to_be_bytes_0: "to_be_bytes 0 w = []"
  by (simp add: to_be_bytes_def)

lemma to_be_bytes_Suc: "to_be_bytes (Suc n) w = to_be_bytes n (drop_bit 8 w) @ [ucast w]"
proof -
  have "map (\<lambda>i. ucast (drop_bit (8 * (n - i)) w)) [0..<n] =
      (map (\<lambda>i. ucast (drop_bit (8 * (n - 1 - i)) (drop_bit 8 w))) [0..<n] :: bytes)"
    by (rule map_cong) (auto simp: drop_bit_drop_bit algebra_simps Suc_diff_Suc)
  then show ?thesis by (simp add: to_be_bytes_def)
qed

lemma length_to_be_bytes [simp]: "length (to_be_bytes n w) = n"
  by (simp add: to_be_bytes_def)

lemma unat_drop_bit_8: "unat (drop_bit 8 (w :: 'a::len word)) = unat w div 256"
proof -
  have "unat (drop_bit 8 w) = drop_bit 8 (take_bit LENGTH('a) (unat w))"
    by (simp only: unsigned_drop_bit_eq)
  then show ?thesis by (simp add: drop_bit_eq_div take_bit_nat_eq_self)
qed

lemma unat_ucast_byte: "unat (ucast (w :: 'a::len word) :: u8) = unat w mod 256"
  by (simp add: unsigned_ucast_eq take_bit_eq_mod)

lemma be_value_to_be_bytes: "be_value (to_be_bytes n w) = unat w mod 256 ^ n"
proof (induction n arbitrary: w)
  case (Suc n)
  have "be_value (to_be_bytes (Suc n) w) = 256 * (unat w div 256 mod 256 ^ n) + unat w mod 256"
    by (simp add: to_be_bytes_Suc be_value_snoc Suc unat_drop_bit_8 unat_ucast_byte)
  then show ?case by (simp add: mod_mult2_eq)
qed (simp add: to_be_bytes_0 be_value_Nil)

lemma to_be_bytes_of_value:
  "8 * length bs \<le> LENGTH('a) \<Longrightarrow> to_be_bytes (length bs) (of_nat (be_value bs) :: 'a::len word) = bs"
proof (induction bs rule: rev_induct)
  case (snoc b bs)
  let ?w = "of_nat (be_value (bs @ [b])) :: 'a word"
  have le: "(256 :: nat) ^ length (bs @ [b]) \<le> 2 ^ LENGTH('a)"
    using snoc.prems power_increasing [of "8 * length (bs @ [b])" "LENGTH('a)" "2 :: nat"]
    unfolding power_mult by simp
  then have w: "unat ?w = 256 * be_value bs + unat b"
    using be_value_less [of "bs @ [b]"] unat_of_nat_less [of "be_value (bs @ [b])", where 'a = 'a]
    by (simp add: be_value_snoc del: of_nat_add of_nat_mult)
  have b: "unat b < 256" using unat_less_pow [of b] by simp
  have "be_value bs < 2 ^ LENGTH('a)" using be_value_less [of "bs @ [b]"] le by (simp add: be_value_snoc)
  then have "drop_bit 8 ?w = of_nat (be_value bs)"
    using w b by (simp add: word_unat_eq_iff unat_drop_bit_8 unat_of_nat_less)
  moreover have "ucast ?w = b" using w b by (simp add: word_unat_eq_iff unat_ucast_byte)
  ultimately show ?case using snoc by (simp add: to_be_bytes_Suc)
qed (simp add: to_be_bytes_0)

lemma to_from_be_bytes:
  "n = length bs \<Longrightarrow> 8 * n \<le> LENGTH('a) \<Longrightarrow> to_be_bytes n (from_be_bytes bs :: 'a::len word) = bs"
  using to_be_bytes_of_value [of bs] by (simp add: from_be_bytes_eq)

lemma from_to_be_bytes:
  "8 * n = LENGTH('a) \<Longrightarrow> from_be_bytes (to_be_bytes n w) = (w :: 'a::len word)"
proof -
  assume n: "8 * n = LENGTH('a)"
  have "(256 :: nat) ^ n = 2 ^ LENGTH('a)" unfolding n [symmetric] by (simp add: power_mult)
  then show ?thesis by (simp add: from_be_bytes_eq be_value_to_be_bytes)
qed

lemma u128_uint128 [simp]: "u128_from_uint128 (uint128_from_u128 x) = x"
proof -
  let ?b = "to_be_bytes 16 x"
  have "u128_from_uint128 (uint128_from_u128 x) = from_be_bytes (take 8 ?b @ drop 8 ?b)"
    by (simp add: u128_from_uint128_def uint128_from_u128_def Let_def to_from_be_bytes)
  then show ?thesis by (simp add: from_to_be_bytes)
qed

lemma uint128_u128: "uint128_from_u128 (u128_from_uint128 p) = p"
  by (simp add: u128_from_uint128_def uint128_from_u128_def Let_def to_from_be_bytes from_to_be_bytes)

section \<open>The code outside the repository\<close>

record codec =
  bech32m_decode :: "string \<Rightarrow> string + string \<times> bytes"
  bech32m_encode_lower :: "string \<Rightarrow> bytes \<Rightarrow> string"
  hrp_parse :: "string \<Rightarrow> string + string"
  from_hex :: "string \<Rightarrow> string + bytes"
  ed25519_key_try_from :: "bytes \<Rightarrow> string + bytes"
  channel_id_parse :: "string \<Rightarrow> string + string"
  client_id_parse :: "string \<Rightarrow> string + string"
  ibc_relay_try_from :: "bytes \<Rightarrow> string + ibc_relay"
  ibc_relay_to_raw :: "ibc_relay \<Rightarrow> bytes"

definition is_upper :: "char \<Rightarrow> bool" where
  "is_upper c \<longleftrightarrow> of_char c \<in> {65..90 :: nat}"

text \<open>
  What the conversions rely on.
  \<^item> Decoding what the Bech32m coder wrote for a lower-case prefix gives the prefix and the bytes
    back, and the prefix of a string that could be decoded is a valid prefix.
  \<^item> A parsed prefix is the given one. So are a parsed key, channel and client identifier.
  \<^item> The hex decoder of \<open>[u8; 32]\<close> returns 32 bytes, and decodes the digits of 32 bytes.
  \<^item> A relay message that was decoded can be encoded and decoded again.
\<close>

definition codec_ok :: "codec \<Rightarrow> bool" where
  "codec_ok C \<longleftrightarrow>
     (\<forall>p bs. hrp_parse C p = Inr p \<and> \<not> list_ex is_upper p \<and> length bs = 20 \<longrightarrow>
        bech32m_decode C (bech32m_encode_lower C p bs) = Inr (p, bs)) \<and>
     (\<forall>p q. hrp_parse C p = Inr q \<longrightarrow> q = p) \<and>
     (\<forall>x bs. from_hex C x = Inr bs \<longrightarrow> length bs = 32) \<and>
     (\<forall>bs. length bs = 32 \<longrightarrow> from_hex C (concat (map hex_byte bs)) = Inr bs) \<and>
     (\<forall>b k. ed25519_key_try_from C b = Inr k \<longrightarrow> k = b) \<and>
     (\<forall>x y. channel_id_parse C x = Inr y \<longrightarrow> y = x) \<and>
     (\<forall>x y. client_id_parse C x = Inr y \<longrightarrow> y = x) \<and>
     (\<forall>b r. ibc_relay_try_from C b = Inr r \<longrightarrow> ibc_relay_try_from C (ibc_relay_to_raw C r) = Inr r)"

section \<open>Addresses\<close>

definition ADDRESS_LENGTH :: nat where
  "ADDRESS_LENGTH = 20"

datatype address_error = DecodeError string | IncorrectLength nat | InvalidPrefix string

text \<open>The bytes a builder was given: an array of the right length, or an iterator or slice to be checked.\<close>

datatype with_bytes = ArrayBytes bytes | IterBytes bytes | SliceBytes bytes

definition try_collect_to_array :: "bytes \<Rightarrow> address_error + bytes" where
  "try_collect_to_array iter =
     (if length iter \<noteq> ADDRESS_LENGTH then Inl (IncorrectLength (length iter)) else Inr iter)"

definition address_try_build :: "codec \<Rightarrow> with_bytes \<Rightarrow> string \<Rightarrow> address_error + address" where
  "address_try_build C bytes prefix =
     try_bind (case bytes of
         ArrayBytes b \<Rightarrow> Inr b
       | IterBytes b \<Rightarrow> try_collect_to_array b
       | SliceBytes b \<Rightarrow> (if length b = ADDRESS_LENGTH then Inr b else Inl (IncorrectLength (length b)))) (\<lambda>bs.
     try_bind (map_err InvalidPrefix (hrp_parse C prefix)) (\<lambda>p.
     Inr \<lparr>addr_bytes = bs, addr_prefix = p\<rparr>))"

definition address_to_prefix :: "codec \<Rightarrow> address \<Rightarrow> string \<Rightarrow> address_error + address" where
  "address_to_prefix C a prefix = address_try_build C (ArrayBytes (addr_bytes a)) prefix"

definition address_from_str :: "codec \<Rightarrow> string \<Rightarrow> address_error + address" where
  "address_from_str C s =
     try_bind (map_err DecodeError (bech32m_decode C s)) (\<lambda>(hrp, byte_iter).
     address_try_build C (IterBytes byte_iter) hrp)"

definition address_display :: "codec \<Rightarrow> address \<Rightarrow> string" where
  "address_display C a = bech32m_encode_lower C (addr_prefix a) (addr_bytes a)"

record raw_address =
  raw_bech32m :: string

definition address_to_raw :: "codec \<Rightarrow> address \<Rightarrow> raw_address" where
  "address_to_raw C a = \<lparr>raw_bech32m = address_display C a\<rparr>"

definition address_try_from_raw :: "codec \<Rightarrow> raw_address \<Rightarrow> address_error + address" where
  "address_try_from_raw C r = address_from_str C (raw_bech32m r)"

text \<open>The addresses a builder makes, and those whose printed form is their own prefix.\<close>

definition wf_address :: "codec \<Rightarrow> address \<Rightarrow> bool" where
  "wf_address C a \<longleftrightarrow> length (addr_bytes a) = ADDRESS_LENGTH \<and> hrp_parse C (addr_prefix a) = Inr (addr_prefix a)"

definition lower_address :: "address \<Rightarrow> bool" where
  "lower_address a \<longleftrightarrow> \<not> list_ex is_upper (addr_prefix a)"

named_theorems wire_rt
named_theorems wire_wf

lemma address_roundtrip [wire_rt]:
  "codec_ok C \<Longrightarrow> wf_address C a \<Longrightarrow> lower_address a \<Longrightarrow>
    address_try_from_raw C (address_to_raw C a) = Inr a"
  by (auto simp: codec_ok_def wf_address_def lower_address_def address_try_from_raw_def address_to_raw_def
      address_from_str_def address_display_def address_try_build_def try_collect_to_array_def ADDRESS_LENGTH_def)

lemma address_wf [wire_wf]:
  assumes "codec_ok C" "address_try_from_raw C r = Inr a"
  shows "wf_address C a"
proof -
  from assms(2) obtain hrp bs p where "length bs = ADDRESS_LENGTH" "hrp_parse C hrp = Inr p"
    "a = \<lparr>addr_bytes = bs, addr_prefix = p\<rparr>"
    by (auto simp: address_try_from_raw_def address_from_str_def address_try_build_def try_collect_to_array_def
        split: if_splits)
  moreover from this have "p = hrp" using assms(1) unfolding codec_ok_def by metis
  ultimately show ?thesis by (simp add: wf_address_def)
qed

text \<open>Changing the prefix of an address keeps its bytes.\<close>

lemma address_to_prefix_Inr:
  "address_to_prefix C a p = Inr b \<Longrightarrow> codec_ok C \<Longrightarrow> wf_address C a \<Longrightarrow>
    b = \<lparr>addr_bytes = addr_bytes a, addr_prefix = p\<rparr> \<and> wf_address C b"
  unfolding address_to_prefix_def address_try_build_def wf_address_def codec_ok_def by (auto; metis)

section \<open>Rollup identifiers\<close>

definition ROLLUP_ID_LEN :: nat where
  "ROLLUP_ID_LEN = 32"

record raw_rollup_id =
  raw_rollup_id_inner :: bytes

definition rollup_id_try_from_slice :: "bytes \<Rightarrow> nat + rollup_id" where
  "rollup_id_try_from_slice bs = (if length bs = ROLLUP_ID_LEN then Inr bs else Inl (length bs))"

definition rollup_id_to_raw :: "rollup_id \<Rightarrow> raw_rollup_id" where
  "rollup_id_to_raw i = \<lparr>raw_rollup_id_inner = i\<rparr>"

definition rollup_id_try_from_raw :: "raw_rollup_id \<Rightarrow> nat + rollup_id" where
  "rollup_id_try_from_raw r = rollup_id_try_from_slice (raw_rollup_id_inner r)"

definition wf_rollup_id :: "rollup_id \<Rightarrow> bool" where
  "wf_rollup_id i \<longleftrightarrow> length i = ROLLUP_ID_LEN"

lemma rollup_id_roundtrip [wire_rt]: "wf_rollup_id i \<Longrightarrow> rollup_id_try_from_raw (rollup_id_to_raw i) = Inr i"
  by (simp add: wf_rollup_id_def rollup_id_try_from_raw_def rollup_id_try_from_slice_def rollup_id_to_raw_def)

lemma rollup_id_wf [wire_wf]: "rollup_id_try_from_raw r = Inr i \<Longrightarrow> wf_rollup_id i"
  by (auto simp: wf_rollup_id_def rollup_id_try_from_raw_def rollup_id_try_from_slice_def split: if_splits)

section \<open>Denominations\<close>

abbreviation denom_parse :: "codec \<Rightarrow> string \<Rightarrow> parse_denom_error + denom" where
  "denom_parse C s \<equiv> denom_from_str (from_hex C) s"

text \<open>What parsing a denomination returns: a trace whose printed form is not taken for a hashed one.\<close>

definition wf_denom :: "denom \<Rightarrow> bool" where
  "wf_denom d \<longleftrightarrow> (case d of
     TracePrefixed t \<Rightarrow> wf_trace t \<and> \<not> starts_with (trace_display t) ''ibc/''
   | IbcPrefixed i \<Rightarrow> length (ibc_id i) = ENCODED_HASH_LEN)"

lemma split_slash_ibc: "split_slash (''ibc/'' @ x) = ''ibc'' # split_slash x"
  using split_slash_append [of "''ibc''" x] by simp

lemma hex_no_slash: "CHR ''/'' \<notin> set (concat (map hex_byte bs))"
proof -
  have "hex_digit n \<noteq> CHR ''/''" if "n < 16" for n
  proof -
    have "\<forall>n\<in>set [0..<16]. hex_digit n \<noteq> CHR ''/''" by code_simp
    with that show ?thesis by simp
  qed
  moreover have "unat (b :: u8) div 16 < 16" "unat b mod 16 < 16" for b using unat_less_pow [of b] by simp_all
  ultimately have "CHR ''/'' \<notin> set (hex_byte b)" for b unfolding hex_byte_def by (metis list.set_intros empty_iff insert_iff list.set(1,2))
  then show ?thesis by auto
qed

lemma denom_roundtrip [wire_rt]:
  assumes "codec_ok C" "wf_denom d" shows "denom_parse C (denom_display d) = Inr d"
proof (cases d)
  case (TracePrefixed t)
  then have "wf_trace t" "\<not> starts_with (trace_display t) ''ibc/''" using assms(2) by (simp_all add: wf_denom_def)
  then show ?thesis using TracePrefixed parse_trace_iff [of "trace_display t" t]
    by (simp add: denom_from_str_def denom_display_def)
next
  case (IbcPrefixed i)
  then have "from_hex C (concat (map hex_byte (ibc_id i))) = Inr (ibc_id i)"
    using assms by (simp add: codec_ok_def wf_denom_def ENCODED_HASH_LEN_def)
  moreover have "split_slash (ibc_display i) = [''ibc'', concat (map hex_byte (ibc_id i))]"
    unfolding ibc_display_def split_slash_ibc by (simp only: split_slash_plain [OF hex_no_slash])
  moreover have "starts_with (ibc_display i) ''ibc/''" by (simp add: ibc_display_def starts_with_def)
  ultimately show ?thesis using IbcPrefixed
    by (simp add: denom_from_str_def denom_display_def ibc_prefixed_from_str_def)
qed

lemma denom_wf [wire_wf]:
  assumes "codec_ok C" "denom_parse C s = Inr d" shows "wf_denom d"
proof (cases "starts_with s ''ibc/''")
  case True
  then obtain i where "ibc_prefixed_from_str (from_hex C) s = Inr i" "d = IbcPrefixed i"
    using assms(2) by (auto simp: denom_from_str_def split: sum.splits)
  moreover from this have "\<exists>x. from_hex C x = Inr (ibc_id i)"
    by (auto simp: ibc_prefixed_from_str_def split: list.splits sum.splits if_splits)
  ultimately show ?thesis using assms(1) by (auto simp: codec_ok_def wf_denom_def ENCODED_HASH_LEN_def)
next
  case False
  then obtain t where "trace_prefixed_from_str s = Inr t" "d = TracePrefixed t"
    using assms(2) by (auto simp: denom_from_str_def split: sum.splits)
  then show ?thesis using False by (auto simp: parse_trace_iff wf_denom_def)
qed

section \<open>A wire format\<close>

text \<open>
  The contract of a pair of conversions: reading what was written gives the value back, and only well-formed
  values are read. It extends to optional fields and to repeated ones.
\<close>

locale wire_format =
  fixes to_raw :: "'a \<Rightarrow> 'r" and try_from_raw :: "'r \<Rightarrow> 'e + 'a" and wf :: "'a \<Rightarrow> bool"
  assumes roundtrip: "wf a \<Longrightarrow> try_from_raw (to_raw a) = Inr a"
    and sound: "try_from_raw r = Inr a \<Longrightarrow> wf a"
begin

lemma opt_roundtrip: "pred_option wf v \<Longrightarrow> try_opt try_from_raw (map_option to_raw v) = Inr v"
  by (cases v) (simp_all add: try_opt_def roundtrip)

lemma opt_sound: "try_opt try_from_raw r = Inr v \<Longrightarrow> pred_option wf v"
  by (cases r) (auto dest: sound)

lemma list_roundtrip: "list_all wf xs \<Longrightarrow> try_map try_from_raw (map to_raw xs) = Inr xs"
  by (induction xs) (simp_all add: roundtrip)

lemma list_sound: "try_map try_from_raw rs = Inr xs \<Longrightarrow> list_all wf xs"
  by (induction rs arbitrary: xs) (auto dest: sound)

end

section \<open>Currency pairs and markets\<close>

definition is_ascii_alphabetic :: "char \<Rightarrow> bool" where
  "is_ascii_alphabetic c \<longleftrightarrow> of_char c \<in> {65..90 :: nat} \<or> of_char c \<in> {97..122 :: nat}"

text \<open>The regular expression \<open>^[a-zA-Z]+$\<close>.\<close>

definition is_alpha_word :: "string \<Rightarrow> bool" where
  "is_alpha_word s \<longleftrightarrow> s \<noteq> [] \<and> list_all is_ascii_alphabetic s"

definition base_from_str :: "string \<Rightarrow> string + string" where
  "base_from_str s = (if is_alpha_word s then Inr s else Inl s)"

definition quote_from_str :: "string \<Rightarrow> string + string" where
  "quote_from_str s = (if is_alpha_word s then Inr s else Inl s)"

datatype currency_pair_error = ParseBase string | ParseQuote string | InvalidCurrencyPairString string

record raw_currency_pair =
  raw_base :: string
  raw_quote :: string

definition currency_pair_to_raw :: "currency_pair \<Rightarrow> raw_currency_pair" where
  "currency_pair_to_raw p = \<lparr>raw_base = cp_base p, raw_quote = cp_quote p\<rparr>"

definition currency_pair_try_from_raw :: "raw_currency_pair \<Rightarrow> currency_pair_error + currency_pair" where
  "currency_pair_try_from_raw r =
     try_bind (map_err ParseBase (base_from_str (raw_base r))) (\<lambda>b.
     try_bind (map_err ParseQuote (quote_from_str (raw_quote r))) (\<lambda>q.
     Inr \<lparr>cp_base = b, cp_quote = q\<rparr>))"

text \<open>\<open>str::split_once('/')\<close>.\<close>

definition split_once_slash :: "string \<Rightarrow> (string \<times> string) option" where
  "split_once_slash s =
     (if CHR ''/'' \<in> set s
      then Some (takeWhile (\<lambda>c. c \<noteq> CHR ''/'') s, tl (dropWhile (\<lambda>c. c \<noteq> CHR ''/'') s))
      else None)"

definition currency_pair_from_str :: "string \<Rightarrow> currency_pair_error + currency_pair" where
  "currency_pair_from_str s =
     (case split_once_slash s of
        None \<Rightarrow> Inl (InvalidCurrencyPairString s)
      | Some (base_str, quote_str) \<Rightarrow>
          try_bind (map_err ParseBase (base_from_str base_str)) (\<lambda>b.
          try_bind (map_err ParseQuote (quote_from_str quote_str)) (\<lambda>q.
          Inr \<lparr>cp_base = b, cp_quote = q\<rparr>)))"

definition wf_currency_pair :: "currency_pair \<Rightarrow> bool" where
  "wf_currency_pair p \<longleftrightarrow> is_alpha_word (cp_base p) \<and> is_alpha_word (cp_quote p)"

lemmas currency_pair_wire_defs = currency_pair_to_raw_def currency_pair_try_from_raw_def wf_currency_pair_def
  base_from_str_def quote_from_str_def

interpretation pair_wire: wire_format currency_pair_to_raw currency_pair_try_from_raw wf_currency_pair
  by unfold_locales (auto simp: currency_pair_wire_defs split: if_splits)

text \<open>Printing a pair and parsing it again.\<close>

lemma alpha_no_slash: "is_alpha_word s \<Longrightarrow> CHR ''/'' \<notin> set s"
  by (auto simp: is_alpha_word_def list_all_iff is_ascii_alphabetic_def)

lemma currency_pair_display_from_str:
  assumes "wf_currency_pair p" shows "currency_pair_from_str (currency_pair_display p) = Inr p"
proof -
  have b: "is_alpha_word (cp_base p)" and q: "is_alpha_word (cp_quote p)"
    using assms by (simp_all add: wf_currency_pair_def)
  have "\<And>c. c \<in> set (cp_base p) \<Longrightarrow> c \<noteq> CHR ''/''" using alpha_no_slash [OF b] by auto
  then have "split_once_slash (currency_pair_display p) = Some (cp_base p, cp_quote p)"
    by (simp add: split_once_slash_def currency_pair_display_def takeWhile_append2 dropWhile_append2)
  then show ?thesis using b q by (simp add: currency_pair_from_str_def base_from_str_def quote_from_str_def)
qed

datatype ticker_error = TickerFieldNotSet string | InvalidCurrencyPair currency_pair_error | DecimalsTooLarge

record raw_ticker =
  rtk_currency_pair :: "raw_currency_pair option"
  rtk_decimals :: u64
  rtk_min_provider_count :: u64
  rtk_enabled :: bool
  rtk_metadata_json :: string

definition ticker_to_raw :: "ticker \<Rightarrow> raw_ticker" where
  "ticker_to_raw t = \<lparr>rtk_currency_pair = Some (currency_pair_to_raw (tk_currency_pair t)),
     rtk_decimals = ucast (tk_decimals t), rtk_min_provider_count = tk_min_provider_count t,
     rtk_enabled = tk_enabled t, rtk_metadata_json = tk_metadata_json t\<rparr>"

definition ticker_try_from_raw :: "raw_ticker \<Rightarrow> ticker_error + ticker" where
  "ticker_try_from_raw r =
     try_bind (ok_or (rtk_currency_pair r) (TickerFieldNotSet ''currency_pair'')) (\<lambda>rp.
     try_bind (map_err InvalidCurrencyPair (currency_pair_try_from_raw rp)) (\<lambda>pair.
     try_bind (if unat (rtk_decimals r) < 256 then Inr (ucast (rtk_decimals r)) else Inl DecimalsTooLarge) (\<lambda>d.
     Inr \<lparr>tk_currency_pair = pair, tk_decimals = d, tk_min_provider_count = rtk_min_provider_count r,
          tk_enabled = rtk_enabled r, tk_metadata_json = rtk_metadata_json r\<rparr>)))"

definition wf_ticker :: "ticker \<Rightarrow> bool" where
  "wf_ticker t \<longleftrightarrow> wf_currency_pair (tk_currency_pair t)"

lemma byte_as_u64: "unat (ucast (b :: u8) :: u64) = unat b" "ucast (ucast b :: u64) = b"
proof -
  have "unat b < 2 ^ 64" using unat_less_pow [of b] by simp
  then show *: "unat (ucast b :: u64) = unat b" by (simp add: unsigned_ucast_eq take_bit_nat_eq_self)
  show "ucast (ucast b :: u64) = b" using unat_less_pow [of b]
    by (simp add: word_unat_eq_iff unat_ucast_byte *)
qed

interpretation ticker_wire: wire_format ticker_to_raw ticker_try_from_raw wf_ticker
proof
  show "ticker_try_from_raw (ticker_to_raw t) = Inr t" if "wf_ticker t" for t
    using that unat_less_pow [of "tk_decimals t"]
    by (simp add: ticker_try_from_raw_def ticker_to_raw_def wf_ticker_def pair_wire.roundtrip byte_as_u64)
  show "wf_ticker t" if "ticker_try_from_raw r = Inr t" for r t
    using that by (auto simp: ticker_try_from_raw_def wf_ticker_def dest: pair_wire.sound split: if_splits)
qed

record raw_provider_config =
  rpc_name :: string
  rpc_off_chain_ticker :: string
  rpc_normalize_by_pair :: "raw_currency_pair option"
  rpc_invert :: bool
  rpc_metadata_json :: string

datatype provider_config_error = InvalidNormalizeByPair currency_pair_error

definition provider_config_to_raw :: "provider_config \<Rightarrow> raw_provider_config" where
  "provider_config_to_raw c = \<lparr>rpc_name = pc_name c, rpc_off_chain_ticker = pc_off_chain_ticker c,
     rpc_normalize_by_pair = map_option currency_pair_to_raw (pc_normalize_by_pair c),
     rpc_invert = pc_invert c, rpc_metadata_json = pc_metadata_json c\<rparr>"

definition provider_config_try_from_raw :: "raw_provider_config \<Rightarrow> provider_config_error + provider_config" where
  "provider_config_try_from_raw r =
     try_bind (map_err InvalidNormalizeByPair
         (try_opt currency_pair_try_from_raw (rpc_normalize_by_pair r))) (\<lambda>normalize.
     Inr \<lparr>pc_name = rpc_name r, pc_off_chain_ticker = rpc_off_chain_ticker r,
          pc_normalize_by_pair = normalize, pc_invert = rpc_invert r, pc_metadata_json = rpc_metadata_json r\<rparr>)"

definition wf_provider_config :: "provider_config \<Rightarrow> bool" where
  "wf_provider_config c \<longleftrightarrow> pred_option wf_currency_pair (pc_normalize_by_pair c)"

interpretation provider_wire: wire_format provider_config_to_raw provider_config_try_from_raw wf_provider_config
proof
  show "provider_config_try_from_raw (provider_config_to_raw c) = Inr c" if "wf_provider_config c" for c
    using that by (simp add: provider_config_try_from_raw_def provider_config_to_raw_def wf_provider_config_def
        pair_wire.opt_roundtrip del: try_opt_Inr_iff)
  show "wf_provider_config c" if "provider_config_try_from_raw r = Inr c" for r c
    using that by (auto simp: provider_config_try_from_raw_def wf_provider_config_def
        simp del: try_opt_Inr_iff dest: pair_wire.opt_sound)
qed

datatype market_error =
  MissingTicker | TickerParseError ticker_error | ProviderConfigParseError provider_config_error

record raw_market =
  rmk_ticker :: "raw_ticker option"
  rmk_provider_configs :: "raw_provider_config list"

definition market_to_raw :: "market \<Rightarrow> raw_market" where
  "market_to_raw m = \<lparr>rmk_ticker = Some (ticker_to_raw (mk_ticker m)),
     rmk_provider_configs = map provider_config_to_raw (mk_provider_configs m)\<rparr>"

definition market_try_from_raw :: "raw_market \<Rightarrow> market_error + market" where
  "market_try_from_raw r =
     try_bind (map_err TickerParseError (try_opt ticker_try_from_raw (rmk_ticker r))) (\<lambda>t.
     try_bind (ok_or t MissingTicker) (\<lambda>ticker.
     try_bind (map_err ProviderConfigParseError
         (try_map provider_config_try_from_raw (rmk_provider_configs r))) (\<lambda>configs.
     Inr \<lparr>mk_ticker = ticker, mk_provider_configs = configs\<rparr>)))"

definition wf_market :: "market \<Rightarrow> bool" where
  "wf_market m \<longleftrightarrow> wf_ticker (mk_ticker m) \<and> list_all wf_provider_config (mk_provider_configs m)"

interpretation market_wire: wire_format market_to_raw market_try_from_raw wf_market
proof
  show "market_try_from_raw (market_to_raw m) = Inr m" if "wf_market m" for m
    using that by (simp add: market_try_from_raw_def market_to_raw_def wf_market_def try_opt_def
        ticker_wire.roundtrip provider_wire.list_roundtrip)
  show "wf_market m" if "market_try_from_raw r = Inr m" for r m
    using that by (auto simp: market_try_from_raw_def wf_market_def simp del: try_opt_Inr_iff
        dest: ticker_wire.opt_sound provider_wire.list_sound)
qed

end
