(* ===== verification/Action_Raw.thy ===== *)
theory Action_Raw
  imports Wire
begin

text \<open>
  The wire format of actions (\<^verbatim>\<open>crates/astria-core/src/protocol/transaction/v1/action/mod.rs\<close>): for each
  action its protobuf message, \<open>to_raw\<close> and \<open>try_from_raw\<close>. The source has variants of the conversions that
  consume or borrow their argument; they return the same values and are one definition here.

  The error types of the source have one variant for each field that may be invalid. Here they
  are one type, \<open>wire_error\<close>, whose constructors carry the name of the field.
\<close>

section \<open>Errors\<close>

datatype wire_error =
    FieldNotSet string
  | InvalidAddress string address_error
  | InvalidDenom string parse_denom_error
  | RollupIdLength nat
  | NegativePower int
  | PublicKeyNotSet
  | Secp256k1NotSupported
  | VerificationKeyError string
  | InvalidName nat
  | InvalidSourceChannel string
  | MissingAddress
  | MissingAsset
  | MissingAmount
  | FeeComponentMissing action_type string
  | InvalidSubjectClientId
  | InvalidSubstituteClientId
  | CurrencyPairsUnset
  | InvalidPair currency_pair_error
  | InvalidMarket market_error
  | MissingMarkets
  | IbcError string

datatype action_error = ActionUnset | InAction action_type wire_error

text \<open>The field \<open>f\<close> as an address, as an optional address and as a denomination.\<close>

abbreviation address_field :: "codec \<Rightarrow> string \<Rightarrow> raw_address \<Rightarrow> wire_error + address" where
  "address_field C f r \<equiv> map_err (InvalidAddress f) (address_try_from_raw C r)"

abbreviation opt_address_field :: "codec \<Rightarrow> string \<Rightarrow> raw_address option \<Rightarrow> wire_error + address option" where
  "opt_address_field C f r \<equiv> map_err (InvalidAddress f) (try_opt (address_try_from_raw C) r)"

abbreviation denom_field :: "codec \<Rightarrow> string \<Rightarrow> string \<Rightarrow> wire_error + denom" where
  "denom_field C f s \<equiv> map_err (InvalidDenom f) (denom_parse C s)"

section \<open>Rollup data submissions\<close>

record raw_rollup_data_submission =
  rrds_rollup_id :: "raw_rollup_id option"
  rrds_data :: bytes
  rrds_fee_asset :: string

definition rollup_data_submission_to_raw :: "rollup_data_submission \<Rightarrow> raw_rollup_data_submission" where
  "rollup_data_submission_to_raw a =
     \<lparr>rrds_rollup_id = Some (rollup_id_to_raw (rds_rollup_id a)), rrds_data = rds_data a,
      rrds_fee_asset = denom_display (rds_fee_asset a)\<rparr>"

definition rollup_data_submission_try_from_raw ::
  "codec \<Rightarrow> raw_rollup_data_submission \<Rightarrow> wire_error + rollup_data_submission" where
  "rollup_data_submission_try_from_raw C r =
     try_bind (ok_or (rrds_rollup_id r) (FieldNotSet ''rollup_id'')) (\<lambda>ri.
     try_bind (map_err RollupIdLength (rollup_id_try_from_raw ri)) (\<lambda>rollup_id.
     try_bind (denom_field C ''fee_asset'' (rrds_fee_asset r)) (\<lambda>fee_asset.
     Inr \<lparr>rds_rollup_id = rollup_id, rds_data = rrds_data r, rds_fee_asset = fee_asset\<rparr>)))"

section \<open>Transfers\<close>

record raw_transfer =
  rtr_to :: "raw_address option"
  rtr_amount :: "uint128 option"
  rtr_asset :: string
  rtr_fee_asset :: string

definition transfer_to_raw :: "codec \<Rightarrow> transfer \<Rightarrow> raw_transfer" where
  "transfer_to_raw C a =
     \<lparr>rtr_to = Some (address_to_raw C (tr_to a)), rtr_amount = Some (uint128_from_u128 (tr_amount a)),
      rtr_asset = denom_display (tr_asset a), rtr_fee_asset = denom_display (tr_fee_asset a)\<rparr>"

definition transfer_try_from_raw :: "codec \<Rightarrow> raw_transfer \<Rightarrow> wire_error + transfer" where
  "transfer_try_from_raw C r =
     try_bind (ok_or (rtr_to r) (FieldNotSet ''to'')) (\<lambda>rto.
     try_bind (address_field C ''to'' rto) (\<lambda>dest.
     let amount = case_option 0 u128_from_uint128 (rtr_amount r) in
     try_bind (denom_field C ''asset'' (rtr_asset r)) (\<lambda>asset.
     try_bind (denom_field C ''fee_asset'' (rtr_fee_asset r)) (\<lambda>fee_asset.
     Inr \<lparr>tr_to = dest, tr_amount = amount, tr_asset = asset, tr_fee_asset = fee_asset\<rparr>))))"

section \<open>Validator updates\<close>

definition MAX_VALIDATOR_NAME_LENGTH :: nat where
  "MAX_VALIDATOR_NAME_LENGTH = 32"

definition validator_name_from_str :: "string \<Rightarrow> nat + string" where
  "validator_name_from_str v = (if length v > MAX_VALIDATOR_NAME_LENGTH then Inl (length v) else Inr v)"

datatype public_key_sum = Ed25519 bytes | Secp256k1 bytes

record raw_public_key =
  rpk_sum :: "public_key_sum option"

text \<open>The power is an \<open>i64\<close>: a word read with its sign.\<close>

record raw_validator_update =
  rvu_pub_key :: "raw_public_key option"
  rvu_power :: "64 word"
  rvu_name :: string

definition validator_update_to_raw :: "validator_update \<Rightarrow> raw_validator_update" where
  "validator_update_to_raw a =
     \<lparr>rvu_pub_key = Some \<lparr>rpk_sum = Some (Ed25519 (vk_bytes (vu_verification_key a)))\<rparr>,
      rvu_power = ucast (vu_power a), rvu_name = vu_name a\<rparr>"

definition vk_try_from :: "codec \<Rightarrow> bytes \<Rightarrow> string + verification_key" where
  "vk_try_from C bs = try_bind (ed25519_key_try_from C bs) (\<lambda>k. Inr \<lparr>vk_bytes = k\<rparr>)"

definition validator_update_try_from_raw :: "codec \<Rightarrow> raw_validator_update \<Rightarrow> wire_error + validator_update" where
  "validator_update_try_from_raw C r =
     try_bind (map_err InvalidName (validator_name_from_str (rvu_name r))) (\<lambda>name.
     try_bind (if 0 \<le> sint (rvu_power r) \<and> sint (rvu_power r) < 2 ^ 32 then Inr (ucast (rvu_power r))
               else Inl (NegativePower (sint (rvu_power r)))) (\<lambda>power.
     try_bind (case Option.bind (rvu_pub_key r) rpk_sum of
                 None \<Rightarrow> Inl PublicKeyNotSet
               | Some (Secp256k1 _) \<Rightarrow> Inl Secp256k1NotSupported
               | Some (Ed25519 bs) \<Rightarrow> map_err VerificationKeyError (vk_try_from C bs)) (\<lambda>verification_key.
     Inr \<lparr>vu_power = power, vu_verification_key = verification_key, vu_name = name\<rparr>)))"

section \<open>Changes of the sudo addresses\<close>

record raw_sudo_address_change =
  rsac_new_address :: "raw_address option"

definition sudo_address_change_to_raw :: "codec \<Rightarrow> sudo_address_change \<Rightarrow> raw_sudo_address_change" where
  "sudo_address_change_to_raw C a = \<lparr>rsac_new_address = Some (address_to_raw C (sac_new_address a))\<rparr>"

definition sudo_address_change_try_from_raw ::
  "codec \<Rightarrow> raw_sudo_address_change \<Rightarrow> wire_error + sudo_address_change" where
  "sudo_address_change_try_from_raw C r =
     try_bind (ok_or (rsac_new_address r) (FieldNotSet ''new_address'')) (\<lambda>rn.
     try_bind (address_field C ''new_address'' rn) (\<lambda>new_address.
     Inr \<lparr>sac_new_address = new_address\<rparr>))"

record raw_ibc_sudo_change =
  risc_new_address :: "raw_address option"

definition ibc_sudo_change_to_raw :: "codec \<Rightarrow> ibc_sudo_change \<Rightarrow> raw_ibc_sudo_change" where
  "ibc_sudo_change_to_raw C a = \<lparr>risc_new_address = Some (address_to_raw C (isc_new_address a))\<rparr>"

definition ibc_sudo_change_try_from_raw ::
  "codec \<Rightarrow> raw_ibc_sudo_change \<Rightarrow> wire_error + ibc_sudo_change" where
  "ibc_sudo_change_try_from_raw C r =
     try_bind (ok_or (risc_new_address r) (FieldNotSet ''new_address'')) (\<lambda>rn.
     try_bind (address_field C ''new_address'' rn) (\<lambda>new_address.
     Inr \<lparr>isc_new_address = new_address\<rparr>))"

section \<open>ICS20 withdrawals\<close>

record raw_ibc_height =
  rih_revision_number :: u64
  rih_revision_height :: u64

definition ibc_height_to_raw :: "ibc_height \<Rightarrow> raw_ibc_height" where
  "ibc_height_to_raw h =
     \<lparr>rih_revision_number = revision_number h, rih_revision_height = revision_height h\<rparr>"

definition ibc_height_from_raw :: "raw_ibc_height \<Rightarrow> ibc_height" where
  "ibc_height_from_raw h =
     \<lparr>revision_number = rih_revision_number h, revision_height = rih_revision_height h\<rparr>"

record raw_ics20_withdrawal =
  riw_amount :: "uint128 option"
  riw_denom :: string
  riw_destination_chain_address :: string
  riw_return_address :: "raw_address option"
  riw_timeout_height :: "raw_ibc_height option"
  riw_timeout_time :: u64
  riw_source_channel :: string
  riw_fee_asset :: string
  riw_memo :: string
  riw_bridge_address :: "raw_address option"
  riw_use_compat_address :: bool

definition ics20_withdrawal_to_raw :: "codec \<Rightarrow> ics20_withdrawal \<Rightarrow> raw_ics20_withdrawal" where
  "ics20_withdrawal_to_raw C a =
     \<lparr>riw_amount = Some (uint128_from_u128 (iw_amount a)),
      riw_denom = denom_display (iw_denom a),
      riw_destination_chain_address = iw_destination_chain_address a,
      riw_return_address = Some (address_to_raw C (iw_return_address a)),
      riw_timeout_height = Some (ibc_height_to_raw (iw_timeout_height a)),
      riw_timeout_time = iw_timeout_time a,
      riw_source_channel = iw_source_channel a,
      riw_fee_asset = denom_display (iw_fee_asset a),
      riw_memo = iw_memo a,
      riw_bridge_address = map_option (address_to_raw C) (iw_bridge_address a),
      riw_use_compat_address = iw_use_compat_address a\<rparr>"

definition ics20_withdrawal_try_from_raw :: "codec \<Rightarrow> raw_ics20_withdrawal \<Rightarrow> wire_error + ics20_withdrawal" where
  "ics20_withdrawal_try_from_raw C r =
     try_bind (ok_or (riw_amount r) (FieldNotSet ''amount'')) (\<lambda>amount.
     try_bind (ok_or (riw_return_address r) (FieldNotSet ''return_address'')) (\<lambda>ra.
     try_bind (address_field C ''return_address'' ra) (\<lambda>return_address.
     try_bind (ok_or (riw_timeout_height r) (FieldNotSet ''timeout_height'')) (\<lambda>height.
     try_bind (opt_address_field C ''bridge_address'' (riw_bridge_address r)) (\<lambda>bridge_address.
     try_bind (denom_field C ''denom'' (riw_denom r)) (\<lambda>denom.
     try_bind (map_err InvalidSourceChannel (channel_id_parse C (riw_source_channel r))) (\<lambda>source_channel.
     try_bind (denom_field C ''fee_asset'' (riw_fee_asset r)) (\<lambda>fee_asset.
     Inr \<lparr>iw_amount = u128_from_uint128 amount,
          iw_denom = denom,
          iw_destination_chain_address = riw_destination_chain_address r,
          iw_return_address = return_address,
          iw_timeout_height = ibc_height_from_raw height,
          iw_timeout_time = riw_timeout_time r,
          iw_source_channel = source_channel,
          iw_fee_asset = fee_asset,
          iw_memo = riw_memo r,
          iw_bridge_address = bridge_address,
          iw_use_compat_address = riw_use_compat_address r\<rparr>))))))))"

section \<open>IBC relayers and fee assets\<close>

datatype raw_ibc_relayer_change_value = RawRelayerAddition raw_address | RawRelayerRemoval raw_address

record raw_ibc_relayer_change =
  rirc_value :: "raw_ibc_relayer_change_value option"

fun ibc_relayer_change_to_raw :: "codec \<Rightarrow> ibc_relayer_change \<Rightarrow> raw_ibc_relayer_change" where
  "ibc_relayer_change_to_raw C (RelayerAddition a) = \<lparr>rirc_value = Some (RawRelayerAddition (address_to_raw C a))\<rparr>"
| "ibc_relayer_change_to_raw C (RelayerRemoval a) = \<lparr>rirc_value = Some (RawRelayerRemoval (address_to_raw C a))\<rparr>"

definition ibc_relayer_change_try_from_raw ::
  "codec \<Rightarrow> raw_ibc_relayer_change \<Rightarrow> wire_error + ibc_relayer_change" where
  "ibc_relayer_change_try_from_raw C r =
     (case rirc_value r of
        Some (RawRelayerAddition a) \<Rightarrow> try_bind (address_field C ''address'' a) (\<lambda>a'. Inr (RelayerAddition a'))
      | Some (RawRelayerRemoval a) \<Rightarrow> try_bind (address_field C ''address'' a) (\<lambda>a'. Inr (RelayerRemoval a'))
      | None \<Rightarrow> Inl MissingAddress)"

datatype raw_fee_asset_change_value = RawFeeAssetAddition string | RawFeeAssetRemoval string

record raw_fee_asset_change =
  rfac_value :: "raw_fee_asset_change_value option"

fun fee_asset_change_to_raw :: "fee_asset_change \<Rightarrow> raw_fee_asset_change" where
  "fee_asset_change_to_raw (FeeAssetAddition d) = \<lparr>rfac_value = Some (RawFeeAssetAddition (denom_display d))\<rparr>"
| "fee_asset_change_to_raw (FeeAssetRemoval d) = \<lparr>rfac_value = Some (RawFeeAssetRemoval (denom_display d))\<rparr>"

definition fee_asset_change_try_from_raw :: "codec \<Rightarrow> raw_fee_asset_change \<Rightarrow> wire_error + fee_asset_change" where
  "fee_asset_change_try_from_raw C r =
     (case rfac_value r of
        Some (RawFeeAssetAddition s) \<Rightarrow> try_bind (denom_field C ''asset'' s) (\<lambda>d. Inr (FeeAssetAddition d))
      | Some (RawFeeAssetRemoval s) \<Rightarrow> try_bind (denom_field C ''asset'' s) (\<lambda>d. Inr (FeeAssetRemoval d))
      | None \<Rightarrow> Inl MissingAsset)"

section \<open>Bridge actions\<close>

record raw_init_bridge_account =
  riba_rollup_id :: "raw_rollup_id option"
  riba_asset :: string
  riba_fee_asset :: string
  riba_sudo_address :: "raw_address option"
  riba_withdrawer_address :: "raw_address option"

definition init_bridge_account_to_raw :: "codec \<Rightarrow> init_bridge_account \<Rightarrow> raw_init_bridge_account" where
  "init_bridge_account_to_raw C a =
     \<lparr>riba_rollup_id = Some (rollup_id_to_raw (iba_rollup_id a)),
      riba_asset = denom_display (iba_asset a),
      riba_fee_asset = denom_display (iba_fee_asset a),
      riba_sudo_address = map_option (address_to_raw C) (iba_sudo_address a),
      riba_withdrawer_address = map_option (address_to_raw C) (iba_withdrawer_address a)\<rparr>"

definition init_bridge_account_try_from_raw ::
  "codec \<Rightarrow> raw_init_bridge_account \<Rightarrow> wire_error + init_bridge_account" where
  "init_bridge_account_try_from_raw C r =
     try_bind (ok_or (riba_rollup_id r) (FieldNotSet ''rollup_id'')) (\<lambda>ri.
     try_bind (map_err RollupIdLength (rollup_id_try_from_raw ri)) (\<lambda>rollup_id.
     try_bind (denom_field C ''asset'' (riba_asset r)) (\<lambda>asset.
     try_bind (denom_field C ''fee_asset'' (riba_fee_asset r)) (\<lambda>fee_asset.
     try_bind (opt_address_field C ''sudo_address'' (riba_sudo_address r)) (\<lambda>sudo_address.
     try_bind (opt_address_field C ''withdrawer_address'' (riba_withdrawer_address r)) (\<lambda>withdrawer_address.
     Inr \<lparr>iba_rollup_id = rollup_id, iba_asset = asset, iba_fee_asset = fee_asset,
          iba_sudo_address = sudo_address, iba_withdrawer_address = withdrawer_address\<rparr>))))))"

record raw_bridge_lock =
  rbl_to :: "raw_address option"
  rbl_amount :: "uint128 option"
  rbl_asset :: string
  rbl_fee_asset :: string
  rbl_destination_chain_address :: string

definition bridge_lock_to_raw :: "codec \<Rightarrow> bridge_lock \<Rightarrow> raw_bridge_lock" where
  "bridge_lock_to_raw C a =
     \<lparr>rbl_to = Some (address_to_raw C (bl_to a)), rbl_amount = Some (uint128_from_u128 (bl_amount a)),
      rbl_asset = denom_display (bl_asset a), rbl_fee_asset = denom_display (bl_fee_asset a),
      rbl_destination_chain_address = bl_destination_chain_address a\<rparr>"

definition bridge_lock_try_from_raw :: "codec \<Rightarrow> raw_bridge_lock \<Rightarrow> wire_error + bridge_lock" where
  "bridge_lock_try_from_raw C r =
     try_bind (ok_or (rbl_to r) (FieldNotSet ''to'')) (\<lambda>rto.
     try_bind (address_field C ''to'' rto) (\<lambda>dest.
     try_bind (ok_or (rbl_amount r) MissingAmount) (\<lambda>amount.
     try_bind (denom_field C ''asset'' (rbl_asset r)) (\<lambda>asset.
     try_bind (denom_field C ''fee_asset'' (rbl_fee_asset r)) (\<lambda>fee_asset.
     Inr \<lparr>bl_to = dest, bl_amount = u128_from_uint128 amount, bl_asset = asset, bl_fee_asset = fee_asset,
          bl_destination_chain_address = rbl_destination_chain_address r\<rparr>)))))"

record raw_bridge_unlock =
  rbu_to :: "raw_address option"
  rbu_amount :: "uint128 option"
  rbu_fee_asset :: string
  rbu_memo :: string
  rbu_bridge_address :: "raw_address option"
  rbu_rollup_block_number :: u64
  rbu_rollup_withdrawal_event_id :: string

definition bridge_unlock_to_raw :: "codec \<Rightarrow> bridge_unlock \<Rightarrow> raw_bridge_unlock" where
  "bridge_unlock_to_raw C a =
     \<lparr>rbu_to = Some (address_to_raw C (bu_to a)), rbu_amount = Some (uint128_from_u128 (bu_amount a)),
      rbu_fee_asset = denom_display (bu_fee_asset a), rbu_memo = bu_memo a,
      rbu_bridge_address = Some (address_to_raw C (bu_bridge_address a)),
      rbu_rollup_block_number = bu_rollup_block_number a,
      rbu_rollup_withdrawal_event_id = bu_rollup_withdrawal_event_id a\<rparr>"

definition bridge_unlock_try_from_raw :: "codec \<Rightarrow> raw_bridge_unlock \<Rightarrow> wire_error + bridge_unlock" where
  "bridge_unlock_try_from_raw C r =
     try_bind (ok_or (rbu_to r) (FieldNotSet ''to'')) (\<lambda>rto.
     try_bind (address_field C ''to'' rto) (\<lambda>dest.
     try_bind (ok_or (rbu_amount r) (FieldNotSet ''amount'')) (\<lambda>amount.
     try_bind (denom_field C ''fee_asset'' (rbu_fee_asset r)) (\<lambda>fee_asset.
     try_bind (ok_or (rbu_bridge_address r) (FieldNotSet ''bridge_address'')) (\<lambda>rb.
     try_bind (address_field C ''bridge_address'' rb) (\<lambda>bridge_address.
     Inr \<lparr>bu_to = dest, bu_amount = u128_from_uint128 amount, bu_fee_asset = fee_asset,
          bu_bridge_address = bridge_address, bu_memo = rbu_memo r,
          bu_rollup_block_number = rbu_rollup_block_number r,
          bu_rollup_withdrawal_event_id = rbu_rollup_withdrawal_event_id r\<rparr>))))))"

record raw_bridge_sudo_change =
  rbsc_bridge_address :: "raw_address option"
  rbsc_new_sudo_address :: "raw_address option"
  rbsc_new_withdrawer_address :: "raw_address option"
  rbsc_fee_asset :: string

definition bridge_sudo_change_to_raw :: "codec \<Rightarrow> bridge_sudo_change \<Rightarrow> raw_bridge_sudo_change" where
  "bridge_sudo_change_to_raw C a =
     \<lparr>rbsc_bridge_address = Some (address_to_raw C (bsc_bridge_address a)),
      rbsc_new_sudo_address = map_option (address_to_raw C) (bsc_new_sudo_address a),
      rbsc_new_withdrawer_address = map_option (address_to_raw C) (bsc_new_withdrawer_address a),
      rbsc_fee_asset = denom_display (bsc_fee_asset a)\<rparr>"

definition bridge_sudo_change_try_from_raw ::
  "codec \<Rightarrow> raw_bridge_sudo_change \<Rightarrow> wire_error + bridge_sudo_change" where
  "bridge_sudo_change_try_from_raw C r =
     try_bind (ok_or (rbsc_bridge_address r) (FieldNotSet ''bridge_address'')) (\<lambda>rb.
     try_bind (address_field C ''bridge_address'' rb) (\<lambda>bridge_address.
     try_bind (opt_address_field C ''new_sudo_address'' (rbsc_new_sudo_address r)) (\<lambda>new_sudo.
     try_bind (opt_address_field C ''new_withdrawer_address'' (rbsc_new_withdrawer_address r)) (\<lambda>new_withdrawer.
     try_bind (denom_field C ''fee_asset'' (rbsc_fee_asset r)) (\<lambda>fee_asset.
     Inr \<lparr>bsc_bridge_address = bridge_address, bsc_new_sudo_address = new_sudo,
          bsc_new_withdrawer_address = new_withdrawer, bsc_fee_asset = fee_asset\<rparr>)))))"

record raw_bridge_transfer =
  rbt_to :: "raw_address option"
  rbt_amount :: "uint128 option"
  rbt_fee_asset :: string
  rbt_destination_chain_address :: string
  rbt_bridge_address :: "raw_address option"
  rbt_rollup_block_number :: u64
  rbt_rollup_withdrawal_event_id :: string

definition bridge_transfer_to_raw :: "codec \<Rightarrow> bridge_transfer \<Rightarrow> raw_bridge_transfer" where
  "bridge_transfer_to_raw C a =
     \<lparr>rbt_to = Some (address_to_raw C (bt_to a)), rbt_amount = Some (uint128_from_u128 (bt_amount a)),
      rbt_fee_asset = denom_display (bt_fee_asset a),
      rbt_destination_chain_address = bt_destination_chain_address a,
      rbt_bridge_address = Some (address_to_raw C (bt_bridge_address a)),
      rbt_rollup_block_number = bt_rollup_block_number a,
      rbt_rollup_withdrawal_event_id = bt_rollup_withdrawal_event_id a\<rparr>"

definition bridge_transfer_try_from_raw :: "codec \<Rightarrow> raw_bridge_transfer \<Rightarrow> wire_error + bridge_transfer" where
  "bridge_transfer_try_from_raw C r =
     try_bind (ok_or (rbt_to r) (FieldNotSet ''to'')) (\<lambda>rto.
     try_bind (address_field C ''to'' rto) (\<lambda>dest.
     try_bind (ok_or (rbt_amount r) (FieldNotSet ''amount'')) (\<lambda>amount.
     try_bind (denom_field C ''fee_asset'' (rbt_fee_asset r)) (\<lambda>fee_asset.
     if rbt_destination_chain_address r = [] then Inl (FieldNotSet ''destination_chain_address'') else
     try_bind (ok_or (rbt_bridge_address r) (FieldNotSet ''bridge_address'')) (\<lambda>rb.
     try_bind (address_field C ''bridge_address'' rb) (\<lambda>bridge_address.
     Inr \<lparr>bt_to = dest, bt_amount = u128_from_uint128 amount, bt_fee_asset = fee_asset,
          bt_destination_chain_address = rbt_destination_chain_address r,
          bt_bridge_address = bridge_address,
          bt_rollup_block_number = rbt_rollup_block_number r,
          bt_rollup_withdrawal_event_id = rbt_rollup_withdrawal_event_id r\<rparr>))))))"

section \<open>Fee changes\<close>

text \<open>
  The messages \<open>TransferFeeComponents\<close>, \<open>BridgeLockFeeComponents\<close>, \dots{} have the same two fields, and the conversions
  come from one macro. A value of the enum is a tag with such a message.
\<close>

record raw_fee_components =
  rfc_base :: "uint128 option"
  rfc_multiplier :: "uint128 option"

definition fee_components_to_raw :: "fee_components \<Rightarrow> raw_fee_components" where
  "fee_components_to_raw c = \<lparr>rfc_base = Some (uint128_from_u128 (fc_base c)),
     rfc_multiplier = Some (uint128_from_u128 (fc_multiplier c))\<rparr>"

definition fee_components_try_from_raw :: "action_type \<Rightarrow> raw_fee_components \<Rightarrow> wire_error + fee_components" where
  "fee_components_try_from_raw ty r =
     try_bind (ok_or (rfc_base r) (FeeComponentMissing ty ''base'')) (\<lambda>base.
     try_bind (ok_or (rfc_multiplier r) (FeeComponentMissing ty ''multiplier'')) (\<lambda>multiplier.
     Inr \<lparr>fc_base = u128_from_uint128 base, fc_multiplier = u128_from_uint128 multiplier\<rparr>))"

record raw_fee_change =
  rfch_fee_components :: "(action_type \<times> raw_fee_components) option"

definition fee_change_to_raw :: "fee_change \<Rightarrow> raw_fee_change" where
  "fee_change_to_raw a = \<lparr>rfch_fee_components = Some (fch_type a, fee_components_to_raw (fch_fees a))\<rparr>"

definition fee_change_try_from_raw :: "raw_fee_change \<Rightarrow> wire_error + fee_change" where
  "fee_change_try_from_raw r =
     (case rfch_fee_components r of
        Some (ty, fees) \<Rightarrow>
          try_bind (fee_components_try_from_raw ty fees) (\<lambda>fees'. Inr \<lparr>fch_type = ty, fch_fees = fees'\<rparr>)
      | None \<Rightarrow> Inl (FieldNotSet ''fee_components''))"

section \<open>Recovery of IBC clients, currency pairs and markets\<close>

record raw_recover_ibc_client =
  rric_client_id :: string
  rric_replacement_client_id :: string

definition recover_ibc_client_to_raw :: "recover_ibc_client \<Rightarrow> raw_recover_ibc_client" where
  "recover_ibc_client_to_raw a =
     \<lparr>rric_client_id = ric_client_id a, rric_replacement_client_id = ric_replacement_client_id a\<rparr>"

definition recover_ibc_client_try_from_raw ::
  "codec \<Rightarrow> raw_recover_ibc_client \<Rightarrow> wire_error + recover_ibc_client" where
  "recover_ibc_client_try_from_raw C r =
     try_bind (map_err (\<lambda>_. InvalidSubjectClientId) (client_id_parse C (rric_client_id r))) (\<lambda>client_id.
     try_bind (map_err (\<lambda>_. InvalidSubstituteClientId)
         (client_id_parse C (rric_replacement_client_id r))) (\<lambda>replacement.
     Inr \<lparr>ric_client_id = client_id, ric_replacement_client_id = replacement\<rparr>))"

datatype raw_currency_pairs_change_value =
  RawCpAddition "raw_currency_pair list" | RawCpRemoval "raw_currency_pair list"

record raw_currency_pairs_change =
  rcpc_value :: "raw_currency_pairs_change_value option"

fun currency_pairs_change_to_raw :: "currency_pairs_change \<Rightarrow> raw_currency_pairs_change" where
  "currency_pairs_change_to_raw (CpAddition ps) =
     \<lparr>rcpc_value = Some (RawCpAddition (map currency_pair_to_raw ps))\<rparr>"
| "currency_pairs_change_to_raw (CpRemoval ps) =
     \<lparr>rcpc_value = Some (RawCpRemoval (map currency_pair_to_raw ps))\<rparr>"

definition currency_pairs_change_try_from_raw ::
  "raw_currency_pairs_change \<Rightarrow> wire_error + currency_pairs_change" where
  "currency_pairs_change_try_from_raw r =
     (case rcpc_value r of
        Some (RawCpAddition ps) \<Rightarrow>
          try_bind (map_err InvalidPair (try_map currency_pair_try_from_raw ps)) (\<lambda>qs. Inr (CpAddition qs))
      | Some (RawCpRemoval ps) \<Rightarrow>
          try_bind (map_err InvalidPair (try_map currency_pair_try_from_raw ps)) (\<lambda>qs. Inr (CpRemoval qs))
      | None \<Rightarrow> Inl CurrencyPairsUnset)"

datatype raw_markets_change_action =
  RawMkCreation "raw_market list" | RawMkRemoval "raw_market list" | RawMkUpdate "raw_market list"

record raw_markets_change =
  rmc_action :: "raw_markets_change_action option"

fun markets_change_to_raw :: "markets_change \<Rightarrow> raw_markets_change" where
  "markets_change_to_raw (MkCreation ms) = \<lparr>rmc_action = Some (RawMkCreation (map market_to_raw ms))\<rparr>"
| "markets_change_to_raw (MkRemoval ms) = \<lparr>rmc_action = Some (RawMkRemoval (map market_to_raw ms))\<rparr>"
| "markets_change_to_raw (MkUpdate ms) = \<lparr>rmc_action = Some (RawMkUpdate (map market_to_raw ms))\<rparr>"

definition markets_change_try_from_raw :: "raw_markets_change \<Rightarrow> wire_error + markets_change" where
  "markets_change_try_from_raw r =
     (case rmc_action r of
        Some (RawMkCreation ms) \<Rightarrow>
          try_bind (map_err InvalidMarket (try_map market_try_from_raw ms)) (\<lambda>ns. Inr (MkCreation ns))
      | Some (RawMkRemoval ms) \<Rightarrow>
          try_bind (map_err InvalidMarket (try_map market_try_from_raw ms)) (\<lambda>ns. Inr (MkRemoval ns))
      | Some (RawMkUpdate ms) \<Rightarrow>
          try_bind (map_err InvalidMarket (try_map market_try_from_raw ms)) (\<lambda>ns. Inr (MkUpdate ns))
      | None \<Rightarrow> Inl MissingMarkets)"

section \<open>Actions\<close>

text \<open>The relayed IBC message is Penumbra's own; its encoding is a byte string.\<close>

datatype raw_action_value =
    RawRollupDataSubmission raw_rollup_data_submission
  | RawTransfer raw_transfer
  | RawValidatorUpdate raw_validator_update
  | RawSudoAddressChange raw_sudo_address_change
  | RawIbc bytes
  | RawIbcSudoChange raw_ibc_sudo_change
  | RawIcs20Withdrawal raw_ics20_withdrawal
  | RawIbcRelayerChange raw_ibc_relayer_change
  | RawFeeAssetChange raw_fee_asset_change
  | RawInitBridgeAccount raw_init_bridge_account
  | RawBridgeLock raw_bridge_lock
  | RawBridgeUnlock raw_bridge_unlock
  | RawBridgeSudoChange raw_bridge_sudo_change
  | RawBridgeTransfer raw_bridge_transfer
  | RawFeeChange raw_fee_change
  | RawRecoverIbcClient raw_recover_ibc_client
  | RawCurrencyPairsChange raw_currency_pairs_change
  | RawMarketsChange raw_markets_change

record raw_action =
  ract_value :: "raw_action_value option"

fun action_value_to_raw :: "codec \<Rightarrow> action \<Rightarrow> raw_action_value" where
  "action_value_to_raw C (RollupDataSubmission a) = RawRollupDataSubmission (rollup_data_submission_to_raw a)"
| "action_value_to_raw C (Transfer a) = RawTransfer (transfer_to_raw C a)"
| "action_value_to_raw C (ValidatorUpdate a) = RawValidatorUpdate (validator_update_to_raw a)"
| "action_value_to_raw C (SudoAddressChange a) = RawSudoAddressChange (sudo_address_change_to_raw C a)"
| "action_value_to_raw C (Ibc a) = RawIbc (ibc_relay_to_raw C a)"
| "action_value_to_raw C (IbcSudoChange a) = RawIbcSudoChange (ibc_sudo_change_to_raw C a)"
| "action_value_to_raw C (Ics20Withdrawal a) = RawIcs20Withdrawal (ics20_withdrawal_to_raw C a)"
| "action_value_to_raw C (IbcRelayerChange a) = RawIbcRelayerChange (ibc_relayer_change_to_raw C a)"
| "action_value_to_raw C (FeeAssetChange a) = RawFeeAssetChange (fee_asset_change_to_raw a)"
| "action_value_to_raw C (InitBridgeAccount a) = RawInitBridgeAccount (init_bridge_account_to_raw C a)"
| "action_value_to_raw C (BridgeLock a) = RawBridgeLock (bridge_lock_to_raw C a)"
| "action_value_to_raw C (BridgeUnlock a) = RawBridgeUnlock (bridge_unlock_to_raw C a)"
| "action_value_to_raw C (BridgeSudoChange a) = RawBridgeSudoChange (bridge_sudo_change_to_raw C a)"
| "action_value_to_raw C (BridgeTransfer a) = RawBridgeTransfer (bridge_transfer_to_raw C a)"
| "action_value_to_raw C (FeeChange a) = RawFeeChange (fee_change_to_raw a)"
| "action_value_to_raw C (RecoverIbcClient a) = RawRecoverIbcClient (recover_ibc_client_to_raw a)"
| "action_value_to_raw C (CurrencyPairsChange a) = RawCurrencyPairsChange (currency_pairs_change_to_raw a)"
| "action_value_to_raw C (MarketsChange a) = RawMarketsChange (markets_change_to_raw a)"

definition action_to_raw :: "codec \<Rightarrow> action \<Rightarrow> raw_action" where
  "action_to_raw C a = \<lparr>ract_value = Some (action_value_to_raw C a)\<rparr>"

text \<open>Reading one variant: the error is tagged with the type of the action.\<close>

abbreviation read_as :: "action_type \<Rightarrow> ('a \<Rightarrow> action) \<Rightarrow> wire_error + 'a \<Rightarrow> action_error + action" where
  "read_as ty con r \<equiv> try_bind (map_err (InAction ty) r) (\<lambda>a. Inr (con a))"

fun action_value_try_from_raw :: "codec \<Rightarrow> raw_action_value \<Rightarrow> action_error + action" where
  "action_value_try_from_raw C (RawRollupDataSubmission r) =
     read_as TyRollupDataSubmission RollupDataSubmission (rollup_data_submission_try_from_raw C r)"
| "action_value_try_from_raw C (RawTransfer r) = read_as TyTransfer Transfer (transfer_try_from_raw C r)"
| "action_value_try_from_raw C (RawValidatorUpdate r) =
     read_as TyValidatorUpdate ValidatorUpdate (validator_update_try_from_raw C r)"
| "action_value_try_from_raw C (RawSudoAddressChange r) =
     read_as TySudoAddressChange SudoAddressChange (sudo_address_change_try_from_raw C r)"
| "action_value_try_from_raw C (RawIbc r) =
     read_as TyIbcRelay Ibc (map_err IbcError (ibc_relay_try_from C r))"
| "action_value_try_from_raw C (RawIbcSudoChange r) =
     read_as TyIbcSudoChange IbcSudoChange (ibc_sudo_change_try_from_raw C r)"
| "action_value_try_from_raw C (RawIcs20Withdrawal r) =
     read_as TyIcs20Withdrawal Ics20Withdrawal (ics20_withdrawal_try_from_raw C r)"
| "action_value_try_from_raw C (RawIbcRelayerChange r) =
     read_as TyIbcRelayerChange IbcRelayerChange (ibc_relayer_change_try_from_raw C r)"
| "action_value_try_from_raw C (RawFeeAssetChange r) =
     read_as TyFeeAssetChange FeeAssetChange (fee_asset_change_try_from_raw C r)"
| "action_value_try_from_raw C (RawInitBridgeAccount r) =
     read_as TyInitBridgeAccount InitBridgeAccount (init_bridge_account_try_from_raw C r)"
| "action_value_try_from_raw C (RawBridgeLock r) =
     read_as TyBridgeLock BridgeLock (bridge_lock_try_from_raw C r)"
| "action_value_try_from_raw C (RawBridgeUnlock r) =
     read_as TyBridgeUnlock BridgeUnlock (bridge_unlock_try_from_raw C r)"
| "action_value_try_from_raw C (RawBridgeSudoChange r) =
     read_as TyBridgeSudoChange BridgeSudoChange (bridge_sudo_change_try_from_raw C r)"
| "action_value_try_from_raw C (RawBridgeTransfer r) =
     read_as TyBridgeTransfer BridgeTransfer (bridge_transfer_try_from_raw C r)"
| "action_value_try_from_raw C (RawFeeChange r) = read_as TyFeeChange FeeChange (fee_change_try_from_raw r)"
| "action_value_try_from_raw C (RawRecoverIbcClient r) =
     read_as TyRecoverIbcClient RecoverIbcClient (recover_ibc_client_try_from_raw C r)"
| "action_value_try_from_raw C (RawCurrencyPairsChange r) =
     read_as TyCurrencyPairsChange CurrencyPairsChange (currency_pairs_change_try_from_raw r)"
| "action_value_try_from_raw C (RawMarketsChange r) =
     read_as TyMarketsChange MarketsChange (markets_change_try_from_raw r)"

definition action_try_from_raw :: "codec \<Rightarrow> raw_action \<Rightarrow> action_error + action" where
  "action_try_from_raw C r = try_bind (ok_or (ract_value r) ActionUnset) (action_value_try_from_raw C)"

end
