(* ===== verification/Action_Roundtrip.thy ===== *)
theory Action_Roundtrip
  imports Action_Raw
begin

text \<open>
  Reading actions from the wire: what is read is well-formed, and what is written is read back.
\<close>

section \<open>Well-formed actions\<close>

fun action_addresses :: "action \<Rightarrow> address list" where
  "action_addresses (Transfer a) = [tr_to a]"
| "action_addresses (SudoAddressChange a) = [sac_new_address a]"
| "action_addresses (IbcSudoChange a) = [isc_new_address a]"
| "action_addresses (Ics20Withdrawal a) = iw_return_address a # case_option [] (\<lambda>b. [b]) (iw_bridge_address a)"
| "action_addresses (IbcRelayerChange (RelayerAddition a)) = [a]"
| "action_addresses (IbcRelayerChange (RelayerRemoval a)) = [a]"
| "action_addresses (InitBridgeAccount a) =
     case_option [] (\<lambda>b. [b]) (iba_sudo_address a) @ case_option [] (\<lambda>b. [b]) (iba_withdrawer_address a)"
| "action_addresses (BridgeLock a) = [bl_to a]"
| "action_addresses (BridgeUnlock a) = [bu_to a, bu_bridge_address a]"
| "action_addresses (BridgeSudoChange a) = bsc_bridge_address a #
     case_option [] (\<lambda>b. [b]) (bsc_new_sudo_address a) @ case_option [] (\<lambda>b. [b]) (bsc_new_withdrawer_address a)"
| "action_addresses (BridgeTransfer a) = [bt_to a, bt_bridge_address a]"
| "action_addresses _ = []"

fun action_denoms :: "action \<Rightarrow> denom list" where
  "action_denoms (RollupDataSubmission a) = [rds_fee_asset a]"
| "action_denoms (Transfer a) = [tr_asset a, tr_fee_asset a]"
| "action_denoms (Ics20Withdrawal a) = [iw_denom a, iw_fee_asset a]"
| "action_denoms (FeeAssetChange (FeeAssetAddition d)) = [d]"
| "action_denoms (FeeAssetChange (FeeAssetRemoval d)) = [d]"
| "action_denoms (InitBridgeAccount a) = [iba_asset a, iba_fee_asset a]"
| "action_denoms (BridgeLock a) = [bl_asset a, bl_fee_asset a]"
| "action_denoms (BridgeUnlock a) = [bu_fee_asset a]"
| "action_denoms (BridgeSudoChange a) = [bsc_fee_asset a]"
| "action_denoms (BridgeTransfer a) = [bt_fee_asset a]"
| "action_denoms _ = []"

text \<open>The other fields that the wire format restricts.\<close>

fun wf_fields :: "codec \<Rightarrow> action \<Rightarrow> bool" where
  "wf_fields C (RollupDataSubmission a) = wf_rollup_id (rds_rollup_id a)"
| "wf_fields C (ValidatorUpdate a) = (length (vu_name a) \<le> MAX_VALIDATOR_NAME_LENGTH \<and>
     vk_try_from C (vk_bytes (vu_verification_key a)) = Inr (vu_verification_key a))"
| "wf_fields C (Ibc a) = (ibc_relay_try_from C (ibc_relay_to_raw C a) = Inr a)"
| "wf_fields C (Ics20Withdrawal a) = (channel_id_parse C (iw_source_channel a) = Inr (iw_source_channel a))"
| "wf_fields C (InitBridgeAccount a) = wf_rollup_id (iba_rollup_id a)"
| "wf_fields C (BridgeTransfer a) = (bt_destination_chain_address a \<noteq> [])"
| "wf_fields C (RecoverIbcClient a) = (client_id_parse C (ric_client_id a) = Inr (ric_client_id a) \<and>
     client_id_parse C (ric_replacement_client_id a) = Inr (ric_replacement_client_id a))"
| "wf_fields C (CurrencyPairsChange (CpAddition ps)) = list_all wf_currency_pair ps"
| "wf_fields C (CurrencyPairsChange (CpRemoval ps)) = list_all wf_currency_pair ps"
| "wf_fields C (MarketsChange (MkCreation ms)) = list_all wf_market ms"
| "wf_fields C (MarketsChange (MkRemoval ms)) = list_all wf_market ms"
| "wf_fields C (MarketsChange (MkUpdate ms)) = list_all wf_market ms"
| "wf_fields C _ = True"

definition wf_action :: "codec \<Rightarrow> action \<Rightarrow> bool" where
  "wf_action C a \<longleftrightarrow> list_all (wf_address C) (action_addresses a) \<and>
     list_all wf_denom (action_denoms a) \<and> wf_fields C a"

section \<open>Reading what was written\<close>

lemma opt_address_roundtrip [wire_rt]:
  "codec_ok C \<Longrightarrow> list_all (wf_address C) (case_option [] (\<lambda>b. [b]) v) \<Longrightarrow>
    list_all lower_address (case_option [] (\<lambda>b. [b]) v) \<Longrightarrow>
    try_opt (address_try_from_raw C) (map_option (address_to_raw C) v) = Inr v"
  by (cases v) (simp_all add: address_roundtrip try_opt_def)

lemma power_roundtrip:
  "0 \<le> sint (ucast (p :: u32) :: u64)" "sint (ucast p :: u64) < 2 ^ 32" "ucast (ucast p :: u64) = p"
proof -
  have p: "uint p < 2 ^ 32" using uint_bounded [of p] by simp
  have u: "uint (ucast p :: u64) = uint p"
    unfolding unsigned_ucast_eq using p by (simp add: take_bit_int_eq_self)
  have "sint (ucast p :: u64) = signed_take_bit 63 (uint (ucast p :: u64))" by (simp add: sint_uint)
  also have "\<dots> = uint p" unfolding u
  proof (rule signed_take_bit_int_eq_self)
    show "- (2 ^ 63) \<le> uint p" by (rule order_trans [of _ 0]) simp_all
  qed (use p in simp)
  finally have s: "sint (ucast p :: u64) = uint p" .
  show "0 \<le> sint (ucast p :: u64)" "sint (ucast p :: u64) < 2 ^ 32" using s p by simp_all
  have "uint (ucast (ucast p :: u64) :: u32) = uint p"
    unfolding unsigned_ucast_eq [of "ucast p"] u using p by (simp add: take_bit_int_eq_self)
  then show "ucast (ucast p :: u64) = p" by (simp only: word_uint_eq_iff)
qed

lemmas raw_defs =
  rollup_data_submission_to_raw_def rollup_data_submission_try_from_raw_def
  transfer_to_raw_def transfer_try_from_raw_def
  validator_update_to_raw_def validator_update_try_from_raw_def validator_name_from_str_def
  sudo_address_change_to_raw_def sudo_address_change_try_from_raw_def
  ibc_sudo_change_to_raw_def ibc_sudo_change_try_from_raw_def
  ics20_withdrawal_to_raw_def ics20_withdrawal_try_from_raw_def ibc_height_to_raw_def ibc_height_from_raw_def
  ibc_relayer_change_try_from_raw_def fee_asset_change_try_from_raw_def
  init_bridge_account_to_raw_def init_bridge_account_try_from_raw_def
  bridge_lock_to_raw_def bridge_lock_try_from_raw_def
  bridge_unlock_to_raw_def bridge_unlock_try_from_raw_def
  bridge_sudo_change_to_raw_def bridge_sudo_change_try_from_raw_def
  bridge_transfer_to_raw_def bridge_transfer_try_from_raw_def
  fee_components_to_raw_def fee_components_try_from_raw_def fee_change_to_raw_def fee_change_try_from_raw_def
  recover_ibc_client_to_raw_def recover_ibc_client_try_from_raw_def
  currency_pairs_change_try_from_raw_def markets_change_try_from_raw_def

lemma action_value_roundtrip:
  assumes "codec_ok C" "wf_action C a" "list_all lower_address (action_addresses a)"
  shows "action_value_try_from_raw C (action_value_to_raw C a) = Inr a"
proof (cases a)
  case (ValidatorUpdate u)
  then show ?thesis using assms(2) power_roundtrip [of "vu_power u"]
    by (simp add: wf_action_def raw_defs)
next
  case (IbcRelayerChange c)
  then show ?thesis using assms by (cases c) (simp_all add: wf_action_def raw_defs wire_rt)
next
  case (FeeAssetChange c)
  then show ?thesis using assms by (cases c) (simp_all add: wf_action_def raw_defs wire_rt)
next
  case (CurrencyPairsChange c)
  then show ?thesis using assms by (cases c) (simp_all add: wf_action_def raw_defs pair_wire.list_roundtrip)
next
  case (MarketsChange c)
  then show ?thesis using assms by (cases c) (simp_all add: wf_action_def raw_defs market_wire.list_roundtrip)
qed (use assms in \<open>simp_all add: wf_action_def raw_defs wire_rt del: try_opt_Inr_iff\<close>)

section \<open>What is read is well-formed\<close>

lemma opt_address_wf [wire_wf]:
  "codec_ok C \<Longrightarrow> try_opt (address_try_from_raw C) r = Inr v \<Longrightarrow>
    list_all (wf_address C) (case_option [] (\<lambda>b. [b]) v)"
  by (cases r) (auto dest: address_wf)

lemma codec_ids:
  assumes "codec_ok C"
  shows "channel_id_parse C x = Inr y \<Longrightarrow> channel_id_parse C y = Inr y"
    and "client_id_parse C x = Inr y \<Longrightarrow> client_id_parse C y = Inr y"
    and "vk_try_from C b = Inr k \<Longrightarrow> vk_try_from C (vk_bytes k) = Inr k"
    and "ibc_relay_try_from C b = Inr r \<Longrightarrow> ibc_relay_try_from C (ibc_relay_to_raw C r) = Inr r"
  using assms unfolding codec_ok_def vk_try_from_def by (auto; metis)+

lemma action_value_wf:
  assumes "codec_ok C" "action_value_try_from_raw C r = Inr a"
  shows "wf_action C a"
proof (cases r)
  case (RawValidatorUpdate u)
  then show ?thesis using assms
    by (auto simp: wf_action_def raw_defs codec_ids split: if_splits option.splits public_key_sum.splits)
next
  case (RawIbcRelayerChange c)
  then show ?thesis using assms
    by (auto simp: wf_action_def raw_defs wire_wf split: option.splits raw_ibc_relayer_change_value.splits)
next
  case (RawFeeAssetChange c)
  then show ?thesis using assms
    by (auto simp: wf_action_def raw_defs wire_wf split: option.splits raw_fee_asset_change_value.splits)
next
  case (RawCurrencyPairsChange c)
  then show ?thesis using assms
    by (auto simp: wf_action_def raw_defs pair_wire.list_sound
        split: option.splits raw_currency_pairs_change_value.splits)
next
  case (RawMarketsChange c)
  then show ?thesis using assms
    by (auto simp: wf_action_def raw_defs market_wire.list_sound
        split: option.splits raw_markets_change_action.splits)
next
  case (RawFeeChange c)
  then show ?thesis using assms by (auto simp: wf_action_def)
next
  case (RawBridgeTransfer c)
  then show ?thesis using assms by (auto simp: wf_action_def raw_defs wire_wf split: if_splits)
qed (use assms in \<open>auto simp: wf_action_def raw_defs wire_wf codec_ids simp del: try_opt_Inr_iff\<close>)

end
