(* ===== verification/Signed_Tx.thy ===== *)
theory Signed_Tx
  imports Action_Roundtrip
begin

text \<open>
  Signed transactions and their wire format (\<^verbatim>\<open>crates/astria-core/src/protocol/transaction/v1/mod.rs\<close>):
  building and signing a body, and reading a transaction from its message.

  The protobuf encoder and decoder are generated code and, like the ed25519 signature scheme, fields of
  \<open>tx_codec\<close>; what is relied on is \<open>tx_codec_ok\<close>.
\<close>

section \<open>Transactions\<close>

record transaction_params =
  params_nonce :: u32
  params_chain_id :: string

record transaction_body =
  body_actions :: actions
  body_params :: transaction_params

text \<open>\<open>body_bytes\<close> are the bytes the signature is for: the body is never encoded again.\<close>

record signed_transaction =
  stx_signature :: bytes
  stx_verification_key :: verification_key
  stx_body :: transaction_body
  stx_body_bytes :: bytes

record raw_transaction_params =
  rtp_nonce :: u32
  rtp_chain_id :: string

record raw_transaction_body =
  rtb_params :: "raw_transaction_params option"
  rtb_actions :: "raw_action list"

record any_message =
  any_type_url :: string
  any_value :: bytes

record raw_transaction =
  rtx_signature :: bytes
  rtx_public_key :: bytes
  rtx_body :: "any_message option"

record tx_codec =
  field_codec :: codec
  signature_try_from :: "bytes \<Rightarrow> string + bytes"
  ed25519_verify :: "bytes \<Rightarrow> bytes \<Rightarrow> bytes \<Rightarrow> bool"
  ed25519_sign :: "bytes \<Rightarrow> bytes \<Rightarrow> bytes"
  ed25519_public_key :: "bytes \<Rightarrow> bytes"
  encode_body :: "raw_transaction_body \<Rightarrow> bytes"
  decode_body :: "bytes \<Rightarrow> string + raw_transaction_body"
  encode_transaction :: "raw_transaction \<Rightarrow> bytes"

text \<open>
  A parsed signature is the given one. A signature made with a key is valid for the public key of that key, and
  signatures and public keys that the scheme produces can be parsed.
\<close>

definition tx_codec_ok :: "tx_codec \<Rightarrow> bool" where
  "tx_codec_ok X \<longleftrightarrow> codec_ok (field_codec X) \<and>
     (\<forall>b g. signature_try_from X b = Inr g \<longrightarrow> g = b) \<and>
     (\<forall>k m. signature_try_from X (ed25519_sign X k m) = Inr (ed25519_sign X k m)) \<and>
     (\<forall>k m. ed25519_verify X (ed25519_public_key X k) (ed25519_sign X k m) m) \<and>
     (\<forall>k. ed25519_key_try_from (field_codec X) (ed25519_public_key X k) = Inr (ed25519_public_key X k))"

text \<open>The decoder reads what the encoder wrote for this body.\<close>

definition encodes_body :: "tx_codec \<Rightarrow> raw_transaction_body \<Rightarrow> bool" where
  "encodes_body X r \<longleftrightarrow> decode_body X (encode_body X r) = Inr r"

datatype transaction_body_error =
    BodyAction action_error
  | UnsetParams
  | InvalidTypeUrl string
  | DecodeAny string
  | BodyGroup group_error

datatype transaction_error =
    UnsetBody
  | SignatureError string
  | TransactionBodyError transaction_body_error
  | PublicKeyError string
  | VerificationError

section \<open>The body\<close>

definition transaction_params_to_raw :: "transaction_params \<Rightarrow> raw_transaction_params" where
  "transaction_params_to_raw p = \<lparr>rtp_nonce = params_nonce p, rtp_chain_id = params_chain_id p\<rparr>"

definition transaction_params_from_raw :: "raw_transaction_params \<Rightarrow> transaction_params" where
  "transaction_params_from_raw r = \<lparr>params_nonce = rtp_nonce r, params_chain_id = rtp_chain_id r\<rparr>"

definition transaction_body_try_build :: "u32 \<Rightarrow> string \<Rightarrow> action list \<Rightarrow> group_error + transaction_body" where
  "transaction_body_try_build nonce chain_id acts =
     try_bind (try_from_list_of_actions acts) (\<lambda>actions'.
     Inr \<lparr>body_actions = actions', body_params = \<lparr>params_nonce = nonce, params_chain_id = chain_id\<rparr>\<rparr>)"

definition transaction_body_to_raw :: "codec \<Rightarrow> transaction_body \<Rightarrow> raw_transaction_body" where
  "transaction_body_to_raw C b =
     \<lparr>rtb_params = Some (transaction_params_to_raw (body_params b)),
      rtb_actions = map (action_to_raw C) (acts_inner (body_actions b))\<rparr>"

definition transaction_body_try_from_raw ::
  "codec \<Rightarrow> raw_transaction_body \<Rightarrow> transaction_body_error + transaction_body" where
  "transaction_body_try_from_raw C r =
     try_bind (ok_or (rtb_params r) UnsetParams) (\<lambda>rp.
     let p = transaction_params_from_raw rp in
     try_bind (map_err BodyAction (try_map (action_try_from_raw C) (rtb_actions r))) (\<lambda>acts.
     map_err BodyGroup (transaction_body_try_build (params_nonce p) (params_chain_id p) acts)))"

definition body_type_url :: string where
  "body_type_url = ''/astria.protocol.transaction.v1.TransactionBody''"

definition transaction_body_to_any :: "tx_codec \<Rightarrow> transaction_body \<Rightarrow> any_message" where
  "transaction_body_to_any X b =
     \<lparr>any_type_url = body_type_url, any_value = encode_body X (transaction_body_to_raw (field_codec X) b)\<rparr>"

definition transaction_body_try_from_any ::
  "tx_codec \<Rightarrow> any_message \<Rightarrow> transaction_body_error + transaction_body" where
  "transaction_body_try_from_any X any =
     (if any_type_url any \<noteq> body_type_url then Inl (InvalidTypeUrl (any_type_url any)) else
      try_bind (map_err DecodeAny (decode_body X (any_value any)))
        (transaction_body_try_from_raw (field_codec X)))"

definition sign_body :: "tx_codec \<Rightarrow> transaction_body \<Rightarrow> bytes \<Rightarrow> signed_transaction" where
  "sign_body X b signing_key =
     (let bytes = encode_body X (transaction_body_to_raw (field_codec X) b) in
      \<lparr>stx_signature = ed25519_sign X signing_key bytes,
       stx_verification_key = \<lparr>vk_bytes = ed25519_public_key X signing_key\<rparr>,
       stx_body = b, stx_body_bytes = bytes\<rparr>)"

section \<open>The signed transaction\<close>

definition transaction_to_raw :: "signed_transaction \<Rightarrow> raw_transaction" where
  "transaction_to_raw t =
     \<lparr>rtx_signature = stx_signature t, rtx_public_key = vk_bytes (stx_verification_key t),
      rtx_body = Some \<lparr>any_type_url = body_type_url, any_value = stx_body_bytes t\<rparr>\<rparr>"

definition transaction_try_from_raw :: "tx_codec \<Rightarrow> raw_transaction \<Rightarrow> transaction_error + signed_transaction" where
  "transaction_try_from_raw X r =
     try_bind (map_err SignatureError (signature_try_from X (rtx_signature r))) (\<lambda>signature.
     try_bind (map_err PublicKeyError (vk_try_from (field_codec X) (rtx_public_key r))) (\<lambda>verification_key.
     try_bind (ok_or (rtx_body r) UnsetBody) (\<lambda>body.
     try_bind (if ed25519_verify X (vk_bytes verification_key) signature (any_value body) then Inr ()
               else Inl VerificationError) (\<lambda>_.
     try_bind (map_err TransactionBodyError (transaction_body_try_from_any X body)) (\<lambda>transaction.
     Inr \<lparr>stx_signature = signature, stx_verification_key = verification_key, stx_body = transaction,
          stx_body_bytes = any_value body\<rparr>)))))"

definition transaction_id_of :: "hash_fun \<Rightarrow> tx_codec \<Rightarrow> signed_transaction \<Rightarrow> transaction_id" where
  "transaction_id_of H X t = H (encode_transaction X (transaction_to_raw t))"

text \<open>The transaction as the handlers see it.\<close>

definition decoded_transaction :: "hash_fun \<Rightarrow> tx_codec \<Rightarrow> signed_transaction \<Rightarrow> transaction" where
  "decoded_transaction H X t =
     \<lparr>tx_verification_key = stx_verification_key t, tx_actions = body_actions (stx_body t),
      tx_chain_id = params_chain_id (body_params (stx_body t)), tx_nonce = params_nonce (body_params (stx_body t)),
      tx_id = transaction_id_of H X t\<rparr>"

section \<open>Reading and writing\<close>

lemma try_map_Inr_all:
  "try_map f rs = Inr xs \<Longrightarrow> (\<And>r x. f r = Inr x \<Longrightarrow> P x) \<Longrightarrow> list_all P xs"
  by (induction rs arbitrary: xs) auto

lemma try_map_roundtrip: "list_all (\<lambda>x. f (g x) = Inr x) xs \<Longrightarrow> try_map f (map g xs) = Inr xs"
  by (induction xs) simp_all

lemma action_read_wf: "codec_ok C \<Longrightarrow> action_try_from_raw C r = Inr a \<Longrightarrow> wf_action C a"
  by (auto simp: action_try_from_raw_def intro: action_value_wf)

lemma action_write_read:
  "codec_ok C \<Longrightarrow> wf_action C a \<Longrightarrow> list_all lower_address (action_addresses a) \<Longrightarrow>
    action_try_from_raw C (action_to_raw C a) = Inr a"
  by (simp add: action_try_from_raw_def action_to_raw_def action_value_roundtrip)

text \<open>A body that the builder made, of well-formed actions.\<close>

definition wf_body :: "codec \<Rightarrow> transaction_body \<Rightarrow> bool" where
  "wf_body C b \<longleftrightarrow> try_from_list_of_actions (acts_inner (body_actions b)) = Inr (body_actions b) \<and>
     list_all (wf_action C) (acts_inner (body_actions b))"

lemma built_actions: "try_from_list_of_actions acts = Inr r \<Longrightarrow> acts_inner r = acts"
  by (auto simp: try_from_list_of_actions_def Let_def split: list.splits if_splits sum.splits)

lemma body_read_wf:
  assumes "codec_ok C" "transaction_body_try_from_raw C r = Inr b" shows "wf_body C b"
proof -
  from assms(2) obtain acts where read: "try_map (action_try_from_raw C) (rtb_actions r) = Inr acts"
    and built: "try_from_list_of_actions acts = Inr (body_actions b)"
    by (auto simp: transaction_body_try_from_raw_def transaction_body_try_build_def Let_def)
  have "list_all (wf_action C) acts" using read by (rule try_map_Inr_all) (rule action_read_wf [OF assms(1)])
  then show ?thesis using built built_actions [OF built] by (simp add: wf_body_def)
qed

lemma body_write_read:
  assumes "codec_ok C" "wf_body C b"
    and "list_all (\<lambda>a. list_all lower_address (action_addresses a)) (acts_inner (body_actions b))"
  shows "transaction_body_try_from_raw C (transaction_body_to_raw C b) = Inr b"
proof -
  have "try_map (action_try_from_raw C) (map (action_to_raw C) (acts_inner (body_actions b))) =
      Inr (acts_inner (body_actions b))"
    using assms by (intro try_map_roundtrip) (auto simp: list_all_iff wf_body_def intro: action_write_read)
  then show ?thesis using assms(2)
    by (simp add: transaction_body_try_from_raw_def transaction_body_to_raw_def wf_body_def
        transaction_params_to_raw_def transaction_params_from_raw_def transaction_body_try_build_def)
qed

lemma vk_try_from_bytes: "codec_ok C \<Longrightarrow> vk_try_from C b = Inr k \<Longrightarrow> vk_bytes k = b"
  unfolding codec_ok_def vk_try_from_def by auto

lemma read_signed:
  assumes "tx_codec_ok X" "encodes_body X (transaction_body_to_raw (field_codec X) b)"
    and "transaction_body_try_from_raw (field_codec X) (transaction_body_to_raw (field_codec X) b) = Inr b"
  shows "transaction_try_from_raw X (transaction_to_raw (sign_body X b k)) = Inr (sign_body X b k)"
  using assms by (simp add: transaction_try_from_raw_def transaction_to_raw_def sign_body_def Let_def
      vk_try_from_def tx_codec_ok_def encodes_body_def transaction_body_try_from_any_def)

section \<open>A codec for the witnesses\<close>

text \<open>
  A codec that satisfies the laws: addresses are written as the prefix, a separator and the bytes as characters,
  and a signature is the key followed by the message.
\<close>

definition unhex_digit :: "char \<Rightarrow> nat option" where
  "unhex_digit c =
     (let n = of_char c :: nat in
      if 48 \<le> n \<and> n < 58 then Some (n - 48) else if 97 \<le> n \<and> n < 103 then Some (n - 87) else None)"

fun unhex :: "string \<Rightarrow> bytes option" where
  "unhex [] = Some []"
| "unhex [c] = None"
| "unhex (c # d # s) =
     (case (unhex_digit c, unhex_digit d, unhex s) of
        (Some m, Some n, Some bs) \<Rightarrow> Some (of_nat (16 * m + n) # bs)
      | _ \<Rightarrow> None)"

definition sample_codec :: codec where
  "sample_codec =
     \<lparr>bech32m_decode = (\<lambda>s. if 21 \<le> length s
        then Inr (take (length s - 21) s, map (\<lambda>c. of_nat (of_char c)) (drop (length s - 20) s))
        else Inl ''too short''),
      bech32m_encode_lower = (\<lambda>p bs. p @ ''1'' @ map (\<lambda>b. char_of (unat b)) bs),
      hrp_parse = (\<lambda>p. if p = [] then Inl ''empty'' else Inr p),
      from_hex = (\<lambda>s. case unhex s of
        Some bs \<Rightarrow> if length bs = 32 then Inr bs else Inl ''length'' | None \<Rightarrow> Inl ''not hex''),
      ed25519_key_try_from = (\<lambda>b. if length b = 32 then Inr b else Inl ''length''),
      channel_id_parse = Inr, client_id_parse = Inr,
      ibc_relay_try_from = (\<lambda>b. Inr \<lparr>raw_action = b\<rparr>), ibc_relay_to_raw = raw_action\<rparr>"

lemma unhex_hex_digit: "n < 16 \<Longrightarrow> unhex_digit (hex_digit n) = Some n"
proof -
  assume "n < 16"
  moreover have "\<forall>n\<in>set [0..<16]. unhex_digit (hex_digit n) = Some n" by code_simp
  ultimately show ?thesis by simp
qed

lemma unhex_hex: "unhex (concat (map hex_byte bs)) = Some bs"
proof (induction bs)
  case (Cons b bs)
  have "unat b < 256" using unat_less_pow [of b] by simp
  then have "unhex_digit (hex_digit (unat b div 16)) = Some (unat b div 16)"
    "unhex_digit (hex_digit (unat b mod 16)) = Some (unat b mod 16)"
    by (simp_all add: unhex_hex_digit)
  moreover have "(of_nat (16 * (unat b div 16) + unat b mod 16) :: u8) = b" by (simp del: of_nat_add of_nat_mult)
  ultimately show ?case using Cons by (simp add: hex_byte_def del: of_nat_add of_nat_mult)
qed simp

lemma byte_mod: "word_of_nat (unat (b :: u8) mod 256) = b"
  using unat_less_pow [of b] by simp

lemma sample_codec_ok: "codec_ok sample_codec"
  unfolding codec_ok_def sample_codec_def
  by (auto simp: unhex_hex comp_def byte_mod split: if_splits option.splits)

definition sample_transfer_action :: action where
  "sample_transfer_action = Transfer \<lparr>tr_to = \<lparr>addr_bytes = replicate 20 7, addr_prefix = ''astria''\<rparr>,
     tr_amount = 2 ^ 100 + 5, tr_asset = TracePrefixed \<lparr>trace = [], base_denom = ''nria''\<rparr>,
     tr_fee_asset = IbcPrefixed \<lparr>ibc_id = replicate 32 9\<rparr>\<rparr>"

definition sample_body :: transaction_body where
  "sample_body = \<lparr>body_actions = \<lparr>acts_group = BundleableGeneral, acts_inner = [sample_transfer_action]\<rparr>,
     body_params = \<lparr>params_nonce = 3, params_chain_id = ''astria-1''\<rparr>\<rparr>"

definition sample_tx_codec :: tx_codec where
  "sample_tx_codec =
     \<lparr>field_codec = sample_codec, signature_try_from = Inr,
      ed25519_verify = (\<lambda>k g m. g = k @ m), ed25519_sign = (\<lambda>k m. take 32 (k @ replicate 32 0) @ m),
      ed25519_public_key = (\<lambda>k. take 32 (k @ replicate 32 0)),
      encode_body = (\<lambda>_. [1, 2, 3]),
      decode_body = (\<lambda>_. Inr (transaction_body_to_raw sample_codec sample_body)),
      encode_transaction = (\<lambda>r. rtx_signature r @ rtx_public_key r)\<rparr>"

lemma sample_tx_codec_ok: "tx_codec_ok sample_tx_codec"
  using sample_codec_ok by (auto simp: tx_codec_ok_def sample_tx_codec_def) (simp add: sample_codec_def)

lemma sample_encodes_body: "encodes_body sample_tx_codec (transaction_body_to_raw sample_codec sample_body)"
  by (simp add: encodes_body_def sample_tx_codec_def)

lemma sample_body_wf: "wf_body sample_codec sample_body"
  by code_simp

lemma sample_lower: "list_all (\<lambda>a. list_all lower_address (action_addresses a)) (acts_inner (body_actions sample_body))"
  by code_simp

lemma sample_read:
  "transaction_try_from_raw sample_tx_codec (transaction_to_raw (sign_body sample_tx_codec sample_body [4])) =
     Inr (sign_body sample_tx_codec sample_body [4])"
  using read_signed [OF sample_tx_codec_ok, of sample_body "[4]"] sample_encodes_body
    body_write_read [OF sample_codec_ok sample_body_wf sample_lower]
  by (simp add: sample_tx_codec_def)

section \<open>Signed transactions on the wire\<close>

text \<open>What was checked of a transaction that could be read.\<close>

lemma transaction_read:
  assumes "tx_codec_ok X" "transaction_try_from_raw X r = Inr t"
  shows "ed25519_verify X (vk_bytes (stx_verification_key t)) (stx_signature t) (stx_body_bytes t)"
    and "transaction_body_try_from_any X \<lparr>any_type_url = body_type_url, any_value = stx_body_bytes t\<rparr> =
      Inr (stx_body t)"
    and "transaction_to_raw t = r"
proof -
  obtain url bs where body: "rtx_body r = Some \<lparr>any_type_url = url, any_value = bs\<rparr>"
    and bytes: "stx_body_bytes t = bs"
    and read: "transaction_body_try_from_any X \<lparr>any_type_url = url, any_value = bs\<rparr> = Inr (stx_body t)"
    and verified: "ed25519_verify X (vk_bytes (stx_verification_key t)) (stx_signature t) bs"
    and parsed: "signature_try_from X (rtx_signature r) = Inr (stx_signature t)"
      "vk_try_from (field_codec X) (rtx_public_key r) = Inr (stx_verification_key t)"
    using assms(2) by (auto simp: transaction_try_from_raw_def split: if_splits)
      (metis any_message.surjective old.unit.exhaust)
  from read have url: "url = body_type_url"
    by (auto simp: transaction_body_try_from_any_def split: if_splits)
  moreover have "stx_signature t = rtx_signature r" using parsed(1) assms(1) by (auto simp: tx_codec_ok_def)
  moreover have "vk_bytes (stx_verification_key t) = rtx_public_key r"
    using parsed(2) assms(1) vk_try_from_bytes by (auto simp: tx_codec_ok_def)
  ultimately show "transaction_to_raw t = r" using body bytes by (simp add: transaction_to_raw_def)
  show "ed25519_verify X (vk_bytes (stx_verification_key t)) (stx_signature t) (stx_body_bytes t)"
    using verified bytes by simp
  show "transaction_body_try_from_any X \<lparr>any_type_url = body_type_url, any_value = stx_body_bytes t\<rparr> =
      Inr (stx_body t)" using read url bytes by simp
qed

text \<open>
  C29. A transaction read from the wire is authentic and well-formed: its signature was verified with its key over exactly
  the bytes its body was decoded from, every action of it is well-formed and the actions form one group, and
  writing it gives the message it was read from.
\<close>

theorem transaction_from_wire_is_authentic:
  assumes "tx_codec_ok X" "transaction_try_from_raw X r = Inr t"
  shows "ed25519_verify X (vk_bytes (stx_verification_key t)) (stx_signature t) (stx_body_bytes t) \<and>
    transaction_body_try_from_any X \<lparr>any_type_url = body_type_url, any_value = stx_body_bytes t\<rparr> =
      Inr (stx_body t) \<and>
    wf_body (field_codec X) (stx_body t) \<and> transaction_to_raw t = r"
proof -
  have "wf_body (field_codec X) (stx_body t)"
    using transaction_read(2) [OF assms] assms(1)
    by (auto simp: transaction_body_try_from_any_def tx_codec_ok_def intro: body_read_wf)
  then show ?thesis using transaction_read [OF assms] by blast
qed

theorem transaction_from_wire_is_authentic_witness:
  "wf_body sample_codec (stx_body (sign_body sample_tx_codec sample_body [4]))"
  using transaction_from_wire_is_authentic [OF sample_tx_codec_ok sample_read]
  by (simp add: sample_tx_codec_def)

text \<open>
  C30. What is signed is read back: signing a body of well-formed actions, whose address prefixes are in lower case, gives a
  transaction that every reader of its message accepts and sees unchanged. This holds for every chain id, also
  for one without a name that could be a Bech32 prefix: neither the builder nor the reader of a body checks the chain
  id, although the documentation of the builder's \<open>try_build\<close> announces an error for such a chain id.
\<close>

theorem signed_transaction_roundtrip:
  assumes "tx_codec_ok X" "wf_body (field_codec X) b"
    and "encodes_body X (transaction_body_to_raw (field_codec X) b)"
    and "list_all (\<lambda>a. list_all lower_address (action_addresses a)) (acts_inner (body_actions b))"
  shows "transaction_try_from_raw X (transaction_to_raw (sign_body X b k)) = Inr (sign_body X b k)"
proof -
  have "codec_ok (field_codec X)" using assms(1) by (simp add: tx_codec_ok_def)
  then show ?thesis by (intro read_signed assms(1,3) body_write_read [OF _ assms(2,4)])
qed

theorem signed_transaction_roundtrip_witness:
  "transaction_try_from_raw sample_tx_codec (transaction_to_raw (sign_body sample_tx_codec sample_body [5, 6])) =
     Inr (sign_body sample_tx_codec sample_body [5, 6])"
proof (rule signed_transaction_roundtrip [OF sample_tx_codec_ok])
  show "wf_body (field_codec sample_tx_codec) sample_body"
    using sample_body_wf by (simp add: sample_tx_codec_def)
  show "encodes_body sample_tx_codec (transaction_body_to_raw (field_codec sample_tx_codec) sample_body)"
    using sample_encodes_body by (simp add: sample_tx_codec_def)
  show "list_all (\<lambda>a. list_all lower_address (action_addresses a)) (acts_inner (body_actions sample_body))"
    by (rule sample_lower)
qed

end
