(* ===== verification/Ics20_Funds.thy ===== *)
theory Ics20_Funds
  imports Ics20_Transfer Signed_Tx
begin

text \<open>
  What the callbacks of the ICS20 application do to the funds: receipts, refunds of withdrawals, refunds
  that cannot succeed, and the deposit that a failed receipt leaves behind.
\<close>

section \<open>Reading what a withdrawal wrote\<close>

lemma to_digit_display: "r < 10 \<Longrightarrow> to_digit (char_of (48 + r)) = Some (of_nat r)"
  by (simp add: to_digit_def)

lemma to_digit_plus: "to_digit CHR ''+'' = None"
  by (simp add: to_digit_def)

lemma parse_digits_display:
  "n < 2 ^ 128 \<Longrightarrow> parse_digits (u128_display n @ cs) 0 = parse_digits cs (of_nat n)"
proof (induction n arbitrary: cs rule: u128_display.induct)
  case (1 n)
  show ?case
  proof (cases "n < 10")
    case True
    then have "unat (of_nat n :: u128) < 2 ^ 128" using unat_less_pow [of "of_nat n :: u128"] by simp
    with True show ?thesis
      by (simp add: u128_display.simps to_digit_display checked_mul_def checked_add_def)
  next
    case False
    have q: "n = n div 10 * 10 + n mod 10" by simp
    have "checked_mul (of_nat (n div 10)) (of_nat 10) = Some (of_nat (n div 10 * 10) :: u128)"
      by (rule checked_mul_of_nat) (use 1 in simp_all)
    moreover have "checked_add (of_nat (n div 10 * 10)) (of_nat (n mod 10)) = Some (of_nat n :: u128)"
      using checked_add_of_nat [of "n div 10 * 10" "n mod 10", where 'a = 128] 1 by (simp flip: q)
    ultimately show ?thesis
      using 1 False by (subst u128_display.simps) (simp add: to_digit_display del: of_nat_mult)
  qed
qed

lemma u128_display_Cons: "\<exists>c cs. u128_display n = c # cs \<and> c \<noteq> CHR ''+''"
proof (induction n rule: u128_display.induct)
  case (1 n)
  have "char_of (48 + n) \<noteq> CHR ''+''" if "n < 10"
    using to_digit_display [OF that] to_digit_plus by auto
  with 1 show ?case by (subst (1) u128_display.simps) auto
qed

lemma u128_roundtrip: "u128_from_str (u128_display (unat a)) = Inr a"
proof -
  obtain c cs where c: "u128_display (unat a) = c # cs" "c \<noteq> CHR ''+''" using u128_display_Cons by blast
  have "parse_digits (u128_display (unat a) @ []) 0 = parse_digits [] (of_nat (unat a))"
    by (rule parse_digits_display) (use unat_less_pow [of a] in simp)
  with c show ?thesis by (simp add: u128_from_str_def)
qed

text \<open>
  What is relied on: JSON that was written is read back, addresses are printed and read by one
  Bech32 coder, and a compat address is one that the Bech32m decoder refuses.
\<close>

definition transfer_coders_ok :: "'i ext \<Rightarrow> 'i transfer_ext \<Rightarrow> codec \<Rightarrow> bool" where
  "transfer_coders_ok E X C \<longleftrightarrow>
     codec_ok C \<and>
     (\<forall>d b. packet_to_json E d = Inr b \<longrightarrow> packet_from_json X b = Inr d) \<and>
     (\<forall>a. bech32m_display E a = address_display C a) \<and>
     (\<forall>p a x. bech32_compat E p a = Inr x \<longrightarrow>
        hrp_parse C p = Inr p \<and> bech32_decode X x = Inr (p, addr_bytes a) \<and> isl (bech32m_decode C x))"

lemma parse_asset_display:
  assumes "wf_trace asset" "\<not> starts_with (trace_display asset) ''ibc/''"
  shows "parse_asset C s (denom_display (TracePrefixed asset)) = Inr asset"
  using assms parse_trace_iff [of "trace_display asset" asset]
  by (simp add: parse_asset_def denom_display_def denom_from_str_def)

definition sender_of :: "'i ext \<Rightarrow> ics20_withdrawal \<Rightarrow> 'i state \<Rightarrow> string res" where
  "sender_of E w s =
     (if iw_use_compat_address w then
        and_then (get_ibc_compat_prefix s) (\<lambda>prefix. bech32_compat E prefix (iw_return_address w))
      else Inr (bech32m_display E (iw_return_address w)))"

lemma parse_sender:
  assumes ok: "transfer_coders_ok E X C" and sender: "sender_of E w s = Inr x"
    and a: "wf_address C (iw_return_address w)" "lower_address (iw_return_address w)"
    and prefixes: "base_prefix u = Some (addr_prefix (iw_return_address w))" "ibc_compat_prefix u = Some cp"
      "ibc_compat_prefix s = Some cp"
  shows "parse_address_on_sequencer X C u x = Inr (iw_return_address w)"
proof (cases "iw_use_compat_address w")
  case True
  let ?a = "iw_return_address w"
  have x: "hrp_parse C cp = Inr cp" "bech32_decode X x = Inr (cp, addr_bytes ?a)" "isl (bech32m_decode C x)"
    using ok sender True prefixes by (auto simp: transfer_coders_ok_def sender_of_def get_ibc_compat_prefix_def)
  then have "isl (address_from_str C x)" by (cases "bech32m_decode C x") (auto simp: address_from_str_def)
  moreover have "parse_compat_address X C (addr_prefix ?a) cp x = Inr ?a"
    using x a by (simp add: parse_compat_address_def bech32_address_from_str_def address_try_build_def
        try_collect_to_array_def address_to_prefix_def wf_address_def ADDRESS_LENGTH_def ensure_def)
  ultimately show ?thesis using prefixes
    by (cases "address_from_str C x")
      (auto simp: parse_address_on_sequencer_def get_base_prefix_def get_ibc_compat_prefix_def)
next
  case False
  have "address_from_str C x = Inr (iw_return_address w)"
    using ok sender False address_roundtrip [OF _ a]
    by (auto simp: transfer_coders_ok_def sender_of_def address_try_from_raw_def address_to_raw_def)
  then show ?thesis using prefixes
    by (simp add: parse_address_on_sequencer_def get_base_prefix_def get_ibc_compat_prefix_def)
qed

lemma withdrawal_packet:
  assumes "create_ibc_packet_from_withdrawal E w s = Inr q" "transfer_coders_ok E X C"
  obtains x where "sender_of E w s = Inr x" "pk_source_port q = ''transfer''" "pk_source_channel q = iw_source_channel w"
    "packet_from_json X (pk_data q) = Inr \<lparr>ft_denom = denom_display (iw_denom w),
       ft_amount = u128_display (unat (iw_amount w)), ft_sender = x,
       ft_receiver = iw_destination_chain_address w, ft_memo = iw_memo w\<rparr>"
  using assms unfolding create_ibc_packet_from_withdrawal_def sender_of_def [symmetric] transfer_coders_ok_def
  by auto

section \<open>Supply\<close>

lemma decrease_escrow_frame:
  "decrease_ibc_channel_balance c k n s = Inr t \<Longrightarrow> t = s\<lparr>channel_balances := channel_balances t\<rparr>"
  by (auto simp: decrease_ibc_channel_balance_def put_ibc_channel_balance_def)

lemma credit_supply:
  assumes inc: "increase_balance a k n s = Inr t" and fin: "finite_holdings s"
  shows "finite_holdings t" "asset_supply t j = asset_supply s j + (if j = k then unat n else 0)"
proof -
  have c: "channel_balances t = channel_balances s" "block_fees t = block_fees s"
    by (subst increase_balance_frame [OF inc], simp)+
  show "finite_holdings t" "asset_supply t j = asset_supply s j + (if j = k then unat n else 0)"
    using accounts.inc_held [OF inc] fin fund_congs(2,3) [of t s] c
    by (simp_all add: finite_holdings_def asset_supply_def)
qed

lemma unescrow_supply:
  assumes dec: "decrease_ibc_channel_balance c k n s = Inr t" and fin: "finite_holdings s"
  shows "finite_holdings t" "asset_supply t j + (if j = k then unat n else 0) = asset_supply s j"
proof -
  have c: "balances t = balances s" "block_fees t = block_fees s"
    by (subst decrease_escrow_frame [OF dec], simp)+
  have fe: "finitely_held (\<lambda>ch. get_ibc_channel_balance s ch i)" for i using fin by (simp add: finite_holdings_def)
  show "finite_holdings t"
    using escrow.dec_held(1) [OF dec fe] fin fund_congs(1) [of t s] c by (simp add: finite_holdings_def)
  show "asset_supply t j + (if j = k then unat n else 0) = asset_supply s j"
    using escrow.dec_held(2) [OF dec fe, of j] fund_congs(1,3) [of t s] c by (simp add: asset_supply_def)
qed

lemma same_funds_supply:
  assumes "same_funds s t"
  shows "finite_holdings t \<longleftrightarrow> finite_holdings s" "asset_supply t = asset_supply s"
    "get_account_balance t = get_account_balance s" "get_ibc_channel_balance t = get_ibc_channel_balance s"
  using fund_congs [of t s] assms by (simp_all add: same_funds_def finite_holdings_def asset_supply_def fun_eq_iff)

lemma emit_deposit_Inr:
  assumes "emit_deposit E b dest asset n s = Inr t"
  obtains d rid where "bridge_rollup_ids s (addr_bytes b) = Some rid" "dep_rollup_id d = rid"
    "dep_bridge_address d = b" "dep_amount d = n" "dep_asset d = TracePrefixed asset"
    "t = cache_deposit_event d (s\<lparr>events := events s @ [DepositEvent d]\<rparr>)"
proof -
  obtain rid c where r: "bridge_rollup_ids s (addr_bytes b) = Some rid" and c: "transaction_context s = Some c"
    using assms by (auto simp: emit_deposit_def get_bridge_account_rollup_id_def get_transaction_context_def)
  define d where "d = \<lparr>dep_bridge_address = b, dep_rollup_id = rid, dep_amount = n, dep_asset = TracePrefixed asset,
    dep_destination_chain_address = dest, dep_source_transaction_id = ctx_transaction_id c,
    dep_source_action_index = ctx_position_in_transaction c\<rparr>"
  have "t = cache_deposit_event d (s\<lparr>events := events s @ [DepositEvent d]\<rparr>)"
    using assms r c by (simp add: emit_deposit_def get_bridge_account_rollup_id_def get_transaction_context_def
        Let_def d_def)
  then show thesis by (intro that [of rid d]) (simp_all add: r d_def)
qed

lemma emit_deposit_same_funds: "emit_deposit E b dest asset n s = Inr t \<Longrightarrow> same_funds s t"
  by (erule emit_deposit_Inr) (simp add: same_funds_def cache_deposit_event_def Let_def)

lemma emit_bridge_lock_deposit_same_funds:
  "emit_bridge_lock_deposit E X b asset n m s = Inr t \<Longrightarrow> same_funds s t"
  by (auto simp: emit_bridge_lock_deposit_def intro: emit_deposit_same_funds)

lemma put_ibc_asset_same_funds: "same_funds s (put_ibc_asset H asset s)"
  by (simp add: put_ibc_asset_def same_funds_def)

lemma same_funds_refl: "same_funds s s"
  by (simp add: same_funds_def)

lemma same_funds_trans: "same_funds s t \<Longrightarrow> same_funds t u \<Longrightarrow> same_funds s u"
  by (simp add: same_funds_def)

lemma balances_le_supply:
  assumes "finite_holdings s"
  shows "unat (get_account_balance s a k) + unat (get_ibc_channel_balance s c k) \<le> asset_supply s k"
  using held_ge [of "\<lambda>a. get_account_balance s a k" a] held_ge [of "\<lambda>c. get_ibc_channel_balance s c k" c] assms
  by (simp add: finite_holdings_def asset_supply_def)

section \<open>Receiving\<close>

text \<open>What a receipt of \<open>n\<close> of an asset for \<open>a\<close> over the channel \<open>c\<close> does to the funds.\<close>

definition credited ::
  "bool \<Rightarrow> string \<Rightarrow> address_bytes \<Rightarrow> ibc_prefixed \<Rightarrow> u128 \<Rightarrow> 'i state \<Rightarrow> 'i state \<Rightarrow> bool" where
  "credited from_escrow c a k n s t \<longleftrightarrow>
     finite_holdings t \<and>
     unat (get_account_balance t a k) = unat (get_account_balance s a k) + unat n \<and>
     unat (get_ibc_channel_balance s c k) = unat (get_ibc_channel_balance t c k) + (if from_escrow then unat n else 0) \<and>
     (\<forall>b j. (b, j) \<noteq> (a, k) \<longrightarrow> get_account_balance t b j = get_account_balance s b j) \<and>
     (\<forall>d j. (d, j) \<noteq> (c, k) \<longrightarrow> get_ibc_channel_balance t d j = get_ibc_channel_balance s d j) \<and>
     (\<forall>j. asset_supply t j = asset_supply s j + (if \<not> from_escrow \<and> j = k then unat n else 0))"

lemma credit_credited:
  assumes "increase_balance a k n s = Inr t" "finite_holdings s"
  shows "credited False c a k n s t"
proof -
  have "channel_balances t = channel_balances s" by (subst increase_balance_frame [OF assms(1)], simp)
  then show ?thesis
    using credit_supply [OF assms] accounts.inc_unat [OF assms(1)] accounts.inc_other [OF assms(1)]
      channel_balance_cong [of t s] by (auto simp: credited_def)
qed

lemma unescrow_credited:
  assumes dec: "decrease_ibc_channel_balance c k n s = Inr u" and inc: "increase_balance a k n u = Inr t"
    and fin: "finite_holdings s"
  shows "credited True c a k n s t"
proof -
  have c: "get_ibc_channel_balance t = get_ibc_channel_balance u"
    by (rule channel_balance_cong) (subst increase_balance_frame [OF inc], simp)
  have b: "get_account_balance u = get_account_balance s"
    by (rule balance_cong) (subst decrease_escrow_frame [OF dec], simp)
  note u = unescrow_supply [OF dec fin]
  have "asset_supply t j = asset_supply s j" for j
    using credit_supply(2) [OF inc u(1), of j] u(2) [of j] by simp
  then show ?thesis
    using credit_supply(1) [OF inc u(1)] accounts.inc_unat [OF inc] accounts.inc_other [OF inc]
      escrow.dec_unat [OF dec] escrow.dec_other [OF dec] b c by (simp add: credited_def)
qed

lemma unescrowed_fits:
  assumes "decrease_ibc_channel_balance c k n s = Inr u" "finite_holdings s" "asset_supply s k < 2 ^ 128"
  shows "\<exists>t. increase_balance a k n u = Inr t"
proof (rule accounts.inc_total)
  have "get_account_balance u = get_account_balance s"
    by (rule balance_cong) (subst decrease_escrow_frame [OF assms(1)], simp)
  then show "unat (get_account_balance u a k) + unat n < 2 ^ 128"
    using balances_le_supply [OF assms(2), of a k c] escrow.dec_unat [OF assms(1)] assms(3) by simp
qed

lemma credited_cong: "same_funds s u \<Longrightarrow> credited e c a k n u t \<Longrightarrow> credited e c a k n s t"
  by (simp add: credited_def same_funds_supply)

lemma settle_receipt:
  assumes fin: "finite_holdings s" and bound: "asset_supply s (ibc_of E (TracePrefixed asset)) < 2 ^ 128"
    and run: "run_step s (take_from_escrow_or_register E source c asset n s) (\<lambda>s2.
      run_step s2 (increase_balance a (ibc_of E (TracePrefixed asset)) n s2) (\<lambda>s3. (s3, Inr ()))) = (t, r)"
  shows "case r of Inl e \<Rightarrow> same_funds s t | Inr _ \<Rightarrow> credited source c a (ibc_of E (TracePrefixed asset)) n s t"
proof (cases source)
  case True
  show ?thesis
  proof (cases "decrease_ibc_channel_balance c (ibc_of E (TracePrefixed asset)) n s")
    case (Inl e)
    then show ?thesis using run True by (auto simp: take_from_escrow_or_register_def same_funds_refl)
  next
    case (Inr u)
    obtain v where v: "increase_balance a (ibc_of E (TracePrefixed asset)) n u = Inr v"
      using unescrowed_fits [OF Inr fin bound] by blast
    have "t = v" "r = Inr ()" using run True Inr v by (simp_all add: take_from_escrow_or_register_def)
    then show ?thesis using True unescrow_credited [OF Inr v fin] by simp
  qed
next
  case False
  obtain u where u: "take_from_escrow_or_register E source c asset n s = Inr u" "same_funds s u"
  proof
    let ?u = "if \<not> has_ibc_asset s (ibc_of E (TracePrefixed asset)) then put_ibc_asset (sha256 E) asset s else s"
    show "take_from_escrow_or_register E source c asset n s = Inr ?u"
      using False by (simp add: take_from_escrow_or_register_def)
    show "same_funds s ?u" by (simp add: put_ibc_asset_same_funds same_funds_refl)
  qed
  show ?thesis
  proof (cases "increase_balance a (ibc_of E (TracePrefixed asset)) n u")
    case (Inl e)
    then show ?thesis using run u by auto
  next
    case (Inr v)
    have "t = v" "r = Inr ()" using run u Inr by simp_all
    moreover have "finite_holdings u" using same_funds_supply(1) [OF u(2)] fin by simp
    ultimately show ?thesis using False credited_cong [OF u(2) credit_credited [OF Inr]] by simp
  qed
qed

text \<open>
  C11. Receiving tokens from another chain accounts for every unit, as long as no asset has a supply of
  2^128 or more: when it succeeds the recipient has the amount more and, if the asset is one of this chain,
  the escrow of the channel the amount less; no other balance changes, so that the supply of an asset
  of this chain is conserved and that of a bridged asset grows by the amount. When it fails no balance
  and no escrow changes.
\<close>

theorem received_tokens_are_accounted_for:
  assumes "finite_holdings s" and "\<forall>k. asset_supply s k < 2 ^ 128"
    and "receive_tokens E X C p s = (t, r)"
  shows "case r of
      Inl e \<Rightarrow> same_funds s t
    | Inr _ \<Rightarrow> \<exists>d amount recipient source asset. read_packet X C p s = Inr (d, amount, recipient, source, asset) \<and>
        credited source (tp_chan_on_b p) (addr_bytes recipient) (ibc_of E (TracePrefixed asset)) amount s t"
proof (cases "read_packet X C p s")
  case (Inl e)
  then show ?thesis using assms(3) by (auto simp: receive_tokens_def same_funds_refl)
next
  case (Inr x)
  obtain d amount recipient source asset where x: "x = (d, amount, recipient, source, asset)" by (cases x) auto
  let ?emit = "if get_bridge_account_rollup_id s (addr_bytes recipient) \<noteq> None
    then emit_bridge_lock_deposit E X recipient asset amount (ft_memo d) s else Inr s"
  show ?thesis
  proof (cases ?emit)
    case (Inl e)
    then show ?thesis using assms(3) Inr x by (auto simp: receive_tokens_def same_funds_refl)
  next
    case (Inr u)
    then have u: "same_funds s u"
      by (auto intro: emit_bridge_lock_deposit_same_funds same_funds_refl split: if_splits)
    have "case r of Inl e \<Rightarrow> same_funds u t | Inr _ \<Rightarrow>
        credited source (tp_chan_on_b p) (addr_bytes recipient) (ibc_of E (TracePrefixed asset)) amount u t"
      by (rule settle_receipt)
        (use assms Inr x \<open>read_packet X C p s = Inr x\<close> same_funds_supply [OF u] in \<open>simp_all add: receive_tokens_def\<close>)
    then show ?thesis
      using x \<open>read_packet X C p s = Inr x\<close> same_funds_trans [OF u] credited_cong [OF u]
      by (fastforce split: sum.splits unit.splits)
  qed
qed

text \<open>
  C12. A receipt can fail and still announce a deposit: if the recipient is a bridge account of the asset and the
  escrow of the channel holds less than the packet claims, what is written for the packet is an error acknowledgement
  and no balance changes, but the deposit of the full amount was cached before and stays in the deposits of the block.
\<close>

theorem failed_receipt_leaves_deposit:
  assumes r: "read_packet X C p s = Inr (d, amount, recipient, True, asset)"
    and emit: "emit_bridge_lock_deposit E X recipient asset amount (ft_memo d) s = Inr u"
    and esc: "get_ibc_channel_balance s (tp_chan_on_b p) (ibc_of E (TracePrefixed asset)) < amount"
    and w: "\<forall>b. \<not> isl (write_acknowledgement X p b (ibc s))"
  shows "\<exists>t rid dep msg. recv_packet_execute E X C p s = Inr t \<and> same_funds s t \<and>
    write_acknowledgement X p (ack_to_bytes X (AckError msg)) (ibc s) = Inr (ibc t) \<and>
    bridge_rollup_ids s (addr_bytes recipient) = Some rid \<and>
    dep_bridge_address dep = recipient \<and> dep_amount dep = amount \<and> dep_asset dep = TracePrefixed asset \<and>
    get_cached_block_deposits t rid =
      Some ((case get_cached_block_deposits s rid of None \<Rightarrow> [] | Some ds \<Rightarrow> ds) @ [dep])"
proof -
  obtain dest where "emit_deposit E recipient dest asset amount s = Inr u"
    using emit by (auto simp: emit_bridge_lock_deposit_def)
  then obtain dep rid where dep: "bridge_rollup_ids s (addr_bytes recipient) = Some rid" "dep_rollup_id dep = rid"
    "dep_bridge_address dep = recipient" "dep_amount dep = amount" "dep_asset dep = TracePrefixed asset"
    "u = cache_deposit_event dep (s\<lparr>events := events s @ [DepositEvent dep]\<rparr>)"
    by (rule emit_deposit_Inr)
  have "decrease_ibc_channel_balance (tp_chan_on_b p) (ibc_of E (TracePrefixed asset)) amount u =
      fail ''insufficient funds on ibc channel''"
    using esc by (simp add: decrease_ibc_channel_balance_def checked_sub_def dep(6) cache_deposit_event_def Let_def
        get_ibc_channel_balance_def)
  then have "receive_tokens E X C p s = (u, fail ''insufficient funds on ibc channel'')"
    using r emit dep(1) by (simp add: receive_tokens_def take_from_escrow_or_register_def get_bridge_account_rollup_id_def)
  moreover define msg where "msg = (
      if get_upgrade_change_info s aspen_name ibc_acknowledgement_failure_change_name \<noteq> None then ''ics20 transfer failed''
      else render_report X (Eyre ''insufficient funds on ibc channel''))"
  moreover obtain i where i: "write_acknowledgement X p (ack_to_bytes X (AckError msg)) (ibc s) = Inr i"
    using w Inr_projr by blast
  moreover have "ibc u = ibc s" by (simp add: dep(6) cache_deposit_event_def Let_def)
  ultimately have "recv_packet_execute E X C p s = Inr (u\<lparr>ibc := i\<rparr>)"
    by (simp add: recv_packet_execute_def ack_of_result_def Let_def)
  moreover have "same_funds s (u\<lparr>ibc := i\<rparr>)"
    by (simp add: dep(6) cache_deposit_event_def Let_def same_funds_def)
  ultimately show ?thesis using dep i
    by (intro exI [of _ "u\<lparr>ibc := i\<rparr>"] exI [of _ rid] exI [of _ dep] exI [of _ msg])
      (simp add: cache_deposit_event_def Let_def get_cached_block_deposits_def)
qed

section \<open>Refunds\<close>

lemma refund_zone: "is_refund_source_zone asset p c = is_source p c (TracePrefixed asset)"
  by (simp add: is_refund_source_zone_def is_transfer_source_zone_def is_source_def)

lemma increase_balance_iff:
  "(\<exists>t. increase_balance a k n s = Inr t) \<longleftrightarrow> unat (get_account_balance s a k) + unat n < 2 ^ 128"
proof
  assume "\<exists>t. increase_balance a k n s = Inr t"
  then obtain t where "increase_balance a k n s = Inr t" by blast
  from accounts.inc_unat [OF this] show "unat (get_account_balance s a k) + unat n < 2 ^ 128"
    using unat_less_pow [of "get_account_balance t a k"] by simp
qed (rule accounts.inc_total)

lemma decrease_escrow_iff:
  "(\<exists>t. decrease_ibc_channel_balance c k n s = Inr t) \<longleftrightarrow> n \<le> get_ibc_channel_balance s c k"
  by (auto simp: decrease_ibc_channel_balance_def checked_sub_def ok_or_eyre_def)

lemma emit_deposit_iff:
  "(\<exists>t. emit_deposit E b dest asset n s = Inr t) \<longleftrightarrow>
     is_a_bridge_account s (addr_bytes b) \<and> bridge_assets s (addr_bytes b) = Some (ibc_of E (TracePrefixed asset)) \<and>
     transaction_context s \<noteq> None"
  by (auto simp: emit_deposit_def Let_def is_a_bridge_account_def get_bridge_account_rollup_id_def
      get_bridge_account_ibc_asset_def get_transaction_context_def)

lemma refund_to_address_iff:
  "(\<exists>v. refund_tokens_to_sequencer_address E a asset n p c s = Inr v) \<longleftrightarrow>
     (is_source p c (TracePrefixed asset) \<longrightarrow> n \<le> get_ibc_channel_balance s c (ibc_of E (TracePrefixed asset))) \<and>
     unat (get_account_balance s (addr_bytes a) (ibc_of E (TracePrefixed asset))) + unat n < 2 ^ 128"
proof (cases "is_source p c (TracePrefixed asset)")
  case True
  let ?k = "ibc_of E (TracePrefixed asset)"
  have bal: "get_account_balance u = get_account_balance s" if "decrease_ibc_channel_balance c ?k n s = Inr u" for u
    by (rule balance_cong) (subst decrease_escrow_frame [OF that], simp)
  have "(\<exists>v. refund_tokens_to_sequencer_address E a asset n p c s = Inr v) \<longleftrightarrow>
      (\<exists>u. decrease_ibc_channel_balance c ?k n s = Inr u \<and> (\<exists>v. increase_balance (addr_bytes a) ?k n u = Inr v))"
    using True by (auto simp: refund_tokens_to_sequencer_address_def refund_zone)
  also have "\<dots> \<longleftrightarrow> (\<exists>u. decrease_ibc_channel_balance c ?k n s = Inr u) \<and>
      unat (get_account_balance s (addr_bytes a) ?k) + unat n < 2 ^ 128"
    unfolding increase_balance_iff using bal by auto
  finally show ?thesis using True by (simp add: decrease_escrow_iff)
next
  case False
  then show ?thesis by (simp add: refund_tokens_to_sequencer_address_def refund_zone increase_balance_iff)
qed

lemma refund_to_address_credited:
  assumes "refund_tokens_to_sequencer_address E a asset n p c s = Inr v" "finite_holdings s"
  shows "credited (is_source p c (TracePrefixed asset)) c (addr_bytes a) (ibc_of E (TracePrefixed asset)) n s v"
  using assms unescrow_credited [OF _ _ assms(2)] credit_credited [OF _ assms(2)]
  by (cases "is_source p c (TracePrefixed asset)")
    (auto simp: refund_tokens_to_sequencer_address_def refund_zone)

text \<open>Whether a failed withdrawal by the signer or rollup that wrote the memo can be refunded in a state.\<close>

definition refundable :: "'i ext \<Rightarrow> ics20_withdrawal \<Rightarrow> 'i state \<Rightarrow> bool" where
  "refundable E w u \<longleftrightarrow>
     (let a = addr_bytes (iw_return_address w); k = ibc_of E (iw_denom w) in
      (isl (parse_bridge_memo E (iw_memo w)) \<or>
       is_a_bridge_account u a \<and> bridge_assets u a = Some k \<and> transaction_context u \<noteq> None) \<and>
      (is_source ''transfer'' (iw_source_channel w) (iw_denom w) \<longrightarrow>
       iw_amount w \<le> get_ibc_channel_balance u (iw_source_channel w) k) \<and>
      unat (get_account_balance u a k) + unat (iw_amount w) < 2 ^ 128)"

lemma refund_of_withdrawal:
  assumes ok: "transfer_coders_ok E X C" and q: "create_ibc_packet_from_withdrawal E w s = Inr q"
    and p: "tp_port_on_a p = pk_source_port q" "tp_chan_on_a p = pk_source_channel q" "tp_data p = pk_data q"
    and asset: "iw_denom w = TracePrefixed asset" "wf_trace asset" "\<not> starts_with (trace_display asset) ''ibc/''"
    and a: "wf_address C (iw_return_address w)" "lower_address (iw_return_address w)"
    and u: "base_prefix u = Some (addr_prefix (iw_return_address w))" "ibc_compat_prefix u = Some cp"
      "ibc_compat_prefix s = Some cp"
  shows "refund_tokens E X C p u =
    and_then (case parse_bridge_memo E (iw_memo w) of
        Inl _ \<Rightarrow> Inr u
      | Inr m \<Rightarrow> emit_deposit E (iw_return_address w) (bm_rollup_return_address m) asset (iw_amount w) u)
      (refund_tokens_to_sequencer_address E (iw_return_address w) asset (iw_amount w) ''transfer'' (iw_source_channel w))"
  using q ok
proof (rule withdrawal_packet)
  fix x assume x: "sender_of E w s = Inr x" "pk_source_port q = ''transfer''" "pk_source_channel q = iw_source_channel w"
    "packet_from_json X (pk_data q) = Inr \<lparr>ft_denom = denom_display (iw_denom w),
       ft_amount = u128_display (unat (iw_amount w)), ft_sender = x,
       ft_receiver = iw_destination_chain_address w, ft_memo = iw_memo w\<rparr>"
  show ?thesis
    using x p asset parse_sender [OF ok x(1) a u] parse_asset_display [OF asset(2,3), of C u]
    by (simp add: refund_tokens_def u128_roundtrip does_failed_transfer_come_from_rollup_def split: sum.splits)
qed

text \<open>
  C10. Refunds of withdrawals that name their asset by its trace (not by an \<open>ibc/\<close> hash, nor by a trace that is
  printed with that prefix) and whose return address is well-formed and in lower case, between states with the same
  address prefixes. Such a withdrawal over IBC whose packet times out is refunded exactly if, in the later state, the
  return address is a bridge account of the asset whenever the memo is one of a rollup, the escrow still holds
  what was put there, and the balance does not overflow. The refund credits the return address with the amount,
  takes it from the escrow exactly if the withdrawal put it there, and changes no other balance; the supply
  grows by what the withdrawal had burned. For an asset of this chain named by its \<open>ibc/\<close> hash the claim is false:
  the lemma \<open>native_asset_under_ibc_name\<close> below.
\<close>

theorem withdrawn_tokens_are_refunded:
  assumes ok: "transfer_coders_ok E X C" and w: "ics20_withdrawal_check_and_execute E w s = Inr t"
    and q: "create_ibc_packet_from_withdrawal E w s = Inr q"
    and p: "tp_port_on_a p = pk_source_port q" "tp_chan_on_a p = pk_source_channel q" "tp_data p = pk_data q"
    and asset: "iw_denom w = TracePrefixed asset" "wf_trace asset" "\<not> starts_with (trace_display asset) ''ibc/''"
    and a: "wf_address C (iw_return_address w)" "lower_address (iw_return_address w)"
    and u: "base_prefix u = base_prefix s" "ibc_compat_prefix u = Some cp" "ibc_compat_prefix s = Some cp"
      "finite_holdings u"
  shows "((\<exists>v. timeout_packet_execute E X C p u = Inr v) \<longleftrightarrow> refundable E w u) \<and>
    (\<forall>v. timeout_packet_execute E X C p u = Inr v \<longrightarrow>
       credited (is_source ''transfer'' (iw_source_channel w) (iw_denom w)) (iw_source_channel w)
         (addr_bytes (iw_return_address w)) (ibc_of E (iw_denom w)) (iw_amount w) u v \<and>
       (\<forall>k. asset_supply v k = asset_supply u k + burned E (Ics20Withdrawal w) k))"
proof -
  let ?a = "iw_return_address w" and ?n = "iw_amount w" and ?c = "iw_source_channel w"
  let ?d = "case parse_bridge_memo E (iw_memo w) of Inl _ \<Rightarrow> Inr u
    | Inr m \<Rightarrow> emit_deposit E ?a (bm_rollup_return_address m) asset ?n u"
  have pre: "base_prefix u = Some (addr_prefix ?a)"
    using w u(1) by (auto elim!: ics20_withdrawal_Inr simp: ensure_base_prefix_def get_base_prefix_def)
  have eq: "timeout_packet_execute E X C p u =
      and_then ?d (refund_tokens_to_sequencer_address E ?a asset ?n ''transfer'' ?c)"
    unfolding timeout_packet_execute_def by (rule refund_of_withdrawal [OF ok q p asset a pre u(2,3)])
  have d: "same_funds u u1" if "?d = Inr u1" for u1
    using that emit_deposit_same_funds by (auto simp: same_funds_refl split: sum.splits)
  have ex: "(\<exists>u1. ?d = Inr u1) \<longleftrightarrow> isl (parse_bridge_memo E (iw_memo w)) \<or>
      is_a_bridge_account u (addr_bytes ?a) \<and> bridge_assets u (addr_bytes ?a) = Some (ibc_of E (TracePrefixed asset)) \<and>
      transaction_context u \<noteq> None"
    by (cases "parse_bridge_memo E (iw_memo w)") (simp_all add: emit_deposit_iff)
  have "(\<exists>v. timeout_packet_execute E X C p u = Inr v) \<longleftrightarrow>
      (\<exists>u1. ?d = Inr u1 \<and> (\<exists>v. refund_tokens_to_sequencer_address E ?a asset ?n ''transfer'' ?c u1 = Inr v))"
    unfolding eq by auto
  also have "\<dots> \<longleftrightarrow> (\<exists>u1. ?d = Inr u1) \<and>
      (\<exists>v. refund_tokens_to_sequencer_address E ?a asset ?n ''transfer'' ?c u = Inr v)"
    unfolding refund_to_address_iff using same_funds_supply(3,4) [OF d] by auto
  also have "\<dots> \<longleftrightarrow> refundable E w u"
    unfolding ex refund_to_address_iff by (simp add: refundable_def Let_def asset(1))
  finally have iff: "(\<exists>v. timeout_packet_execute E X C p u = Inr v) \<longleftrightarrow> refundable E w u" .
  have "credited (is_source ''transfer'' ?c (iw_denom w)) ?c (addr_bytes ?a) (ibc_of E (iw_denom w)) ?n u v"
    if "timeout_packet_execute E X C p u = Inr v" for v
  proof -
    from that obtain u1 where u1: "?d = Inr u1"
      "refund_tokens_to_sequencer_address E ?a asset ?n ''transfer'' ?c u1 = Inr v" unfolding eq by auto
    have "finite_holdings u1" using same_funds_supply(1) [OF d [OF u1(1)]] u(4) by simp
    from credited_cong [OF d [OF u1(1)] refund_to_address_credited [OF u1(2) this]]
    show ?thesis by (simp add: asset(1))
  qed
  with iff show ?thesis by (auto simp: credited_def burned_def)
qed

text \<open>
  The rollup that a withdrawal came from is refunded only at a bridge account, but nothing in the withdrawal asks
  the return address to be one: if it is not, no state of the chain in which it is none can refund it.
\<close>

lemma rollup_refund_needs_bridge_account:
  "\<not> isl (parse_bridge_memo E (iw_memo w)) \<Longrightarrow> \<not> is_a_bridge_account u (addr_bytes (iw_return_address w)) \<Longrightarrow>
    \<not> refundable E w u"
  by (simp add: refundable_def Let_def)

text \<open>
  A withdrawal of an asset of this chain under its \<open>ibc/\<close> name burns it instead of putting it into the escrow, but its
  refund is taken from the escrow.
\<close>

lemma native_asset_under_ibc_name:
  assumes "is_source p c (TracePrefixed asset)"
  shows "\<not> is_source p c (IbcPrefixed (ibc_of E (TracePrefixed asset)))"
    and "refund_tokens_to_sequencer_address E a asset n p c s = Inr v \<Longrightarrow>
      n \<le> get_ibc_channel_balance s c (ibc_of E (TracePrefixed asset))"
  using assms refund_to_address_iff [of E a asset n p c s] by (auto simp: is_source_def)

section \<open>Examples\<close>

text \<open>A coder of packets: every string with its length in unary before it.\<close>

definition put_str :: "string \<Rightarrow> bytes" where
  "put_str x = replicate (length x) 1 @ 0 # as_bytes x"

definition get_str :: "bytes \<Rightarrow> string \<times> bytes" where
  "get_str b =
     (let n = length (takeWhile (\<lambda>y. y = 1) b); r = drop (n + 1) b in
      (map (\<lambda>y. char_of (unat y)) (take n r), drop n r))"

lemma get_put_str [simp]: "get_str (put_str x @ r) = (x, r)"
proof -
  have "takeWhile (\<lambda>y. y = 1) (replicate n 1 @ 0 # b) = replicate n (1 :: u8)" for n b by (induction n) auto
  moreover have "map (\<lambda>y. char_of (unat y)) (as_bytes x) = x"
    by (induction x) (simp_all add: unat_of_nat)
  moreover have "length (as_bytes x) = length x" by (simp add: as_bytes_def)
  ultimately show ?thesis by (simp add: get_str_def put_str_def Let_def)
qed

definition sample_packet_data_to_json :: "fungible_token_packet_data \<Rightarrow> bytes" where
  "sample_packet_data_to_json d =
     put_str (ft_denom d) @ put_str (ft_amount d) @ put_str (ft_sender d) @ put_str (ft_receiver d) @ put_str (ft_memo d) @ []"

definition sample_packet_data_from_json :: "bytes \<Rightarrow> fungible_token_packet_data res" where
  "sample_packet_data_from_json b =
     (let (denom, b) = get_str b; (amount, b) = get_str b; (sender, b) = get_str b; (receiver, b) = get_str b;
          (memo, b) = get_str b in
      Inr \<lparr>ft_denom = denom, ft_amount = amount, ft_sender = sender, ft_receiver = receiver, ft_memo = memo\<rparr>)"

lemma sample_packet_json: "sample_packet_data_from_json (sample_packet_data_to_json d) = Inr d"
  by (simp add: sample_packet_data_from_json_def sample_packet_data_to_json_def del: append_Nil2)

definition sample_sender_ext :: "unit ext" where
  "sample_sender_ext = sample_ext\<lparr>parse_bridge_memo := \<lambda>_. fail ''no memo of a rollup'',
     packet_to_json := \<lambda>d. Inr (sample_packet_data_to_json d), bech32m_display := address_display sample_codec,
     bech32_compat := \<lambda>_ _. fail ''no compat address''\<rparr>"

definition sample_transfer_ext :: "unit transfer_ext" where
  "sample_transfer_ext =
     \<lparr>packet_from_json = sample_packet_data_from_json, ack_from_json = \<lambda>b. Inr (if b = [1] then AckSuccess else AckError []),
      ack_to_bytes = \<lambda>a. if a = AckSuccess then [1] else [0],
      deposit_memo_from_json = \<lambda>m. Inr \<lparr>rollup_deposit_address = m\<rparr>, render_report = \<lambda>_. ''failed'',
      bech32_decode = \<lambda>_. Inl ''no compat address'', write_acknowledgement = \<lambda>_ _ i. Inr i\<rparr>"

lemma sample_transfer_coders: "transfer_coders_ok sample_sender_ext sample_transfer_ext sample_codec"
  by (auto simp: transfer_coders_ok_def sample_codec_ok sample_sender_ext_def sample_transfer_ext_def sample_packet_json)

definition sample_ibc_state :: "unit state" where
  "sample_ibc_state = sample_state\<lparr>ibc_compat_prefix := Some ''astriacompat'',
     transaction_context := Some \<lparr>ctx_address_bytes = sample_account 1, ctx_transaction_id = [1],
       ctx_position_in_transaction = 0\<rparr>\<rparr>"

definition sample_incoming :: "u8 \<Rightarrow> string \<Rightarrow> transfer_packet" where
  "sample_incoming account amount =
     \<lparr>tp_port_on_a = ''transfer'', tp_chan_on_a = ''channel-7'', tp_port_on_b = ''transfer'', tp_chan_on_b = ''channel-0'',
      tp_data = sample_packet_data_to_json \<lparr>ft_denom = ''transfer/channel-7/nria'', ft_amount = amount, ft_sender = ''x'',
        ft_receiver = address_display sample_codec (sample_address account), ft_memo = ''0xabc''\<rparr>\<rparr>"

definition sample_escrow_state :: "unit state" where
  "sample_escrow_state = sample_ibc_state\<lparr>balances := Map.empty, channel_balances := [(''channel-0'', nria_ibc) \<mapsto> 50]\<rparr>"

lemma sample_address_ok: "wf_address sample_codec (sample_address n)" "lower_address (sample_address n)"
  by (simp_all add: wf_address_def lower_address_def sample_address_def sample_account_def sample_codec_def
      ADDRESS_LENGTH_def is_upper_def)

lemma sample_read_incoming:
  "read_packet sample_transfer_ext sample_codec (sample_incoming account amount) sample_escrow_state =
    and_then (u128_from_str amount) (\<lambda>n. Inr (\<lparr>ft_denom = ''transfer/channel-7/nria'', ft_amount = amount, ft_sender = ''x'',
        ft_receiver = address_display sample_codec (sample_address account), ft_memo = ''0xabc''\<rparr>, n,
      sample_address account, True, nria))"
proof -
  let ?t = "\<lparr>trace = [\<lparr>port = ''transfer'', channel = ''channel-7''\<rparr>], base_denom = ''nria''\<rparr>"
  have "wf_trace ?t"
    by (simp add: wf_trace_def plain_def is_ascii_def is_ascii_whitespace_def)
  then have "parse_asset sample_codec sample_escrow_state (denom_display (TracePrefixed ?t)) = Inr ?t"
    by (rule parse_asset_display) (simp add: trace_display_eq starts_with_def)
  then have "parse_asset sample_codec sample_escrow_state ''transfer/channel-7/nria'' = Inr ?t"
    by (simp add: denom_display_def trace_display_eq)
  moreover have "parse_address_on_sequencer sample_transfer_ext sample_codec sample_escrow_state
      (address_display sample_codec (sample_address account)) = Inr (sample_address account)"
    using address_roundtrip [OF sample_codec_ok sample_address_ok, of account]
    by (simp add: parse_address_on_sequencer_def get_base_prefix_def get_ibc_compat_prefix_def sample_escrow_state_def
        sample_ibc_state_def sample_state_def address_try_from_raw_def address_to_raw_def sample_address_def)
  ultimately show ?thesis
    by (cases "u128_from_str amount") (simp_all add: read_packet_def sample_incoming_def sample_transfer_ext_def sample_packet_json
      received_asset_def is_transfer_source_zone_def has_leading_port_def has_leading_channel_def leading_port_def
      leading_channel_def pop_leading_port_and_channel_def nria_def)
qed

lemma sample_escrow_balances:
  "get_account_balance sample_escrow_state a k = 0"
  "get_ibc_channel_balance sample_escrow_state c k = (if c = ''channel-0'' \<and> k = nria_ibc then 50 else 0)"
  by (auto simp: get_account_balance_def get_ibc_channel_balance_def sample_escrow_state_def)

lemma sample_escrow_holdings: "finite_holdings sample_escrow_state" "asset_supply sample_escrow_state k < 2 ^ 128"
proof -
  show "finite_holdings sample_escrow_state"
    by (auto simp: finite_holdings_def sample_escrow_balances intro: finite_subset [of _ "{''channel-0''}"])
  have "held (\<lambda>c. get_ibc_channel_balance sample_escrow_state c k) =
      (\<Sum>c\<in>{''channel-0''}. unat (get_ibc_channel_balance sample_escrow_state c k))"
    by (rule held_superset) (auto simp: sample_escrow_balances)
  then show "asset_supply sample_escrow_state k < 2 ^ 128"
    by (simp add: asset_supply_def pending_fees_def get_block_fees_def sample_escrow_balances held_def)
      (simp add: sample_escrow_state_def sample_ibc_state_def sample_state_def)
qed

lemma sample_amounts: "u128_from_str ''30'' = Inr 30" "u128_from_str ''60'' = Inr 60"
  by code_simp+

lemma sample_nria: "ibc_of sample_sender_ext (TracePrefixed nria) = nria_ibc"
  by (simp add: to_ibc_prefixed_def sample_sender_ext_def sample_ext_def nria_ibc_def)

lemma sample_escrow_accounts:
  "bridge_rollup_ids sample_escrow_state (sample_account 2) = None"
  "bridge_rollup_ids sample_escrow_state (sample_account 3) = Some [7]"
  "bridge_assets sample_escrow_state (sample_account 3) = Some nria_ibc"
  by code_simp+

theorem received_tokens_are_accounted_for_witness:
  "finite_holdings sample_escrow_state \<and> (\<forall>k. asset_supply sample_escrow_state k < 2 ^ 128) \<and>
   (\<exists>t. receive_tokens sample_sender_ext sample_transfer_ext sample_codec (sample_incoming 2 ''30'') sample_escrow_state = (t, Inr ()) \<and>
     unat (get_account_balance t (sample_account 2) nria_ibc) = 30 \<and>
     unat (get_ibc_channel_balance t ''channel-0'' nria_ibc) = 20)"
proof -
  let ?p = "sample_incoming 2 ''30''"
  obtain u where u: "decrease_ibc_channel_balance ''channel-0'' nria_ibc 30 sample_escrow_state = Inr u"
    using escrow.dec_total [of 30 sample_escrow_state "''channel-0''" nria_ibc] by (auto simp: sample_escrow_balances)
  obtain t where "increase_balance (sample_account 2) nria_ibc 30 u = Inr t"
    using unescrowed_fits [OF u sample_escrow_holdings] by blast
  then have t: "receive_tokens sample_sender_ext sample_transfer_ext sample_codec ?p sample_escrow_state = (t, Inr ())"
    using u by (simp add: receive_tokens_def sample_read_incoming sample_amounts sample_address_def
        get_bridge_account_rollup_id_def sample_escrow_accounts take_from_escrow_or_register_def sample_nria)
      (simp add: sample_incoming_def)
  have "\<forall>k. asset_supply sample_escrow_state k < 2 ^ 128" using sample_escrow_holdings(2) by blast
  from received_tokens_are_accounted_for [OF sample_escrow_holdings(1) this t]
  have "credited True (tp_chan_on_b ?p) (sample_account 2) nria_ibc 30 sample_escrow_state t"
    by (auto simp: sample_read_incoming sample_amounts sample_address_def sample_nria)
  then have "credited True ''channel-0'' (sample_account 2) nria_ibc 30 sample_escrow_state t"
    by (simp add: sample_incoming_def)
  with t sample_escrow_holdings show ?thesis by (simp add: credited_def sample_escrow_balances)
qed

theorem failed_receipt_leaves_deposit_witness:
  "get_ibc_channel_balance sample_escrow_state ''channel-0'' nria_ibc < 60 \<and>
   (\<exists>t dep. recv_packet_execute sample_sender_ext sample_transfer_ext sample_codec (sample_incoming 3 ''60'') sample_escrow_state = Inr t \<and>
     same_funds sample_escrow_state t \<and> dep_amount dep = 60 \<and> get_cached_block_deposits t [7] = Some [dep])"
proof -
  let ?p = "sample_incoming 3 ''60''"
  obtain u where u: "emit_deposit sample_sender_ext (sample_address 3) ''0xabc'' nria 60 sample_escrow_state = Inr u"
    using emit_deposit_iff [of sample_sender_ext "sample_address 3" "''0xabc''" nria 60 sample_escrow_state]
    by (auto simp: is_a_bridge_account_def get_bridge_account_rollup_id_def sample_escrow_accounts sample_address_def sample_nria)
      (simp add: sample_escrow_state_def sample_ibc_state_def)
  have e: "emit_bridge_lock_deposit sample_sender_ext sample_transfer_ext (sample_address 3) nria 60 ''0xabc'' sample_escrow_state = Inr u"
    using u by (simp add: emit_bridge_lock_deposit_def sample_transfer_ext_def MAX_ROLLUP_ADDRESS_BYTE_LENGTH_def ensure_def)
  obtain d where r: "read_packet sample_transfer_ext sample_codec ?p sample_escrow_state = Inr (d, 60, sample_address 3, True, nria)"
    "ft_memo d = ''0xabc''" by (simp add: sample_read_incoming sample_amounts)
  have c: "tp_chan_on_b ?p = ''channel-0''" by (simp add: sample_incoming_def)
  have "cached_deposits sample_escrow_state = Map.empty"
    by (simp add: sample_escrow_state_def sample_ibc_state_def sample_state_def)
  moreover have "\<forall>b. \<not> isl (write_acknowledgement sample_transfer_ext ?p b (ibc sample_escrow_state))"
    by (simp add: sample_transfer_ext_def)
  moreover note failed_receipt_leaves_deposit [OF r(1) e [folded r(2)]]
  ultimately show ?thesis
    by (simp add: c sample_escrow_balances sample_nria sample_address_def sample_escrow_accounts
        get_cached_block_deposits_def) blast
qed

definition sample_outgoing :: ics20_withdrawal where
  "sample_outgoing = \<lparr>iw_amount = 40, iw_denom = TracePrefixed nria,
     iw_destination_chain_address = ''dest'', iw_return_address = sample_address 1,
     iw_timeout_height = \<lparr>revision_number = 0, revision_height = 9\<rparr>, iw_timeout_time = 9,
     iw_source_channel = ''channel-0'', iw_fee_asset = TracePrefixed nria, iw_memo = [],
     iw_bridge_address = None, iw_use_compat_address = False\<rparr>"

definition sample_sent :: "unit state" where
  "sample_sent = sample_ibc_state\<lparr>balances := (balances sample_ibc_state)((sample_account 1, nria_ibc) \<mapsto> 960),
     channel_balances := [(''channel-0'', nria_ibc) \<mapsto> 40]\<rparr>"

lemma sample_ibc_simps:
  "base_prefix sample_ibc_state = Some ''astria''" "ibc_compat_prefix sample_ibc_state = Some ''astriacompat''"
  "bridge_rollup_ids sample_ibc_state (sample_account 1) = None" "block_timestamp sample_ibc_state = Some 0"
  "balances sample_ibc_state (sample_account 1, nria_ibc) = Some 1000" "channel_balances sample_ibc_state = Map.empty"
  "transaction_context sample_ibc_state = Some \<lparr>ctx_address_bytes = sample_account 1, ctx_transaction_id = [1],
     ctx_position_in_transaction = 0\<rparr>"
  by (simp_all add: sample_ibc_state_def sample_state_def sample_account_def)

lemma sample_sent: "ics20_withdrawal_check_and_execute sample_sender_ext sample_outgoing sample_ibc_state = Inr sample_sent"
proof -
  have "signer sample_ibc_state = Inr (sample_account 1)" by (simp add: sample_ibc_simps)
  moreover have "ensure_base_prefix (iw_return_address sample_outgoing) sample_ibc_state = Inr ()"
    by (simp add: ensure_base_prefix_def get_base_prefix_def sample_ibc_simps sample_outgoing_def sample_address_def)
  moreover have "claim_withdrawal_event sample_sender_ext sample_outgoing sample_ibc_state = Inr sample_ibc_state"
    by (simp add: claim_withdrawal_event_def sample_outgoing_def)
  moreover have "establish_withdrawal_target sample_outgoing sample_ibc_state (sample_account 1) = Inr (sample_account 1)"
    by (simp add: establish_withdrawal_target_def sample_outgoing_def is_a_bridge_account_def
        get_bridge_account_rollup_id_def sample_ibc_simps ensure_def)
  moreover have "get_block_timestamp sample_ibc_state = Inr 0"
    by (simp add: get_block_timestamp_def sample_ibc_simps)
  moreover obtain q where "create_ibc_packet_from_withdrawal sample_sender_ext sample_outgoing sample_ibc_state = Inr q"
    "pk_source_port q = ''transfer''" "pk_source_channel q = ''channel-0''"
    by (simp add: create_ibc_packet_from_withdrawal_def sample_outgoing_def sample_sender_ext_def)
  moreover have "send_packet_check sample_sender_ext i q 0 = Inr q" "send_packet_execute sample_sender_ext q i = i" for i q
    by (simp_all add: sample_sender_ext_def sample_ext_def)
  ultimately show ?thesis
    by (simp add: ics20_withdrawal_check_and_execute_def escrow_withdrawal_def is_source_def has_leading_port_def
        leading_port_def sample_outgoing_def nria_def [symmetric] sample_nria decrease_balance_def get_account_balance_def
        put_account_balance_def increase_ibc_channel_balance_def get_ibc_channel_balance_def put_ibc_channel_balance_def
        sample_ibc_simps checked_sub_def checked_add_def sample_sent_def)
      (simp add: nria_def)
qed

definition sample_sent_packet :: ibc_packet where
  "sample_sent_packet = projr (create_ibc_packet_from_withdrawal sample_sender_ext sample_outgoing sample_ibc_state)"

lemma sample_sent_packet:
  "create_ibc_packet_from_withdrawal sample_sender_ext sample_outgoing sample_ibc_state = Inr sample_sent_packet"
  unfolding sample_sent_packet_def by (rule Inr_projr)
    (simp add: create_ibc_packet_from_withdrawal_def sample_outgoing_def sample_sender_ext_def)

definition sample_returned :: transfer_packet where
  "sample_returned =
     \<lparr>tp_port_on_a = pk_source_port sample_sent_packet, tp_chan_on_a = pk_source_channel sample_sent_packet,
      tp_port_on_b = ''transfer'', tp_chan_on_b = ''channel-7'', tp_data = pk_data sample_sent_packet\<rparr>"

lemma sample_sent_simps:
  "base_prefix sample_sent = base_prefix sample_ibc_state" "ibc_compat_prefix sample_sent = Some ''astriacompat''"
  "get_account_balance sample_sent (sample_account 1) nria_ibc = 960"
  "get_ibc_channel_balance sample_sent ''channel-0'' nria_ibc = 40"
  by (simp_all add: sample_sent_def sample_ibc_simps get_account_balance_def get_ibc_channel_balance_def)

lemma sample_refundable: "refundable sample_sender_ext sample_outgoing sample_sent"
  by (simp add: refundable_def sample_outgoing_def sample_address_def sample_nria sample_sent_simps Let_def)
    (simp add: sample_sender_ext_def)

lemma sample_sent_finite: "finite_holdings sample_sent"
proof -
  have "packet_check_keeps_route sample_sender_ext"
    by (simp add: packet_check_keeps_route_def sample_sender_ext_def sample_ext_def)
  moreover have "finite_holdings sample_ibc_state"
    using sample_finite_holdings same_funds_supply(1) [of sample_state sample_ibc_state]
    by (simp add: same_funds_def sample_ibc_state_def)
  ultimately show ?thesis
    using ics20_withdrawal_keeps_supply [OF sample_sent] by (simp add: keeps_supply_def)
qed

theorem withdrawn_tokens_are_refunded_witness:
  "transfer_coders_ok sample_sender_ext sample_transfer_ext sample_codec \<and>
   ics20_withdrawal_check_and_execute sample_sender_ext sample_outgoing sample_ibc_state = Inr sample_sent \<and>
   get_account_balance sample_sent (sample_account 1) nria_ibc = 960 \<and>
   (\<exists>v. timeout_packet_execute sample_sender_ext sample_transfer_ext sample_codec sample_returned sample_sent = Inr v \<and>
     unat (get_account_balance v (sample_account 1) nria_ibc) = 1000)"
proof -
  have nria: "wf_trace nria" "\<not> starts_with (trace_display nria) ''ibc/''" by code_simp+
  have p: "tp_port_on_a sample_returned = pk_source_port sample_sent_packet"
    "tp_chan_on_a sample_returned = pk_source_channel sample_sent_packet"
    "tp_data sample_returned = pk_data sample_sent_packet" by (simp_all add: sample_returned_def)
  have w: "iw_denom sample_outgoing = TracePrefixed nria" "iw_return_address sample_outgoing = sample_address 1"
    "iw_amount sample_outgoing = 40" by (simp_all add: sample_outgoing_def)
  have c: "ibc_compat_prefix sample_ibc_state = Some ''astriacompat''" by (simp add: sample_ibc_state_def)
  note refund = withdrawn_tokens_are_refunded [OF sample_transfer_coders sample_sent sample_sent_packet p w(1) nria
      _ _ sample_sent_simps(1,2) c sample_sent_finite, unfolded w, OF sample_address_ok]
  then obtain v where v: "timeout_packet_execute sample_sender_ext sample_transfer_ext sample_codec sample_returned sample_sent = Inr v"
    using sample_refundable by blast
  with refund have "unat (get_account_balance v (sample_account 1) nria_ibc) = 1000"
    using sample_sent_simps(3) by (simp add: credited_def sample_nria sample_address_def)
  then show ?thesis using v sample_transfer_coders sample_sent sample_sent_simps(3) by blast
qed

end
