(* ===== verification/Block_Bounds.thy ===== *)
theory Block_Bounds
  imports Proposals
begin

text \<open>
  Blocks respect their size limits: the rollup data of an accepted block, and the encoded
  transactions of a prepared one. The lengths are those of byte vectors in memory, so they fit a \<open>usize\<close>.
\<close>

fun rollup_data_len :: "action list \<Rightarrow> nat" where
  "rollup_data_len [] = 0"
| "rollup_data_len (RollupDataSubmission act # acts) = length (rds_data act) + rollup_data_len acts"
| "rollup_data_len (_ # acts) = rollup_data_len acts"

fun data_fits :: "action \<Rightarrow> bool" where
  "data_fits (RollupDataSubmission act) \<longleftrightarrow> length (rds_data act) < 2 ^ 64"
| "data_fits _ \<longleftrightarrow> True"

definition tx_fits :: "'i host \<Rightarrow> transaction \<Rightarrow> bool" where
  "tx_fits H tx \<longleftrightarrow> list_all data_fits (tx_action_list tx) \<and> length (encode_tx H tx) < 2 ^ 64"

definition tx_data_len :: "transaction \<Rightarrow> nat" where
  "tx_data_len tx = rollup_data_len (tx_action_list tx)"

lemma unat_tx_sequence_data_bytes:
  "list_all data_fits acts \<Longrightarrow>
    unat (tx_sequence_data_bytes acts acc) = min (unat acc + rollup_data_len acts) (2 ^ 64 - 1)"
proof (induction acts acc rule: tx_sequence_data_bytes.induct)
  case (1 acc)
  have "unat acc \<le> 2 ^ 64 - 1" using unat_less_pow [of acc] by simp
  then show ?case by (simp only: tx_sequence_data_bytes.simps rollup_data_len.simps)
next
  case (2 act acts acc)
  let ?n = "of_nat (length (rds_data act)) :: usize"
  have "unat ?n = length (rds_data act)" using 2(2) by (intro unat_of_nat_less) simp
  then have "unat (saturating_add acc ?n) = min (unat acc + length (rds_data act)) (2 ^ 64 - 1)"
    by (simp only: unat_saturating_add) simp
  moreover have "unat (tx_sequence_data_bytes acts (saturating_add acc ?n)) =
      min (unat (saturating_add acc ?n) + rollup_data_len acts) (2 ^ 64 - 1)"
    using 2 by simp
  ultimately show ?case by (simp only: tx_sequence_data_bytes.simps rollup_data_len.simps) linarith
qed simp_all

lemma data_bytes_exact:
  assumes "list_all data_fits acts" "unat (tx_sequence_data_bytes acts 0) \<le> 256000"
  shows "unat (tx_sequence_data_bytes acts 0) = rollup_data_len acts"
  using unat_tx_sequence_data_bytes [OF assms(1), of 0] assms(2) by simp

lemma sequencer_checked_add_Inr:
  assumes "sequencer_checked_add n b = Inr b'"
  shows "unat (current_size_sequencer b') = unat (current_size_sequencer b) + unat n"
    "current_size_sequencer b' \<le> max_size_sequencer b" "max_size_sequencer b' = max_size_sequencer b"
    "current_size_cometbft b' = current_size_cometbft b" "max_size_cometbft b' = max_size_cometbft b"
  using assms by (auto simp: sequencer_checked_add_def checked_add_Some_iff)

section \<open>Rollup data of an accepted block\<close>

lemma process_step_size:
  assumes "proposal_checks_and_tx_execution H tx (A, Process b r g) = Inr (brk, A1, Process b1 r1 g1)"
    and "max_size_sequencer b = MAX_SEQUENCE_DATA_BYTES_PER_BLOCK" "tx_fits H tx"
  shows "unat (current_size_sequencer b1) = unat (current_size_sequencer b) + tx_data_len tx"
    and "unat (current_size_sequencer b1) \<le> 256000"
    and "max_size_sequencer b1 = MAX_SEQUENCE_DATA_BYTES_PER_BLOCK"
proof -
  have note_err: "note_failed_tx tx e (Process b r g) = Inl e" for e by (cases e) simp_all
  from assms(1) obtain c where
    c: "sequencer_checked_add (tx_sequence_data_bytes (tx_action_list tx) 0) b = Inr c"
    "cometbft_checked_add (of_nat (length (encode_tx H tx))) c = Inr b1"
    by (auto simp: proposal_checks_and_tx_execution_def Let_def cometbft_full_def note_err
        split: if_splits sum.splits)
  note a = sequencer_checked_add_Inr [OF c(1)]
  have b1: "current_size_sequencer b1 = current_size_sequencer c" "max_size_sequencer b1 = max_size_sequencer c"
    using c(2) by (auto simp: cometbft_checked_add_def)
  have le: "unat (current_size_sequencer c) \<le> 256000"
    using a(2) assms(2) by (simp add: word_le_nat_alt MAX_SEQUENCE_DATA_BYTES_PER_BLOCK_def)
  then have "unat (tx_sequence_data_bytes (tx_action_list tx) 0) = tx_data_len tx"
    using a(1) assms(3) unfolding tx_data_len_def tx_fits_def by (intro data_bytes_exact) auto
  with a b1 le assms(2)
  show "unat (current_size_sequencer b1) = unat (current_size_sequencer b) + tx_data_len tx"
    "unat (current_size_sequencer b1) \<le> 256000"
    "max_size_sequencer b1 = MAX_SEQUENCE_DATA_BYTES_PER_BLOCK" by simp_all
qed

lemma process_loop_size:
  assumes "proposal_loop H txs (A, Process b r g) = Inr (A1, P1)"
    and "max_size_sequencer b = MAX_SEQUENCE_DATA_BYTES_PER_BLOCK" "list_all (tx_fits H) txs"
    and "unat (current_size_sequencer b) \<le> 256000"
  shows "unat (current_size_sequencer b) + (\<Sum>tx\<leftarrow>txs. tx_data_len tx) \<le> 256000"
  using assms
proof (induction txs arbitrary: A b r g)
  case Nil
  then show ?case by simp
next
  case (Cons tx txs)
  from Cons.prems(1) obtain brk A' P' where
    s: "proposal_checks_and_tx_execution H tx (A, Process b r g) = Inr (brk, A', P')"
    and l: "(if brk then Inr (A', P') else proposal_loop H txs (A', P')) = Inr (A1, P1)"
    by auto
  from process_step [OF s] obtain b' r' g' where P': "P' = Process b' r' g'" "\<not> brk" by blast
  from process_step_size [OF s [unfolded P'(1)] Cons.prems(2)] Cons.prems(3) l P'
    Cons.IH [of A' b' r' g'] show ?case by simp
qed

text \<open>
  C17. The rollup data in a block is bounded: the data that the transactions of an accepted proposal submit to
  rollups is at most 256,000 bytes in total.
\<close>

theorem accepted_rollup_data_bounded:
  assumes "process_proposal_tx_execution H txs new_unlimited_cometbft A = Inr (A1, rs)"
    and "list_all (tx_fits H) txs"
  shows "(\<Sum>tx\<leftarrow>txs. rollup_data_len (tx_action_list tx)) \<le> 256000"
proof -
  from assms(1) obtain P1 where
    "proposal_loop H txs (A, Process new_unlimited_cometbft [] BundleableGeneral) = Inr (A1, P1)"
    by (auto simp: process_proposal_tx_execution_def)
  from process_loop_size [OF this _ assms(2)] show ?thesis
    by (simp add: new_unlimited_cometbft_def tx_data_len_def)
qed

definition sample_accepted :: "transaction list" where
  "sample_accepted = [sample_tx 1 0 [sample_transfer]]"

lemma sample_accepted_ok:
  "\<not> isl (process_proposal_tx_execution sample_host sample_accepted new_unlimited_cometbft sample_app)"
  by code_simp

theorem accepted_rollup_data_bounded_witness:
  "(\<Sum>tx\<leftarrow>sample_accepted. rollup_data_len (tx_action_list tx)) \<le> 256000"
proof (rule accepted_rollup_data_bounded)
  let ?r = "process_proposal_tx_execution sample_host sample_accepted new_unlimited_cometbft sample_app"
  show "?r = Inr (fst (projr ?r), snd (projr ?r))"
    unfolding prod.collapse by (rule Inr_projr [OF sample_accepted_ok])
  show "list_all (tx_fits sample_host) sample_accepted"
    by (simp add: sample_accepted_def tx_fits_def sample_tx_def sample_host_def sample_transfer_def)
qed

section \<open>Encoded transactions of a prepared block\<close>

definition prepare_sizes_ok :: "'i host \<Rightarrow> usize \<Rightarrow> usize \<Rightarrow> proposal \<Rightarrow> bool" where
  "prepare_sizes_ok H c0 m P =
     (case P of Prepare b v i f r x g rm \<Rightarrow>
        v = map (encode_tx H) i \<and> max_size_cometbft b = m \<and> current_size_cometbft b \<le> m \<and>
        unat (current_size_cometbft b) = unat c0 + (\<Sum>tx\<leftarrow>i. length (encode_tx H tx))
      | Process _ _ _ \<Rightarrow> False)"

lemma prepare_step_size:
  assumes ok: "prepare_sizes_ok H c0 m P" and tx: "tx_fits H tx"
    and s: "proposal_checks_and_tx_execution H tx (A, P) = Inr (brk, A1, P1)"
  shows "prepare_sizes_ok H c0 m P1"
proof -
  obtain b v i f r x g rm where P: "P = Prepare b v i f r x g rm"
    using ok by (cases P) (auto simp: prepare_sizes_ok_def)
  let ?d = "tx_sequence_data_bytes (tx_action_list tx) 0"
  let ?l = "of_nat (length (encode_tx H tx)) :: usize"
  consider (excluded) x' where "P1 = Prepare b v i f r x' g rm"
    | (failed) e P2 g' where "note_failed_tx tx e P = Inr P2" "P1 = set_current_tx_group g' P2"
    | (included) evs P2 g' where "include_tx H tx evs ?d ?l P = Inr P2" "P1 = set_current_tx_group g' P2"
    using s unfolding P
    by (auto simp: proposal_checks_and_tx_execution_def Let_def cometbft_full_def
        split: if_splits sum.splits)
  then show ?thesis
  proof cases
    case excluded
    then show ?thesis using ok by (simp add: P prepare_sizes_ok_def)
  next
    case failed
    then show ?thesis using ok unfolding P by (cases e) (auto simp: prepare_sizes_ok_def)
  next
    case included
    then obtain b1 b2 where b: "sequencer_checked_add ?d b = Inr b1" "cometbft_checked_add ?l b1 = Inr b2"
      and P1: "P1 = Prepare b2 (v @ [encode_tx H tx]) (i @ [tx]) f (r @ [TxOk evs]) x g' rm"
      unfolding P by auto
    have "unat ?l = length (encode_tx H tx)" using tx by (intro unat_of_nat_less) (simp add: tx_fits_def)
    then have "unat (current_size_cometbft b2) = unat (current_size_cometbft b) + length (encode_tx H tx)"
      "current_size_cometbft b2 \<le> max_size_cometbft b" "max_size_cometbft b2 = max_size_cometbft b"
      using b(2) sequencer_checked_add_Inr [OF b(1)]
      by (auto simp: cometbft_checked_add_def checked_add_Some_iff)
    then show ?thesis using ok by (simp add: P P1 prepare_sizes_ok_def)
  qed
qed

lemma prepare_loop_size:
  "prepare_sizes_ok H c0 m P \<Longrightarrow> list_all (tx_fits H) txs \<Longrightarrow>
    proposal_loop H txs (A, P) = Inr (A1, P1) \<Longrightarrow> prepare_sizes_ok H c0 m P1"
proof (induction txs arbitrary: A P)
  case Nil
  then show ?case by simp
next
  case (Cons tx txs)
  then obtain brk A' P' where
    s: "proposal_checks_and_tx_execution H tx (A, P) = Inr (brk, A', P')"
    and l: "(if brk then Inr (A', P') else proposal_loop H txs (A', P')) = Inr (A1, P1)"
    by auto
  from Cons.prems prepare_step_size [OF _ _ s] have "prepare_sizes_ok H c0 m P'" by simp
  with l Cons.IH [of P' A'] Cons.prems(2) show ?case by (cases brk) auto
qed

text \<open>
  C18. A prepared block fits: the encodings that a proposer puts into its block are those of the
  transactions it included, and together with what the block already holds they do not exceed CometBFT's limit.
\<close>

theorem prepared_block_fits:
  assumes "prepare_proposal_tx_execution H b pending_txs A = Inr (A1, P)"
    and "current_size_cometbft b \<le> max_size_cometbft b" "list_all (tx_fits H) pending_txs"
  shows "validated_txs P = map (encode_tx H) (included_signed_txs P) \<and>
    unat (current_size_cometbft b) + (\<Sum>tx\<leftarrow>included_signed_txs P. length (encode_tx H tx)) \<le>
      unat (max_size_cometbft b)"
proof -
  have "prepare_sizes_ok H (current_size_cometbft b) (max_size_cometbft b)
      (Prepare b [] [] 0 [] 0 BundleableGeneral [])"
    using assms(2) by (simp add: prepare_sizes_ok_def)
  from prepare_loop_size [OF this assms(3) assms(1) [unfolded prepare_proposal_tx_execution_def]]
  show ?thesis by (cases P) (auto simp: prepare_sizes_ok_def word_le_nat_alt)
qed

theorem prepared_block_fits_witness:
  "validated_txs (snd sample_prepared) = map (encode_tx sample_host) (included_signed_txs (snd sample_prepared)) \<and>
    unat (current_size_cometbft (projr (fold_res cometbft_checked_add [3] sample_constraints))) +
      (\<Sum>tx\<leftarrow>included_signed_txs (snd sample_prepared). length (encode_tx sample_host tx)) \<le>
    unat (max_size_cometbft (projr (fold_res cometbft_checked_add [3] sample_constraints)))"
proof (rule prepared_block_fits)
  show "prepare_proposal_tx_execution sample_host
     (projr (fold_res cometbft_checked_add [3] sample_constraints)) sample_pending sample_app =
     Inr (fst sample_prepared, snd sample_prepared)"
    unfolding sample_prepared_def prod.collapse by (rule Inr_projr [OF sample_prepared_runs])
  show "current_size_cometbft (projr (fold_res cometbft_checked_add [3] sample_constraints))
      \<le> max_size_cometbft (projr (fold_res cometbft_checked_add [3] sample_constraints))" by code_simp
  show "list_all (tx_fits sample_host) sample_pending"
    by (simp add: sample_pending_def tx_fits_def sample_tx_def sample_host_def sample_transfer_def)
qed

end
