(* ===== verification/Execution_State.thy ===== *)
theory Execution_State
  imports Prelude
begin

text \<open>
  The state machine that decides whether a proposal or a block has already been executed
  (\<^verbatim>\<open>crates/astria-sequencer/src/app/execution_state.rs\<close>). The types of the crate \<^verbatim>\<open>tendermint\<close> for a
  validator in a vote, for the flag of its signature and for evidence of misbehaviour are the type
  parameters \<open>'v\<close>, \<open>'g\<close> and \<open>'m\<close>: the machine only compares them.
\<close>

section \<open>Requests and cached proposals\<close>

record ('v, 'g) vote_info =
  vi_validator :: 'v
  vi_sig_info :: 'g

record ('v, 'g) extended_vote_info =
  evi_validator :: 'v
  evi_sig_info :: 'g
  evi_vote_extension :: bytes
  evi_extension_signature :: "bytes option"

record ('v, 'g) commit_info =
  ci_round :: u32
  ci_votes :: "('v, 'g) vote_info list"

record ('v, 'g) extended_commit_info =
  eci_round :: u32
  eci_votes :: "('v, 'g) extended_vote_info list"

record ('v, 'g, 'm) prepare_request =
  prep_local_last_commit :: "('v, 'g) extended_commit_info option"
  prep_misbehavior :: "'m list"
  prep_height :: u64
  prep_time :: int
  prep_next_validators_hash :: bytes
  prep_proposer_address :: bytes

record ('v, 'g, 'm) process_request =
  proc_txs :: "bytes list"
  proc_proposed_last_commit :: "('v, 'g) commit_info option"
  proc_misbehavior :: "'m list"
  proc_height :: u64
  proc_time :: int
  proc_next_validators_hash :: bytes
  proc_proposer_address :: bytes

record ('v, 'g, 'm) cached_proposal =
  cp_time :: int
  cp_proposer_address :: bytes
  cp_txs :: "bytes list"
  cp_proposed_last_commit :: "('v, 'g) commit_info option"
  cp_misbehavior :: "'m list"
  cp_next_validators_hash :: bytes
  cp_height :: u64

datatype ('v, 'g, 'm) execution_state =
  Unset
| Prepared "('v, 'g, 'm) cached_proposal"
| PreparedValid "('v, 'g, 'm) cached_proposal"
| CheckedPreparedMismatch "('v, 'g, 'm) cached_proposal"
| ExecutedBlock bytes "('v, 'g, 'm) cached_proposal option"
| CheckedExecutedBlockMismatch bytes "('v, 'g, 'm) cached_proposal option"

section \<open>Operations\<close>

text \<open>Dropping the vote extensions of the local last commit.\<close>

definition to_commit_info :: "('v, 'g) extended_commit_info \<Rightarrow> ('v, 'g) commit_info" where
  "to_commit_info c = \<lparr>ci_round = eci_round c,
     ci_votes = map (\<lambda>v. \<lparr>vi_validator = evi_validator v, vi_sig_info = evi_sig_info v\<rparr>) (eci_votes c)\<rparr>"

definition prepared_proposal ::
  "('v, 'g, 'm) prepare_request \<Rightarrow> bytes list \<Rightarrow> ('v, 'g, 'm) cached_proposal" where
  "prepared_proposal request txs =
     \<lparr>cp_time = prep_time request, cp_proposer_address = prep_proposer_address request, cp_txs = txs,
      cp_proposed_last_commit = map_option to_commit_info (prep_local_last_commit request),
      cp_misbehavior = prep_misbehavior request,
      cp_next_validators_hash = prep_next_validators_hash request, cp_height = prep_height request\<rparr>"

definition new_proposal :: "('v, 'g, 'm) process_request \<Rightarrow> ('v, 'g, 'm) cached_proposal" where
  "new_proposal request =
     \<lparr>cp_time = proc_time request, cp_proposer_address = proc_proposer_address request,
      cp_txs = proc_txs request, cp_proposed_last_commit = proc_proposed_last_commit request,
      cp_misbehavior = proc_misbehavior request,
      cp_next_validators_hash = proc_next_validators_hash request, cp_height = proc_height request\<rparr>"

text \<open>The machine after the call and its result.\<close>

definition set_prepared_proposal ::
  "('v, 'g, 'm) prepare_request \<Rightarrow> bytes list \<Rightarrow> ('v, 'g, 'm) execution_state \<Rightarrow>
   ('v, 'g, 'm) execution_state \<times> unit res" where
  "set_prepared_proposal request response_txs m =
     (if m \<noteq> Unset then (m, fail ''execution state already set'')
      else (Prepared (prepared_proposal request response_txs), Inr ()))"

definition compare_proposal ::
  "('v, 'g, 'm) cached_proposal \<Rightarrow> ('v, 'g, 'm) process_request \<Rightarrow> ('v, 'g, 'm) execution_state \<times> bool" where
  "compare_proposal cached request =
     (if cached \<noteq> new_proposal request then (CheckedPreparedMismatch cached, False)
      else (PreparedValid cached, True))"

fun check_if_prepared_proposal ::
  "('v, 'g, 'm) process_request \<Rightarrow> ('v, 'g, 'm) execution_state \<Rightarrow> ('v, 'g, 'm) execution_state \<times> bool" where
  "check_if_prepared_proposal request (PreparedValid c) = compare_proposal c request"
| "check_if_prepared_proposal request (Prepared c) = compare_proposal c request"
| "check_if_prepared_proposal request m = (m, False)"

fun set_executed_block ::
  "bytes \<Rightarrow> ('v, 'g, 'm) execution_state \<Rightarrow> ('v, 'g, 'm) execution_state \<times> unit res" where
  "set_executed_block h Unset = (ExecutedBlock h None, Inr ())"
| "set_executed_block h (PreparedValid c) = (ExecutedBlock h (Some c), Inr ())"
| "set_executed_block h (Prepared c) = (Prepared c,
     fail ''executed block state attempted to be set before prepared proposal state validated'')"
| "set_executed_block h (ExecutedBlock h' c) = (ExecutedBlock h' c,
     fail ''executed block state attempted to be set again'')"
| "set_executed_block h m = (m, fail ''executed block state shouldn't be set after invalid check'')"

fun check_if_executed_block ::
  "bytes \<Rightarrow> ('v, 'g, 'm) execution_state \<Rightarrow> ('v, 'g, 'm) execution_state \<times> bool" where
  "check_if_executed_block h (Prepared c) = (CheckedPreparedMismatch c, False)"
| "check_if_executed_block h (PreparedValid c) = (CheckedPreparedMismatch c, False)"
| "check_if_executed_block h (ExecutedBlock h' c) =
     (if h \<noteq> h' then (CheckedExecutedBlockMismatch h' c, False) else (ExecutedBlock h' c, True))"
| "check_if_executed_block h m = (m, False)"

section \<open>Runs of the machine\<close>

text \<open>
  A run is the list of the calls made to the machine with their results. \<open>new_round\<close> is
  \<open>update_state_for_new_round\<close>, which replaces the machine by a new one.
\<close>

datatype ('v, 'g, 'm) machine_call =
  CallSetPrepared "('v, 'g, 'm) prepare_request" "bytes list" "unit res"
| CallCheckPrepared "('v, 'g, 'm) process_request" bool
| CallSetExecuted bytes "unit res"
| CallCheckExecuted bytes bool
| CallNewRound

inductive machine_step ::
  "('v, 'g, 'm) execution_state \<Rightarrow> ('v, 'g, 'm) machine_call \<Rightarrow> ('v, 'g, 'm) execution_state \<Rightarrow> bool" where
  set_prepared: "set_prepared_proposal q txs m = (m', r) \<Longrightarrow> machine_step m (CallSetPrepared q txs r) m'"
| check_prepared: "check_if_prepared_proposal q m = (m', b) \<Longrightarrow> machine_step m (CallCheckPrepared q b) m'"
| set_executed: "set_executed_block h m = (m', r) \<Longrightarrow> machine_step m (CallSetExecuted h r) m'"
| check_executed: "check_if_executed_block h m = (m', b) \<Longrightarrow> machine_step m (CallCheckExecuted h b) m'"
| new_round: "machine_step m CallNewRound Unset"

inductive_cases machine_stepE: "machine_step m c m'"

inductive machine_run :: "('v, 'g, 'm) machine_call list \<Rightarrow> ('v, 'g, 'm) execution_state \<Rightarrow> bool" where
  start: "machine_run [] Unset"
| call: "machine_run cs m \<Longrightarrow> machine_step m c m' \<Longrightarrow> machine_run (cs @ [c]) m'"

text \<open>
  What may happen between storing something and recognising it: neither a new round, nor a check with
  another proposal or hash, nor a second successful store.
\<close>

fun keeps_proposal :: "('v, 'g, 'm) cached_proposal \<Rightarrow> ('v, 'g, 'm) machine_call \<Rightarrow> bool" where
  "keeps_proposal p (CallSetPrepared q txs r) \<longleftrightarrow> isl r"
| "keeps_proposal p (CallCheckPrepared q b) \<longleftrightarrow> b \<and> new_proposal q = p"
| "keeps_proposal p (CallSetExecuted h r) \<longleftrightarrow> isl r"
| "keeps_proposal p (CallCheckExecuted h b) \<longleftrightarrow> False"
| "keeps_proposal p CallNewRound \<longleftrightarrow> False"

fun keeps_block :: "bytes \<Rightarrow> ('v, 'g, 'm) machine_call \<Rightarrow> bool" where
  "keeps_block h (CallSetPrepared q txs r) \<longleftrightarrow> isl r"
| "keeps_block h (CallCheckPrepared q b) \<longleftrightarrow> \<not> b"
| "keeps_block h (CallSetExecuted h' r) \<longleftrightarrow> isl r"
| "keeps_block h (CallCheckExecuted h' b) \<longleftrightarrow> b \<and> h' = h"
| "keeps_block h CallNewRound \<longleftrightarrow> False"

definition stored_proposal ::
  "('v, 'g, 'm) cached_proposal \<Rightarrow> ('v, 'g, 'm) machine_call list \<Rightarrow> bool" where
  "stored_proposal p cs \<longleftrightarrow> (\<exists>before q txs after. cs = before @ CallSetPrepared q txs (Inr ()) # after \<and>
     prepared_proposal q txs = p \<and> list_all (keeps_proposal p) after)"

definition stored_block :: "bytes \<Rightarrow> ('v, 'g, 'm) machine_call list \<Rightarrow> bool" where
  "stored_block h cs \<longleftrightarrow> (\<exists>before after. cs = before @ CallSetExecuted h (Inr ()) # after \<and>
     list_all (keeps_block h) after)"

lemma stored_proposal_set:
  "prepared_proposal q txs = p \<Longrightarrow> stored_proposal p (cs @ [CallSetPrepared q txs (Inr ())])"
  by (fastforce simp: stored_proposal_def)

lemma stored_block_set: "stored_block h (cs @ [CallSetExecuted h (Inr ())])"
  by (fastforce simp: stored_block_def)

lemma stored_proposal_call:
  assumes "stored_proposal p cs" "keeps_proposal p c"
  shows "stored_proposal p (cs @ [c])"
proof -
  from assms(1) obtain before q txs after where
    "cs @ [c] = before @ CallSetPrepared q txs (Inr ()) # (after @ [c])"
    "prepared_proposal q txs = p" "list_all (keeps_proposal p) after"
    by (auto simp: stored_proposal_def)
  moreover have "list_all (keeps_proposal p) (after @ [c])" using calculation(3) assms(2) by simp
  ultimately show ?thesis unfolding stored_proposal_def by blast
qed

lemma stored_block_call:
  assumes "stored_block h cs" "keeps_block h c"
  shows "stored_block h (cs @ [c])"
proof -
  from assms(1) obtain before after where
    "cs @ [c] = before @ CallSetExecuted h (Inr ()) # (after @ [c])" "list_all (keeps_block h) after"
    by (auto simp: stored_block_def)
  moreover have "list_all (keeps_block h) (after @ [c])" using calculation(2) assms(2) by simp
  ultimately show ?thesis unfolding stored_block_def by blast
qed

text \<open>What the state of the machine says about the calls so far.\<close>

fun machine_inv :: "('v, 'g, 'm) execution_state \<Rightarrow> ('v, 'g, 'm) machine_call list \<Rightarrow> bool" where
  "machine_inv (Prepared p) cs \<longleftrightarrow> stored_proposal p cs"
| "machine_inv (PreparedValid p) cs \<longleftrightarrow> stored_proposal p cs"
| "machine_inv (ExecutedBlock h _) cs \<longleftrightarrow> stored_block h cs"
| "machine_inv _ cs \<longleftrightarrow> True"

lemma machine_inv_step:
  assumes inv: "machine_inv m cs" and step: "machine_step m c m'"
  shows "machine_inv m' (cs @ [c])"
  using step
proof cases
  case (set_prepared q txs r)
  then show ?thesis using inv
    by (cases m) (auto simp: set_prepared_proposal_def stored_proposal_set
        intro!: stored_proposal_call stored_block_call)
next
  case (check_prepared q b)
  then show ?thesis using inv
    by (cases m) (auto simp: compare_proposal_def split: if_splits
        intro!: stored_proposal_call stored_block_call)
next
  case (set_executed h r)
  then show ?thesis using inv
    by (cases m) (auto simp: stored_block_set intro!: stored_proposal_call stored_block_call)
next
  case (check_executed h b)
  then show ?thesis using inv
    by (cases m) (auto split: if_splits intro!: stored_block_call)
next
  case new_round
  then show ?thesis by simp
qed

lemma machine_run_inv: "machine_run cs m \<Longrightarrow> machine_inv m cs"
  by (induction rule: machine_run.induct) (auto intro: machine_inv_step)

inductive_cases machine_run_snocE: "machine_run (cs @ [c]) m"

lemma machine_run_snoc:
  "machine_run (cs @ [c]) m' \<Longrightarrow> \<exists>m. machine_run cs m \<and> machine_step m c m'"
  by (erule machine_run_snocE) auto

text \<open>
  C24. Execution is skipped only for what was executed: in every run of the state machine, when the
  check of a block's hash succeeds, then this very hash has been stored by \<open>set_executed_block\<close>, and since then
  there was no new round, no check with another hash and no other block stored.
\<close>

theorem skips_only_executed_block:
  assumes "machine_run (cs @ [CallCheckExecuted h True]) m"
  shows "\<exists>before after. cs = before @ CallSetExecuted h (Inr ()) # after \<and>
    list_all (keeps_block h) after"
proof -
  from machine_run_snoc [OF assms] obtain m1 where
    r: "machine_run cs m1" and s: "machine_step m1 (CallCheckExecuted h True) m" by blast
  from s have "\<exists>c. m1 = ExecutedBlock h c" by cases (cases m1; auto split: if_splits)
  with machine_run_inv [OF r] show ?thesis by (auto simp: stored_block_def)
qed

text \<open>
  C25. The proposer skips the execution of a proposal only if it prepared this proposal: the transactions are
  those of its answer, and the time, height, proposer, evidence and last commit (without the vote
  extensions) are those of the request it prepared it for, with no new round and no failed check in between.
\<close>

theorem skips_only_prepared_proposal:
  assumes "machine_run (cs @ [CallCheckPrepared request True]) m"
  shows "\<exists>before q txs after. cs = before @ CallSetPrepared q txs (Inr ()) # after \<and>
    prepared_proposal q txs = new_proposal request \<and>
    list_all (keeps_proposal (new_proposal request)) after"
proof -
  from machine_run_snoc [OF assms] obtain m1 where
    r: "machine_run cs m1" and s: "machine_step m1 (CallCheckPrepared request True) m" by blast
  from s have "m1 = Prepared (new_proposal request) \<or> m1 = PreparedValid (new_proposal request)"
    by cases (cases m1; auto simp: compare_proposal_def split: if_splits)
  with machine_run_inv [OF r] have "stored_proposal (new_proposal request) cs" by auto
  then show ?thesis by (simp add: stored_proposal_def)
qed

section \<open>The usual runs\<close>

text \<open>
  The proposer prepares, recognises its proposal, executes and finalizes it without a second execution.
  Another validator executes the proposal, and finalizes it without a second execution.
\<close>

lemma proposer_run:
  assumes "prepared_proposal q txs = new_proposal request"
  shows "machine_run [CallSetPrepared q txs (Inr ()), CallCheckPrepared request True,
    CallSetExecuted h (Inr ()), CallCheckExecuted h True] (ExecutedBlock h (Some (new_proposal request)))"
proof -
  let ?c = "CallSetPrepared q txs (Inr ())"
  have "machine_run ([] @ [?c]) (Prepared (new_proposal request))"
    by (rule call [OF start]) (auto simp: set_prepared_proposal_def assms intro!: machine_step.intros)
  then have "machine_run (([] @ [?c]) @ [CallCheckPrepared request True]) (PreparedValid (new_proposal request))"
    by (rule call) (auto simp: compare_proposal_def intro!: machine_step.intros)
  then have "machine_run ((([] @ [?c]) @ [CallCheckPrepared request True]) @ [CallSetExecuted h (Inr ())])
      (ExecutedBlock h (Some (new_proposal request)))"
    by (rule call) (auto intro!: machine_step.intros)
  then have "machine_run (((([] @ [?c]) @ [CallCheckPrepared request True]) @ [CallSetExecuted h (Inr ())]) @
      [CallCheckExecuted h True]) (ExecutedBlock h (Some (new_proposal request)))"
    by (rule call) (auto intro!: machine_step.intros)
  then show ?thesis by simp
qed

lemma validator_run:
  "machine_run [CallSetExecuted h (Inr ()), CallCheckExecuted h True] (ExecutedBlock h None)"
proof -
  have "machine_run ([] @ [CallSetExecuted h (Inr ())]) (ExecutedBlock h None)"
    by (rule call [OF start]) (auto intro!: machine_step.intros)
  then have "machine_run (([] @ [CallSetExecuted h (Inr ())]) @ [CallCheckExecuted h True]) (ExecutedBlock h None)"
    by (rule call) (auto intro!: machine_step.intros)
  then show ?thesis by simp
qed

definition sample_prepare :: "(nat, nat, nat) prepare_request" where
  "sample_prepare = \<lparr>prep_local_last_commit = None, prep_misbehavior = [], prep_height = 2, prep_time = 10,
     prep_next_validators_hash = [], prep_proposer_address = [1]\<rparr>"

definition sample_process :: "(nat, nat, nat) process_request" where
  "sample_process = \<lparr>proc_txs = [[7]], proc_proposed_last_commit = None, proc_misbehavior = [],
     proc_height = 2, proc_time = 10, proc_next_validators_hash = [], proc_proposer_address = [1]\<rparr>"

lemma sample_proposals_agree: "prepared_proposal sample_prepare [[7]] = new_proposal sample_process"
  by (simp add: prepared_proposal_def new_proposal_def sample_prepare_def sample_process_def)

theorem skips_only_executed_block_witness:
  "\<exists>before after. [CallSetPrepared sample_prepare [[7]] (Inr ()), CallCheckPrepared sample_process True,
     CallSetExecuted [5] (Inr ())] = before @ CallSetExecuted [5] (Inr ()) # after \<and>
    list_all (keeps_block [5]) after"
  by (rule skips_only_executed_block) (use proposer_run [OF sample_proposals_agree, of "[5]"] in simp)

theorem skips_only_prepared_proposal_witness:
  "\<exists>before q txs after. [CallSetPrepared sample_prepare [[7]] (Inr ())] =
     before @ CallSetPrepared q txs (Inr ()) # after \<and>
    prepared_proposal q txs = new_proposal sample_process \<and>
    list_all (keeps_proposal (new_proposal sample_process)) after"
proof (rule skips_only_prepared_proposal)
  have "machine_run ([] @ [CallSetPrepared sample_prepare [[7]] (Inr ())]) (Prepared (new_proposal sample_process))"
    by (rule call [OF start])
       (auto simp: set_prepared_proposal_def sample_proposals_agree intro!: machine_step.intros)
  then have "machine_run (([] @ [CallSetPrepared sample_prepare [[7]] (Inr ())]) @
      [CallCheckPrepared sample_process True]) (PreparedValid (new_proposal sample_process))"
    by (rule call) (auto simp: compare_proposal_def intro!: machine_step.intros)
  then show "machine_run ([CallSetPrepared sample_prepare [[7]] (Inr ())] @
      [CallCheckPrepared sample_process True]) (PreparedValid (new_proposal sample_process))" by simp
qed

end
