(* ===== verification/Mempool_Accounts.thy ===== *)
theory Mempool_Accounts
  imports Transactions
begin

text \<open>
  The transactions an account has in the sequencer's mempool
  (\<^verbatim>\<open>crates/astria-sequencer/src/mempool/transactions_container.rs\<close>). Pending transactions can be executed
  now, parked ones wait for a lower nonce or for funds.

  A \<open>BTreeMap<u32, _>\<close> is an association list in ascending order of its keys. Instants of the monotonic
  clock and durations are integers.
\<close>

section \<open>Transactions with a timestamp\<close>

type_synonym asset_balances = "ibc_prefixed \<rightharpoonup> u128"

record timemarked_tx =
  tt_signed_tx :: transaction
  tt_tx_hash :: bytes
  tt_time_first_seen :: int
  tt_address :: address_bytes
  tt_cost :: costs

definition timemarked_new :: "hash_fun \<Rightarrow> int \<Rightarrow> transaction \<Rightarrow> costs \<Rightarrow> timemarked_tx" where
  "timemarked_new H now tx cost =
     \<lparr>tt_signed_tx = tx, tt_tx_hash = tx_id tx, tt_time_first_seen = now,
      tt_address = tx_address_bytes H tx, tt_cost = cost\<rparr>"

abbreviation tt_nonce :: "timemarked_tx \<Rightarrow> u32" where
  "tt_nonce t \<equiv> tx_nonce (tt_signed_tx t)"

datatype transaction_priority =
  Priority (nonce_diff: u32) (prio_time_first_seen: int) (prio_group: group)

definition priority :: "timemarked_tx \<Rightarrow> u32 \<Rightarrow> transaction_priority res" where
  "priority t current_account_nonce =
     and_then (ok_or_eyre (checked_sub (tt_nonce t) current_account_nonce)
         ''transaction nonce is less than current account nonce'') (\<lambda>d.
     Inr (Priority d (tt_time_first_seen t) (acts_group (tx_actions (tt_signed_tx t)))))"

text \<open>A higher group first, then a lower nonce difference, then an earlier time.\<close>

fun priority_le :: "transaction_priority \<Rightarrow> transaction_priority \<Rightarrow> bool" where
  "priority_le (Priority d t g) (Priority d' t' g') \<longleftrightarrow>
     (if g \<noteq> g' then g < g' else if d \<noteq> d' then d' < d else t' \<le> t)"

instantiation transaction_priority :: linorder
begin

definition less_eq_transaction_priority :: "transaction_priority \<Rightarrow> transaction_priority \<Rightarrow> bool" where
  "less_eq_transaction_priority = priority_le"

definition less_transaction_priority :: "transaction_priority \<Rightarrow> transaction_priority \<Rightarrow> bool" where
  "less_transaction_priority a b \<longleftrightarrow> a \<le> b \<and> \<not> b \<le> a"

instance
proof
  fix a b c :: transaction_priority
  show "a < b \<longleftrightarrow> a \<le> b \<and> \<not> b \<le> a" by (rule less_transaction_priority_def)
  show "a \<le> a" by (cases a) (simp add: less_eq_transaction_priority_def)
  show "a \<le> b \<Longrightarrow> b \<le> c \<Longrightarrow> a \<le> c" by (cases a; cases b; cases c) (auto simp: less_eq_transaction_priority_def split: if_splits)
  show "a \<le> b \<Longrightarrow> b \<le> a \<Longrightarrow> a = b" by (cases a; cases b) (auto simp: less_eq_transaction_priority_def split: if_splits)
  show "a \<le> b \<or> b \<le> a" by (cases a; cases b) (auto simp: less_eq_transaction_priority_def split: if_splits)
qed

end

lemma Priority_le [simp]:
  "Priority d t g \<le> Priority d' t' g' \<longleftrightarrow>
     (if g \<noteq> g' then g < g' else if d \<noteq> d' then d' < d else t' \<le> t)"
  by (simp add: less_eq_transaction_priority_def)

fun deduct_costs :: "costs \<Rightarrow> asset_balances \<Rightarrow> asset_balances res" where
  "deduct_costs [] available = Inr available"
| "deduct_costs ((asset, cost) # cs) available =
     (if cost = 0 then deduct_costs cs available
      else
        and_then (ok_or_eyre (available asset) ''account missing balance'') (\<lambda>current_balance.
        and_then (ok_or_eyre (checked_sub current_balance cost)
            ''cost greater than account's balance'') (\<lambda>new_balance.
        deduct_costs cs (available(asset \<mapsto> new_balance)))))"

definition set_cost_map :: "costs \<Rightarrow> timemarked_tx \<Rightarrow> timemarked_tx" where
  "set_cost_map cost t = t\<lparr>tt_cost := cost\<rparr>"

definition is_expired :: "timemarked_tx \<Rightarrow> int \<Rightarrow> int \<Rightarrow> bool" where
  "is_expired t now ttl \<longleftrightarrow> max 0 (now - tt_time_first_seen t) > ttl"

section \<open>The transactions of an account\<close>

datatype insertion_error =
  AlreadyPresent | NonceTooLow | NonceTaken | NonceGap | AccountSizeLimit | AccountBalanceTooLow
| ParkedSizeLimit

type_synonym account_txs = "(u32 \<times> timemarked_tx) list"

text \<open>\<open>BTreeMap::insert\<close> for a key that is not in the map, and the two parts of \<open>BTreeMap::split_off\<close>.\<close>

fun btree_insert :: "u32 \<Rightarrow> timemarked_tx \<Rightarrow> account_txs \<Rightarrow> account_txs" where
  "btree_insert k v [] = [(k, v)]"
| "btree_insert k v ((k', v') # m) = (if k < k' then (k, v) # (k', v') # m else (k', v') # btree_insert k v m)"

definition btree_below :: "u32 \<Rightarrow> account_txs \<Rightarrow> account_txs" where
  "btree_below k m = filter (\<lambda>(k', _). k' < k) m"

definition btree_from :: "u32 \<Rightarrow> account_txs \<Rightarrow> account_txs" where
  "btree_from k m = filter (\<lambda>(k', _). k \<le> k') m"

definition pending_account_nonce :: "account_txs \<Rightarrow> u32 option" where
  "pending_account_nonce txs = (if txs = [] then None else Some (saturating_add (fst (last txs)) 1))"

definition current_account_nonce :: "account_txs \<Rightarrow> u32 option" where
  "current_account_nonce txs = (case txs of [] \<Rightarrow> None | (nonce, _) # _ \<Rightarrow> Some nonce)"

text \<open>The inner loop of \<open>find_demotables\<close>; \<open>None\<close> breaks the outer loop.\<close>

fun demotion_costs :: "costs \<Rightarrow> asset_balances \<Rightarrow> asset_balances option" where
  "demotion_costs [] available = Some available"
| "demotion_costs ((asset, cost) # cs) available =
     (if cost = 0 then demotion_costs cs available
      else case available asset of
        Some current_balance \<Rightarrow>
          (case checked_sub current_balance cost of
             None \<Rightarrow> None
           | Some new_value \<Rightarrow> demotion_costs cs (available(asset \<mapsto> new_value)))
      | None \<Rightarrow> None)"

fun demotion_split :: "account_txs \<Rightarrow> asset_balances \<Rightarrow> u32 \<Rightarrow> u32" where
  "demotion_split [] available split_at = split_at"
| "demotion_split ((nonce, t) # txs) available split_at =
     (case demotion_costs (tt_cost t) available of
        None \<Rightarrow> split_at
      | Some available' \<Rightarrow> demotion_split txs available' (saturating_add nonce 1))"

text \<open>The transactions that stay, and the ones that are no longer covered by the balances.\<close>

definition account_find_demotables ::
  "asset_balances \<Rightarrow> account_txs \<Rightarrow> account_txs \<times> timemarked_tx list" where
  "account_find_demotables available txs =
     (let split_at = demotion_split txs available 0 in
      (btree_below split_at txs, map snd (btree_from split_at txs)))"

text \<open>Subtracting the costs of all transactions; shortfalls are logged and count as zero.\<close>

fun subtract_costs :: "costs \<Rightarrow> asset_balances \<Rightarrow> asset_balances" where
  "subtract_costs [] b = b"
| "subtract_costs ((asset, cost) # cs) b =
     (if cost = 0 then subtract_costs cs b
      else case b asset of
        None \<Rightarrow> subtract_costs cs b
      | Some current_balance \<Rightarrow>
          subtract_costs cs (b(asset \<mapsto>
            (case checked_sub current_balance cost of None \<Rightarrow> 0 | Some new_balance \<Rightarrow> new_balance))))"

definition account_subtract_contained_costs :: "account_txs \<Rightarrow> asset_balances \<Rightarrow> asset_balances" where
  "account_subtract_contained_costs txs b = foldl (\<lambda>b' (_, t). subtract_costs (tt_cost t) b') b txs"

text \<open>\<open>None\<close> is the early return of all transactions, when the nonces are used up.\<close>

fun promotion_split :: "u32 \<Rightarrow> account_txs \<Rightarrow> asset_balances \<Rightarrow> u32 \<Rightarrow> u32 option" where
  "promotion_split target_nonce [] available split_at = Some split_at"
| "promotion_split target_nonce ((nonce, t) # txs) available split_at =
     (if nonce \<noteq> target_nonce then Some split_at
      else case deduct_costs (tt_cost t) available of
        Inl _ \<Rightarrow> Some split_at
      | Inr available' \<Rightarrow>
          (case checked_add target_nonce 1 of
             None \<Rightarrow> None
           | Some next_target \<Rightarrow> promotion_split next_target txs available' next_target))"

text \<open>The transactions that stay, and the ones that can be promoted.\<close>

definition account_find_promotables ::
  "u32 \<Rightarrow> asset_balances \<Rightarrow> account_txs \<Rightarrow> account_txs \<times> timemarked_tx list" where
  "account_find_promotables target_nonce available txs =
     (case promotion_split target_nonce txs available 0 of
        None \<Rightarrow> ([], map snd txs)
      | Some split_at \<Rightarrow> (btree_from split_at txs, map snd (btree_below split_at txs)))"

section \<open>The two kinds of containers\<close>

text \<open>
  The trait \<open>TransactionsForAccount\<close> has two implementations. \<open>ParkedTxs\<close> carries the limits of the
  parked container: transactions for each account, and in total.
\<close>

datatype container_kind = PendingTxs | ParkedTxs (max_tx_count_per_account: nat) (max_tx_count: nat)

fun is_at_tx_limit :: "container_kind \<Rightarrow> account_txs \<Rightarrow> bool" where
  "is_at_tx_limit PendingTxs txs \<longleftrightarrow> False"
| "is_at_tx_limit (ParkedTxs m _) txs \<longleftrightarrow> length txs \<ge> m"

fun is_sequential_nonce_precondition_met ::
  "container_kind \<Rightarrow> account_txs \<Rightarrow> timemarked_tx \<Rightarrow> u32 \<Rightarrow> bool" where
  "is_sequential_nonce_precondition_met PendingTxs txs t current_nonce \<longleftrightarrow>
     (case checked_sub (tt_nonce t) 1 of
        None \<Rightarrow> current_nonce = 0
      | Some previous_nonce \<Rightarrow> map_of txs previous_nonce \<noteq> None \<or> tt_nonce t = current_nonce)"
| "is_sequential_nonce_precondition_met (ParkedTxs _ _) txs t current_nonce \<longleftrightarrow> True"

fun has_balance_to_cover ::
  "container_kind \<Rightarrow> account_txs \<Rightarrow> timemarked_tx \<Rightarrow> asset_balances \<Rightarrow> bool" where
  "has_balance_to_cover PendingTxs txs t current_balances \<longleftrightarrow>
     \<not> isl (fold_res (\<lambda>t'. deduct_costs (tt_cost t')) (map snd txs @ [t]) current_balances)"
| "has_balance_to_cover (ParkedTxs _ _) txs t current_balances \<longleftrightarrow> True"

definition account_add ::
  "container_kind \<Rightarrow> timemarked_tx \<Rightarrow> u32 \<Rightarrow> asset_balances \<Rightarrow> account_txs \<Rightarrow> insertion_error + account_txs" where
  "account_add kind t current_nonce current_balances txs =
     (if is_at_tx_limit kind txs then Inl AccountSizeLimit
      else if tt_nonce t < current_nonce then Inl NonceTooLow
      else case map_of txs (tt_nonce t) of
        Some existing \<Rightarrow>
          Inl (if tt_tx_hash existing = tt_tx_hash t then AlreadyPresent else NonceTaken)
      | None \<Rightarrow>
          if \<not> is_sequential_nonce_precondition_met kind txs t current_nonce then Inl NonceGap
          else if \<not> has_balance_to_cover kind txs t current_balances then Inl AccountBalanceTooLow
          else Inr (btree_insert (tt_nonce t) t txs))"

text \<open>The transactions that stay, and the hashes of the removed ones.\<close>

definition account_remove :: "u32 \<Rightarrow> account_txs \<Rightarrow> account_txs \<times> bytes list" where
  "account_remove nonce txs =
     (if map_of txs nonce = None then (txs, [])
      else (btree_below nonce txs, map (tt_tx_hash \<circ> snd) (btree_from nonce txs)))"

end
