(* ===== verification/Mempool.thy ===== *)
theory Mempool
  imports Mempool_Accounts
begin

text \<open>
  The sequencer's mempool (\<^verbatim>\<open>crates/astria-sequencer/src/mempool/transactions_container.rs\<close> and
  \<^verbatim>\<open>mempool/mod.rs\<close>): the containers of pending and of parked transactions, the cache of removed
  transactions for CometBFT and the set of tracked hashes.

  A \<open>HashMap\<close> is an association list with distinct keys, which stands for the map in the order of an
  iteration over it. Every operation is atomic here. In the source \<open>insert\<close> holds the lock of the container it writes
  until the hash is tracked, but \<open>run_maintenance\<close> and \<open>remove_tx_invalid\<close> release the locks of the
  containers before they update the removal cache and the tracked hashes, so a concurrent \<open>CheckTx\<close> can see the
  containers already changed and the tracked hashes not yet; these interleavings are not modelled. Logging and metrics
  are left out.
\<close>

section \<open>Containers\<close>

record txs_container =
  c_kind :: container_kind
  c_txs :: "(address_bytes \<times> account_txs) list"
  c_tx_ttl :: int

datatype removal_reason =
  Expired | NonceStale | LowerNonceInvalidated | FailedPrepareProposal error

definition pending_new :: "int \<Rightarrow> txs_container" where
  "pending_new ttl = \<lparr>c_kind = PendingTxs, c_txs = [], c_tx_ttl = ttl\<rparr>"

definition parked_new :: "nat \<Rightarrow> int \<Rightarrow> nat \<Rightarrow> txs_container" where
  "parked_new per_account ttl max_count =
     \<lparr>c_kind = ParkedTxs per_account max_count, c_txs = [], c_tx_ttl = ttl\<rparr>"

definition container_len :: "txs_container \<Rightarrow> nat" where
  "container_len c = sum_list (map (length \<circ> snd) (c_txs c))"

definition check_total_tx_count :: "txs_container \<Rightarrow> insertion_error + unit" where
  "check_total_tx_count c =
     (case c_kind c of
        PendingTxs \<Rightarrow> Inr ()
      | ParkedTxs _ m \<Rightarrow> if container_len c \<ge> m then Inl ParkedSizeLimit else Inr ())"

definition addresses :: "txs_container \<Rightarrow> address_bytes list" where
  "addresses c = map fst (c_txs c)"

text \<open>An account's transactions, none if it has no entry; and the account put back, if it is not empty.\<close>

definition account_of :: "txs_container \<Rightarrow> address_bytes \<Rightarrow> account_txs" where
  "account_of c a = (case map_of (c_txs c) a of None \<Rightarrow> [] | Some txs \<Rightarrow> txs)"

definition put_back :: "address_bytes \<Rightarrow> account_txs \<Rightarrow> txs_container \<Rightarrow> txs_container" where
  "put_back a txs c =
     (let rest = AList.delete a (c_txs c) in
      c\<lparr>c_txs := (if txs = [] then rest else AList.update a txs rest)\<rparr>)"

definition recost_transactions ::
  "'i ext \<Rightarrow> address_bytes \<Rightarrow> 'i state \<Rightarrow> txs_container \<Rightarrow> txs_container" where
  "recost_transactions E a s c =
     (case map_of (c_txs c) a of
        None \<Rightarrow> c
      | Some txs \<Rightarrow>
          c\<lparr>c_txs := AList.update a (map (\<lambda>(nonce, t).
              (nonce, case get_total_transaction_cost E (tt_signed_tx t) s of
                 Inr new_cost \<Rightarrow> set_cost_map new_cost t
               | Inl _ \<Rightarrow> t)) txs) (c_txs c)\<rparr>)"

definition container_add ::
  "timemarked_tx \<Rightarrow> u32 \<Rightarrow> asset_balances \<Rightarrow> txs_container \<Rightarrow> insertion_error + txs_container" where
  "container_add t current_nonce current_balances c =
     (case check_total_tx_count c of
        Inl e \<Rightarrow> Inl e
      | Inr _ \<Rightarrow>
          (case account_add (c_kind c) t current_nonce current_balances (account_of c (tt_address t)) of
             Inl e \<Rightarrow> Inl e
           | Inr txs \<Rightarrow> Inr (c\<lparr>c_txs := AList.update (tt_address t) txs (c_txs c)\<rparr>)))"

text \<open>The removed hashes; \<open>None\<close> hands the transaction back to the caller.\<close>

definition container_remove ::
  "hash_fun \<Rightarrow> transaction \<Rightarrow> txs_container \<Rightarrow> txs_container \<times> bytes list option" where
  "container_remove H tx c =
     (let a = tx_address_bytes H tx in
      case map_of (c_txs c) a of
        None \<Rightarrow> (c, None)
      | Some txs \<Rightarrow>
          let (remaining, removed) = account_remove (tx_nonce tx) txs in
          (put_back a remaining c, if removed = [] then None else Some removed))"

definition clear_account :: "address_bytes \<Rightarrow> txs_container \<Rightarrow> txs_container \<times> bytes list" where
  "clear_account a c =
     (c\<lparr>c_txs := AList.delete a (c_txs c)\<rparr>, map (tt_tx_hash \<circ> snd) (account_of c a))"

definition clean_account_stale_expired ::
  "int \<Rightarrow> address_bytes \<Rightarrow> u32 \<Rightarrow> txs_container \<Rightarrow> txs_container \<times> (bytes \<times> removal_reason) list" where
  "clean_account_stale_expired now a current_nonce c =
     (case map_of (c_txs c) a of
        None \<Rightarrow> (c, [])
      | Some txs \<Rightarrow>
          let remaining = btree_from current_nonce txs;
              stale = map (\<lambda>(_, t). (tt_tx_hash t, NonceStale)) (btree_below current_nonce txs) in
          case remaining of
            [] \<Rightarrow> (put_back a [] c, stale)
          | (_, first) # rest \<Rightarrow>
              if is_expired first now (c_tx_ttl c)
              then (put_back a [] c,
                    stale @ (tt_tx_hash first, Expired) #
                      map (\<lambda>(_, t). (tt_tx_hash t, LowerNonceInvalidated)) rest)
              else (put_back a remaining c, stale))"

definition find_demotables ::
  "address_bytes \<Rightarrow> asset_balances \<Rightarrow> txs_container \<Rightarrow> txs_container \<times> timemarked_tx list" where
  "find_demotables a current_balances c =
     (case map_of (c_txs c) a of
        None \<Rightarrow> (c, [])
      | Some txs \<Rightarrow>
          let (remaining, demoted) = account_find_demotables current_balances txs in
          (put_back a remaining c, demoted))"

definition subtract_contained_costs ::
  "address_bytes \<Rightarrow> asset_balances \<Rightarrow> txs_container \<Rightarrow> asset_balances" where
  "subtract_contained_costs a current_balances c =
     (case map_of (c_txs c) a of
        None \<Rightarrow> current_balances
      | Some txs \<Rightarrow> account_subtract_contained_costs txs current_balances)"

definition container_pending_nonce :: "address_bytes \<Rightarrow> txs_container \<Rightarrow> u32 option" where
  "container_pending_nonce a c = Option.bind (map_of (c_txs c) a) pending_account_nonce"

text \<open>
  The queue for the next proposal: the transactions in descending order of priority. Sorting is stable
  here, so the order of transactions of the same priority is that of the iteration over the map.
\<close>

record queue_entry =
  qe_tx :: transaction
  qe_tx_hash :: bytes
  qe_priority :: transaction_priority

definition account_queue :: "account_txs \<Rightarrow> queue_entry list" where
  "account_queue txs =
     (case current_account_nonce txs of
        None \<Rightarrow> []
      | Some n \<Rightarrow> concat (map (\<lambda>(_, t).
          case priority t n of
            Inl _ \<Rightarrow> []
          | Inr p \<Rightarrow> [\<lparr>qe_tx = tt_signed_tx t, qe_tx_hash = tt_tx_hash t, qe_priority = p\<rparr>]) txs))"

definition builder_queue :: "txs_container \<Rightarrow> (bytes \<times> transaction) list" where
  "builder_queue c =
     map (\<lambda>e. (qe_tx_hash e, qe_tx e))
       (rev (sort_key qe_priority (concat (map (account_queue \<circ> snd) (c_txs c)))))"

definition find_promotables ::
  "address_bytes \<Rightarrow> u32 \<Rightarrow> asset_balances \<Rightarrow> txs_container \<Rightarrow> txs_container \<times> timemarked_tx list" where
  "find_promotables a target_nonce available c =
     (case map_of (c_txs c) a of
        None \<Rightarrow> (c, [])
      | Some txs \<Rightarrow>
          let (remaining, promoted) = account_find_promotables target_nonce available txs in
          (put_back a remaining c, promoted))"

section \<open>The cache of removed transactions\<close>

definition TX_TTL :: int where
  "TX_TTL = 240"

definition MAX_PARKED_TXS_PER_ACCOUNT :: nat where
  "MAX_PARKED_TXS_PER_ACCOUNT = 15"

definition REMOVAL_CACHE_SIZE :: nat where
  "REMOVAL_CACHE_SIZE = 50000"

record removal_cache =
  rc_cache :: "(bytes \<times> removal_reason) list"
  rc_remove_queue :: "bytes list"
  rc_max_size :: nat

definition removal_cache_new :: "nat \<Rightarrow> removal_cache" where
  "removal_cache_new m = \<lparr>rc_cache = [], rc_remove_queue = [], rc_max_size = m\<rparr>"

definition cache_remove :: "bytes \<Rightarrow> removal_cache \<Rightarrow> removal_cache \<times> removal_reason option" where
  "cache_remove h r = (r\<lparr>rc_cache := AList.delete h (rc_cache r)\<rparr>, map_of (rc_cache r) h)"

text \<open>A full queue loses its oldest entry first. Popping from an empty queue would be a panic.\<close>

definition cache_make_room :: "removal_cache \<Rightarrow> removal_cache res" where
  "cache_make_room r =
     (if length (rc_remove_queue r) = rc_max_size r then
        case rc_remove_queue r of
          [] \<Rightarrow> Inl (Panic ''cache should contain elements'')
        | removed # rest \<Rightarrow>
            Inr (r\<lparr>rc_remove_queue := rest, rc_cache := AList.delete removed (rc_cache r)\<rparr>)
      else Inr r)"

definition cache_add :: "bytes \<Rightarrow> removal_reason \<Rightarrow> removal_cache \<Rightarrow> removal_cache res" where
  "cache_add h reason r =
     (if map_of (rc_cache r) h \<noteq> None then Inr r
      else and_then (cache_make_room r) (\<lambda>r1.
        Inr (r1\<lparr>rc_remove_queue := rc_remove_queue r1 @ [h],
                rc_cache := AList.update h reason (rc_cache r1)\<rparr>)))"

section \<open>The mempool\<close>

record mempool =
  pending :: txs_container
  parked :: txs_container
  comet_bft_removal_cache :: removal_cache
  contained_txs :: "bytes set"

definition mempool_new :: "nat \<Rightarrow> mempool" where
  "mempool_new parked_max_tx_count =
     \<lparr>pending = pending_new TX_TTL,
      parked = parked_new MAX_PARKED_TXS_PER_ACCOUNT TX_TTL parked_max_tx_count,
      comet_bft_removal_cache = removal_cache_new REMOVAL_CACHE_SIZE,
      contained_txs = {}\<rparr>"

definition track :: "bytes \<Rightarrow> mempool \<Rightarrow> mempool" where
  "track h M = M\<lparr>contained_txs := insert h (contained_txs M)\<rparr>"

definition untrack :: "bytes \<Rightarrow> mempool \<Rightarrow> mempool" where
  "untrack h M = M\<lparr>contained_txs := contained_txs M - {h}\<rparr>"

definition mempool_len :: "mempool \<Rightarrow> nat" where
  "mempool_len M = card (contained_txs M)"

text \<open>
  The loop that promotes transactions. When one cannot be added, the hash given for the failure is
  untracked: \<open>on_failure\<close> maps the transaction to it.
\<close>

fun promote_all ::
  "(timemarked_tx \<Rightarrow> bytes) \<Rightarrow> u32 \<Rightarrow> asset_balances \<Rightarrow> timemarked_tx list \<Rightarrow> mempool \<Rightarrow> mempool" where
  "promote_all on_failure current_nonce current_balances [] M = M"
| "promote_all on_failure current_nonce current_balances (t # ts) M =
     promote_all on_failure current_nonce current_balances ts
       (case container_add t current_nonce current_balances (pending M) of
          Inr c \<Rightarrow> M\<lparr>pending := c\<rparr>
        | Inl _ \<Rightarrow> untrack (on_failure t) M)"

fun demote_all ::
  "u32 \<Rightarrow> asset_balances \<Rightarrow> timemarked_tx list \<Rightarrow> mempool \<Rightarrow> mempool" where
  "demote_all current_nonce current_balances [] M = M"
| "demote_all current_nonce current_balances (t # ts) M =
     demote_all current_nonce current_balances ts
       (case container_add t current_nonce current_balances (parked M) of
          Inr c \<Rightarrow> M\<lparr>parked := c\<rparr>
        | Inl _ \<Rightarrow> untrack (tt_tx_hash t) M)"

text \<open>
  Inserting a transaction: as pending if possible, otherwise as parked. A new pending transaction may
  make parked ones executable. If one of those cannot be promoted, the source untracks the hash of the
  inserted transaction and not that of the failed one.
\<close>

definition mempool_insert ::
  "timemarked_tx \<Rightarrow> u32 \<Rightarrow> asset_balances \<Rightarrow> mempool \<Rightarrow> (mempool \<times> (insertion_error + unit)) res" where
  "mempool_insert t current_nonce current_balances M =
     (case container_add t current_nonce current_balances (pending M) of
        Inl e \<Rightarrow>
          if e = NonceGap \<or> e = AccountBalanceTooLow then
            case container_add t current_nonce current_balances (parked M) of
              Inr c \<Rightarrow> Inr (track (tt_tx_hash t) (M\<lparr>parked := c\<rparr>), Inr ())
            | Inl e' \<Rightarrow> Inr (M, Inl e')
          else Inr (M, Inl e)
      | Inr c \<Rightarrow>
          and_then (expect (checked_add (tt_nonce t) 1) ''failed to increment nonce in promotion'') (\<lambda>next_nonce.
          let (parked1, to_promote) = find_promotables (tt_address t) next_nonce
                (subtract_contained_costs (tt_address t) current_balances c) (parked M);
              M1 = promote_all (\<lambda>_. tt_tx_hash t) current_nonce current_balances to_promote
                (M\<lparr>pending := c, parked := parked1\<rparr>) in
          Inr (track (tt_tx_hash t) M1, Inr ())))"

definition mempool_builder_queue :: "mempool \<Rightarrow> (bytes \<times> transaction) list" where
  "mempool_builder_queue M = builder_queue (pending M)"

definition forget_removed :: "bytes \<times> removal_reason \<Rightarrow> mempool \<Rightarrow> mempool res" where
  "forget_removed = (\<lambda>(h, reason) M.
     and_then (cache_add h reason (comet_bft_removal_cache M)) (\<lambda>r.
     Inr (untrack h (M\<lparr>comet_bft_removal_cache := r\<rparr>))))"

definition remove_tx_invalid ::
  "hash_fun \<Rightarrow> transaction \<Rightarrow> removal_reason \<Rightarrow> mempool \<Rightarrow> mempool res" where
  "remove_tx_invalid H tx reason M =
     (let (pending1, removed_pending) = container_remove H tx (pending M);
          M1 = M\<lparr>pending := pending1\<rparr>;
          (M2, removed_txs) =
            (case removed_pending of
               Some removed \<Rightarrow>
                 let (parked1, cleared) = clear_account (tx_address_bytes H tx) (parked M)
                 in (M1\<lparr>parked := parked1\<rparr>, Some (removed @ cleared))
             | None \<Rightarrow>
                 let (parked1, removed_parked) = container_remove H tx (parked M)
                 in (M1\<lparr>parked := parked1\<rparr>, removed_parked)) in
      case removed_txs of
        None \<Rightarrow> Inr M2
      | Some removed \<Rightarrow>
          and_then (cache_add (tx_id tx) reason (comet_bft_removal_cache M2)) (\<lambda>r.
          fold_res forget_removed (map (\<lambda>h. (h, LowerNonceInvalidated)) removed)
            (M2\<lparr>comet_bft_removal_cache := r\<rparr>)))"

definition mempool_check_removed_comet_bft ::
  "bytes \<Rightarrow> mempool \<Rightarrow> mempool \<times> removal_reason option" where
  "mempool_check_removed_comet_bft h M =
     (let (r, reason) = cache_remove h (comet_bft_removal_cache M) in
      (M\<lparr>comet_bft_removal_cache := r\<rparr>, reason))"

definition is_tracked :: "bytes \<Rightarrow> mempool \<Rightarrow> bool" where
  "is_tracked h M \<longleftrightarrow> h \<in> contained_txs M"

text \<open>\<^verbatim>\<open>mempool/mempool_state.rs\<close>.\<close>

definition get_account_balances :: "'i state \<Rightarrow> address_bytes \<Rightarrow> asset_balances" where
  "get_account_balances s a = (\<lambda>asset. balances s (a, asset))"

text \<open>
  Maintenance of one account against the state after a block, with \<open>now\<close> the reading of the clock: what is left of the mempool and the removed
  transactions.
\<close>

definition clean_account ::
  "'i ext \<Rightarrow> int \<Rightarrow> bool \<Rightarrow> 'i state \<Rightarrow> address_bytes \<Rightarrow> mempool \<Rightarrow>
   mempool \<times> (bytes \<times> removal_reason) list" where
  "clean_account E now recost s a M =
     (let (pending1, removed1) = clean_account_stale_expired now a (get_account_nonce s a) (pending M);
          pending2 = (if recost then recost_transactions E a s pending1 else pending1);
          (parked1, removed2) = clean_account_stale_expired now a (get_account_nonce s a) (parked M);
          parked2 = (if recost then recost_transactions E a s parked1 else parked1)
      in (M\<lparr>pending := pending2, parked := parked2\<rparr>, removed1 @ removed2))"

definition rebalance_account :: "'i state \<Rightarrow> address_bytes \<Rightarrow> mempool \<Rightarrow> mempool" where
  "rebalance_account s a M =
     (let current_nonce = get_account_nonce s a;
          current_balances = get_account_balances s a;
          (pending1, demotion_txs) = find_demotables a current_balances (pending M) in
      if demotion_txs = [] then
        let pending_nonce =
              (case container_pending_nonce a pending1 of None \<Rightarrow> current_nonce | Some n \<Rightarrow> n);
            remaining_balances = subtract_contained_costs a current_balances pending1;
            (parked1, promotion_txs) = find_promotables a pending_nonce remaining_balances (parked M)
        in promote_all tt_tx_hash current_nonce current_balances promotion_txs
             (M\<lparr>pending := pending1, parked := parked1\<rparr>)
      else demote_all current_nonce current_balances demotion_txs (M\<lparr>pending := pending1\<rparr>))"

fun maintain_accounts ::
  "'i ext \<Rightarrow> int \<Rightarrow> bool \<Rightarrow> 'i state \<Rightarrow> address_bytes list \<Rightarrow> mempool \<Rightarrow>
   mempool \<times> (bytes \<times> removal_reason) list" where
  "maintain_accounts E now recost s [] M = (M, [])"
| "maintain_accounts E now recost s (a # as) M =
     (let (M1, removed) = clean_account E now recost s a M;
          (M2, removed') = maintain_accounts E now recost s as (rebalance_account s a M1)
      in (M2, removed @ removed'))"

definition run_maintenance ::
  "'i ext \<Rightarrow> int \<Rightarrow> bool \<Rightarrow> 'i state \<Rightarrow> mempool \<Rightarrow> mempool res" where
  "run_maintenance E now recost s M =
     (let (M1, removed) = maintain_accounts E now recost s
            (remdups (addresses (pending M) @ addresses (parked M))) M
      in fold_res forget_removed removed M1)"

definition mempool_pending_nonce :: "address_bytes \<Rightarrow> mempool \<Rightarrow> u32 option" where
  "mempool_pending_nonce a M = container_pending_nonce a (pending M)"

end
