(* ===== verification/Mempool_Laws.thy ===== *)
theory Mempool_Laws
  imports Mempool "HOL-Library.Multiset"
begin

text \<open>
  What the operations of the mempool's containers do, seen through two abstractions: the transactions
  of each account (\<open>account_of\<close>) and the multiset of the hashes in a container (\<open>hashes\<close>).
\<close>

section \<open>Accounts\<close>

definition wf_account :: "address_bytes \<Rightarrow> account_txs \<Rightarrow> bool" where
  "wf_account a txs \<longleftrightarrow> sorted_wrt (<) (map fst txs) \<and>
     list_all (\<lambda>(n, t). tt_nonce t = n \<and> tt_address t = a) txs"

lemma wf_account_Nil [simp]: "wf_account a []"
  by (simp add: wf_account_def)

lemma btree_insert_set: "set (btree_insert k v m) = insert (k, v) (set m)"
  by (induction k v m rule: btree_insert.induct) auto

lemma btree_insert_mset: "mset (btree_insert k v m) = add_mset (k, v) (mset m)"
  by (induction k v m rule: btree_insert.induct) auto

lemma btree_insert_sorted:
  "sorted_wrt (<) (map fst m) \<Longrightarrow> k \<notin> fst ` set m \<Longrightarrow> sorted_wrt (<) (map fst (btree_insert k v m))"
proof (induction k v m rule: btree_insert.induct)
  case (2 k v k' v' m)
  then show ?case by (auto simp: btree_insert_set)
qed simp

lemma btree_insert_append:
  "list_all (\<lambda>(k', _). k' < k) m \<Longrightarrow> btree_insert k v m = m @ [(k, v)]"
  by (induction k v m rule: btree_insert.induct) auto

lemma wf_account_filter: "wf_account a txs \<Longrightarrow> wf_account a (filter P txs)"
  by (induction txs) (auto simp: wf_account_def)

lemma wf_account_insert:
  assumes "wf_account (tt_address t) txs" "map_of txs (tt_nonce t) = None"
  shows "wf_account (tt_address t) (btree_insert (tt_nonce t) t txs)"
  using assms btree_insert_sorted [of txs "tt_nonce t" t]
  by (auto simp: wf_account_def list_all_iff btree_insert_set map_of_eq_None_iff)

lemma wf_account_recost:
  assumes "wf_account a txs" "\<And>n t. tt_signed_tx (f n t) = tt_signed_tx t \<and> tt_address (f n t) = tt_address t"
  shows "wf_account a (map (\<lambda>(n, t). (n, f n t)) txs)"
proof -
  have "map fst (map (\<lambda>(n, t). (n, f n t)) txs) = map fst txs" by auto
  then have "sorted_wrt (<) (map fst (map (\<lambda>(n, t). (n, f n t)) txs))"
    using assms(1) unfolding wf_account_def by argo
  then show ?thesis using assms by (auto simp: wf_account_def list_all_iff)
qed

lemma split_mset: "mset (btree_below k txs) + mset (btree_from k txs) = mset txs"
  by (induction txs) (auto simp: btree_below_def btree_from_def)

text \<open>A sorted map is its lower part followed by its upper part.\<close>

lemma split_append:
  "sorted_wrt (<) (map fst txs) \<Longrightarrow> btree_below k txs @ btree_from k txs = txs"
proof (induction txs)
  case (Cons x txs)
  show ?case
  proof (cases "fst x < k")
    case True
    with Cons show ?thesis by (auto simp: btree_below_def btree_from_def)
  next
    case False
    then have "\<forall>y\<in>set (x # txs). \<not> fst y < k" using Cons.prems by fastforce
    then show ?thesis 
      by (auto simp: btree_below_def btree_from_def filter_empty_conv split_beta not_less intro!: filter_True)
  qed
qed (simp add: btree_below_def btree_from_def)

lemma account_add_Inr:
  "account_add kind t n b txs = Inr txs' \<longleftrightarrow>
     \<not> is_at_tx_limit kind txs \<and> n \<le> tt_nonce t \<and> map_of txs (tt_nonce t) = None \<and>
     is_sequential_nonce_precondition_met kind txs t n \<and> has_balance_to_cover kind txs t b \<and>
     txs' = btree_insert (tt_nonce t) t txs"
  by (auto simp: account_add_def not_less split: option.splits if_splits)

section \<open>Containers by account\<close>

definition wf_container :: "txs_container \<Rightarrow> bool" where
  "wf_container c \<longleftrightarrow> distinct (map fst (c_txs c))"

lemma account_of_put_back [simp]: "account_of (put_back a txs c) = (account_of c)(a := txs)"
  by (auto simp: account_of_def put_back_def Let_def fun_eq_iff AList.delete_conv' AList.update_conv')

lemma put_back_kind [simp]: "c_kind (put_back a txs c) = c_kind c" "c_tx_ttl (put_back a txs c) = c_tx_ttl c"
  by (simp_all add: put_back_def Let_def)

lemma wf_container_put_back [simp]: "wf_container c \<Longrightarrow> wf_container (put_back a txs c)"
  by (simp add: wf_container_def put_back_def Let_def distinct_update distinct_delete)

definition with_account :: "address_bytes \<Rightarrow> account_txs \<Rightarrow> txs_container \<Rightarrow> txs_container" where
  "with_account a txs c = c\<lparr>c_txs := AList.update a txs (c_txs c)\<rparr>"

lemma account_of_with_account [simp]: "account_of (with_account a txs c) = (account_of c)(a := txs)"
  by (auto simp: account_of_def with_account_def fun_eq_iff AList.update_conv')

lemma with_account_kind [simp]:
  "c_kind (with_account a txs c) = c_kind c" "c_tx_ttl (with_account a txs c) = c_tx_ttl c"
  by (simp_all add: with_account_def)

lemma wf_container_with_account [simp]: "wf_container c \<Longrightarrow> wf_container (with_account a txs c)"
  by (simp add: wf_container_def with_account_def distinct_update)

lemma account_of_None: "map_of (c_txs c) a = None \<Longrightarrow> account_of c a = []"
  by (simp add: account_of_def)

lemma account_of_Some: "map_of (c_txs c) a = Some txs \<Longrightarrow> account_of c a = txs"
  by (simp add: account_of_def)

section \<open>Containers by hashes\<close>

definition account_hashes :: "account_txs \<Rightarrow> bytes multiset" where
  "account_hashes txs = mset (map (tt_tx_hash \<circ> snd) txs)"

definition hashes :: "txs_container \<Rightarrow> bytes multiset" where
  "hashes c = sum_list (map (account_hashes \<circ> snd) (c_txs c))"

lemma account_hashes_Nil [simp]: "account_hashes [] = {#}"
  by (simp add: account_hashes_def)

lemma account_hashes_Cons: "account_hashes (x # txs) = add_mset (tt_tx_hash (snd x)) (account_hashes txs)"
  by (simp add: account_hashes_def)

lemma account_hashes_insert [simp]:
  "account_hashes (btree_insert k t txs) = add_mset (tt_tx_hash t) (account_hashes txs)"
proof -
  have "account_hashes m = image_mset (tt_tx_hash \<circ> snd) (mset m)" for m by (simp add: account_hashes_def)
  then show ?thesis by (simp add: btree_insert_mset)
qed

lemma account_hashes_split:
  "account_hashes (btree_below k txs) + account_hashes (btree_from k txs) = account_hashes txs"
proof -
  have "account_hashes m = image_mset (tt_tx_hash \<circ> snd) (mset m)" for m by (simp add: account_hashes_def)
  then show ?thesis using arg_cong [OF split_mset, of "image_mset (tt_tx_hash \<circ> snd)" k txs] by simp
qed

lemma hashes_delete:
  "distinct (map fst xs) \<Longrightarrow>
    sum_list (map (account_hashes \<circ> snd) xs) =
      account_hashes (case map_of xs a of None \<Rightarrow> [] | Some txs \<Rightarrow> txs) +
      sum_list (map (account_hashes \<circ> snd) (AList.delete a xs))"
proof (induction xs)
  case (Cons x xs)
  show ?case
  proof (cases "fst x = a")
    case True
    then have "map_of xs a = None" using Cons.prems by (auto simp: map_of_eq_None_iff)
    then have "AList.delete a xs = xs" by (intro AList.delete_id) (auto simp: map_of_eq_None_iff)
    then show ?thesis using True by (cases x) (simp add: AList.delete_eq)
  next
    case False
    then show ?thesis using Cons by (cases x) (simp add: AList.delete_eq add.left_commute)
  qed
qed (simp add: AList.delete_eq)

lemma hashes_split: "wf_container c \<Longrightarrow> hashes c = account_hashes (account_of c a) + hashes (put_back a [] c)"
  using hashes_delete [of "c_txs c" a]
  by (simp add: hashes_def wf_container_def account_of_def put_back_def Let_def)

lemma hashes_put_back:
  assumes "wf_container c"
  shows "hashes (put_back a txs c) = account_hashes txs + hashes (put_back a [] c)"
proof -
  have "a \<notin> fst ` set (AList.delete a (c_txs c))" using AList.delete_keys [of a "c_txs c"] by (auto simp: AList.delete_eq)
  then have "AList.update a txs (AList.delete a (c_txs c)) = AList.delete a (c_txs c) @ [(a, txs)]"
    by (rule update_fresh)
  then show ?thesis by (simp add: hashes_def put_back_def Let_def ac_simps)
qed

lemma delete_update_same: "AList.delete a (AList.update a txs xs) = AList.delete a xs"
  by (induction xs) (auto simp: AList.delete_eq)

lemma hashes_with_account:
  assumes "wf_container c"
  shows "hashes (with_account a txs c) = account_hashes txs + hashes (put_back a [] c)"
proof -
  have "hashes (put_back a [] (with_account a txs c)) = hashes (put_back a [] c)"
    by (simp add: put_back_def Let_def with_account_def delete_update_same hashes_def)
  then show ?thesis
    using hashes_split [OF wf_container_with_account [OF assms], of a txs a] by simp
qed

text \<open>
  The two laws by which a container's account is replaced.
\<close>

lemma put_back_moves:
  "wf_container c \<Longrightarrow> account_hashes (account_of c a) = account_hashes txs + X \<Longrightarrow>
    hashes c = hashes (put_back a txs c) + X"
  using hashes_split [of c a] hashes_put_back [of c a txs] by (simp add: ac_simps)

lemma with_account_moves:
  "wf_container c \<Longrightarrow> account_hashes txs = account_hashes (account_of c a) + X \<Longrightarrow>
    hashes (with_account a txs c) = hashes c + X"
  using hashes_split [of c a] hashes_with_account [of c a txs] by (simp add: ac_simps)

lemma container_len_hashes: "container_len c = size (hashes c)"
proof -
  have "sum_list (map (length \<circ> snd) xs) = size (sum_list (map (account_hashes \<circ> snd) xs))"
    for xs :: "(address_bytes \<times> account_txs) list"
    by (induction xs) (auto simp: account_hashes_def)
  then show ?thesis by (simp add: container_len_def hashes_def)
qed

section \<open>The operations of a container\<close>

definition tx_hashes :: "timemarked_tx list \<Rightarrow> bytes multiset" where
  "tx_hashes ts = mset (map tt_tx_hash ts)"

lemma tx_hashes_simps [simp]:
  "tx_hashes [] = {#}" "tx_hashes (t # ts) = add_mset (tt_tx_hash t) (tx_hashes ts)"
  by (simp_all add: tx_hashes_def)

lemma tx_hashes_map_snd: "tx_hashes (map snd txs) = account_hashes txs"
  by (simp add: tx_hashes_def account_hashes_def)

lemma container_add_Inr:
  "container_add t n b c = Inr c' \<longleftrightarrow> check_total_tx_count c = Inr () \<and>
    (\<exists>txs. account_add (c_kind c) t n b (account_of c (tt_address t)) = Inr txs \<and>
      c' = with_account (tt_address t) txs c)"
  by (auto simp: container_add_def with_account_def split: sum.splits)

lemma container_add_law:
  assumes "container_add t n b c = Inr c'" "wf_container c"
  shows "wf_container c' \<and> c_kind c' = c_kind c \<and> hashes c' = add_mset (tt_tx_hash t) (hashes c)"
proof -
  from assms(1) obtain txs where
    "account_add (c_kind c) t n b (account_of c (tt_address t)) = Inr txs"
    and c': "c' = with_account (tt_address t) txs c" by (auto simp: container_add_Inr)
  then have "account_hashes txs = account_hashes (account_of c (tt_address t)) + {#tt_tx_hash t#}"
    by (auto simp: account_add_Inr)
  from with_account_moves [OF assms(2) this] assms(2) c' show ?thesis by simp
qed

lemma account_remove_cases:
  assumes "account_remove n txs = (rest, removed)"
  shows "account_hashes txs = account_hashes rest + mset removed"
    and "rest = txs \<or> rest = btree_below n txs"
  using assms account_hashes_split [of n txs]
  by (auto simp: account_remove_def account_hashes_def split: if_splits)

lemma container_remove_law:
  assumes "container_remove H tx c = (c', r)" "wf_container c"
  shows "wf_container c' \<and> c_kind c' = c_kind c \<and>
    hashes c = hashes c' + mset (case r of None \<Rightarrow> [] | Some removed \<Rightarrow> removed)"
    and "\<exists>txs. account_of c' = (account_of c)(tx_address_bytes H tx := txs) \<and>
      (txs = account_of c (tx_address_bytes H tx) \<or>
       txs = btree_below (tx_nonce tx) (account_of c (tx_address_bytes H tx)))"
proof -
  let ?a = "tx_address_bytes H tx"
  consider "c' = c" "r = None" | rest removed where
    "account_remove (tx_nonce tx) (account_of c ?a) = (rest, removed)"
    "c' = put_back ?a rest c" "r = (if removed = [] then None else Some removed)"
  proof (cases "map_of (c_txs c) ?a")
    case None
    then show ?thesis using assms(1) that(1) by (simp add: container_remove_def)
  next
    case (Some txs)
    obtain rest removed where *: "account_remove (tx_nonce tx) txs = (rest, removed)"
      by (cases "account_remove (tx_nonce tx) txs")
    show ?thesis using assms(1) Some * account_of_Some [OF Some]
      by (intro that(2) [of rest removed]) (simp_all add: container_remove_def)
  qed
  note cases = this
  show "wf_container c' \<and> c_kind c' = c_kind c \<and>
      hashes c = hashes c' + mset (case r of None \<Rightarrow> [] | Some removed \<Rightarrow> removed)"
  proof (cases rule: cases)
    case (2 rest removed)
    have "mset (case r of None \<Rightarrow> [] | Some removed \<Rightarrow> removed) = mset removed" using 2(3) by simp
    with put_back_moves [OF assms(2) account_remove_cases(1) [OF 2(1)]] wf_container_put_back [OF assms(2)]
    show ?thesis unfolding 2(2) by simp
  qed (simp add: assms(2))
  show "\<exists>txs. account_of c' = (account_of c)(?a := txs) \<and>
      (txs = account_of c ?a \<or> txs = btree_below (tx_nonce tx) (account_of c ?a))"
  proof (cases rule: cases)
    case (2 rest removed)
    with account_remove_cases(2) [OF 2(1)] show ?thesis by (metis account_of_put_back)
  next
    case 1
    then have "account_of c' = (account_of c)(?a := account_of c ?a)" by simp
    then show ?thesis by blast
  qed
qed

lemma clear_account_law:
  assumes "clear_account a c = (c', removed)" "wf_container c"
  shows "wf_container c' \<and> c_kind c' = c_kind c \<and> hashes c = hashes c' + mset removed"
    and "account_of c' = (account_of c)(a := [])"
proof -
  have c': "c' = put_back a [] c" and r: "mset removed = account_hashes (account_of c a)"
    using assms(1) by (auto simp: clear_account_def put_back_def account_hashes_def)
  from c' r hashes_split [OF assms(2), of a] assms(2)
  show "wf_container c' \<and> c_kind c' = c_kind c \<and> hashes c = hashes c' + mset removed" by simp
  from c' show "account_of c' = (account_of c)(a := [])" by simp
qed

lemma clean_account_stale_expired_law:
  assumes "clean_account_stale_expired now a n c = (c', removed)" "wf_container c"
  shows "wf_container c' \<and> c_kind c' = c_kind c \<and> hashes c = hashes c' + mset (map fst removed)"
    and "\<exists>txs. account_of c' = (account_of c)(a := txs) \<and> (txs = [] \<or> txs = btree_from n (account_of c a))"
proof -
  have snd_map: "mset (map fst (map (\<lambda>(_, t). (tt_tx_hash t, x)) m)) = account_hashes m"
    for m and x :: removal_reason by (induction m) (auto simp: account_hashes_def)
  have "(c' = c \<and> removed = []) \<or>
     (\<exists>txs. c' = put_back a txs c \<and> (txs = [] \<or> txs = btree_from n (account_of c a)) \<and>
       account_hashes (account_of c a) = account_hashes txs + mset (map fst removed))"
  proof (cases "map_of (c_txs c) a")
    case None
    then show ?thesis using assms(1) by (simp add: clean_account_stale_expired_def)
  next
    case (Some txs)
    then have txs: "account_of c a = txs" by (rule account_of_Some)
    show ?thesis
    proof (cases "btree_from n txs")
      case Nil
      then show ?thesis using assms(1) Some txs account_hashes_split [of n txs]
        by (auto simp: clean_account_stale_expired_def snd_map simp del: map_map mset_map)
    next
      case (Cons first rest)
      have "account_hashes txs = account_hashes (btree_below n txs) + account_hashes (first # rest)"
        using account_hashes_split [of n txs] Cons by simp
      then show ?thesis using assms(1) Some txs Cons
        by (cases first) (auto simp: clean_account_stale_expired_def snd_map Let_def account_hashes_Cons
            simp del: map_map mset_map split: if_splits)
    qed
  qed
  then show "wf_container c' \<and> c_kind c' = c_kind c \<and> hashes c = hashes c' + mset (map fst removed)"
    using assms(2) put_back_moves [OF assms(2)] by fastforce
  show "\<exists>txs. account_of c' = (account_of c)(a := txs) \<and> (txs = [] \<or> txs = btree_from n (account_of c a))"
  proof (cases "map_of (c_txs c) a")
    case None
    then have "account_of c' = (account_of c)(a := [])"
      using assms(1) account_of_None [OF None] by (auto simp: clean_account_stale_expired_def)
    then show ?thesis by blast
  next
    case (Some txs)
    then show ?thesis using assms(1) account_of_Some [OF Some]
      by (auto simp: clean_account_stale_expired_def Let_def split: list.splits prod.splits if_splits)
  qed
qed

lemma find_demotables_law:
  assumes "find_demotables a b c = (c', ts)" "wf_container c"
  shows "wf_container c' \<and> c_kind c' = c_kind c \<and> hashes c = hashes c' + tx_hashes ts"
    and "account_of c' = (account_of c)(a := fst (account_find_demotables b (account_of c a)))"
    and "ts = snd (account_find_demotables b (account_of c a))"
proof -
  let ?r = "account_find_demotables b (account_of c a)"
  have nil: "account_find_demotables b [] = ([], [])"
    by (simp add: account_find_demotables_def btree_below_def btree_from_def)
  have h: "account_hashes (account_of c a) = account_hashes (fst ?r) + tx_hashes (snd ?r)"
    using account_hashes_split [of "demotion_split (account_of c a) b 0" "account_of c a"]
    by (simp add: account_find_demotables_def Let_def tx_hashes_map_snd)
  show ts: "ts = snd ?r"
    using assms(1) nil by (auto simp: find_demotables_def account_of_def split: option.splits prod.splits)
  have "c' = c \<and> account_of c a = [] \<or> c' = put_back a (fst ?r) c"
    using assms(1) by (auto simp: find_demotables_def account_of_def split: option.splits prod.splits)
  then show "wf_container c' \<and> c_kind c' = c_kind c \<and> hashes c = hashes c' + tx_hashes ts"
    using assms(2) put_back_moves [OF assms(2) h] nil ts by auto
  show "account_of c' = (account_of c)(a := fst ?r)"
    using \<open>_ \<or> _\<close> nil by (auto simp: fun_eq_iff)
qed

lemma find_promotables_law:
  assumes "find_promotables a n b c = (c', ts)" "wf_container c"
  shows "wf_container c' \<and> c_kind c' = c_kind c \<and> hashes c = hashes c' + tx_hashes ts"
    and "account_of c' = (account_of c)(a := fst (account_find_promotables n b (account_of c a)))"
    and "ts = snd (account_find_promotables n b (account_of c a))"
proof -
  let ?r = "account_find_promotables n b (account_of c a)"
  have nil: "account_find_promotables n b [] = ([], [])"
    by (simp add: account_find_promotables_def btree_below_def btree_from_def)
  have h: "account_hashes (account_of c a) = account_hashes (fst ?r) + tx_hashes (snd ?r)"
    using account_hashes_split by (auto simp: account_find_promotables_def tx_hashes_map_snd ac_simps
        split: option.splits)
  show ts: "ts = snd ?r"
    using assms(1) nil by (auto simp: find_promotables_def account_of_def split: option.splits prod.splits)
  have "c' = c \<and> account_of c a = [] \<or> c' = put_back a (fst ?r) c"
    using assms(1) by (auto simp: find_promotables_def account_of_def split: option.splits prod.splits)
  then show "wf_container c' \<and> c_kind c' = c_kind c \<and> hashes c = hashes c' + tx_hashes ts"
    using assms(2) put_back_moves [OF assms(2) h] nil ts by auto
  show "account_of c' = (account_of c)(a := fst ?r)"
    using \<open>_ \<or> _\<close> nil by (auto simp: fun_eq_iff)
qed

definition recost_account :: "'i ext \<Rightarrow> 'i state \<Rightarrow> account_txs \<Rightarrow> account_txs" where
  "recost_account E s txs = map (\<lambda>(nonce, t).
     (nonce, case get_total_transaction_cost E (tt_signed_tx t) s of
        Inr new_cost \<Rightarrow> set_cost_map new_cost t | Inl _ \<Rightarrow> t)) txs"

lemma recost_account_hashes: "account_hashes (recost_account E s txs) = account_hashes txs"
proof -
  have "tt_tx_hash (case r of Inr new_cost \<Rightarrow> set_cost_map new_cost t | Inl _ \<Rightarrow> t) = tt_tx_hash t"
    for r :: "costs res" and t by (auto simp: set_cost_map_def split: sum.splits)
  then have "map (tt_tx_hash \<circ> snd) (recost_account E s txs) = map (tt_tx_hash \<circ> snd) txs"
    by (auto simp: recost_account_def)
  then show ?thesis by (simp add: account_hashes_def)
qed

lemma recost_transactions_law:
  assumes "wf_container c"
  shows "wf_container (recost_transactions E a s c) \<and> c_kind (recost_transactions E a s c) = c_kind c \<and>
      hashes (recost_transactions E a s c) = hashes c"
    and "account_of (recost_transactions E a s c) = (account_of c)(a := recost_account E s (account_of c a))"
proof -
  have *: "recost_transactions E a s c = c \<and> account_of c a = [] \<or>
      recost_transactions E a s c = with_account a (recost_account E s (account_of c a)) c"
    by (auto simp: recost_transactions_def account_of_def with_account_def recost_account_def
        split: option.splits)
  then show "wf_container (recost_transactions E a s c) \<and> c_kind (recost_transactions E a s c) = c_kind c \<and>
      hashes (recost_transactions E a s c) = hashes c"
    using assms with_account_moves [OF assms, of "recost_account E s (account_of c a)" a "{#}"]
    by (auto simp: recost_account_hashes)
  from * show "account_of (recost_transactions E a s c) = (account_of c)(a := recost_account E s (account_of c a))"
    by (auto simp: recost_account_def fun_eq_iff)
qed

end
