(* ===== verification/Mempool_Runs.thy ===== *)
theory Mempool_Runs
  imports Mempool_Laws
begin

text \<open>
  Properties of the accounts of the mempool that every operation keeps. A property of a single
  account is lifted to the containers (\<open>account_property\<close>), and a property of the pending and one of the parked
  accounts to the operations of the mempool (\<open>mempool_property\<close>).
\<close>

section \<open>Lifting a property of accounts to containers\<close>

definition all_accounts :: "(address_bytes \<Rightarrow> account_txs \<Rightarrow> bool) \<Rightarrow> txs_container \<Rightarrow> bool" where
  "all_accounts P c \<longleftrightarrow> wf_container c \<and> (\<forall>a. P a (account_of c a))"

lemma recost_account_set_cost:
  "recost_account E s txs = map (\<lambda>(n, t). (n, set_cost_map
     (case get_total_transaction_cost E (tt_signed_tx t) s of Inr new_cost \<Rightarrow> new_cost | Inl _ \<Rightarrow> tt_cost t) t)) txs"
  by (auto simp: recost_account_def set_cost_map_def split: sum.splits)

text \<open>
  A property \<open>P\<close> of an account's transactions in a container of kind \<open>kind\<close>. It may depend on the nonce that
  stale transactions are cut off at (\<open>may_cut\<close>) and on the account nonce a transaction is added with
  (\<open>may_add\<close>).
\<close>

locale account_property =
  fixes kind :: container_kind
    and P :: "address_bytes \<Rightarrow> account_txs \<Rightarrow> bool"
    and may_cut :: "address_bytes \<Rightarrow> u32 \<Rightarrow> bool"
    and may_add :: "address_bytes \<Rightarrow> u32 \<Rightarrow> bool"
  assumes empty: "P a []"
    and below: "P a txs \<Longrightarrow> P a (btree_below k txs)"
    and from_nonce: "may_cut a k \<Longrightarrow> P a txs \<Longrightarrow> P a (btree_from k txs)"
    and costs: "P a txs \<Longrightarrow> P a (map (\<lambda>(n, t). (n, set_cost_map (f n t) t)) txs)"
    and add: "may_add (tt_address t) n \<Longrightarrow> P (tt_address t) txs \<Longrightarrow>
      account_add kind t n b txs = Inr txs' \<Longrightarrow> P (tt_address t) txs'"
begin

lemma container_add:
  assumes "all_accounts P c" "c_kind c = kind" "may_add (tt_address t) n" "container_add t n b c = Inr c'"
  shows "all_accounts P c' \<and> c_kind c' = kind"
proof -
  from assms(4) obtain txs where
    txs: "account_add kind t n b (account_of c (tt_address t)) = Inr txs"
    and c': "c' = with_account (tt_address t) txs c" by (auto simp: container_add_Inr assms(2))
  have "P (tt_address t) txs" using add [OF assms(3) _ txs] assms(1) by (auto simp: all_accounts_def)
  then show ?thesis using assms(1,2) unfolding c' by (auto simp: all_accounts_def)
qed

lemma container_remove:
  assumes "all_accounts P c" "container_remove H tx c = (c', r)"
  shows "all_accounts P c'"
proof -
  have wf: "wf_container c" using assms(1) by (simp add: all_accounts_def)
  obtain txs where "account_of c' = (account_of c)(tx_address_bytes H tx := txs)"
    "txs = account_of c (tx_address_bytes H tx) \<or> txs = btree_below (tx_nonce tx) (account_of c (tx_address_bytes H tx))"
    using container_remove_law(2) [OF assms(2) wf] by blast
  with assms(1) below container_remove_law(1) [OF assms(2) wf] show ?thesis
    by (auto simp: all_accounts_def)
qed

lemma clear_account:
  assumes "all_accounts P c" "clear_account a c = (c', removed)"
  shows "all_accounts P c'"
  using assms(1) clear_account_law [OF assms(2)] empty by (auto simp: all_accounts_def)

lemma clean_account_stale_expired:
  assumes "all_accounts P c" "may_cut a n" "clean_account_stale_expired now a n c = (c', removed)"
  shows "all_accounts P c'"
proof -
  have wf: "wf_container c" using assms(1) by (simp add: all_accounts_def)
  obtain txs where "account_of c' = (account_of c)(a := txs)"
    "txs = [] \<or> txs = btree_from n (account_of c a)"
    using clean_account_stale_expired_law(2) [OF assms(3) wf] by blast
  with assms(1,2) empty from_nonce clean_account_stale_expired_law(1) [OF assms(3) wf] show ?thesis
    by (auto simp: all_accounts_def)
qed

lemma recost_transactions: "all_accounts P c \<Longrightarrow> all_accounts P (recost_transactions E a s c)"
  using recost_transactions_law [of c E a s] costs by (auto simp: all_accounts_def recost_account_set_cost)

lemma find_demotables:
  assumes "all_accounts P c" "find_demotables a b c = (c', ts)"
  shows "all_accounts P c'"
  using assms(1) find_demotables_law [OF assms(2)] below
  by (auto simp: all_accounts_def account_find_demotables_def Let_def)

lemma find_promotables:
  assumes "all_accounts P c" "find_promotables a n b c = (c', ts)" "\<And>k. may_cut a k"
  shows "all_accounts P c'"
  using assms(1,3) find_promotables_law [OF assms(2)] empty from_nonce
  by (auto simp: all_accounts_def account_find_promotables_def split: option.splits)

end

section \<open>Lifting to the mempool\<close>

definition mempool_holds ::
  "nat \<Rightarrow> nat \<Rightarrow> (address_bytes \<Rightarrow> account_txs \<Rightarrow> bool) \<Rightarrow> (address_bytes \<Rightarrow> account_txs \<Rightarrow> bool) \<Rightarrow> mempool \<Rightarrow> bool" where
  "mempool_holds m k P Q M \<longleftrightarrow> c_kind (pending M) = PendingTxs \<and> all_accounts P (pending M) \<and>
     c_kind (parked M) = ParkedTxs m k \<and> all_accounts Q (parked M)"

lemma mempool_holds_frame [simp]:
  "mempool_holds m k P Q (M\<lparr>comet_bft_removal_cache := r\<rparr>) = mempool_holds m k P Q M"
  "mempool_holds m k P Q (track h M) = mempool_holds m k P Q M"
  "mempool_holds m k P Q (untrack h M) = mempool_holds m k P Q M"
  by (simp_all add: mempool_holds_def track_def untrack_def)

lemma forget_removed_frame:
  assumes "fold_res forget_removed removed M = Inr M'"
  shows "pending M' = pending M \<and> parked M' = parked M"
proof -
  have "pending M' = pending M \<and> parked M' = parked M" if "forget_removed x M = Inr M'" for x M M'
    using that by (auto simp: forget_removed_def untrack_def split: prod.splits)
  then show ?thesis using fold_res_invariant [OF assms, of "\<lambda>N. pending N = pending M \<and> parked N = parked M"]
    by fastforce
qed

lemma mempool_insert_pending:
  assumes "mempool_insert t n b M = Inr (M', r)" "container_add t n b (pending M) = Inr c"
  obtains nn c1 ts where "checked_add (tt_nonce t) 1 = Some nn"
    "find_promotables (tt_address t) nn (subtract_contained_costs (tt_address t) b c) (parked M) = (c1, ts)"
    "M' = track (tt_tx_hash t) (promote_all (\<lambda>_. tt_tx_hash t) n b ts (M\<lparr>pending := c, parked := c1\<rparr>))"
    "r = Inr ()"
proof -
  obtain nn where nn: "checked_add (tt_nonce t) 1 = Some nn" using assms by (auto simp: mempool_insert_def)
  obtain c1 ts where "find_promotables (tt_address t) nn
      (subtract_contained_costs (tt_address t) b c) (parked M) = (c1, ts)" by fastforce
  with nn assms show ?thesis by (intro that [of nn c1 ts]) (simp_all add: mempool_insert_def)
qed

lemma remove_tx_invalid_containers:
  assumes "remove_tx_invalid H tx reason M = Inr M'"
  shows "pending M' = fst (container_remove H tx (pending M)) \<and>
    parked M' = (if snd (container_remove H tx (pending M)) = None then fst (container_remove H tx (parked M))
      else fst (clear_account (tx_address_bytes H tx) (parked M)))"
proof -
  obtain c r where rp: "container_remove H tx (pending M) = (c, r)" by fastforce
  obtain c1 cleared where cp: "clear_account (tx_address_bytes H tx) (parked M) = (c1, cleared)" by fastforce
  obtain c2 r2 where rk: "container_remove H tx (parked M) = (c2, r2)" by fastforce
  show ?thesis
  proof (cases r)
    case None
    then show ?thesis using assms rp rk
      by (cases r2) (auto simp: remove_tx_invalid_def dest!: forget_removed_frame)
  next
    case (Some removed)
    then show ?thesis using assms rp cp
      by (auto simp: remove_tx_invalid_def dest!: forget_removed_frame)
  qed
qed

text \<open>The transactions that leave an account's parked transactions are that account's.\<close>

lemma promotables_from_account:
  assumes "t \<in> set (snd (account_find_promotables n b txs))" "list_all (\<lambda>(_, t). tt_address t = a) txs"
  shows "tt_address t = a"
  using assms by (auto simp: account_find_promotables_def btree_below_def list_all_iff split: option.splits)

locale mempool_property =
  pend: account_property PendingTxs P may_cut may_add +
  park: account_property "ParkedTxs m k" Q "\<lambda>_ _. True" "\<lambda>_ _. True"
  for P may_cut may_add m k Q +
  assumes addresses: "Q a txs \<Longrightarrow> list_all (\<lambda>(_, t). tt_address t = a) txs"
begin

lemma promote_all:
  assumes "mempool_holds m k P Q M" "list_all (\<lambda>t. may_add (tt_address t) n) ts"
  shows "mempool_holds m k P Q (promote_all f n b ts M)"
  using assms
proof (induction ts arbitrary: M)
  case (Cons t ts)
  show ?case
  proof (cases "container_add t n b (pending M)")
    case (Inl e)
    with Cons show ?thesis by simp
  next
    case (Inr c)
    with Cons.prems pend.container_add [of "pending M" t n b c]
    have "mempool_holds m k P Q (M\<lparr>pending := c\<rparr>)" by (auto simp: mempool_holds_def)
    with Cons Inr show ?thesis by simp
  qed
qed simp

lemma demote_all:
  assumes "mempool_holds m k P Q M"
  shows "mempool_holds m k P Q (demote_all n b ts M)"
  using assms
proof (induction ts arbitrary: M)
  case (Cons t ts)
  show ?case
  proof (cases "container_add t n b (parked M)")
    case (Inl e)
    with Cons show ?thesis by simp
  next
    case (Inr c)
    with Cons.prems park.container_add [of "parked M" t n b c]
    have "mempool_holds m k P Q (M\<lparr>parked := c\<rparr>)" by (auto simp: mempool_holds_def)
    with Cons Inr show ?thesis by simp
  qed
qed simp

lemma promoted_addresses:
  assumes "mempool_holds m k P Q M" "find_promotables a n b (parked M) = (c, ts)"
  shows "list_all (\<lambda>t. tt_address t = a) ts"
proof -
  have "wf_container (parked M)" "Q a (account_of (parked M) a)"
    using assms(1) by (simp_all add: mempool_holds_def all_accounts_def)
  then show ?thesis
    using find_promotables_law(3) [OF assms(2)] promotables_from_account addresses
    by (auto simp: list_all_iff)
qed

lemma find_promotables_parked:
  assumes "mempool_holds m k P Q M" "find_promotables a n b (parked M) = (c, ts)"
  shows "all_accounts Q c" "c_kind c = ParkedTxs m k"
  using assms park.find_promotables [of "parked M" a n b c ts] find_promotables_law(1) [OF assms(2)]
  by (simp_all add: mempool_holds_def all_accounts_def)

lemma insert_keeps:
  assumes "mempool_holds m k P Q M" "may_add (tt_address t) n" "mempool_insert t n b M = Inr (M', r)"
  shows "mempool_holds m k P Q M'"
proof (cases "container_add t n b (pending M)")
  case (Inl e)
  with assms(1,3) park.container_add [of "parked M" t n b] show ?thesis
    by (auto simp: mempool_insert_def mempool_holds_def track_def split: if_splits sum.splits)
next
  case (Inr c)
  from assms(3) Inr obtain nn c1 ts where
    f: "find_promotables (tt_address t) nn (subtract_contained_costs (tt_address t) b c) (parked M) = (c1, ts)"
    and M': "M' = track (tt_tx_hash t)
      (promote_all (\<lambda>_. tt_tx_hash t) n b ts (M\<lparr>pending := c, parked := c1\<rparr>))"
    using mempool_insert_pending by blast
  have "mempool_holds m k P Q (M\<lparr>pending := c, parked := c1\<rparr>)"
    using assms(1,2) pend.container_add [OF _ _ _ Inr] find_promotables_parked [OF assms(1) f]
    by (simp add: mempool_holds_def)
  then show ?thesis unfolding M' using promote_all promoted_addresses [OF assms(1) f] assms(2)
    by (simp add: list_all_iff)
qed

lemma remove_keeps:
  assumes "mempool_holds m k P Q M" "remove_tx_invalid H tx reason M = Inr M'"
  shows "mempool_holds m k P Q M'"
proof -
  obtain c r where rp: "container_remove H tx (pending M) = (c, r)" by fastforce
  obtain c1 cleared where cp: "clear_account (tx_address_bytes H tx) (parked M) = (c1, cleared)" by fastforce
  obtain c2 r2 where rk: "container_remove H tx (parked M) = (c2, r2)" by fastforce
  let ?M = "M\<lparr>pending := c, parked := (if r = None then c2 else c1)\<rparr>"
  have wf: "wf_container (pending M)" "wf_container (parked M)"
    using assms(1) by (simp_all add: mempool_holds_def all_accounts_def)
  have "mempool_holds m k P Q ?M"
    using assms(1) pend.container_remove [OF _ rp] park.container_remove [OF _ rk] park.clear_account [OF _ cp]
      container_remove_law(1) [OF rp wf(1)] container_remove_law(1) [OF rk wf(2)] clear_account_law(1) [OF cp wf(2)]
    by (auto simp: mempool_holds_def)
  moreover have "pending M' = pending ?M \<and> parked M' = parked ?M"
    using remove_tx_invalid_containers [OF assms(2)] rp cp rk by simp
  ultimately show ?thesis by (simp add: mempool_holds_def)
qed

lemma clean_account_keeps:
  assumes "mempool_holds m k P Q M" "may_cut a (get_account_nonce s a)"
    "clean_account E now recost s a M = (M', removed)"
  shows "mempool_holds m k P Q M'"
proof -
  let ?n = "get_account_nonce s a"
  obtain c1 r1 where p: "clean_account_stale_expired now a ?n (pending M) = (c1, r1)" by fastforce
  obtain c2 r2 where q: "clean_account_stale_expired now a ?n (parked M) = (c2, r2)" by fastforce
  have wf: "wf_container (pending M)" "wf_container (parked M)"
    using assms(1) by (simp_all add: mempool_holds_def all_accounts_def)
  have "mempool_holds m k P Q (M\<lparr>pending := c1, parked := c2\<rparr>)"
    using assms(1,2) pend.clean_account_stale_expired [OF _ _ p] park.clean_account_stale_expired [OF _ _ q]
      clean_account_stale_expired_law(1) [OF p wf(1)] clean_account_stale_expired_law(1) [OF q wf(2)]
    by (simp add: mempool_holds_def)
  then have "mempool_holds m k P Q (M\<lparr>pending := recost_transactions E a s c1, parked := recost_transactions E a s c2\<rparr>)"
    using pend.recost_transactions [of c1 E a s] park.recost_transactions [of c2 E a s]
      recost_transactions_law(1) [of c1 E a s] recost_transactions_law(1) [of c2 E a s]
    by (auto simp: mempool_holds_def all_accounts_def)
  with \<open>mempool_holds m k P Q (M\<lparr>pending := c1, parked := c2\<rparr>)\<close> show ?thesis
    using assms(3) p q by (auto simp: clean_account_def)
qed

lemma rebalance_account_keeps:
  assumes "mempool_holds m k P Q M" "may_add a (get_account_nonce s a)"
  shows "mempool_holds m k P Q (rebalance_account s a M)"
proof -
  let ?n = "get_account_nonce s a" and ?b = "get_account_balances s a"
  obtain c ds where d: "find_demotables a ?b (pending M) = (c, ds)" by fastforce
  have wf: "wf_container (pending M)" using assms(1) by (simp add: mempool_holds_def all_accounts_def)
  have M1: "mempool_holds m k P Q (M\<lparr>pending := c\<rparr>)"
    using assms(1) pend.find_demotables [OF _ d] find_demotables_law(1) [OF d wf]
    by (simp add: mempool_holds_def)
  obtain c1 ts where f: "find_promotables a (case container_pending_nonce a c of None \<Rightarrow> ?n | Some n \<Rightarrow> n)
      (subtract_contained_costs a ?b c) (parked M) = (c1, ts)" by fastforce
  have "mempool_holds m k P Q (M\<lparr>pending := c, parked := c1\<rparr>)"
    using M1 find_promotables_parked [OF assms(1) f] by (simp add: mempool_holds_def)
  then have "mempool_holds m k P Q (promote_all tt_tx_hash ?n ?b ts (M\<lparr>pending := c, parked := c1\<rparr>))"
    using promote_all promoted_addresses [OF assms(1) f] assms(2) by (simp add: list_all_iff)
  then show ?thesis using demote_all [OF M1] d f by (simp add: rebalance_account_def Let_def)
qed

lemma maintain_accounts_keeps:
  assumes "mempool_holds m k P Q M" "\<And>a. may_cut a (get_account_nonce s a) \<and> may_add a (get_account_nonce s a)"
    "maintain_accounts E now recost s as M = (M', removed)"
  shows "mempool_holds m k P Q M'"
  using assms
proof (induction as arbitrary: M removed)
  case (Cons a as)
  obtain M1 r1 where c: "clean_account E now recost s a M = (M1, r1)" by fastforce
  obtain r2 where "maintain_accounts E now recost s as (rebalance_account s a M1) = (M', r2)"
    using Cons.prems(3) c by (auto split: prod.splits)
  then show ?case
    using Cons.IH Cons.prems(2) rebalance_account_keeps [of M1 a s]
      clean_account_keeps [OF Cons.prems(1) _ c] by blast
qed simp

lemma maintenance_keeps:
  assumes "mempool_holds m k P Q M" "\<And>a. may_cut a (get_account_nonce s a) \<and> may_add a (get_account_nonce s a)"
    "run_maintenance E now recost s M = Inr M'"
  shows "mempool_holds m k P Q M'"
proof -
  obtain M1 removed where M1: "maintain_accounts E now recost s
      (remdups (addresses (pending M) @ addresses (parked M))) M = (M1, removed)" by fastforce
  from maintain_accounts_keeps [OF assms(1,2) M1] assms(3) M1 show ?thesis
    by (auto simp: run_maintenance_def mempool_holds_def dest!: forget_removed_frame)
qed

end

end
