(* ===== verification/Mempool_Safety.thy ===== *)
theory Mempool_Safety
  imports Mempool_Runs
begin

text \<open>
  What the mempool guarantees: after maintenance the pending transactions of every account can be
  executed in a row, the parked ones are bounded, and the tracked hashes are those of the transactions
  in the containers.
\<close>

section \<open>Nonces without gaps\<close>

text \<open>
  A pending transaction's nonce is at most the account's, or the nonce before it is pending too.
\<close>

definition no_gap_above :: "u32 \<Rightarrow> account_txs \<Rightarrow> bool" where
  "no_gap_above c txs \<longleftrightarrow>
     list_all (\<lambda>(n, _). n \<le> c \<or> list_ex (\<lambda>(n', _). unat n = Suc (unat n')) txs) txs"

lemma no_gap_aboveD:
  "no_gap_above c txs \<Longrightarrow> (n, t) \<in> set txs \<Longrightarrow> c < n \<Longrightarrow> \<exists>n' t'. (n', t') \<in> set txs \<and> unat n = Suc (unat n')"
  by (fastforce simp: no_gap_above_def list_all_iff list_ex_iff)

lemma no_gap_aboveI:
  "(\<And>n t. (n, t) \<in> set txs \<Longrightarrow> c < n \<Longrightarrow> \<exists>n' t'. (n', t') \<in> set txs \<and> unat n = Suc (unat n')) \<Longrightarrow>
    no_gap_above c txs"
  by (fastforce simp: no_gap_above_def list_all_iff list_ex_iff not_le)

lemma no_gap_above_mono: "no_gap_above c txs \<Longrightarrow> c \<le> c' \<Longrightarrow> no_gap_above c' txs"
  by (fastforce simp: no_gap_above_def list_all_iff)

lemma no_gap_above_below: "no_gap_above c txs \<Longrightarrow> no_gap_above c (btree_below k txs)"
proof (rule no_gap_aboveI)
  fix n t
  assume *: "no_gap_above c txs" "(n, t) \<in> set (btree_below k txs)" "c < n"
  then obtain n' t' where n': "(n', t') \<in> set txs" "unat n = Suc (unat n')"
    by (auto simp: btree_below_def dest: no_gap_aboveD)
  then have "n' < n" by (simp add: word_less_nat_alt)
  with n' * show "\<exists>n' t'. (n', t') \<in> set (btree_below k txs) \<and> unat n = Suc (unat n')"
    by (auto simp: btree_below_def intro!: exI [of _ n'] exI [of _ t'])
qed

lemma no_gap_above_from: "no_gap_above c txs \<Longrightarrow> k \<le> c \<Longrightarrow> no_gap_above c (btree_from k txs)"
proof (rule no_gap_aboveI)
  fix n t
  assume *: "no_gap_above c txs" "k \<le> c" "(n, t) \<in> set (btree_from k txs)" "c < n"
  then obtain n' t' where n': "(n', t') \<in> set txs" "unat n = Suc (unat n')"
    by (auto simp: btree_from_def dest: no_gap_aboveD)
  then have "k \<le> n'" using * by (simp add: word_less_nat_alt word_le_nat_alt)
  with n' show "\<exists>n' t'. (n', t') \<in> set (btree_from k txs) \<and> unat n = Suc (unat n')"
    by (auto simp: btree_from_def intro!: exI [of _ n'] exI [of _ t'])
qed

lemma no_gap_above_keys: "map fst txs' = map fst txs \<Longrightarrow> no_gap_above c txs' = no_gap_above c txs"
proof -
  assume "map fst txs' = map fst txs"
  then have "fst ` set txs' = fst ` set txs" by (metis list.set_map)
  moreover have "no_gap_above c xs \<longleftrightarrow>
      (\<forall>n\<in>fst ` set xs. n \<le> c \<or> (\<exists>n'\<in>fst ` set xs. unat n = Suc (unat n')))" for xs
    by (simp add: no_gap_above_def list_all_iff list_ex_iff split_beta)
  ultimately show ?thesis by presburger
qed

lemma keys_set_cost: "map fst (map (\<lambda>(n, t). (n, f n t)) txs) = map fst txs"
  by auto

lemma no_gap_above_add:
  assumes "no_gap_above c txs" "account_add PendingTxs t n b txs = Inr txs'" "n \<le> c"
  shows "no_gap_above c txs'"
proof -
  from assms(2) have seq: "is_sequential_nonce_precondition_met PendingTxs txs t n"
    and txs': "txs' = btree_insert (tt_nonce t) t txs" by (auto simp: account_add_Inr)
  have new: "tt_nonce t \<le> c \<or> (\<exists>n' t'. (n', t') \<in> set txs \<and> unat (tt_nonce t) = Suc (unat n'))"
  proof (cases "checked_sub (tt_nonce t) 1")
    case None
    then have "unat (tt_nonce t) = 0" by (auto simp: checked_sub_def word_le_nat_alt split: if_splits)
    then show ?thesis by (simp add: word_le_nat_alt)
  next
    case (Some p)
    then have "unat (tt_nonce t) = Suc (unat p)" by (simp add: int_ops)
    then show ?thesis using seq Some assms(3)
      by (auto dest: map_of_SomeD)
  qed
  show ?thesis
  proof (rule no_gap_aboveI)
    fix n t'
    assume "(n, t') \<in> set txs'" "c < n"
    then show "\<exists>n' t'. (n', t') \<in> set txs' \<and> unat n = Suc (unat n')"
      using new no_gap_aboveD [OF assms(1)] by (fastforce simp: txs' btree_insert_set)
  qed
qed

text \<open>A nonce above the account's that is not taken is above all pending nonces.\<close>

lemma no_gap_above_free:
  assumes "no_gap_above c txs" "c \<le> m" "m \<notin> fst ` set txs" "k \<in> fst ` set txs"
  shows "k < m"
proof (rule ccontr)
  assume "\<not> k < m"
  with assms(3,4) have "m < k" by (metis linorder_neqE)
  then have "m \<in> fst ` set txs" using assms(4)
  proof (induction "unat k - unat m" arbitrary: k)
    case 0
    then show ?case by (simp add: word_less_nat_alt)
  next
    case (Suc d)
    then obtain t where "(k, t) \<in> set txs" "c < k" using assms(2) by fastforce
    then obtain n' t' where n': "(n', t') \<in> set txs" "unat k = Suc (unat n')"
      using no_gap_aboveD [OF assms(1)] by blast
    show ?case
    proof (cases "m = n'")
      case True
      then show ?thesis using n'(1) by force
    next
      case False
      moreover have "unat m \<le> unat n'" using Suc.prems n'(2) by (simp add: word_less_nat_alt)
      ultimately have "m < n'" by (simp add: word_less_nat_alt order_less_le word_unat_eq_iff)
      then show ?thesis using Suc.hyps n' by force
    qed
  qed
  with assms(3) show False ..
qed

lemma account_add_appends:
  assumes "no_gap_above n txs" "account_add PendingTxs t n b txs = Inr txs'"
  shows "txs' = txs @ [(tt_nonce t, t)]"
proof -
  from assms(2) have "n \<le> tt_nonce t" "tt_nonce t \<notin> fst ` set txs"
    and txs': "txs' = btree_insert (tt_nonce t) t txs"
    by (auto simp: account_add_Inr map_of_eq_None_iff)
  then have "list_all (\<lambda>(k, _). k < tt_nonce t) txs"
    using no_gap_above_free [OF assms(1)] by (force simp: list_all_iff)
  then show ?thesis unfolding txs' by (rule btree_insert_append)
qed

section \<open>The invariant of a mempool\<close>

definition pending_ok :: "'i state \<Rightarrow> address_bytes \<Rightarrow> account_txs \<Rightarrow> bool" where
  "pending_ok s a txs \<longleftrightarrow> wf_account a txs \<and> no_gap_above (get_account_nonce s a) txs"

definition parked_ok :: "nat \<Rightarrow> address_bytes \<Rightarrow> account_txs \<Rightarrow> bool" where
  "parked_ok m a txs \<longleftrightarrow> wf_account a txs \<and> length txs \<le> m"

lemma length_btree_insert [simp]: "length (btree_insert k v m) = Suc (length m)"
  by (induction k v m rule: btree_insert.induct) auto

interpretation mem: mempool_property "pending_ok s" "\<lambda>a k. k \<le> get_account_nonce s a"
  "\<lambda>a n. n \<le> get_account_nonce s a" m k "parked_ok m"
  for s :: "'i state" and m k
proof unfold_locales
  fix a txs kk and f :: "u32 \<Rightarrow> timemarked_tx \<Rightarrow> costs"
  show "pending_ok s a []" by (simp add: pending_ok_def no_gap_above_def)
  show "pending_ok s a txs \<Longrightarrow> pending_ok s a (btree_below kk txs)"
    by (simp add: pending_ok_def no_gap_above_below btree_below_def wf_account_filter)
       (simp add: no_gap_above_below flip: btree_below_def)
  show "kk \<le> get_account_nonce s a \<Longrightarrow> pending_ok s a txs \<Longrightarrow> pending_ok s a (btree_from kk txs)"
    using no_gap_above_from [of "get_account_nonce s a" txs kk] wf_account_filter [of a txs]
    by (simp add: pending_ok_def btree_from_def)
  show "pending_ok s a txs \<Longrightarrow> pending_ok s a (map (\<lambda>(n, t). (n, set_cost_map (f n t) t)) txs)"
    using wf_account_recost [of a txs "\<lambda>n t. set_cost_map (f n t) t"]
      no_gap_above_keys [OF keys_set_cost [of "\<lambda>n t. set_cost_map (f n t) t" txs]]
    by (simp add: pending_ok_def set_cost_map_def)
  show "parked_ok m a []" by (simp add: parked_ok_def)
  show "parked_ok m a txs \<Longrightarrow> parked_ok m a (btree_below kk txs)"
    by (auto simp: parked_ok_def btree_below_def wf_account_filter intro: le_trans [OF length_filter_le])
  show "parked_ok m a txs \<Longrightarrow> parked_ok m a (btree_from kk txs)"
    by (auto simp: parked_ok_def btree_from_def wf_account_filter intro: le_trans [OF length_filter_le])
  show "parked_ok m a txs \<Longrightarrow> parked_ok m a (map (\<lambda>(n, t). (n, set_cost_map (f n t) t)) txs)"
    using wf_account_recost [of a txs "\<lambda>n t. set_cost_map (f n t) t"]
    by (simp add: parked_ok_def set_cost_map_def)
  show "parked_ok m a txs \<Longrightarrow> list_all (\<lambda>(_, t). tt_address t = a) txs"
    by (auto simp: parked_ok_def wf_account_def list_all_iff)
next
  fix t n txs b txs'
  assume n: "n \<le> get_account_nonce s (tt_address t)" and p: "pending_ok s (tt_address t) txs"
    and a: "account_add PendingTxs t n b txs = Inr txs'"
  show "pending_ok s (tt_address t) txs'"
    using p no_gap_above_add [OF _ a n] wf_account_insert [of t txs] a
    by (auto simp: pending_ok_def account_add_Inr)
next
  fix t n txs b txs'
  assume "parked_ok m (tt_address t) txs" "account_add (ParkedTxs m k) t n b txs = Inr txs'"
  then show "parked_ok m (tt_address t) txs'"
    using wf_account_insert [of t txs] by (auto simp: parked_ok_def account_add_Inr)
qed

section \<open>After maintenance\<close>

definition deduct_all :: "timemarked_tx list \<Rightarrow> asset_balances \<Rightarrow> asset_balances res" where
  "deduct_all ts b = fold_res (\<lambda>t. deduct_costs (tt_cost t)) ts b"

lemma deduct_all_simps [simp]:
  "deduct_all [] b = Inr b" "deduct_all (t # ts) b = and_then (deduct_costs (tt_cost t) b) (deduct_all ts)"
proof -
  show "deduct_all (t # ts) b = and_then (deduct_costs (tt_cost t) b) (deduct_all ts)"
    by (cases "deduct_costs (tt_cost t) b") (simp_all add: deduct_all_def)
qed (simp add: deduct_all_def)

lemma demotion_costs_deduct:
  "demotion_costs cs b = (case deduct_costs cs b of Inl _ \<Rightarrow> None | Inr b' \<Rightarrow> Some b')"
proof (induction cs b rule: demotion_costs.induct)
  case (2 asset cost cs b)
  then show ?case
    by (cases "b asset"; cases "checked_sub (the (b asset)) cost") (auto simp del: fun_upd_apply)
qed simp

text \<open>What \<open>find_demotables\<close> keeps is covered by the balances.\<close>

lemma demotion_split_ge: "sorted_wrt (<) (map fst txs) \<Longrightarrow> list_all (\<lambda>(n, _). k \<le> n) txs \<Longrightarrow>
    k \<le> demotion_split txs b k"
proof (induction txs b k rule: demotion_split.induct)
  case (2 n t txs b k)
  have kn: "k \<le> saturating_add n 1" using 2(3) order_trans saturating_add_ge_left by fastforce
  have "list_all (\<lambda>(n', _). saturating_add n 1 \<le> n') txs"
    using 2(2) by (auto simp: list_all_iff word_le_nat_alt word_less_nat_alt unat_saturating_add)
  then show ?case using 2(1,2) kn by (auto split: option.splits intro: order_trans)
qed simp

lemma demotion_split_covered:
  assumes "sorted_wrt (<) (map fst txs)" "list_all (\<lambda>(n, _). k \<le> n) txs"
  shows "\<not> isl (deduct_all (map snd (btree_below (demotion_split txs b k) txs)) b)"
  using assms
proof (induction txs b k rule: demotion_split.induct)
  case (1 b k)
  then show ?case by (simp add: btree_below_def)
next
  case (2 n t txs b k)
  have none: "btree_below j ((n, t) # txs) = []" if "j \<le> n" for j
    using that 2(2) by (auto simp: btree_below_def filter_empty_conv not_less)
  show ?case
  proof (cases "demotion_costs (tt_cost t) b")
    case None
    then show ?thesis using none [of k] 2(3) by simp
  next
    case (Some b')
    then have d: "deduct_costs (tt_cost t) b = Inr b'" by (auto simp: demotion_costs_deduct split: sum.splits)
    have "list_all (\<lambda>(n', _). saturating_add n 1 \<le> n') txs"
      using 2(2) by (auto simp: list_all_iff word_le_nat_alt word_less_nat_alt unat_saturating_add)
    then have "\<not> isl (deduct_all (map snd (btree_below (demotion_split txs b' (saturating_add n 1)) txs)) b')"
      using 2(1) [OF Some] 2(2) by simp
    then show ?thesis
      using Some d none [of "demotion_split txs b' (saturating_add n 1)"]
      by (cases "n < demotion_split txs b' (saturating_add n 1)") (auto simp: btree_below_def not_less)
  qed
qed

text \<open>Transactions of an account that can be executed one after the other.\<close>

definition ready :: "'i state \<Rightarrow> address_bytes \<Rightarrow> account_txs \<Rightarrow> bool" where
  "ready s a txs \<longleftrightarrow> pending_ok s a txs \<and> list_all (\<lambda>(n, _). get_account_nonce s a \<le> n) txs \<and>
     \<not> isl (deduct_all (map snd txs) (get_account_balances s a))"

lemma ready_Nil: "ready s a []"
  by (simp add: ready_def pending_ok_def no_gap_above_def)

lemma ready_add:
  assumes r: "ready s (tt_address t) txs"
    and a: "account_add PendingTxs t (get_account_nonce s (tt_address t))
      (get_account_balances s (tt_address t)) txs = Inr txs'"
  shows "ready s (tt_address t) txs'"
proof -
  have "no_gap_above (get_account_nonce s (tt_address t)) txs" using r by (simp add: ready_def pending_ok_def)
  from account_add_appends [OF this a] have txs': "txs' = txs @ [(tt_nonce t, t)]" .
  have "pending_ok s (tt_address t) txs'"
    using mem.pend.add [OF _ _ a] r by (auto simp: ready_def)
  moreover from a have "\<not> isl (deduct_all (map snd txs @ [t]) (get_account_balances s (tt_address t)))"
    "get_account_nonce s (tt_address t) \<le> tt_nonce t" by (simp_all add: account_add_Inr deduct_all_def)
  ultimately show ?thesis using r by (simp add: ready_def txs')
qed

text \<open>Their nonces follow each other, from the account's nonce on.\<close>

lemma consecutive_nonces:
  assumes "sorted_wrt (<) (map fst txs)" "no_gap_above c txs" "list_all (\<lambda>(n, _). c \<le> n) txs"
  shows "map (unat \<circ> fst) txs = [unat c ..< unat c + length txs]"
  using assms
proof (induction txs rule: rev_induct)
  case (snoc x ys)
  obtain n t where x: "x = (n, t)" by (cases x)
  have below: "btree_below n (ys @ [x]) = ys"
    using snoc.prems(1) by (auto simp: btree_below_def x sorted_wrt_append split_beta intro!: filter_True)
  have IH: "map (unat \<circ> fst) ys = [unat c ..< unat c + length ys]"
    using snoc no_gap_above_below [OF snoc.prems(2), of n] unfolding below
    by (simp add: sorted_wrt_append comp_def)
  have "set (map (unat \<circ> fst) ys) = {unat c ..< unat c + length ys}" unfolding IH by simp
  then have image: "(unat \<circ> fst) ` set ys = {unat c ..< unat c + length ys}" by simp
  have keys: "(\<exists>t. (k, t) \<in> set ys) \<longleftrightarrow> unat c \<le> unat k \<and> unat k < unat c + length ys" for k :: u32
  proof -
    have "(\<exists>t. (k, t) \<in> set ys) \<longleftrightarrow> unat k \<in> (unat \<circ> fst) ` set ys"
      by (force simp: image_iff word_unat_eq_iff [symmetric])
    then show ?thesis unfolding image by simp
  qed
  have ge: "unat c \<le> unat n" using snoc.prems(3) by (simp add: x word_le_nat_alt)
  have above: "unat k < unat n" if "(k, t') \<in> set ys" for k t'
    using that snoc.prems(1) by (force simp: x sorted_wrt_append word_less_nat_alt)
  have "\<not> unat n < unat c + length ys" using keys [of n] above ge by blast
  moreover have "unat n \<le> unat c + length ys"
  proof (cases "c < n")
    case True
    then obtain n' t' where "(n', t') \<in> set (ys @ [x])" "unat n = Suc (unat n')"
      using no_gap_aboveD [OF snoc.prems(2), of n t] x by auto
    then show ?thesis using keys [of n'] x by auto
  next
    case False
    then show ?thesis by (simp add: word_less_nat_alt)
  qed
  ultimately show ?case using IH by (simp add: x comp_def)
qed simp

end
