(* ===== verification/Mempool_Maintenance.thy ===== *)
theory Mempool_Maintenance
  imports Mempool_Safety
begin

text \<open>
  The loops of the mempool's maintenance, account by account.
\<close>

abbreviation mempool_ok :: "nat \<Rightarrow> nat \<Rightarrow> 'i state \<Rightarrow> mempool \<Rightarrow> bool" where
  "mempool_ok m k s M \<equiv> mempool_holds m k (pending_ok s) (parked_ok m) M"

lemma mempool_ok_pending:
  assumes "mempool_ok m k s M"
  shows "wf_container (pending M)" "c_kind (pending M) = PendingTxs" "pending_ok s a (account_of (pending M) a)"
  using assms by (simp_all add: mempool_holds_def all_accounts_def)

lemma mempool_ok_parked:
  assumes "mempool_ok m k s M"
  shows "wf_container (parked M)" "c_kind (parked M) = ParkedTxs m k" "parked_ok m a (account_of (parked M) a)"
  using assms by (simp_all add: mempool_holds_def all_accounts_def)

section \<open>Promotions and demotions\<close>

lemma demote_all_pending: "pending (demote_all n b ts M) = pending M"
  by (induction n b ts M rule: demote_all.induct) (auto simp: untrack_def split: sum.splits)

lemma promote_all_other_accounts:
  assumes "list_all (\<lambda>t. tt_address t = a) ts" "a' \<noteq> a"
  shows "account_of (pending (promote_all f n b ts M)) a' = account_of (pending M) a'"
  using assms(1)
proof (induction ts arbitrary: M)
  case (Cons t ts)
  have "account_of c a' = account_of (pending M) a'" if "container_add t n b (pending M) = Inr c" for c
    using that Cons.prems assms(2) by (auto simp: container_add_Inr)
  then show ?case using Cons by (auto simp: untrack_def split: sum.splits)
qed simp

lemma promote_all_ready:
  assumes "c_kind (pending M) = PendingTxs" "list_all (\<lambda>t. tt_address t = a) ts"
    "ready s a (account_of (pending M) a)"
  shows "ready s a (account_of (pending
    (promote_all f (get_account_nonce s a) (get_account_balances s a) ts M)) a)"
  using assms
proof (induction ts arbitrary: M)
  case (Cons t ts)
  let ?n = "get_account_nonce s a" and ?b = "get_account_balances s a"
  show ?case
  proof (cases "container_add t ?n ?b (pending M)")
    case (Inl e)
    then show ?thesis using Cons by (simp add: untrack_def)
  next
    case (Inr c)
    have t: "tt_address t = a" using Cons.prems(2) by simp
    from Inr obtain txs where txs: "account_add PendingTxs t ?n ?b (account_of (pending M) a) = Inr txs"
      and c: "c = with_account a txs (pending M)" by (auto simp: container_add_Inr t Cons.prems(1))
    have "ready s a txs" using ready_add [of s t] txs Cons.prems(3) by (simp add: t)
    then show ?thesis using Cons.IH [of "M\<lparr>pending := c\<rparr>"] Cons.prems(1,2) Inr by (simp add: c)
  qed
qed simp

section \<open>One account\<close>

lemma clean_account_pending:
  assumes "clean_account E now recost s a M = (M', removed)" "wf_container (pending M)"
  shows "list_all (\<lambda>(n, _). get_account_nonce s a \<le> n) (account_of (pending M') a)"
    and "a' \<noteq> a \<Longrightarrow> account_of (pending M') a' = account_of (pending M) a'"
proof -
  let ?n = "get_account_nonce s a"
  obtain c r where c: "clean_account_stale_expired now a ?n (pending M) = (c, r)" by fastforce
  have M': "pending M' = (if recost then recost_transactions E a s c else c)"
    using assms(1) c by (auto simp: clean_account_def split: prod.splits)
  obtain txs where txs: "account_of c = (account_of (pending M))(a := txs)"
    "txs = [] \<or> txs = btree_from ?n (account_of (pending M) a)"
    using clean_account_stale_expired_law(2) [OF c assms(2)] by blast
  have wf: "wf_container c" using clean_account_stale_expired_law(1) [OF c assms(2)] by simp
  have "list_all (\<lambda>(n, _). ?n \<le> n) txs" using txs(2) by (auto simp: btree_from_def list_all_iff)
  moreover from this have "list_all (\<lambda>(n, _). ?n \<le> n) (recost_account E s txs)"
    by (auto simp: recost_account_def list_all_iff)
  ultimately show "list_all (\<lambda>(n, _). ?n \<le> n) (account_of (pending M') a)"
    using M' txs(1) recost_transactions_law(2) [OF wf, of E a s] by simp
  show "a' \<noteq> a \<Longrightarrow> account_of (pending M') a' = account_of (pending M) a'"
    using M' txs(1) recost_transactions_law(2) [OF wf, of E a s] by simp
qed

lemma rebalance_account_ready:
  assumes ok: "mempool_ok m k s M"
    and ge: "list_all (\<lambda>(n, _). get_account_nonce s a \<le> n) (account_of (pending M) a)"
  shows "ready s a (account_of (pending (rebalance_account s a M)) a)"
    and "a' \<noteq> a \<Longrightarrow> account_of (pending (rebalance_account s a M)) a' = account_of (pending M) a'"
proof -
  let ?n = "get_account_nonce s a" and ?b = "get_account_balances s a"
  let ?txs = "account_of (pending M) a"
  let ?k = "demotion_split ?txs ?b 0"
  obtain c ds where d: "find_demotables a ?b (pending M) = (c, ds)" by fastforce
  obtain c1 ts where f: "find_promotables a (case container_pending_nonce a c of None \<Rightarrow> ?n | Some n \<Rightarrow> n)
      (subtract_contained_costs a ?b c) (parked M) = (c1, ts)" by fastforce
  note ok_p = mempool_ok_pending [OF ok]
  have kind: "c_kind c = PendingTxs" using find_demotables_law(1) [OF d ok_p(1)] ok_p(2) by simp
  have acc: "account_of c = (account_of (pending M))(a := btree_below ?k ?txs)"
    using find_demotables_law(2) [OF d ok_p(1)] by (simp add: account_find_demotables_def Let_def)
  have "pending_ok s a (btree_below ?k ?txs)" using mem.pend.below ok_p(3) by blast
  moreover have "list_all (\<lambda>(n, _). ?n \<le> n) (btree_below ?k ?txs)"
    using ge by (auto simp: btree_below_def list_all_iff)
  moreover have "sorted_wrt (<) (map fst ?txs)" using ok_p(3) by (simp add: pending_ok_def wf_account_def)
  then have "\<not> isl (deduct_all (map snd (btree_below ?k ?txs)) ?b)"
    by (rule demotion_split_covered) (simp add: list_all_iff)
  ultimately have r: "ready s a (account_of c a)" by (simp add: ready_def acc)
  have ts: "list_all (\<lambda>t. tt_address t = a) ts" by (rule mem.promoted_addresses [OF ok f])
  show "ready s a (account_of (pending (rebalance_account s a M)) a)"
    using d f r promote_all_ready [of "M\<lparr>pending := c, parked := c1\<rparr>" a ts s tt_tx_hash] kind ts
    by (simp add: rebalance_account_def Let_def demote_all_pending)
  show "a' \<noteq> a \<Longrightarrow> account_of (pending (rebalance_account s a M)) a' = account_of (pending M) a'"
    using d f acc promote_all_other_accounts [OF ts]
    by (simp add: rebalance_account_def Let_def demote_all_pending)
qed

section \<open>All accounts\<close>

lemma maintain_accounts_ready:
  assumes "mempool_ok m k s M" "\<And>a. a \<notin> set as \<Longrightarrow> ready s a (account_of (pending M) a)"
    "maintain_accounts E now recost s as M = (M', removed)"
  shows "ready s a (account_of (pending M') a)"
  using assms
proof (induction as arbitrary: M removed)
  case (Cons x as)
  obtain M1 r1 where c: "clean_account E now recost s x M = (M1, r1)" by fastforce
  let ?M2 = "rebalance_account s x M1"
  obtain r2 where m: "maintain_accounts E now recost s as ?M2 = (M', r2)"
    using Cons.prems(3) c by (auto split: prod.splits)
  have ok1: "mempool_ok m k s M1" by (rule mem.clean_account_keeps [OF Cons.prems(1) _ c]) simp
  have ok2: "mempool_ok m k s ?M2" by (rule mem.rebalance_account_keeps [OF ok1]) simp
  note clean = clean_account_pending [OF c mempool_ok_pending(1) [OF Cons.prems(1)]]
  note rebalance = rebalance_account_ready [OF ok1 clean(1)]
  have "ready s a (account_of (pending ?M2) a)" if "a \<notin> set as" for a
    using that rebalance clean(2) Cons.prems(2) [of a] by (cases "a = x") auto
  from Cons.IH [OF ok2 this m] show ?case .
qed simp

lemma account_of_no_address: "a \<notin> set (addresses c) \<Longrightarrow> account_of c a = []"
  using map_of_eq_None_iff [of "c_txs c" a] by (simp add: addresses_def account_of_def)

lemma run_maintenance_ready:
  assumes "mempool_ok m k s M" "run_maintenance E now recost s M = Inr M'"
  shows "ready s a (account_of (pending M') a)"
proof -
  let ?as = "remdups (addresses (pending M) @ addresses (parked M))"
  obtain M1 removed where M1: "maintain_accounts E now recost s ?as M = (M1, removed)" by fastforce
  have "ready s a (account_of (pending M) a)" if "a \<notin> set ?as" for a
    using that account_of_no_address [of a "pending M"] by (simp add: ready_Nil)
  from maintain_accounts_ready [OF assms(1) this M1] assms(2) M1 show ?thesis
    by (auto simp: run_maintenance_def dest!: forget_removed_frame)
qed

end
