(* ===== verification/Mempool_Tracking.thy ===== *)
theory Mempool_Tracking
  imports Mempool_Maintenance
begin

text \<open>
  The set of tracked hashes against the transactions in the containers. While an operation runs, some
  transactions are in neither container: \<open>tracks X M\<close> says that \<open>X\<close> are the hashes of those.
\<close>

definition tracks :: "bytes multiset \<Rightarrow> mempool \<Rightarrow> bool" where
  "tracks X M \<longleftrightarrow> finite (contained_txs M) \<and> wf_container (pending M) \<and> wf_container (parked M) \<and>
     hashes (pending M) + hashes (parked M) + X = mset_set (contained_txs M)"

lemma tracks_track:
  "tracks X M \<Longrightarrow> h \<notin> contained_txs M \<Longrightarrow> tracks (add_mset h X) (track h M)"
  by (simp add: tracks_def track_def)

lemma tracks_untrack:
  assumes "tracks (add_mset h X) M"
  shows "tracks X (untrack h M)"
proof -
  from assms have *: "hashes (pending M) + hashes (parked M) + add_mset h X = mset_set (contained_txs M)"
    and fin: "finite (contained_txs M)" by (simp_all add: tracks_def)
  from * have "h \<in># mset_set (contained_txs M)" by (metis union_single_eq_member union_mset_add_mset_right)
  then have "h \<in> contained_txs M" using fin by simp
  then have "mset_set (contained_txs M) = add_mset h (mset_set (contained_txs M - {h}))"
    using fin mset_set.remove by fastforce
  with * have "hashes (pending M) + hashes (parked M) + X = mset_set (contained_txs M - {h})" by simp
  then show ?thesis using assms fin by (simp add: tracks_def untrack_def)
qed

lemma tracks_pending:
  "tracks X M \<Longrightarrow> wf_container c \<Longrightarrow> hashes c + Y = hashes (pending M) + X \<Longrightarrow> tracks Y (M\<lparr>pending := c\<rparr>)"
  by (simp add: tracks_def) (metis add.assoc add.commute)

lemma tracks_parked:
  "tracks X M \<Longrightarrow> wf_container c \<Longrightarrow> hashes c + Y = hashes (parked M) + X \<Longrightarrow> tracks Y (M\<lparr>parked := c\<rparr>)"
  by (simp add: tracks_def) (metis add.assoc)

lemma tracks_cache [simp]: "tracks X (M\<lparr>comet_bft_removal_cache := r\<rparr>) = tracks X M"
  by (simp add: tracks_def)

section \<open>Loops\<close>

lemma promote_all_tracks:
  "tracks (X + tx_hashes ts) M \<Longrightarrow> tracks X (promote_all tt_tx_hash n b ts M)"
proof (induction ts arbitrary: M)
  case (Cons t ts)
  show ?case
  proof (cases "container_add t n b (pending M)")
    case (Inl e)
    then show ?thesis using Cons tracks_untrack [of "tt_tx_hash t" "X + tx_hashes ts" M] by simp
  next
    case (Inr c)
    have "tracks (X + tx_hashes ts) (M\<lparr>pending := c\<rparr>)"
      using Cons.prems container_add_law [OF Inr]
      by (intro tracks_pending [OF Cons.prems]) (auto simp: tracks_def)
    then show ?thesis using Cons.IH Inr by simp
  qed
qed simp

lemma demote_all_tracks:
  "tracks (X + tx_hashes ts) M \<Longrightarrow> tracks X (demote_all n b ts M)"
proof (induction ts arbitrary: M)
  case (Cons t ts)
  show ?case
  proof (cases "container_add t n b (parked M)")
    case (Inl e)
    then show ?thesis using Cons tracks_untrack [of "tt_tx_hash t" "X + tx_hashes ts" M] by simp
  next
    case (Inr c)
    have "tracks (X + tx_hashes ts) (M\<lparr>parked := c\<rparr>)"
      using Cons.prems container_add_law [OF Inr]
      by (intro tracks_parked [OF Cons.prems]) (auto simp: tracks_def)
    then show ?thesis using Cons.IH Inr by simp
  qed
qed simp

lemma forget_removed_tracks:
  assumes "tracks (X + mset (map fst removed)) M" "fold_res forget_removed removed M = Inr M'"
  shows "tracks X M'"
  using assms
proof (induction removed arbitrary: M)
  case (Cons x removed)
  obtain h r where x: "x = (h, r)" by (cases x)
  from Cons.prems(2) obtain rc where
    "fold_res forget_removed removed (untrack h (M\<lparr>comet_bft_removal_cache := rc\<rparr>)) = Inr M'"
    by (auto simp: x forget_removed_def)
  moreover have "tracks (X + mset (map fst removed)) (untrack h (M\<lparr>comet_bft_removal_cache := rc\<rparr>))"
    by (rule tracks_untrack) (use Cons.prems(1) in \<open>simp add: x\<close>)
  ultimately show ?case by (rule Cons.IH [rotated])
qed simp

section \<open>Operations\<close>

lemma clean_account_tracks:
  assumes "tracks X M" "clean_account E now recost s a M = (M', removed)"
  shows "tracks (X + mset (map fst removed)) M'"
proof -
  let ?n = "get_account_nonce s a"
  obtain c1 r1 where p: "clean_account_stale_expired now a ?n (pending M) = (c1, r1)" by fastforce
  obtain c2 r2 where q: "clean_account_stale_expired now a ?n (parked M) = (c2, r2)" by fastforce
  let ?c1 = "if recost then recost_transactions E a s c1 else c1"
  let ?c2 = "if recost then recost_transactions E a s c2 else c2"
  have M': "M' = M\<lparr>pending := ?c1, parked := ?c2\<rparr>" "removed = r1 @ r2"
    using assms(2) p q by (auto simp: clean_account_def)
  have wf: "wf_container (pending M)" "wf_container (parked M)" using assms(1) by (simp_all add: tracks_def)
  note law1 = clean_account_stale_expired_law(1) [OF p wf(1)]
  note law2 = clean_account_stale_expired_law(1) [OF q wf(2)]
  have "wf_container ?c1 \<and> hashes ?c1 = hashes c1" "wf_container ?c2 \<and> hashes ?c2 = hashes c2"
    using recost_transactions_law(1) [of c1 E a s] recost_transactions_law(1) [of c2 E a s] law1 law2 by auto
  then have "tracks (X + mset (map fst r1)) (M\<lparr>pending := ?c1\<rparr>)"
    by (intro tracks_pending [OF assms(1)]) (use law1 in \<open>auto simp: ac_simps\<close>)
  then have "tracks (X + mset (map fst r1) + mset (map fst r2)) (M\<lparr>pending := ?c1, parked := ?c2\<rparr>)"
    by (rule tracks_parked)
       (use law2 \<open>wf_container ?c2 \<and> hashes ?c2 = hashes c2\<close> in \<open>auto simp: ac_simps\<close>)
  then show ?thesis by (simp add: M' ac_simps)
qed

lemma rebalance_account_tracks:
  assumes "tracks X M"
  shows "tracks X (rebalance_account s a M)"
proof -
  let ?n = "get_account_nonce s a" and ?b = "get_account_balances s a"
  have wf: "wf_container (pending M)" "wf_container (parked M)" using assms by (simp_all add: tracks_def)
  obtain c ds where d: "find_demotables a ?b (pending M) = (c, ds)" by fastforce
  obtain c1 ts where f: "find_promotables a (case container_pending_nonce a c of None \<Rightarrow> ?n | Some n \<Rightarrow> n)
      (subtract_contained_costs a ?b c) (parked M) = (c1, ts)" by fastforce
  have t1: "tracks (X + tx_hashes ds) (M\<lparr>pending := c\<rparr>)"
    by (rule tracks_pending [OF assms]) (use find_demotables_law(1) [OF d wf(1)] in \<open>auto simp: ac_simps\<close>)
  show ?thesis
  proof (cases "ds = []")
    case True
    with t1 have "tracks X (M\<lparr>pending := c\<rparr>)" by simp
    then have "tracks (X + tx_hashes ts) (M\<lparr>pending := c, parked := c1\<rparr>)"
      by (rule tracks_parked) (use find_promotables_law(1) [OF f wf(2)] in \<open>auto simp: ac_simps\<close>)
    then show ?thesis using promote_all_tracks d f True by (simp add: rebalance_account_def Let_def)
  next
    case False
    then show ?thesis using demote_all_tracks [OF t1] d by (simp add: rebalance_account_def Let_def)
  qed
qed

lemma maintain_accounts_tracks:
  assumes "tracks X M" "maintain_accounts E now recost s as M = (M', removed)"
  shows "tracks (X + mset (map fst removed)) M'"
  using assms
proof (induction as arbitrary: M X removed)
  case (Cons a as)
  obtain M1 r1 where c: "clean_account E now recost s a M = (M1, r1)" by fastforce
  obtain r2 where m: "maintain_accounts E now recost s as (rebalance_account s a M1) = (M', r2)"
    "removed = r1 @ r2" using Cons.prems(2) c by (auto split: prod.splits)
  have "tracks (X + mset (map fst r1)) (rebalance_account s a M1)"
    by (rule rebalance_account_tracks [OF clean_account_tracks [OF Cons.prems(1) c]])
  from Cons.IH [OF this m(1)] show ?case by (simp add: m(2) ac_simps)
qed simp

lemma run_maintenance_tracks:
  assumes "tracks {#} M" "run_maintenance E now recost s M = Inr M'"
  shows "tracks {#} M'"
proof -
  obtain M1 removed where M1: "maintain_accounts E now recost s
      (remdups (addresses (pending M) @ addresses (parked M))) M = (M1, removed)" by fastforce
  show ?thesis
    by (rule forget_removed_tracks [of _ removed M1])
       (use maintain_accounts_tracks [OF assms(1) M1] assms(2) M1 in \<open>auto simp: run_maintenance_def\<close>)
qed

lemma remove_tx_invalid_tracks:
  assumes "tracks {#} M" "remove_tx_invalid H tx reason M = Inr M'"
  shows "tracks {#} M'"
proof -
  have wf: "wf_container (pending M)" "wf_container (parked M)" using assms(1) by (simp_all add: tracks_def)
  obtain c r where rp: "container_remove H tx (pending M) = (c, r)" by fastforce
  note law = container_remove_law(1) [OF rp wf(1)]
  have t1: "tracks (mset (case r of None \<Rightarrow> [] | Some removed \<Rightarrow> removed)) (M\<lparr>pending := c\<rparr>)"
    by (rule tracks_pending [OF assms(1)]) (use law in auto)
  have finish: "tracks {#} M'" if "tracks (mset removed) N"
    "and_then (cache_add (tx_id tx) reason (comet_bft_removal_cache N)) (\<lambda>r.
      fold_res forget_removed (map (\<lambda>h. (h, LowerNonceInvalidated)) removed) (N\<lparr>comet_bft_removal_cache := r\<rparr>)) = Inr M'"
    for N removed
  proof -
    from that(2) obtain rc where
      f: "fold_res forget_removed (map (\<lambda>h. (h, LowerNonceInvalidated)) removed) (N\<lparr>comet_bft_removal_cache := rc\<rparr>) = Inr M'"
      by auto
    show ?thesis by (rule forget_removed_tracks [OF _ f]) (use that(1) in \<open>simp add: comp_def\<close>)
  qed
  show ?thesis
  proof (cases r)
    case None
    obtain c2 r2 where rk: "container_remove H tx (parked M) = (c2, r2)" by fastforce
    have "tracks (mset (case r2 of None \<Rightarrow> [] | Some removed \<Rightarrow> removed)) (M\<lparr>pending := c, parked := c2\<rparr>)"
      by (rule tracks_parked [OF t1]) (use container_remove_law(1) [OF rk wf(2)] None in auto)
    then show ?thesis using assms(2) rp rk None finish [of _ "M\<lparr>pending := c, parked := c2\<rparr>"]
      by (cases r2) (auto simp: remove_tx_invalid_def)
  next
    case (Some removed)
    obtain c1 cleared where cp: "clear_account (tx_address_bytes H tx) (parked M) = (c1, cleared)" by fastforce
    have "tracks (mset (removed @ cleared)) (M\<lparr>pending := c, parked := c1\<rparr>)"
      by (rule tracks_parked [OF t1]) (use clear_account_law(1) [OF cp wf(2)] Some in \<open>auto simp: ac_simps\<close>)
    then show ?thesis using assms(2) rp cp Some finish [of "removed @ cleared" "M\<lparr>pending := c, parked := c1\<rparr>"]
      by (auto simp: remove_tx_invalid_def)
  qed
qed

end
