(* ===== verification/Mempool_Insertion.thy ===== *)
theory Mempool_Insertion
  imports Mempool_Tracking
begin

text \<open>
  Inserting a transaction with the account's current nonce: the parked transactions it makes
  executable are all promoted.
\<close>

section \<open>What can be promoted\<close>

lemma promotion_split_ge:
  "promotion_split target txs b k = Some j \<Longrightarrow> k \<le> target \<Longrightarrow> k \<le> j"
proof (induction target txs b k rule: promotion_split.induct)
  case (2 target n t txs b k)
  show ?case
  proof (cases "n = target \<and> \<not> isl (deduct_costs (tt_cost t) b)")
    case True
    then obtain b' where b': "n = target" "deduct_costs (tt_cost t) b = Inr b'"
      by (cases "deduct_costs (tt_cost t) b") auto
    then obtain next_target where nt: "checked_add target 1 = Some next_target"
      "promotion_split next_target txs b' next_target = Some j"
      using 2(2) by (cases "checked_add target 1") auto
    then have "target \<le> next_target" by (simp add: int_ops word_le_nat_alt)
    with 2(1) [of b' next_target] b' nt 2(3) show ?thesis by (auto intro: order_trans)
  next
    case False
    with 2(2) show ?thesis by (auto split: if_splits sum.splits)
  qed
qed simp

definition promoted :: "u32 \<Rightarrow> account_txs \<Rightarrow> asset_balances \<Rightarrow> u32 \<Rightarrow> account_txs" where
  "promoted target txs b k =
     (case promotion_split target txs b k of None \<Rightarrow> txs | Some j \<Rightarrow> btree_below j txs)"

lemma account_find_promotables_promoted:
  "snd (account_find_promotables target b txs) = map snd (promoted target txs b 0)"
  by (auto simp: account_find_promotables_def promoted_def split: option.splits)

text \<open>The promoted transactions have consecutive nonces, and their costs are covered.\<close>

lemma promoted_consecutive:
  assumes "sorted_wrt (<) (map fst txs)" "list_all (\<lambda>(n, _). k \<le> n) txs" "k \<le> target"
  shows "map (unat \<circ> fst) (promoted target txs b k) =
      [unat target ..< unat target + length (promoted target txs b k)] \<and>
    \<not> isl (deduct_all (map snd (promoted target txs b k)) b)"
  using assms
proof (induction target txs b k rule: promotion_split.induct)
  case (1 target b k)
  then show ?case by (simp add: promoted_def btree_below_def)
next
  case (2 target n t txs b k)
  have none: "btree_below k ((n, t) # txs) = []"
    using 2(2,3) by (auto simp: btree_below_def filter_empty_conv not_less)
  show ?case
  proof (cases "n = target \<and> \<not> isl (deduct_costs (tt_cost t) b)")
    case False
    then have "promoted target ((n, t) # txs) b k = []"
      using none by (auto simp: promoted_def split: sum.splits)
    then show ?thesis by simp
  next
    case True
    then obtain b' where b': "n = target" "deduct_costs (tt_cost t) b = Inr b'"
      by (cases "deduct_costs (tt_cost t) b") auto
    show ?thesis
    proof (cases "checked_add target 1")
      case None
      have "txs = []"
      proof (rule ccontr)
        assume "txs \<noteq> []"
        then obtain y where "y \<in> set txs" by (cases txs) auto
        then have "unat target < unat (fst y)" using 2(2) b'(1) by (auto simp: word_less_nat_alt)
        moreover have "unat (fst y) < 2 ^ 32" using unat_less_pow [of "fst y"] by simp
        ultimately show False using None by (simp add: checked_add_def split: if_splits)
      qed
      then show ?thesis using None b' by (simp add: promoted_def)
    next
      case (Some next_target)
      have nt: "unat next_target = unat target + 1" using Some by (simp add: int_ops)
      have ge: "list_all (\<lambda>(n, _). next_target \<le> n) txs"
        using 2(2) b'(1) nt by (auto simp: list_all_iff word_le_nat_alt word_less_nat_alt)
      have IH: "map (unat \<circ> fst) (promoted next_target txs b' next_target) =
          [unat next_target ..< unat next_target + length (promoted next_target txs b' next_target)] \<and>
          \<not> isl (deduct_all (map snd (promoted next_target txs b' next_target)) b')"
        using 2(1) [OF _ b'(2) Some] b'(1) 2(2) ge by (simp add: comp_def)
      have "n < j" if "promotion_split next_target txs b' next_target = Some j" for j
        using promotion_split_ge [OF that] nt b'(1) by (simp add: word_le_nat_alt word_less_nat_alt)
      then have "promoted target ((n, t) # txs) b k = (n, t) # promoted next_target txs b' next_target"
        using b' Some by (auto simp: promoted_def btree_below_def split: option.splits)
      then show ?thesis using IH b' nt by (simp add: upt_rec comp_def)
    qed
  qed
qed

lemma deduct_costs_subtract: "deduct_costs cs b = Inr b' \<Longrightarrow> subtract_costs cs b = b'"
  by (induction cs b rule: deduct_costs.induct) (auto split: if_splits)

lemma deduct_all_subtract:
  "deduct_all (map snd txs) b = Inr b' \<Longrightarrow> account_subtract_contained_costs txs b = b'"
proof (induction txs arbitrary: b)
  case (Cons x txs)
  then show ?case by (cases x) (auto simp: account_subtract_contained_costs_def dest: deduct_costs_subtract)
qed (simp add: account_subtract_contained_costs_def)

lemma deduct_all_append: "deduct_all (xs @ ys) b = and_then (deduct_all xs b) (deduct_all ys)"
  unfolding deduct_all_def fold_res_append by (rule arg_cong [of _ _ "and_then _"]) (simp add: fun_eq_iff)

section \<open>Promotions succeed\<close>

lemma promote_all_succeeds:
  assumes "c_kind (pending M) = PendingTxs" "list_all (\<lambda>t. tt_address t = a) ts"
    "no_gap_above n (account_of (pending M) a)"
    "map (unat \<circ> tt_nonce) ts = [Suc (unat m) ..< Suc (unat m) + length ts]"
    "m \<in> fst ` set (account_of (pending M) a)" "n \<le> m"
    "list_all (\<lambda>(k, _). k \<le> m) (account_of (pending M) a)"
    "\<not> isl (deduct_all (map snd (account_of (pending M) a) @ ts) b)"
  shows "\<exists>c. \<forall>f N. pending N = pending M \<longrightarrow> promote_all f n b ts N = N\<lparr>pending := c\<rparr>"
  using assms
proof (induction ts arbitrary: M m)
  case (Cons t ts)
  let ?acc = "account_of (pending M) a"
  have t: "tt_address t = a" and nt: "unat (tt_nonce t) = Suc (unat m)"
    using Cons.prems(2,4) by (simp_all add: upt_rec)
  have p: "checked_sub (tt_nonce t) 1 = Some m" using nt by (simp add: int_ops)
  have less: "list_all (\<lambda>(k, _). k < tt_nonce t) ?acc"
    using Cons.prems(7) nt by (auto simp: list_all_iff word_le_nat_alt word_less_nat_alt)
  then have free: "map_of ?acc (tt_nonce t) = None" by (auto simp: map_of_eq_None_iff list_all_iff)
  have "map_of ?acc m \<noteq> None" using Cons.prems(5) by (simp add: map_of_eq_None_iff)
  moreover have "\<not> isl (deduct_all (map snd ?acc @ [t]) b)"
  proof -
    have "deduct_all (map snd ?acc @ t # ts) b = and_then (deduct_all (map snd ?acc @ [t]) b) (deduct_all ts)"
      using deduct_all_append [of "map snd ?acc @ [t]" ts b] by simp
    then show ?thesis using Cons.prems(8) by (cases "deduct_all (map snd ?acc @ [t]) b") auto
  qed
  moreover have "n \<le> tt_nonce t" using Cons.prems(6) nt by (simp add: word_le_nat_alt)
  ultimately have add: "account_add PendingTxs t n b ?acc = Inr (?acc @ [(tt_nonce t, t)])"
    using free p btree_insert_append [OF less, of t] by (simp add: account_add_Inr deduct_all_def)
  let ?c = "with_account a (?acc @ [(tt_nonce t, t)]) (pending M)"
  have c: "container_add t n b (pending M) = Inr ?c"
    using add Cons.prems(1) by (simp add: container_add_Inr t check_total_tx_count_def)
  have "no_gap_above n (?acc @ [(tt_nonce t, t)])" using no_gap_above_add [OF Cons.prems(3) add] by simp
  moreover have "map (unat \<circ> tt_nonce) ts = [Suc (unat (tt_nonce t)) ..< Suc (unat (tt_nonce t)) + length ts]"
  proof -
    have "[Suc (unat m) ..< Suc (unat m) + length (t # ts)] =
        Suc (unat m) # [Suc (Suc (unat m)) ..< Suc (Suc (unat m)) + length ts]"
      by (subst upt_conv_Cons) simp_all
    with Cons.prems(4) have "unat (tt_nonce t) # map (unat \<circ> tt_nonce) ts =
        Suc (unat m) # [Suc (Suc (unat m)) ..< Suc (Suc (unat m)) + length ts]" by (metis comp_apply list.simps(9))
    then show ?thesis by (simp only: nt list.inject simp_thms)
  qed
  moreover have "list_all (\<lambda>(k, _). k \<le> tt_nonce t) (?acc @ [(tt_nonce t, t)])"
    using less by (auto simp: list_all_iff)
  ultimately have "\<exists>d. \<forall>f N. pending N = ?c \<longrightarrow> promote_all f n b ts N = N\<lparr>pending := d\<rparr>"
    using Cons.prems \<open>n \<le> tt_nonce t\<close> Cons.IH [of "M\<lparr>pending := ?c\<rparr>" "tt_nonce t"]
    by (simp add: comp_def)
  then obtain d where "\<And>f N. pending N = ?c \<Longrightarrow> promote_all f n b ts N = N\<lparr>pending := d\<rparr>" by blast
  then have "promote_all f n b (t # ts) N = N\<lparr>pending := d\<rparr>" if "pending N = pending M" for f N
    using c that by simp
  then show ?case by blast
next
  case Nil
  then show ?case by (intro exI [of _ "pending M"]) simp
qed

lemma container_add_pending:
  assumes "mempool_ok m k s M" "container_add t n b (pending M) = Inr c" "n = get_account_nonce s (tt_address t)"
  defines "acc \<equiv> account_of (pending M) (tt_address t)"
  shows "account_of c (tt_address t) = acc @ [(tt_nonce t, t)]" "n \<le> tt_nonce t"
    "list_all (\<lambda>(k, _). k \<le> tt_nonce t) (acc @ [(tt_nonce t, t)])"
    "no_gap_above n (acc @ [(tt_nonce t, t)])"
    "\<not> isl (deduct_all (map snd (acc @ [(tt_nonce t, t)])) b)" "c_kind c = PendingTxs"
proof -
  note ok = mempool_ok_pending [OF assms(1)]
  have gap: "no_gap_above n acc" using ok(3) by (simp add: pending_ok_def acc_def assms(3))
  from assms(2) ok(2) obtain txs where add: "account_add PendingTxs t n b acc = Inr txs"
    and c: "c = with_account (tt_address t) txs (pending M)" by (auto simp: container_add_Inr acc_def)
  have txs: "txs = acc @ [(tt_nonce t, t)]" by (rule account_add_appends [OF gap add])
  show "account_of c (tt_address t) = acc @ [(tt_nonce t, t)]" "c_kind c = PendingTxs"
    using c txs ok(2) by simp_all
  show le: "n \<le> tt_nonce t" using add by (simp add: account_add_Inr)
  show "no_gap_above n (acc @ [(tt_nonce t, t)])" using no_gap_above_add [OF gap add] txs by simp
  show "\<not> isl (deduct_all (map snd (acc @ [(tt_nonce t, t)])) b)"
    using add by (simp add: account_add_Inr deduct_all_def)
  have "tt_nonce t \<notin> fst ` set acc" using add by (simp add: account_add_Inr map_of_eq_None_iff)
  then have "list_all (\<lambda>(k, _). k \<le> tt_nonce t) acc"
    using no_gap_above_free [OF gap le] by (force simp: list_all_iff)
  then show "list_all (\<lambda>(k, _). k \<le> tt_nonce t) (acc @ [(tt_nonce t, t)])" by simp
qed

lemma mempool_insert_tracks:
  assumes ok: "mempool_ok m k s M" and tr: "tracks {#} M" and fresh: "\<not> is_tracked (tt_tx_hash t) M"
    and n: "n = get_account_nonce s (tt_address t)"
    and ins: "mempool_insert t n b M = Inr (M', r)"
  shows "tracks {#} M'"
proof (cases "container_add t n b (pending M)")
  case (Inl e)
  have wf: "wf_container (parked M)" using tr by (simp add: tracks_def)
  have "tracks {#} (track (tt_tx_hash t) (M\<lparr>parked := c\<rparr>))" if "container_add t n b (parked M) = Inr c" for c
  proof -
    have "tracks {#tt_tx_hash t#} (track (tt_tx_hash t) M)"
      using tracks_track [OF tr] fresh by (simp add: is_tracked_def)
    then have "tracks {#} ((track (tt_tx_hash t) M)\<lparr>parked := c\<rparr>)"
      by (rule tracks_parked) (use container_add_law [OF that wf] in \<open>auto simp: track_def\<close>)
    then show ?thesis by (simp add: tracks_def track_def)
  qed
  then show ?thesis using ins Inl tr by (auto simp: mempool_insert_def split: if_splits sum.splits)
next
  case (Inr c)
  let ?a = "tt_address t" and ?acc = "account_of (pending M) (tt_address t) @ [(tt_nonce t, t)]"
  from mempool_insert_pending [OF ins Inr] obtain nn c1 ts where nn: "checked_add (tt_nonce t) 1 = Some nn"
    and f: "find_promotables ?a nn (subtract_contained_costs ?a b c) (parked M) = (c1, ts)"
    and M': "M' = track (tt_tx_hash t) (promote_all (\<lambda>_. tt_tx_hash t) n b ts (M\<lparr>pending := c, parked := c1\<rparr>))"
    by metis
  note pend = container_add_pending [OF ok Inr n]
  note ok_k = mempool_ok_parked [OF ok]
  obtain b' where b': "deduct_all (map snd ?acc) b = Inr b'"
    using pend(5) by (cases "deduct_all (map snd ?acc) b") auto
  have sub: "subtract_contained_costs ?a b c = b'"
    using deduct_all_subtract [OF b'] pend(1) by (auto simp: subtract_contained_costs_def account_of_def
        split: option.splits)
  let ?ps = "promoted nn (account_of (parked M) ?a) b' 0"
  have ts: "ts = map snd ?ps"
    using find_promotables_law(3) [OF f ok_k(1)] by (simp add: sub account_find_promotables_promoted)
  have wf: "wf_account ?a (account_of (parked M) ?a)" using ok_k(3) by (simp add: parked_ok_def)
  have ps: "map (unat \<circ> fst) ?ps = [unat nn ..< unat nn + length ?ps] \<and> \<not> isl (deduct_all (map snd ?ps) b')"
    by (rule promoted_consecutive) (use wf in \<open>auto simp: wf_account_def list_all_iff\<close>)
  have "list_all (\<lambda>(n, t). tt_nonce t = n) ?ps"
    using wf by (auto simp: wf_account_def list_all_iff promoted_def btree_below_def split: option.splits)
  then have nonces: "map (unat \<circ> tt_nonce) ts = map (unat \<circ> fst) ?ps" by (auto simp: ts list_all_iff)
  have "unat nn = Suc (unat (tt_nonce t))" using nn by (simp add: int_ops)
  then have "map (unat \<circ> tt_nonce) ts = [Suc (unat (tt_nonce t)) ..< Suc (unat (tt_nonce t)) + length ts]"
    using ps nonces by (simp add: ts)
  moreover have "\<not> isl (deduct_all (map snd ?acc @ ts) b)"
    using b' ps deduct_all_append [of "map snd ?acc" ts b] by (simp add: ts)
  ultimately obtain d where d: "\<And>f N. pending N = c \<Longrightarrow> promote_all f n b ts N = N\<lparr>pending := d\<rparr>"
    using pend mem.promoted_addresses [OF ok f]
      promote_all_succeeds [of "M\<lparr>pending := c, parked := c1\<rparr>" ?a ts n "tt_nonce t" b] by auto
  let ?T = "track (tt_tx_hash t) M"
  have "tracks {#tt_tx_hash t#} ?T"
    using tracks_track [OF tr] fresh by (simp add: is_tracked_def)
  then have "tracks {#} (?T\<lparr>pending := c\<rparr>)"
    by (rule tracks_pending) (use container_add_law [OF Inr mempool_ok_pending(1) [OF ok]] in \<open>auto simp: track_def\<close>)
  then have "tracks ({#} + tx_hashes ts) (?T\<lparr>pending := c, parked := c1\<rparr>)"
    by (rule tracks_parked) (use find_promotables_law(1) [OF f ok_k(1)] in \<open>auto simp: track_def\<close>)
  then have "tracks {#} (promote_all tt_tx_hash n b ts (?T\<lparr>pending := c, parked := c1\<rparr>))"
    by (rule promote_all_tracks)
  moreover have "promote_all tt_tx_hash n b ts (?T\<lparr>pending := c, parked := c1\<rparr>) = M'"
    unfolding M' by (subst (1 2) d) (simp_all add: track_def)
  ultimately show ?thesis by simp
qed

end
