(* ===== verification/Mempool_Cache.thy ===== *)
theory Mempool_Cache
  imports Mempool_Insertion
begin

text \<open>
  The sizes of the mempool: the cache of removed transactions never exceeds its limit, so that
  removing transactions never panics, and the parked container never exceeds its limits.
\<close>

section \<open>The removal cache\<close>

definition cache_ok :: "removal_cache \<Rightarrow> bool" where
  "cache_ok r \<longleftrightarrow> 0 < rc_max_size r \<and> length (rc_remove_queue r) \<le> rc_max_size r \<and>
     distinct (map fst (rc_cache r)) \<and> set (map fst (rc_cache r)) \<subseteq> set (rc_remove_queue r)"

lemma keys_delete: "fst ` set (AList.delete h xs) = fst ` set xs - {h}"
  by (auto simp: AList.delete_eq image_iff)

lemma cache_ok_new: "0 < m \<Longrightarrow> cache_ok (removal_cache_new m)"
  by (simp add: cache_ok_def removal_cache_new_def)

lemma cache_remove_ok: "cache_ok r \<Longrightarrow> cache_ok (fst (cache_remove h r))"
  using keys_delete [of h "rc_cache r"]
  by (auto simp: cache_ok_def cache_remove_def distinct_delete)

lemma cache_make_room_total:
  assumes "cache_ok r"
  shows "\<exists>r'. cache_make_room r = Inr r' \<and> cache_ok r' \<and> rc_max_size r' = rc_max_size r \<and>
    length (rc_remove_queue r') < rc_max_size r' \<and> map_of (rc_cache r') \<subseteq>\<^sub>m map_of (rc_cache r)"
proof (cases "length (rc_remove_queue r) = rc_max_size r")
  case True
  then obtain h q where q: "rc_remove_queue r = h # q"
    using assms by (cases "rc_remove_queue r") (auto simp: cache_ok_def)
  let ?r = "r\<lparr>rc_remove_queue := q, rc_cache := AList.delete h (rc_cache r)\<rparr>"
  have "cache_make_room r = Inr ?r" using True q by (simp add: cache_make_room_def)
  moreover have "cache_ok ?r" 
    using assms q keys_delete [of h "rc_cache r"] by (auto simp: cache_ok_def distinct_delete)
  moreover have "map_of (rc_cache ?r) \<subseteq>\<^sub>m map_of (rc_cache r)"
    by (simp add: AList.delete_conv' map_le_def)
  ultimately show ?thesis using True q by auto
next
  case False
  then show ?thesis using assms by (auto simp: cache_make_room_def cache_ok_def)
qed

lemma cache_add_total:
  assumes "cache_ok r"
  shows "\<exists>r'. cache_add h reason r = Inr r' \<and> cache_ok r' \<and> rc_max_size r' = rc_max_size r \<and>
    map_of (rc_cache r') h \<noteq> None"
proof (cases "map_of (rc_cache r) h")
  case None
  from cache_make_room_total [OF assms] obtain r1 where r1: "cache_make_room r = Inr r1" "cache_ok r1"
    "rc_max_size r1 = rc_max_size r" "length (rc_remove_queue r1) < rc_max_size r1" by blast
  let ?r = "r1\<lparr>rc_remove_queue := rc_remove_queue r1 @ [h], rc_cache := AList.update h reason (rc_cache r1)\<rparr>"
  have "cache_add h reason r = Inr ?r" using None r1(1) by (simp add: cache_add_def)
  moreover have "cache_ok ?r"
    using r1(2,4) by (auto simp: cache_ok_def distinct_update dom_update)
  ultimately show ?thesis using r1(3) by (auto simp: AList.update_conv')
next
  case (Some x)
  then show ?thesis using assms by (simp add: cache_add_def)
qed

lemma forget_removed_total:
  assumes "cache_ok (comet_bft_removal_cache M)"
  shows "\<exists>M'. fold_res forget_removed removed M = Inr M' \<and> cache_ok (comet_bft_removal_cache M') \<and>
    rc_max_size (comet_bft_removal_cache M') = rc_max_size (comet_bft_removal_cache M)"
  using assms
proof (induction removed arbitrary: M)
  case (Cons x removed)
  obtain h reason where x: "x = (h, reason)" by (cases x)
  from cache_add_total [OF Cons.prems] obtain r where
    r: "cache_add h reason (comet_bft_removal_cache M) = Inr r" "cache_ok r"
      "rc_max_size r = rc_max_size (comet_bft_removal_cache M)" by blast
  then show ?case using Cons.IH [of "untrack h (M\<lparr>comet_bft_removal_cache := r\<rparr>)"]
    by (simp add: x forget_removed_def untrack_def)
qed simp

lemma remove_tx_invalid_total:
  assumes "cache_ok (comet_bft_removal_cache M)"
  shows "\<exists>M'. remove_tx_invalid H tx reason M = Inr M' \<and> cache_ok (comet_bft_removal_cache M') \<and>
    rc_max_size (comet_bft_removal_cache M') = rc_max_size (comet_bft_removal_cache M)"
proof -
  obtain c r where rp: "container_remove H tx (pending M) = (c, r)" by fastforce
  obtain c1 cleared where cp: "clear_account (tx_address_bytes H tx) (parked M) = (c1, cleared)" by fastforce
  obtain c2 r2 where rk: "container_remove H tx (parked M) = (c2, r2)" by fastforce
  have "\<exists>M'. and_then (cache_add (tx_id tx) reason (comet_bft_removal_cache M)) (\<lambda>rc.
      fold_res forget_removed removed (N\<lparr>comet_bft_removal_cache := rc\<rparr>)) = Inr M' \<and>
      cache_ok (comet_bft_removal_cache M') \<and>
      rc_max_size (comet_bft_removal_cache M') = rc_max_size (comet_bft_removal_cache M)" for N removed
  proof -
    from cache_add_total [OF assms] obtain rc where
      rc: "cache_add (tx_id tx) reason (comet_bft_removal_cache M) = Inr rc" "cache_ok rc"
        "rc_max_size rc = rc_max_size (comet_bft_removal_cache M)" by blast
    then show ?thesis using forget_removed_total [of "N\<lparr>comet_bft_removal_cache := rc\<rparr>" removed] by simp
  qed
  then show ?thesis using assms rp cp rk
    by (cases r; cases r2) (simp_all add: remove_tx_invalid_def)
qed

lemma promote_all_frame:
  "comet_bft_removal_cache (promote_all f n b ts M) = comet_bft_removal_cache M \<and>
   parked (promote_all f n b ts M) = parked M"
  by (induction f n b ts M rule: promote_all.induct) (auto simp: untrack_def split: sum.splits)

lemma demote_all_cache:
  "comet_bft_removal_cache (demote_all n b ts M) = comet_bft_removal_cache M"
  by (induction n b ts M rule: demote_all.induct) (auto simp: untrack_def split: sum.splits)

lemma rebalance_account_cache:
  "comet_bft_removal_cache (rebalance_account s a M) = comet_bft_removal_cache M"
  by (simp add: rebalance_account_def Let_def promote_all_frame demote_all_cache split: prod.splits)

lemma clean_account_cache:
  "clean_account E now recost s a M = (M', removed) \<Longrightarrow>
    comet_bft_removal_cache M' = comet_bft_removal_cache M"
  by (auto simp: clean_account_def split: prod.splits)

lemma maintain_accounts_cache:
  "maintain_accounts E now recost s as M = (M', removed) \<Longrightarrow>
    comet_bft_removal_cache M' = comet_bft_removal_cache M"
proof (induction as arbitrary: M removed)
  case (Cons a as)
  obtain M1 r1 where c: "clean_account E now recost s a M = (M1, r1)" by fastforce
  obtain r2 where "maintain_accounts E now recost s as (rebalance_account s a M1) = (M', r2)"
    using Cons.prems c by (auto split: prod.splits)
  from Cons.IH [OF this] clean_account_cache [OF c] show ?case by (simp add: rebalance_account_cache)
qed simp

lemma run_maintenance_total:
  assumes "cache_ok (comet_bft_removal_cache M)"
  shows "\<exists>M'. run_maintenance E now recost s M = Inr M' \<and> cache_ok (comet_bft_removal_cache M') \<and>
    rc_max_size (comet_bft_removal_cache M') = rc_max_size (comet_bft_removal_cache M)"
proof -
  obtain M1 removed where M1: "maintain_accounts E now recost s
      (remdups (addresses (pending M) @ addresses (parked M))) M = (M1, removed)" by fastforce
  from forget_removed_total [of M1 removed] maintain_accounts_cache [OF M1] assms M1
  show ?thesis by (simp add: run_maintenance_def)
qed

lemma mempool_insert_cache:
  assumes "mempool_insert t n b M = Inr (M', r)"
  shows "comet_bft_removal_cache M' = comet_bft_removal_cache M"
proof (cases "container_add t n b (pending M)")
  case (Inl e)
  then show ?thesis using assms
    by (auto simp: mempool_insert_def track_def split: if_splits sum.splits)
next
  case (Inr c)
  from mempool_insert_pending [OF assms Inr] show ?thesis
    by (metis mempool.simps promote_all_frame track_def mempool.surjective mempool.update_convs)
qed

section \<open>The parked container\<close>

definition parked_fits :: "nat \<Rightarrow> mempool \<Rightarrow> bool" where
  "parked_fits k M \<longleftrightarrow> container_len (parked M) \<le> k"

lemma container_len_add:
  assumes "container_add t n b c = Inr c'" "wf_container c" "c_kind c = ParkedTxs m k"
  shows "container_len c' \<le> k"
proof -
  have "container_len c < k" using assms(1,3)
    by (auto simp: container_add_Inr check_total_tx_count_def not_le split: if_splits)
  then show ?thesis using container_add_law [OF assms(1,2)] by (simp add: container_len_hashes)
qed

lemma smaller_container: "hashes c = hashes c' + X \<Longrightarrow> container_len c' \<le> container_len c"
  by (simp add: container_len_hashes)

lemma demote_all_fits:
  assumes "mempool_ok m k s M" "parked_fits k M"
  shows "parked_fits k (demote_all n b ts M)"
  using assms
proof (induction ts arbitrary: M)
  case (Cons t ts)
  show ?case
  proof (cases "container_add t n b (parked M)")
    case (Inl e)
    then show ?thesis using Cons by (simp add: parked_fits_def untrack_def mempool_holds_def)
  next
    case (Inr c)
    have "container_len c \<le> k"
      by (rule container_len_add [OF Inr mempool_ok_parked(1,2) [OF Cons.prems(1)]])
    moreover have "mempool_ok m k s (M\<lparr>parked := c\<rparr>)"
      using Cons.prems(1) mem.park.container_add [of m "parked M" k t n b c] Inr by (auto simp: mempool_holds_def)
    ultimately show ?thesis using Cons.IH [of "M\<lparr>parked := c\<rparr>"] Inr by (simp add: parked_fits_def)
  qed
qed simp

lemma clean_account_fits:
  assumes "parked_fits k M" "wf_container (parked M)" "clean_account E now recost s a M = (M', removed)"
  shows "parked_fits k M'"
proof -
  obtain c2 r2 where q: "clean_account_stale_expired now a (get_account_nonce s a) (parked M) = (c2, r2)" by fastforce
  note law = clean_account_stale_expired_law(1) [OF q assms(2)]
  have "container_len c2 \<le> container_len (parked M)" using law smaller_container by blast
  moreover have "container_len (recost_transactions E a s c2) = container_len c2"
    using recost_transactions_law(1) [of c2 E a s] law by (simp add: container_len_hashes)
  ultimately show ?thesis using assms q
    by (auto simp: clean_account_def parked_fits_def split: prod.splits)
qed

lemma rebalance_account_fits:
  assumes "mempool_ok m k s M" "parked_fits k M"
  shows "parked_fits k (rebalance_account s a M)"
proof -
  let ?n = "get_account_nonce s a" and ?b = "get_account_balances s a"
  obtain c ds where d: "find_demotables a ?b (pending M) = (c, ds)" by fastforce
  obtain c1 ts where f: "find_promotables a (case container_pending_nonce a c of None \<Rightarrow> ?n | Some n \<Rightarrow> n)
      (subtract_contained_costs a ?b c) (parked M) = (c1, ts)" by fastforce
  have "container_len c1 \<le> container_len (parked M)"
    using find_promotables_law(1) [OF f mempool_ok_parked(1) [OF assms(1)]] smaller_container by blast
  moreover have "mempool_ok m k s (M\<lparr>pending := c\<rparr>)"
    using assms(1) mem.pend.find_demotables [OF _ d] find_demotables_law(1) [OF d]
    by (auto simp: mempool_holds_def all_accounts_def)
  then have "parked_fits k (demote_all ?n ?b ds (M\<lparr>pending := c\<rparr>))"
    by (rule demote_all_fits) (use assms(2) in \<open>simp add: parked_fits_def\<close>)
  ultimately show ?thesis using d f assms(2)
    by (auto simp: rebalance_account_def Let_def parked_fits_def promote_all_frame)
qed

lemma maintain_accounts_fits:
  assumes "mempool_ok m k s M" "parked_fits k M" "maintain_accounts E now recost s as M = (M', removed)"
  shows "parked_fits k M'"
  using assms
proof (induction as arbitrary: M removed)
  case (Cons a as)
  obtain M1 r1 where c: "clean_account E now recost s a M = (M1, r1)" by fastforce
  obtain r2 where m: "maintain_accounts E now recost s as (rebalance_account s a M1) = (M', r2)"
    using Cons.prems(3) c by (auto split: prod.splits)
  have ok1: "mempool_ok m k s M1" by (rule mem.clean_account_keeps [OF Cons.prems(1) _ c]) simp
  have "parked_fits k M1"
    by (rule clean_account_fits [OF Cons.prems(2) mempool_ok_parked(1) [OF Cons.prems(1)] c])
  then have "parked_fits k (rebalance_account s a M1)" by (rule rebalance_account_fits [OF ok1])
  moreover have "mempool_ok m k s (rebalance_account s a M1)"
    by (rule mem.rebalance_account_keeps [OF ok1]) simp
  ultimately show ?case by (rule Cons.IH [OF _ _ m, rotated])
qed simp

lemma run_maintenance_fits:
  assumes "mempool_ok m k s M" "parked_fits k M" "run_maintenance E now recost s M = Inr M'"
  shows "parked_fits k M'"
proof -
  obtain M1 removed where M1: "maintain_accounts E now recost s
      (remdups (addresses (pending M) @ addresses (parked M))) M = (M1, removed)" by fastforce
  from maintain_accounts_fits [OF assms(1,2) M1] assms(3) M1 show ?thesis
    by (auto simp: run_maintenance_def parked_fits_def dest!: forget_removed_frame)
qed

lemma mempool_insert_fits:
  assumes "mempool_ok m k s M" "parked_fits k M" "mempool_insert t n b M = Inr (M', r)"
  shows "parked_fits k M'"
proof (cases "container_add t n b (pending M)")
  case (Inl e)
  then show ?thesis using assms container_len_add [OF _ mempool_ok_parked(1,2) [OF assms(1)]]
    by (auto simp: mempool_insert_def track_def parked_fits_def split: if_splits sum.splits)
next
  case (Inr c)
  from mempool_insert_pending [OF assms(3) Inr] obtain nn c1 ts where
    f: "find_promotables (tt_address t) nn (subtract_contained_costs (tt_address t) b c) (parked M) = (c1, ts)"
    and M': "M' = track (tt_tx_hash t) (promote_all (\<lambda>_. tt_tx_hash t) n b ts (M\<lparr>pending := c, parked := c1\<rparr>))"
    by metis
  have "container_len c1 \<le> container_len (parked M)"
    using find_promotables_law(1) [OF f mempool_ok_parked(1) [OF assms(1)]] smaller_container by blast
  then show ?thesis using assms(2) by (simp add: M' parked_fits_def track_def promote_all_frame)
qed

lemma remove_tx_invalid_fits:
  assumes "parked_fits k M" "wf_container (parked M)" "remove_tx_invalid H tx reason M = Inr M'"
  shows "parked_fits k M'"
proof -
  obtain c1 cleared where cp: "clear_account (tx_address_bytes H tx) (parked M) = (c1, cleared)" by fastforce
  obtain c2 r2 where rk: "container_remove H tx (parked M) = (c2, r2)" by fastforce
  have "container_len c1 \<le> container_len (parked M)" "container_len c2 \<le> container_len (parked M)"
    using clear_account_law(1) [OF cp assms(2)] container_remove_law(1) [OF rk assms(2)] smaller_container
    by blast+
  then show ?thesis using assms(1) remove_tx_invalid_containers [OF assms(3)] cp rk
    by (auto simp: parked_fits_def)
qed

end
