(* ===== verification/Mempool_Properties.thy ===== *)
theory Mempool_Properties
  imports Mempool_Cache Sample_Chain
begin

text \<open>
  The runs of a mempool beside a chain, and what holds in all of them.
\<close>

section \<open>Runs\<close>

text \<open>
  A mempool and the latest committed state. Blocks never lower a nonce. A transaction is inserted if its hash is not tracked,
  with the account nonce read from the latest state or, unless \<open>latest\<close> is set, from an earlier one: the handler
  of \<open>CheckTx\<close> reads the nonce before it takes the mempool's locks.
\<close>

inductive mempool_run :: "'i ext \<Rightarrow> nat \<Rightarrow> bool \<Rightarrow> 'i state \<Rightarrow> mempool \<Rightarrow> bool"
  for E :: "'i ext" and k :: nat and latest :: bool where
  new: "mempool_run E k latest s (mempool_new k)"
| block: "mempool_run E k latest s M \<Longrightarrow> (\<And>a. get_account_nonce s a \<le> get_account_nonce s' a) \<Longrightarrow>
    mempool_run E k latest s' M"
| insert: "mempool_run E k latest s M \<Longrightarrow> t = timemarked_new (sha256 E) now tx cost \<Longrightarrow>
    \<not> is_tracked (tt_tx_hash t) M \<Longrightarrow>
    (if latest then n = get_account_nonce s (tt_address t) else n \<le> get_account_nonce s (tt_address t)) \<Longrightarrow>
    mempool_insert t n b M = Inr (M', r) \<Longrightarrow> mempool_run E k latest s M'"
| remove: "mempool_run E k latest s M \<Longrightarrow> remove_tx_invalid (sha256 E) tx reason M = Inr M' \<Longrightarrow>
    mempool_run E k latest s M'"
| check_removed: "mempool_run E k latest s M \<Longrightarrow> mempool_check_removed_comet_bft h M = (M', r) \<Longrightarrow>
    mempool_run E k latest s M'"
| maintain: "mempool_run E k latest s M \<Longrightarrow> run_maintenance E now recost s M = Inr M' \<Longrightarrow>
    mempool_run E k latest s M'"

lemma check_removed_frame:
  assumes "mempool_check_removed_comet_bft h M = (M', r)"
  shows "M' = M\<lparr>comet_bft_removal_cache := fst (cache_remove h (comet_bft_removal_cache M))\<rparr>"
  using assms by (auto simp: mempool_check_removed_comet_bft_def split: prod.splits)

lemma mempool_ok_new: "mempool_ok MAX_PARKED_TXS_PER_ACCOUNT k s (mempool_new k)"
  by (simp add: mempool_holds_def all_accounts_def mempool_new_def pending_new_def parked_new_def
      wf_container_def account_of_def pending_ok_def parked_ok_def no_gap_above_def)

lemma mempool_ok_later:
  assumes "mempool_ok m k s M" "\<And>a. get_account_nonce s a \<le> get_account_nonce s' a"
  shows "mempool_ok m k s' M"
  using assms no_gap_above_mono by (fastforce simp: mempool_holds_def all_accounts_def pending_ok_def)

lemma mempool_run_ok:
  "mempool_run E k latest s M \<Longrightarrow> mempool_ok MAX_PARKED_TXS_PER_ACCOUNT k s M"
proof (induction rule: mempool_run.induct)
  case (new s)
  then show ?case by (rule mempool_ok_new)
next
  case (block s M s')
  show ?case by (rule mempool_ok_later [OF block.IH block.hyps(2)])
next
  case (insert s M t now tx cost n b M' r)
  show ?case by (rule mem.insert_keeps [OF insert.IH _ insert.hyps(5)]) (use insert.hyps(4) in \<open>auto split: if_splits\<close>)
next
  case (remove s M tx reason M')
  show ?case by (rule mem.remove_keeps [OF remove.IH remove.hyps(2)])
next
  case (check_removed s M h M' r)
  then show ?case by (auto dest!: check_removed_frame)
next
  case (maintain s M now recost M')
  show ?case by (rule mem.maintenance_keeps [OF maintain.IH _ maintain.hyps(2)]) simp
qed

lemma mempool_run_cache:
  "mempool_run E k latest s M \<Longrightarrow> cache_ok (comet_bft_removal_cache M) \<and>
    rc_max_size (comet_bft_removal_cache M) = REMOVAL_CACHE_SIZE"
proof (induction rule: mempool_run.induct)
  case (new s)
  then show ?case by (simp add: mempool_new_def removal_cache_new_def cache_ok_def REMOVAL_CACHE_SIZE_def)
next
  case (insert s M t now tx cost n b M' r)
  then show ?case by (simp add: mempool_insert_cache [OF insert.hyps(5)])
next
  case (remove s M tx reason M')
  then show ?case using remove_tx_invalid_total [of M "sha256 E" tx reason] by auto
next
  case (check_removed s M h M' r)
  then show ?case using cache_remove_ok by (auto dest!: check_removed_frame simp: cache_remove_def)
next
  case (maintain s M now recost M')
  then show ?case using run_maintenance_total [of M E now recost s] by auto
qed simp

lemma mempool_run_fits: "mempool_run E k latest s M \<Longrightarrow> parked_fits k M"
proof (induction rule: mempool_run.induct)
  case (new s)
  then show ?case by (simp add: mempool_new_def parked_new_def parked_fits_def container_len_def)
next
  case (insert s M t now tx cost n b M' r)
  show ?case by (rule mempool_insert_fits [OF mempool_run_ok [OF insert.hyps(1)] insert.IH insert.hyps(5)])
next
  case (remove s M tx reason M')
  show ?case
    by (rule remove_tx_invalid_fits [OF remove.IH mempool_ok_parked(1) [OF mempool_run_ok [OF remove.hyps(1)]] remove.hyps(2)])
next
  case (check_removed s M h M' r)
  then show ?case by (auto dest!: check_removed_frame simp: parked_fits_def)
next
  case (maintain s M now recost M')
  show ?case by (rule run_maintenance_fits [OF mempool_run_ok [OF maintain.hyps(1)] maintain.IH maintain.hyps(2)])
qed

lemma mempool_run_tracks: "mempool_run E k True s M \<Longrightarrow> tracks {#} M"
proof (induction rule: mempool_run.induct)
  case (new s)
  then show ?case by (simp add: tracks_def mempool_new_def pending_new_def parked_new_def wf_container_def hashes_def)
next
  case (insert s M t now tx cost n b M' r)
  then show ?case
    by (intro mempool_insert_tracks [OF mempool_run_ok [OF insert.hyps(1)] _ _ _ insert.hyps(5)]) simp_all
next
  case (remove s M tx reason M')
  then show ?case by (blast intro: remove_tx_invalid_tracks)
next
  case (check_removed s M h M' r)
  then show ?case by (auto dest!: check_removed_frame)
next
  case (maintain s M now recost M')
  then show ?case by (blast intro: run_maintenance_tracks)
qed simp

section \<open>Properties\<close>

text \<open>
  C22. After maintenance the pending transactions can be executed: whatever happened to a mempool, maintaining it against
  the latest state succeeds, and then the pending transactions of every account have consecutive nonces starting at the
  account's nonce, and the account's balances cover the costs of all of them.
\<close>

theorem maintained_mempool_is_executable:
  assumes "mempool_run E k latest s M"
  shows "\<exists>M'. run_maintenance E now recost s M = Inr M' \<and>
    (\<forall>a. let txs = map snd (account_of (pending M') a) in
      map (unat \<circ> tt_nonce) txs = [unat (get_account_nonce s a) ..< unat (get_account_nonce s a) + length txs] \<and>
      list_all (\<lambda>t. tt_address t = a) txs \<and>
      (\<exists>b. fold_res (\<lambda>t. deduct_costs (tt_cost t)) txs (get_account_balances s a) = Inr b))"
proof -
  obtain M' where M': "run_maintenance E now recost s M = Inr M'"
    using run_maintenance_total mempool_run_cache [OF assms] by blast
  have "let txs = map snd (account_of (pending M') a) in
      map (unat \<circ> tt_nonce) txs = [unat (get_account_nonce s a) ..< unat (get_account_nonce s a) + length txs] \<and>
      list_all (\<lambda>t. tt_address t = a) txs \<and>
      (\<exists>b. fold_res (\<lambda>t. deduct_costs (tt_cost t)) txs (get_account_balances s a) = Inr b)" for a
  proof -
    let ?acc = "account_of (pending M') a"
    have r: "ready s a ?acc" by (rule run_maintenance_ready [OF mempool_run_ok [OF assms] M'])
    then have wf: "wf_account a ?acc" and nonces: "map (unat \<circ> fst) ?acc =
        [unat (get_account_nonce s a) ..< unat (get_account_nonce s a) + length ?acc]"
      using consecutive_nonces [of ?acc "get_account_nonce s a"]
      by (simp_all add: ready_def pending_ok_def wf_account_def)
    from wf have "map (unat \<circ> tt_nonce) (map snd ?acc) = map (unat \<circ> fst) ?acc"
      by (auto simp: wf_account_def list_all_iff)
    moreover from wf have "list_all (\<lambda>t. tt_address t = a) (map snd ?acc)"
      by (auto simp: wf_account_def list_all_iff)
    moreover obtain b where "deduct_all (map snd ?acc) (get_account_balances s a) = Inr b"
      using r by (cases "deduct_all (map snd ?acc) (get_account_balances s a)") (auto simp: ready_def)
    ultimately show ?thesis using nonces by (simp add: Let_def deduct_all_def)
  qed
  with M' show ?thesis by blast
qed

text \<open>
  C23. Every transaction is tracked exactly once: as long as transactions are inserted with the latest nonce of
  their account, the set of tracked hashes consists of the hashes of the pending and the parked
  transactions, and no hash is in the containers twice.
\<close>

theorem tracked_hashes_are_contained:
  assumes "mempool_run E k True s M"
  shows "finite (contained_txs M) \<and> mset_set (contained_txs M) = hashes (pending M) + hashes (parked M)"
  using mempool_run_tracks [OF assms] by (simp add: tracks_def)

text \<open>
  C27. The mempool is bounded: no run has more parked transactions than the configured maximum, an account
  has at most 15 of them, and the cache of removed transactions and its queue have at most 50000 entries.
\<close>

theorem mempool_is_bounded:
  assumes "mempool_run E k latest s M"
  shows "container_len (parked M) \<le> k \<and> length (account_of (parked M) a) \<le> 15 \<and>
    length (rc_remove_queue (comet_bft_removal_cache M)) \<le> 50000 \<and>
    length (rc_cache (comet_bft_removal_cache M)) \<le> 50000"
proof -
  let ?r = "comet_bft_removal_cache M"
  have r: "cache_ok ?r" "rc_max_size ?r = 50000"
    using mempool_run_cache [OF assms] by (simp_all add: REMOVAL_CACHE_SIZE_def)
  have "length (rc_cache ?r) = card (set (map fst (rc_cache ?r)))"
    using r(1) distinct_card [of "map fst (rc_cache ?r)"] by (simp add: cache_ok_def)
  also have "\<dots> \<le> card (set (rc_remove_queue ?r))"
    using r(1) by (intro card_mono) (simp_all add: cache_ok_def)
  also have "\<dots> \<le> length (rc_remove_queue ?r)" by (rule card_length)
  finally have "length (rc_cache ?r) \<le> length (rc_remove_queue ?r)" .
  moreover have "length (rc_remove_queue ?r) \<le> 50000" using r by (simp add: cache_ok_def)
  moreover have "parked_ok MAX_PARKED_TXS_PER_ACCOUNT a (account_of (parked M) a)"
    by (rule mempool_ok_parked(3) [OF mempool_run_ok [OF assms]])
  ultimately show ?thesis using mempool_run_fits [OF assms]
    by (simp add: parked_fits_def parked_ok_def MAX_PARKED_TXS_PER_ACCOUNT_def)
qed

section \<open>The queue for proposals\<close>

definition queue_entry_of :: "u32 \<Rightarrow> timemarked_tx \<Rightarrow> queue_entry" where
  "queue_entry_of n t = \<lparr>qe_tx = tt_signed_tx t, qe_tx_hash = tt_tx_hash t,
     qe_priority = Priority (tt_nonce t - n) (tt_time_first_seen t) (acts_group (tx_actions (tt_signed_tx t)))\<rparr>"

lemma account_queue_map:
  assumes "wf_account a txs"
  shows "account_queue txs = map (queue_entry_of (fst (hd txs)) \<circ> snd) txs"
proof (cases txs)
  case Nil
  then show ?thesis by (simp add: account_queue_def current_account_nonce_def)
next
  case (Cons x xs)
  obtain n t0 where x: "x = (n, t0)" by (cases x)
  have ge: "\<forall>(k, t)\<in>set txs. n \<le> tt_nonce t"
    using assms by (auto simp: wf_account_def list_all_iff Cons x) (fastforce simp: less_imp_le)
  have "concat (map (\<lambda>(_, t). case priority t n of Inl _ \<Rightarrow> []
      | Inr p \<Rightarrow> [\<lparr>qe_tx = tt_signed_tx t, qe_tx_hash = tt_tx_hash t, qe_priority = p\<rparr>]) ys) =
      map (queue_entry_of n \<circ> snd) ys" if "\<forall>(k, t)\<in>set ys. n \<le> tt_nonce t" for ys
    using that by (induction ys) (auto simp: priority_def checked_sub_def queue_entry_of_def)
  from this [OF ge] show ?thesis by (simp add: account_queue_def current_account_nonce_def Cons x)
qed

definition queue_entries :: "txs_container \<Rightarrow> queue_entry list" where
  "queue_entries c = concat (map (account_queue \<circ> snd) (c_txs c))"

lemma builder_queue_entries:
  "builder_queue c = map (\<lambda>e. (qe_tx_hash e, qe_tx e)) (rev (sort_key qe_priority (queue_entries c)))"
  by (simp add: builder_queue_def queue_entries_def)

text \<open>Every entry of the queue is that of a pending transaction, and the other way round.\<close>

lemma queue_entries_set:
  assumes "all_accounts (pending_ok s) c"
  shows "e \<in> set (queue_entries c) \<longleftrightarrow>
    (\<exists>a. \<exists>t\<in>snd ` set (account_of c a). e = queue_entry_of (fst (hd (account_of c a))) t)"
proof -
  have wf: "distinct (map fst (c_txs c))" and ok: "\<And>a. wf_account a (account_of c a)"
    using assms by (auto simp: all_accounts_def wf_container_def pending_ok_def)
  have acc: "account_of c a = txs" if "(a, txs) \<in> set (c_txs c)" for a txs
    using map_of_is_SomeI [OF wf that] by (simp add: account_of_def)
  have q: "account_queue txs = map (queue_entry_of (fst (hd txs)) \<circ> snd) txs" if "(a, txs) \<in> set (c_txs c)" for a txs
    using account_queue_map [OF ok [of a]] acc [OF that] by simp
  show ?thesis
  proof
    assume "e \<in> set (queue_entries c)"
    then obtain a txs where *: "(a, txs) \<in> set (c_txs c)" "e \<in> set (account_queue txs)"
      by (auto simp: queue_entries_def)
    then show "\<exists>a. \<exists>t\<in>snd ` set (account_of c a). e = queue_entry_of (fst (hd (account_of c a))) t"
      using q [OF *(1)] acc [OF *(1)] by (intro exI [of _ a]) auto
  next
    assume "\<exists>a. \<exists>t\<in>snd ` set (account_of c a). e = queue_entry_of (fst (hd (account_of c a))) t"
    then obtain a t where t: "t \<in> snd ` set (account_of c a)" "e = queue_entry_of (fst (hd (account_of c a))) t"
      by blast
    then have "map_of (c_txs c) a = Some (account_of c a)" by (auto simp: account_of_def split: option.splits)
    then have "(a, account_of c a) \<in> set (c_txs c)" by (rule map_of_SomeD)
    with t q [OF this] show "e \<in> set (queue_entries c)" by (force simp: queue_entries_def)
  qed
qed

lemma queue_entries_hashes:
  assumes "all_accounts (pending_ok s) c"
  shows "mset (map qe_tx_hash (queue_entries c)) = hashes c"
proof -
  have wf: "distinct (map fst (c_txs c))" and ok: "\<And>a. wf_account a (account_of c a)"
    using assms by (auto simp: all_accounts_def wf_container_def pending_ok_def)
  have "wf_account a txs" if "(a, txs) \<in> set (c_txs c)" for a txs
    using map_of_is_SomeI [OF wf that] ok [of a] by (simp add: account_of_def)
  then have "mset (map qe_tx_hash (concat (map (account_queue \<circ> snd) ys))) =
      sum_list (map (account_hashes \<circ> snd) ys)" if "set ys \<subseteq> set (c_txs c)" for ys
    using that
  proof (induction ys)
    case (Cons y ys)
    obtain a txs where y: "y = (a, txs)" by (cases y)
    have "mset (map qe_tx_hash (account_queue txs)) = account_hashes txs"
      using account_queue_map [of a txs] Cons.prems y
      by (simp add: account_hashes_def comp_def queue_entry_of_def)
    then show ?case using Cons by (simp add: y)
  qed simp
  then show ?thesis by (simp add: queue_entries_def hashes_def)
qed

lemma distinct_if_mset_set:
  assumes "mset xs + Y = mset_set A"
  shows "distinct xs"
proof -
  have "count (mset xs) a \<le> 1" for a
    using arg_cong [OF assms, of "\<lambda>m. count m a"] 
    by (cases "finite A \<and> a \<in> A") (auto simp: count_mset_set' simp del: count_mset_0_iff)
  then have "count (mset xs) a = (if a \<in> set xs then 1 else 0)" for a
    by (cases "a \<in> set xs") (auto simp: le_less count_mset_0_iff)
  then show ?thesis by (simp add: distinct_count_atmost_1)
qed

lemma first_nonce_least:
  "wf_account a txs \<Longrightarrow> t \<in> snd ` set txs \<Longrightarrow> fst (hd txs) \<le> tt_nonce t"
  by (cases txs) (fastforce simp: wf_account_def list_all_iff less_imp_le)+

lemma rev_sort_key_order:
  assumes "rev (sort_key f xs) = as @ x # bs" "y \<in> set bs"
  shows "f y \<le> f x"
proof -
  have "sort_key f xs = rev bs @ x # rev as" using arg_cong [OF assms(1), of rev] by simp
  moreover have "sorted (map f (sort_key f xs))" by simp
  ultimately have "sorted_wrt (\<le>) (map f (rev bs @ x # rev as))" by metis
  then show ?thesis using assms(2) by (auto simp: sorted_wrt_append)
qed

text \<open>
  C26. In every run of the mempool beside a chain in which each insertion is given the account's nonce of the latest state,
  the queue for a proposal holds exactly the pending transactions. It is ordered by groups first, so that a
  transaction is never behind one of a lower group, and within a group a transaction comes after
  all pending transactions of its account with a lower nonce. This is the order of \<open>TransactionPriority\<close>; the
  documentation of the queue names only the nonce difference and the time.
\<close>

theorem builder_queue_order:
  assumes "mempool_run E k True s M"
  shows "mset (map fst (builder_queue (pending M))) = hashes (pending M) \<and>
    sorted_wrt (\<lambda>x y. acts_group (tx_actions (snd y)) \<le> acts_group (tx_actions (snd x))) (builder_queue (pending M)) \<and>
    (\<forall>a t t' before after. t \<in> set (map snd (account_of (pending M) a)) \<longrightarrow> t' \<in> set (map snd (account_of (pending M) a)) \<longrightarrow>
      acts_group (tx_actions (tt_signed_tx t)) = acts_group (tx_actions (tt_signed_tx t')) \<longrightarrow>
      tt_nonce t < tt_nonce t' \<longrightarrow>
      builder_queue (pending M) = before @ (tt_tx_hash t', tt_signed_tx t') # after \<longrightarrow>
      (tt_tx_hash t, tt_signed_tx t) \<in> set before)"
proof (intro conjI allI impI)
  let ?c = "pending M" and ?f = "\<lambda>e. (qe_tx_hash e, qe_tx e)"
  let ?es = "rev (sort_key qe_priority (queue_entries ?c))"
  have ok: "all_accounts (pending_ok s) ?c"
    using mempool_run_ok [OF assms] by (simp add: mempool_holds_def)
  have hs: "mset (map qe_tx_hash ?es) = hashes ?c"
    using queue_entries_hashes [OF ok] by simp
  then show "mset (map fst (builder_queue ?c)) = hashes ?c"
    by (simp add: builder_queue_entries comp_def flip: mset_map)
  have group: "prio_group (qe_priority e) = acts_group (tx_actions (qe_tx e))" if "e \<in> set ?es" for e
    using that queue_entries_set [OF ok] by (auto simp: queue_entry_of_def)
  have "sorted_wrt (\<lambda>x y. qe_priority y \<le> qe_priority x) ?es"
    using sorted_sort_key [of qe_priority "queue_entries ?c"]
    by (simp add: sorted_wrt_rev sorted_map)
  moreover have "prio_group q \<le> prio_group p" if "q \<le> p" for p q
    using that by (cases p; cases q) (auto split: if_splits)
  ultimately have "sorted_wrt (\<lambda>x y. acts_group (tx_actions (qe_tx y)) \<le> acts_group (tx_actions (qe_tx x))) ?es"
    by (elim sorted_wrt_mono_rel [rotated]) (metis group)
  then show "sorted_wrt (\<lambda>x y. acts_group (tx_actions (snd y)) \<le> acts_group (tx_actions (snd x))) (builder_queue ?c)"
    by (simp add: builder_queue_entries sorted_wrt_map)
  fix a t t' before after
  assume t: "t \<in> set (map snd (account_of ?c a))" and t': "t' \<in> set (map snd (account_of ?c a))"
    and g: "acts_group (tx_actions (tt_signed_tx t)) = acts_group (tx_actions (tt_signed_tx t'))"
    and less: "tt_nonce t < tt_nonce t'"
    and q: "builder_queue ?c = before @ (tt_tx_hash t', tt_signed_tx t') # after"
  let ?n = "fst (hd (account_of ?c a))"
  let ?e = "queue_entry_of ?n t" and ?e' = "queue_entry_of ?n t'"
  have e: "?e \<in> set ?es" and e': "?e' \<in> set ?es" using t t' queue_entries_set [OF ok] by auto
  from q obtain as e1 bs where es: "?es = as @ e1 # bs" and before: "before = map ?f as"
    and e1: "?f e1 = (tt_tx_hash t', tt_signed_tx t')"
    by (auto simp: builder_queue_entries map_eq_append_conv map_eq_Cons_conv)
  have "hashes ?c + hashes (parked M) = mset_set (contained_txs M)"
    using mempool_run_tracks [OF assms] by (simp add: tracks_def)
  then have dist: "distinct (map qe_tx_hash ?es)" using distinct_if_mset_set hs by metis
  have "inj_on qe_tx_hash (set ?es)" using dist by (simp add: distinct_map)
  moreover have "e1 \<in> set ?es" unfolding es by simp
  moreover have "qe_tx_hash e1 = qe_tx_hash ?e'" using e1 by (simp add: queue_entry_of_def)
  ultimately have "e1 = ?e'" using e' by (metis inj_onD)
  have "wf_account a (account_of ?c a)" using ok by (simp add: all_accounts_def pending_ok_def)
  then have "unat ?n \<le> unat (tt_nonce t)" "unat ?n \<le> unat (tt_nonce t')"
    using first_nonce_least t t' by (auto simp: word_le_nat_alt)
  then have diff: "tt_nonce t - ?n < tt_nonce t' - ?n"
    using less by (simp add: word_less_nat_alt unat_sub word_le_nat_alt)
  then have "?e \<notin> set bs" "?e \<noteq> ?e'"
    using rev_sort_key_order [OF es, of ?e] \<open>e1 = ?e'\<close> g
    by (auto simp: queue_entry_of_def split: if_splits)
  then have "?e \<in> set as" using e es \<open>e1 = ?e'\<close> by auto
  then show "(tt_tx_hash t, tt_signed_tx t) \<in> set before" 
    unfolding before set_map by (rule rev_image_eqI) (simp add: queue_entry_of_def)
qed

section \<open>A sample run\<close>

definition sample_timemarked :: "u32 \<Rightarrow> u8 \<Rightarrow> timemarked_tx" where
  "sample_timemarked nonce h =
     timemarked_new (sha256 sample_ext) 0 ((sample_tx 1 nonce [sample_transfer])\<lparr>tx_id := [h]\<rparr>)
       [(\<lparr>ibc_id = [1]\<rparr>, 12)]"

definition sample_funds :: asset_balances where
  "sample_funds = [\<lparr>ibc_id = [1]\<rparr> \<mapsto> 1000]"

definition parked_mempool :: mempool where
  "parked_mempool = (mempool_new 10)\<lparr>parked := (parked (mempool_new 10))\<lparr>c_txs :=
     [(sample_account 1, [(1, sample_timemarked 1 11)])]\<rparr>, contained_txs := {[11]}\<rparr>"

definition pending_mempool :: mempool where
  "pending_mempool = (mempool_new 10)\<lparr>pending := (pending (mempool_new 10))\<lparr>c_txs :=
     [(sample_account 1, [(0, sample_timemarked 0 10), (1, sample_timemarked 1 11)])]\<rparr>,
     contained_txs := {[10], [11]}\<rparr>"

lemma sample_timemarked_facts:
  "tt_tx_hash (sample_timemarked n h) = [h]" "tt_address (sample_timemarked n h) = sample_account 1"
  "get_account_nonce sample_state a = 0"
  by (simp_all add: sample_timemarked_def timemarked_new_def sample_tx_def tx_address_bytes_def
      vk_address_bytes_def sample_key_def sample_ext_def pad_hash_def sample_account_def
      get_account_nonce_def sample_state_def eval_nat_numeral)

lemma sample_timemarked_fields:
  "tt_nonce (sample_timemarked nonce h) = nonce"
  "tt_cost (sample_timemarked nonce h) = [(\<lparr>ibc_id = [1]\<rparr>, 12)]"
  "acts_group (tx_actions (tt_signed_tx (sample_timemarked nonce h))) = BundleableGeneral"
  "tt_time_first_seen (sample_timemarked nonce h) = 0"
  by (simp_all add: sample_timemarked_def timemarked_new_def sample_tx_def)

lemma two_not_le_one: "\<not> (2 :: u32) \<le> 1"
  by (simp add: word_le_nat_alt)

lemmas evaluate_mempool =
  two_not_le_one
  mempool_insert_def container_add_def check_total_tx_count_def account_of_def mempool_new_def
  pending_new_def parked_new_def account_add_def find_promotables_def account_find_promotables_def
  subtract_contained_costs_def account_subtract_contained_costs_def put_back_def
  btree_below_def btree_from_def checked_sub_def checked_add_code track_def untrack_def
  sample_timemarked_facts sample_timemarked_fields sample_funds_def container_len_def
  MAX_PARKED_TXS_PER_ACCOUNT_def AList.delete_eq is_tracked_def

lemma mempool_run_insert_sample:
  assumes "mempool_run sample_ext k latest s M" "\<not> is_tracked [h] M"
    "n \<le> get_account_nonce s (sample_account 1)" "latest \<longrightarrow> n = get_account_nonce s (sample_account 1)"
    "mempool_insert (sample_timemarked nonce h) n b M = Inr (M', r)"
  shows "mempool_run sample_ext k latest s M'"
  by (rule mempool_run.insert [OF assms(1) sample_timemarked_def _ _ assms(5)])
     (use assms(2-4) in \<open>simp_all add: sample_timemarked_facts\<close>)

lemma parked_mempool_run: "mempool_run sample_ext 10 latest sample_state parked_mempool"
proof (rule mempool_run_insert_sample [OF mempool_run.new])
  show "\<not> is_tracked [11] (mempool_new 10)" by (simp add: is_tracked_def mempool_new_def)
  show "mempool_insert (sample_timemarked 1 11) 0 sample_funds (mempool_new 10) = Inr (parked_mempool, Inr ())"
    by (simp add: evaluate_mempool parked_mempool_def)
qed (simp_all add: sample_timemarked_facts)

lemma pending_mempool_run: "mempool_run sample_ext 10 latest sample_state pending_mempool"
proof (rule mempool_run_insert_sample [OF parked_mempool_run])
  show "\<not> is_tracked [10] parked_mempool" by (simp add: is_tracked_def parked_mempool_def)
  show "mempool_insert (sample_timemarked 0 10) 0 sample_funds parked_mempool = Inr (pending_mempool, Inr ())"
    by (simp add: evaluate_mempool parked_mempool_def pending_mempool_def insert_commute)
qed (simp_all add: sample_timemarked_facts)

theorem maintained_mempool_is_executable_witness:
  "\<exists>M'. run_maintenance sample_ext 5 True sample_state pending_mempool = Inr M' \<and>
    (\<forall>a. let txs = map snd (account_of (pending M') a) in
      map (unat \<circ> tt_nonce) txs =
        [unat (get_account_nonce sample_state a) ..< unat (get_account_nonce sample_state a) + length txs] \<and>
      list_all (\<lambda>t. tt_address t = a) txs \<and>
      (\<exists>b. fold_res (\<lambda>t. deduct_costs (tt_cost t)) txs (get_account_balances sample_state a) = Inr b))"
  by (rule maintained_mempool_is_executable [OF pending_mempool_run])

theorem tracked_hashes_are_contained_witness:
  "finite (contained_txs pending_mempool) \<and>
    mset_set (contained_txs pending_mempool) = hashes (pending pending_mempool) + hashes (parked pending_mempool)"
  by (rule tracked_hashes_are_contained [OF pending_mempool_run])

theorem mempool_is_bounded_witness:
  "container_len (parked parked_mempool) \<le> 10 \<and> length (account_of (parked parked_mempool) (sample_account 1)) \<le> 15 \<and>
    length (rc_remove_queue (comet_bft_removal_cache parked_mempool)) \<le> 50000 \<and>
    length (rc_cache (comet_bft_removal_cache parked_mempool)) \<le> 50000"
  by (rule mempool_is_bounded [OF parked_mempool_run])

lemma pending_mempool_queue:
  "map fst (builder_queue (pending pending_mempool)) = [[10], [11]]"
  by (simp add: builder_queue_def account_queue_def current_account_nonce_def priority_def checked_sub_def
      pending_mempool_def sample_timemarked_fields sample_timemarked_facts)

theorem builder_queue_order_witness:
  "mset (map fst (builder_queue (pending pending_mempool))) = hashes (pending pending_mempool) \<and>
    sorted_wrt (\<lambda>x y. acts_group (tx_actions (snd y)) \<le> acts_group (tx_actions (snd x)))
      (builder_queue (pending pending_mempool)) \<and>
    map fst (builder_queue (pending pending_mempool)) = [[10], [11]]"
  using builder_queue_order [OF pending_mempool_run] pending_mempool_queue by blast

section \<open>A transaction that stays tracked\<close>

definition later_state :: "unit state" where
  "later_state = put_account_nonce (sample_account 1) 1 sample_state"

definition taken_mempool :: mempool where
  "taken_mempool = parked_mempool\<lparr>pending := (pending (mempool_new 10))\<lparr>c_txs :=
     [(sample_account 1, [(1, sample_timemarked 1 12)])]\<rparr>, contained_txs := {[11], [12]}\<rparr>"

definition leaking_mempool :: mempool where
  "leaking_mempool = (mempool_new 10)\<lparr>pending := (pending (mempool_new 10))\<lparr>c_txs :=
     [(sample_account 1, [(0, sample_timemarked 0 10), (1, sample_timemarked 1 12)])]\<rparr>,
     contained_txs := {[10], [11], [12]}\<rparr>"

lemma hashes_member: "h \<in># hashes c \<longleftrightarrow> list_ex (\<lambda>(_, txs). list_ex (\<lambda>(_, t). tt_tx_hash t = h) txs) (c_txs c)"
proof -
  have "h \<in># sum_list (map (account_hashes \<circ> snd) xs) \<longleftrightarrow>
      list_ex (\<lambda>(_, txs). list_ex (\<lambda>(_, t). tt_tx_hash t = h) txs) xs" for xs :: "(address_bytes \<times> account_txs) list"
    by (induction xs) (auto simp: account_hashes_def list_ex_iff split_beta image_iff)
  then show ?thesis by (simp add: hashes_def)
qed

text \<open>
  C28. Tracking can go wrong if a transaction is inserted with a nonce of the account that has been overtaken by a
  block. There is a run in which a parked transaction is taken out to be promoted, cannot be promoted because
  its nonce is taken, and stays tracked for ever: the handler of the failure
  untracks the hash of the inserted transaction and not the one that was dropped.
\<close>

theorem stale_insertion_leaks_tracking:
  "\<exists>M :: mempool. mempool_run sample_ext 10 False later_state M \<and> is_tracked [11] M \<and>
    [11] \<notin># hashes (pending M) \<and> [11] \<notin># hashes (parked M)"
proof (intro exI conjI)
  have later: "mempool_run sample_ext 10 False later_state parked_mempool"
    by (rule mempool_run.block [OF parked_mempool_run])
       (simp add: later_state_def sample_timemarked_facts)
  have nonce: "get_account_nonce later_state (sample_account 1) = 1"
    by (simp add: later_state_def get_account_nonce_def put_account_nonce_def)
  have "mempool_run sample_ext 10 False later_state taken_mempool"
  proof (rule mempool_run_insert_sample [OF later])
    show "\<not> is_tracked [12] parked_mempool" by (simp add: is_tracked_def parked_mempool_def)
    show "mempool_insert (sample_timemarked 1 12) 1 sample_funds parked_mempool = Inr (taken_mempool, Inr ())"
      by (simp add: evaluate_mempool parked_mempool_def taken_mempool_def insert_commute)
  qed (simp_all add: nonce)
  then show "mempool_run sample_ext 10 False later_state leaking_mempool"
  proof (rule mempool_run_insert_sample)
    show "\<not> is_tracked [10] taken_mempool" by (simp add: is_tracked_def taken_mempool_def)
    show "mempool_insert (sample_timemarked 0 10) 0 sample_funds taken_mempool = Inr (leaking_mempool, Inr ())"
      by (simp add: evaluate_mempool parked_mempool_def taken_mempool_def leaking_mempool_def insert_commute)
  qed (simp_all add: nonce)
  show "is_tracked [11] leaking_mempool" by (simp add: is_tracked_def leaking_mempool_def)
  show "[11] \<notin># hashes (pending leaking_mempool)" "[11] \<notin># hashes (parked leaking_mempool)"
    by (simp_all add: hashes_member leaking_mempool_def mempool_new_def parked_new_def sample_timemarked_facts)
qed

end
