(* ===== verification/Check_Tx.thy ===== *)
theory Check_Tx
  imports Mempool_Properties Signed_Tx
begin

text \<open>
  The handler of \<open>CheckTx\<close> (\<^verbatim>\<open>crates/astria-sequencer/src/service/mempool/mod.rs\<close>): how a transaction that
  arrives as bytes gets into the mempool, and what CometBFT is told.

  The decoder of the transaction message is the parameter \<open>decode_tx\<close>. A response has the code and the
  info string; the log string, which repeats the error for people, is left out. Metrics are left out. A panic of
  the stateless checks or of the computation of the cost, which would stop the task, is answered as an error here.
\<close>

section \<open>Error codes\<close>

datatype abci_error_code =
    UNKNOWN_PATH | INVALID_PARAMETER | INTERNAL_ERROR | INVALID_NONCE | TRANSACTION_TOO_LARGE
  | INSUFFICIENT_FUNDS | INVALID_CHAIN_ID | VALUE_NOT_FOUND | TRANSACTION_EXPIRED | TRANSACTION_FAILED
  | TRANSACTION_INSERTION_FAILED | LOWER_NONCE_INVALIDATED | BAD_REQUEST | ALREADY_PRESENT | NONCE_TAKEN
  | ACCOUNT_SIZE_LIMIT | PARKED_FULL

fun abci_value :: "abci_error_code \<Rightarrow> nat" where
  "abci_value UNKNOWN_PATH = 1"
| "abci_value INVALID_PARAMETER = 2"
| "abci_value INTERNAL_ERROR = 3"
| "abci_value INVALID_NONCE = 4"
| "abci_value TRANSACTION_TOO_LARGE = 5"
| "abci_value INSUFFICIENT_FUNDS = 6"
| "abci_value INVALID_CHAIN_ID = 7"
| "abci_value VALUE_NOT_FOUND = 8"
| "abci_value TRANSACTION_EXPIRED = 9"
| "abci_value TRANSACTION_FAILED = 10"
| "abci_value TRANSACTION_INSERTION_FAILED = 11"
| "abci_value LOWER_NONCE_INVALIDATED = 12"
| "abci_value BAD_REQUEST = 13"
| "abci_value ALREADY_PRESENT = 14"
| "abci_value NONCE_TAKEN = 15"
| "abci_value ACCOUNT_SIZE_LIMIT = 16"
| "abci_value PARKED_FULL = 17"

fun abci_info :: "abci_error_code \<Rightarrow> string" where
  "abci_info UNKNOWN_PATH = ''provided path is unknown''"
| "abci_info INVALID_PARAMETER = ''one or more path parameters were invalid''"
| "abci_info INTERNAL_ERROR = ''an internal server error occurred''"
| "abci_info INVALID_NONCE = ''the provided nonce was invalid''"
| "abci_info TRANSACTION_TOO_LARGE = ''the provided transaction was too large''"
| "abci_info INSUFFICIENT_FUNDS = ''insufficient funds''"
| "abci_info INVALID_CHAIN_ID = ''the provided chain id was invalid''"
| "abci_info VALUE_NOT_FOUND = ''the requested value was not found''"
| "abci_info TRANSACTION_EXPIRED = ''the transaction expired in the app's mempool''"
| "abci_info TRANSACTION_FAILED = ''the transaction failed to execute in prepare_proposal()''"
| "abci_info TRANSACTION_INSERTION_FAILED = ''the transaction failed insertion into the mempool''"
| "abci_info LOWER_NONCE_INVALIDATED = ''lower nonce was invalidated in mempool''"
| "abci_info BAD_REQUEST = ''the request payload was malformed''"
| "abci_info ALREADY_PRESENT = ''the transaction is already present in the mempool''"
| "abci_info NONCE_TAKEN =
     ''there is already a transaction with the same nonce for the account in the mempool''"
| "abci_info ACCOUNT_SIZE_LIMIT = ''the account has reached the maximum number of parked transactions''"
| "abci_info PARKED_FULL = ''the mempool is out of space for more parked transactions''"

text \<open>Decimal numbers, as the standard library prints them.\<close>

fun show_nat :: "nat \<Rightarrow> string" where
  "show_nat n = (if n < 10 then [char_of (48 + n)] else show_nat (n div 10) @ [char_of (48 + n mod 10)])"

definition abci_display :: "abci_error_code \<Rightarrow> string" where
  "abci_display c = show_nat (abci_value c) @ '': '' @ abci_info c"

section \<open>Responses\<close>

record check_tx_response =
  rsp_code :: nat
  rsp_info :: string

definition ok_response :: check_tx_response where
  "ok_response = \<lparr>rsp_code = 0, rsp_info = []\<rparr>"

definition error_response :: "abci_error_code \<Rightarrow> check_tx_response" where
  "error_response c = \<lparr>rsp_code = abci_value c, rsp_info = abci_info c\<rparr>"

fun removal_reason_response :: "removal_reason \<Rightarrow> check_tx_response" where
  "removal_reason_response Expired =
     \<lparr>rsp_code = abci_value TRANSACTION_EXPIRED, rsp_info = abci_display TRANSACTION_EXPIRED\<rparr>"
| "removal_reason_response (FailedPrepareProposal _) =
     \<lparr>rsp_code = abci_value TRANSACTION_FAILED, rsp_info = abci_display TRANSACTION_FAILED\<rparr>"
| "removal_reason_response NonceStale =
     \<lparr>rsp_code = abci_value INVALID_NONCE,
      rsp_info = ''transaction removed from app mempool due to stale nonce''\<rparr>"
| "removal_reason_response LowerNonceInvalidated =
     \<lparr>rsp_code = abci_value LOWER_NONCE_INVALIDATED, rsp_info = abci_display LOWER_NONCE_INVALIDATED\<rparr>"

fun insertion_error_response :: "insertion_error \<Rightarrow> check_tx_response" where
  "insertion_error_response AlreadyPresent =
     \<lparr>rsp_code = abci_value ALREADY_PRESENT, rsp_info = abci_display ALREADY_PRESENT\<rparr>"
| "insertion_error_response NonceTooLow =
     \<lparr>rsp_code = abci_value INVALID_NONCE, rsp_info = abci_display INVALID_NONCE\<rparr>"
| "insertion_error_response NonceTaken =
     \<lparr>rsp_code = abci_value NONCE_TAKEN, rsp_info = abci_display NONCE_TAKEN\<rparr>"
| "insertion_error_response AccountSizeLimit =
     \<lparr>rsp_code = abci_value ACCOUNT_SIZE_LIMIT, rsp_info = abci_display ACCOUNT_SIZE_LIMIT\<rparr>"
| "insertion_error_response ParkedSizeLimit =
     \<lparr>rsp_code = abci_value PARKED_FULL, rsp_info = abci_info PARKED_FULL\<rparr>"
| "insertion_error_response AccountBalanceTooLow =
     \<lparr>rsp_code = abci_value INTERNAL_ERROR, rsp_info = abci_info INTERNAL_ERROR\<rparr>"
| "insertion_error_response NonceGap =
     \<lparr>rsp_code = abci_value INTERNAL_ERROR, rsp_info = abci_info INTERNAL_ERROR\<rparr>"

section \<open>The handler\<close>

definition MAX_TX_SIZE :: nat where
  "MAX_TX_SIZE = 256000"

definition check_removed :: "bytes \<Rightarrow> mempool \<Rightarrow> mempool \<times> (check_tx_response + unit)" where
  "check_removed tx_hash M =
     (let (M1, removal_reason) = mempool_check_removed_comet_bft tx_hash M in
      case removal_reason of
        Some reason \<Rightarrow> (M1, Inl (removal_reason_response reason))
      | None \<Rightarrow> (M1, Inr ()))"

definition stateless_checks ::
  "'i ext \<Rightarrow> tx_codec \<Rightarrow> (bytes \<Rightarrow> string + raw_transaction) \<Rightarrow> bytes \<Rightarrow> 'i state \<Rightarrow>
     check_tx_response + transaction" where
  "stateless_checks E X decode_tx tx s =
     (if length tx > MAX_TX_SIZE then Inl (error_response TRANSACTION_TOO_LARGE) else
      try_bind (map_err (\<lambda>_. error_response INVALID_PARAMETER) (decode_tx tx)) (\<lambda>raw_signed_tx.
      try_bind (map_err (\<lambda>_. error_response INVALID_PARAMETER) (transaction_try_from_raw X raw_signed_tx)) (\<lambda>stx.
      let signed_tx = decoded_transaction (sha256 E) X stx in
      try_bind (map_err (\<lambda>_. error_response INVALID_PARAMETER) (transaction_check_stateless E signed_tx)) (\<lambda>_.
      try_bind (map_err (\<lambda>_. error_response INVALID_CHAIN_ID) (check_chain_id_mempool signed_tx s)) (\<lambda>_.
      Inr signed_tx)))))"

definition try_base_prefixed :: "codec \<Rightarrow> bytes \<Rightarrow> 'i state \<Rightarrow> address res" where
  "try_base_prefixed C bs s =
     and_then (get_base_prefix s) (\<lambda>prefix.
     case address_try_build C (SliceBytes bs) prefix of
       Inl _ \<Rightarrow> fail ''failed to construct address from byte slice and state-provided base prefix''
     | Inr a \<Rightarrow> Inr a)"

definition insert_into_mempool ::
  "'i ext \<Rightarrow> tx_codec \<Rightarrow> int \<Rightarrow> 'i state \<Rightarrow> transaction \<Rightarrow> mempool \<Rightarrow>
     (mempool \<times> (check_tx_response + unit)) res" where
  "insert_into_mempool E X now s signed_tx M =
     (case try_base_prefixed (field_codec X) (tx_address_bytes (sha256 E) signed_tx) s of
        Inl _ \<Rightarrow> Inr (M, Inl (error_response INTERNAL_ERROR))
      | Inr address \<Rightarrow>
          let current_account_nonce = get_account_nonce s (addr_bytes address) in
          case get_total_transaction_cost E signed_tx s of
            Inl _ \<Rightarrow> Inr (M, Inl (error_response INTERNAL_ERROR))
          | Inr transaction_cost \<Rightarrow>
              let current_account_balance = get_account_balances s (addr_bytes address) in
              and_then (mempool_insert (timemarked_new (sha256 E) now signed_tx transaction_cost)
                  current_account_nonce current_account_balance M) (\<lambda>(M1, r).
              Inr (M1, map_err insertion_error_response r)))"

definition handle_check_tx ::
  "'i ext \<Rightarrow> tx_codec \<Rightarrow> (bytes \<Rightarrow> string + raw_transaction) \<Rightarrow> int \<Rightarrow> bytes \<Rightarrow> 'i state \<Rightarrow> mempool \<Rightarrow>
     (mempool \<times> check_tx_response) res" where
  "handle_check_tx E X decode_tx now tx s M =
     (let tx_hash = sha256 E tx in
      case check_removed tx_hash M of
        (M1, Inl rsp) \<Rightarrow> Inr (M1, rsp)
      | (M1, Inr _) \<Rightarrow>
          if is_tracked tx_hash M1 then Inr (M1, ok_response) else
          case stateless_checks E X decode_tx tx s of
            Inl rsp \<Rightarrow> Inr (M1, rsp)
          | Inr signed_tx \<Rightarrow>
              and_then (insert_into_mempool E X now s signed_tx M1) (\<lambda>(M2, r).
              case r of Inl rsp \<Rightarrow> Inr (M2, rsp) | Inr _ \<Rightarrow> Inr (M2, ok_response)))"

section \<open>What an answer means\<close>

lemma mempool_insert_outcome:
  assumes "mempool_insert t n b M = Inr (M', r)"
  shows "case r of Inl e \<Rightarrow> M' = M | Inr _ \<Rightarrow> is_tracked (tt_tx_hash t) M'"
  using assms
  by (auto simp: mempool_insert_def is_tracked_def track_def Let_def split_beta split: sum.splits if_splits)

lemma try_base_prefixed_bytes:
  assumes "try_base_prefixed C bs s = Inr a" shows "addr_bytes a = bs"
proof -
  from assms obtain p where "(case address_try_build C (SliceBytes bs) p of
      Inl _ \<Rightarrow> fail ''failed to construct address from byte slice and state-provided base prefix''
    | Inr a \<Rightarrow> Inr a) = Inr a"
    unfolding try_base_prefixed_def and_then_Inr_iff by blast
  then have "address_try_build C (SliceBytes bs) p = Inr a"
    by (cases "address_try_build C (SliceBytes bs) p") simp_all
  then show ?thesis by (auto simp: address_try_build_def split: if_splits)
qed

lemma insert_into_mempool_outcome:
  assumes "insert_into_mempool E X now s tx M = Inr (M', r)"
  shows "(\<exists>rsp. r = Inl rsp \<and> rsp_code rsp \<noteq> 0 \<and> M' = M) \<or>
    (r = Inr () \<and> is_tracked (tx_id tx) M' \<and>
      (\<exists>cost. mempool_insert (timemarked_new (sha256 E) now tx cost)
        (get_account_nonce s (tx_address_bytes (sha256 E) tx))
        (get_account_balances s (tx_address_bytes (sha256 E) tx)) M = Inr (M', Inr ())))"
proof (cases "try_base_prefixed (field_codec X) (tx_address_bytes (sha256 E) tx) s")
  case (Inl e)
  then show ?thesis using assms by (auto simp: insert_into_mempool_def error_response_def)
next
  case (Inr a)
  note a = try_base_prefixed_bytes [OF Inr]
  show ?thesis
  proof (cases "get_total_transaction_cost E tx s")
    case (Inl e)
    then show ?thesis using assms Inr by (auto simp: insert_into_mempool_def error_response_def)
  next
    case cost: (Inr cost)
    obtain q where ins: "mempool_insert (timemarked_new (sha256 E) now tx cost)
        (get_account_nonce s (tx_address_bytes (sha256 E) tx))
        (get_account_balances s (tx_address_bytes (sha256 E) tx)) M = Inr (M', q)"
      and r: "r = map_err insertion_error_response q"
      using assms Inr cost by (auto simp: insert_into_mempool_def a)
    show ?thesis
    proof (cases q)
      case (Inl e)
      then show ?thesis using r mempool_insert_outcome [OF ins] by (cases e) simp_all
    next
      case (Inr u)
      then show ?thesis using r ins mempool_insert_outcome [OF ins]
        by (auto simp: timemarked_new_def)
    qed
  qed
qed

text \<open>The bytes are the ones the encoder would write for the message they decode to.\<close>

definition canonical_bytes :: "tx_codec \<Rightarrow> (bytes \<Rightarrow> string + raw_transaction) \<Rightarrow> bytes \<Rightarrow> bool" where
  "canonical_bytes X decode_tx tx \<longleftrightarrow>
     (case decode_tx tx of Inl _ \<Rightarrow> True | Inr r \<Rightarrow> encode_transaction X r = tx)"

lemma accepted_id:
  assumes "tx_codec_ok X" "canonical_bytes X decode_tx tx" "stateless_checks E X decode_tx tx s = Inr signed_tx"
  shows "tx_id signed_tx = sha256 E tx"
proof -
  from assms(3) obtain r t where r: "decode_tx tx = Inr r" "transaction_try_from_raw X r = Inr t"
    and tx: "signed_tx = decoded_transaction (sha256 E) X t"
    by (auto simp: stateless_checks_def Let_def split: if_splits)
  have "transaction_to_raw t = r" by (rule transaction_read(3) [OF assms(1) r(2)])
  then show ?thesis using assms(2) r(1)
    by (simp add: tx decoded_transaction_def transaction_id_of_def canonical_bytes_def)
qed

lemma check_removed_outcome:
  assumes "check_removed h M = (M1, r)"
  shows "pending M1 = pending M \<and> parked M1 = parked M \<and> contained_txs M1 = contained_txs M \<and>
    (case r of Inl rsp \<Rightarrow> rsp_code rsp \<noteq> 0 | Inr _ \<Rightarrow> True) \<and>
    (\<exists>reason. mempool_check_removed_comet_bft h M = (M1, reason))"
proof -
  obtain M2 reason where c: "mempool_check_removed_comet_bft h M = (M2, reason)"
    by (cases "mempool_check_removed_comet_bft h M")
  have "M1 = M2" and r: "r = (case reason of Some x \<Rightarrow> Inl (removal_reason_response x) | None \<Rightarrow> Inr ())"
    using assms c by (auto simp: check_removed_def split: option.splits)
  moreover have "rsp_code (removal_reason_response x) \<noteq> 0" for x by (cases x) simp_all
  ultimately show ?thesis using c check_removed_frame [OF c] by (auto split: option.splits)
qed

lemma error_response_code: "rsp_code (error_response c) \<noteq> 0"
  by (cases c) (simp_all add: error_response_def)

lemma try_bind_error:
  assumes "try_bind (map_err (\<lambda>_. error_response c) m) f = Inl rsp" "\<And>x. f x = Inl rsp \<Longrightarrow> rsp_code rsp \<noteq> 0"
  shows "rsp_code rsp \<noteq> 0"
  using assms error_response_code by (cases m) auto

lemma stateless_checks_error:
  assumes "stateless_checks E X decode_tx tx s = Inl rsp" shows "rsp_code rsp \<noteq> 0"
proof (cases "length tx > MAX_TX_SIZE")
  case True
  then show ?thesis using assms error_response_code by (auto simp: stateless_checks_def)
next
  case False
  then show ?thesis using assms unfolding stateless_checks_def Let_def
    by (simp only: if_False) (elim try_bind_error, simp)
qed

lemma insert_into_mempool_run:
  assumes "mempool_run E k True s M" "\<not> is_tracked (tx_id tx) M" "insert_into_mempool E X now s tx M = Inr (M', r)"
  shows "mempool_run E k True s M' \<and>
    (case r of Inl rsp \<Rightarrow> rsp_code rsp \<noteq> 0 \<and> M' = M | Inr _ \<Rightarrow> is_tracked (tx_id tx) M')"
  using insert_into_mempool_outcome [OF assms(3)]
proof
  assume *: "r = Inr () \<and> is_tracked (tx_id tx) M' \<and>
    (\<exists>cost. mempool_insert (timemarked_new (sha256 E) now tx cost)
      (get_account_nonce s (tx_address_bytes (sha256 E) tx))
      (get_account_balances s (tx_address_bytes (sha256 E) tx)) M = Inr (M', Inr ()))"
  then obtain cost where "mempool_insert (timemarked_new (sha256 E) now tx cost)
      (get_account_nonce s (tx_address_bytes (sha256 E) tx))
      (get_account_balances s (tx_address_bytes (sha256 E) tx)) M = Inr (M', Inr ())" by blast
  then have "mempool_run E k True s M'"
    by (rule mempool_run.insert [OF assms(1) refl, rotated 2]) (use assms(2) in \<open>simp_all add: timemarked_new_def\<close>)
  with * show ?thesis by simp
qed (use assms(1) in auto)

text \<open>
  C31. What the answer to \<open>CheckTx\<close> means. For a mempool that only ever saw the latest nonces, checking the canonical
  encoding of a transaction keeps the mempool a mempool of such a run; after an answer without error the
  hash of the bytes is tracked; after an error the containers and the tracked hashes are what they were.
\<close>

theorem check_tx_answer:
  assumes "mempool_run E k True s M" "tx_codec_ok X" "canonical_bytes X decode_tx tx"
    and "handle_check_tx E X decode_tx now tx s M = Inr (M', rsp)"
  shows "mempool_run E k True s M' \<and>
    (if rsp_code rsp = 0 then is_tracked (sha256 E tx) M'
     else pending M' = pending M \<and> parked M' = parked M \<and> contained_txs M' = contained_txs M)"
proof -
  obtain M1 c where c: "check_removed (sha256 E tx) M = (M1, c)" by (cases "check_removed (sha256 E tx) M")
  note c' = check_removed_outcome [OF c]
  from c' obtain reason where "mempool_check_removed_comet_bft (sha256 E tx) M = (M1, reason)" by blast
  with assms(1) have run1: "mempool_run E k True s M1" by (rule mempool_run.check_removed)
  show ?thesis
  proof (cases c)
    case (Inl rsp')
    then show ?thesis using assms(4) c c' run1 by (auto simp: handle_check_tx_def)
  next
    case (Inr u)
    note handled = assms(4) [unfolded handle_check_tx_def Let_def c Inr prod.case sum.case]
    show ?thesis
    proof (cases "is_tracked (sha256 E tx) M1")
      case True
      then show ?thesis using handled run1 by (auto simp: ok_response_def)
    next
      case new: False
      show ?thesis
      proof (cases "stateless_checks E X decode_tx tx s")
        case (Inl rsp')
        then show ?thesis using handled new run1 c' stateless_checks_error [OF Inl] by auto
      next
        case (Inr stx)
        have id: "tx_id stx = sha256 E tx" by (rule accepted_id [OF assms(2,3) Inr])
        obtain r where ins: "insert_into_mempool E X now s stx M1 = Inr (M', r)"
          and rsp: "rsp = (case r of Inl rsp \<Rightarrow> rsp | Inr _ \<Rightarrow> ok_response)"
          using handled new Inr by (cases "insert_into_mempool E X now s stx M1") (auto split: sum.splits)
        show ?thesis using insert_into_mempool_run [OF run1 _ ins] new c'
          by (auto simp: id rsp ok_response_def split: sum.splits)
      qed
    qed
  qed
qed

section \<open>A sample request\<close>

definition wire_body :: transaction_body where
  "wire_body = \<lparr>body_actions = \<lparr>acts_group = BundleableGeneral, acts_inner = [sample_transfer]\<rparr>,
     body_params = \<lparr>params_nonce = 0, params_chain_id = ''astria-1''\<rparr>\<rparr>"

definition wire_codec :: tx_codec where
  "wire_codec = sample_tx_codec\<lparr>decode_body := \<lambda>_. Inr (transaction_body_to_raw sample_codec wire_body)\<rparr>"

definition wire_tx :: signed_transaction where
  "wire_tx = sign_body wire_codec wire_body (replicate 32 1)"

definition wire_bytes :: bytes where
  "wire_bytes = encode_transaction wire_codec (transaction_to_raw wire_tx)"

definition wire_decode :: "bytes \<Rightarrow> string + raw_transaction" where
  "wire_decode _ = Inr (transaction_to_raw wire_tx)"

lemma wire_codec_ok: "tx_codec_ok wire_codec"
  using sample_tx_codec_ok by (simp add: tx_codec_ok_def wire_codec_def)

lemma wire_field_codec: "field_codec wire_codec = sample_codec"
  by (simp add: wire_codec_def sample_tx_codec_def)

lemma wire_body_read: "transaction_body_try_from_raw sample_codec (transaction_body_to_raw sample_codec wire_body) = Inr wire_body"
proof (rule body_write_read [OF sample_codec_ok])
  show "wf_body sample_codec wire_body" by code_simp
  show "list_all (\<lambda>a. list_all lower_address (action_addresses a)) (acts_inner (body_actions wire_body))" by code_simp
qed

lemma wire_tx_read: "transaction_try_from_raw wire_codec (transaction_to_raw wire_tx) = Inr wire_tx"
  unfolding wire_tx_def
  by (rule read_signed [OF wire_codec_ok]) (simp_all add: wire_field_codec wire_body_read, simp add: encodes_body_def wire_codec_def sample_tx_codec_def)

lemma wire_decoded: "decoded_transaction pad_hash wire_codec wire_tx =
   (sample_tx 1 0 [sample_transfer])\<lparr>tx_id := pad_hash wire_bytes\<rparr>"
  by (simp add: decoded_transaction_def wire_tx_def sign_body_def wire_codec_def sample_tx_codec_def Let_def wire_body_def
   sample_tx_def sample_key_def transaction_id_of_def wire_bytes_def)

lemma sample_ext_hash: "sha256 sample_ext = pad_hash"
  by (simp add: sample_ext_def)

lemma wire_stateless: "stateless_checks sample_ext wire_codec wire_decode wire_bytes sample_state =
   Inr ((sample_tx 1 0 [sample_transfer])\<lparr>tx_id := pad_hash wire_bytes\<rparr>)"
proof -
  have "length wire_bytes \<le> MAX_TX_SIZE"
    by (simp add: wire_bytes_def wire_codec_def sample_tx_codec_def wire_tx_def sign_body_def transaction_to_raw_def MAX_TX_SIZE_def Let_def)
  moreover have "transaction_check_stateless sample_ext ((sample_tx 1 0 [sample_transfer])\<lparr>tx_id := pad_hash wire_bytes\<rparr>) = Inr ()"
    "check_chain_id_mempool ((sample_tx 1 0 [sample_transfer])\<lparr>tx_id := pad_hash wire_bytes\<rparr>) sample_state = Inr ()"
    by (simp_all add: transaction_check_stateless_def check_chain_id_mempool_def sample_tx_def sample_transfer_def
      get_chain_id_def sample_state_def)
  ultimately show ?thesis
    by (simp add: stateless_checks_def wire_decode_def wire_tx_read wire_decoded sample_ext_hash Let_def not_less)
qed

lemma wire_cost: "get_total_transaction_cost sample_ext ((sample_tx 1 0 [sample_transfer])\<lparr>tx_id := h\<rparr>) sample_state =
   Inr [(nria_ibc, 12)]"
  by code_simp

lemma wire_address: "tx_address_bytes pad_hash ((sample_tx 1 0 [sample_transfer])\<lparr>tx_id := h\<rparr>) = sample_account 1"
  by code_simp

lemma wire_prefixed: "try_base_prefixed sample_codec (sample_account 1) sample_state = Inr (sample_address 1)"
  by code_simp

lemma wire_insert:
  "\<exists>M'. mempool_insert (timemarked_new pad_hash now ((sample_tx 1 0 [sample_transfer])\<lparr>tx_id := h\<rparr>) [(nria_ibc, 12)]) 0
     (get_account_balances sample_state (sample_account 1)) (mempool_new 10) = Inr (M', Inr ())"
proof -
  have b: "get_account_balances sample_state (sample_account 1) nria_ibc = Some 1000"
    unfolding get_account_balances_def by code_simp
  have n: "tx_nonce (sample_tx 1 0 [sample_transfer]) = 0" by (simp add: sample_tx_def)
  show ?thesis using b by (simp add: evaluate_mempool timemarked_new_def n)
qed

lemma wire_handled:
  "\<exists>M'. handle_check_tx sample_ext wire_codec wire_decode 0 wire_bytes sample_state (mempool_new 10) = Inr (M', ok_response)"
proof -
  obtain M' where "mempool_insert (timemarked_new pad_hash 0 ((sample_tx 1 0 [sample_transfer])\<lparr>tx_id := pad_hash wire_bytes\<rparr>)
      [(nria_ibc, 12)]) 0 (get_account_balances sample_state (sample_account 1)) (mempool_new 10) = Inr (M', Inr ())"
    using wire_insert by blast
  then have "insert_into_mempool sample_ext wire_codec 0 sample_state
      ((sample_tx 1 0 [sample_transfer])\<lparr>tx_id := pad_hash wire_bytes\<rparr>) (mempool_new 10) = Inr (M', Inr ())"
    by (simp add: insert_into_mempool_def sample_ext_hash wire_field_codec wire_address wire_prefixed wire_cost
        sample_timemarked_facts sample_address_def)
  moreover have "check_removed h (mempool_new 10) = (mempool_new 10, Inr ())" for h
    by (simp add: check_removed_def mempool_check_removed_comet_bft_def cache_remove_def mempool_new_def removal_cache_new_def)
  moreover have "\<not> is_tracked h (mempool_new 10)" for h by (simp add: is_tracked_def mempool_new_def)
  ultimately show ?thesis by (simp add: handle_check_tx_def wire_stateless)
qed

theorem check_tx_answer_witness:
  "\<exists>M'. handle_check_tx sample_ext wire_codec wire_decode 0 wire_bytes sample_state (mempool_new 10) = Inr (M', ok_response) \<and>
    mempool_run sample_ext 10 True sample_state M' \<and> is_tracked (sha256 sample_ext wire_bytes) M'"
proof -
  obtain M' where handled: "handle_check_tx sample_ext wire_codec wire_decode 0 wire_bytes sample_state (mempool_new 10) =
      Inr (M', ok_response)" using wire_handled by blast
  have "canonical_bytes wire_codec wire_decode wire_bytes"
    by (simp add: canonical_bytes_def wire_decode_def wire_bytes_def)
  from check_tx_answer [OF mempool_run.new wire_codec_ok this handled] handled show ?thesis
    by (auto simp: ok_response_def)
qed

end
