(* ===== verification/Rollup_Data.thy ===== *)
theory Rollup_Data
  imports Seq_State Signed_Tx
begin

text \<open>
  The data a rollup receives (\<^verbatim>\<open>crates/astria-core/src/sequencerblock/v1/block/mod.rs\<close>): sequenced data, deposits
  and price feed data, with their messages and conversions. A deposit or price that is read is well-formed,
  and what is written for well-formed data is read back.
\<close>

section \<open>Signed 128 bit integers\<close>

text \<open>\<open>i128\<close> is its word in two's complement.\<close>

type_synonym i128 = "128 word"

record int128 =
  i_lo :: u64
  i_hi :: u64

definition int128_from_i128 :: "i128 \<Rightarrow> int128" where
  "int128_from_i128 primitive =
     (let bs = to_be_bytes 16 primitive in
      \<lparr>i_lo = from_be_bytes (drop 8 bs), i_hi = from_be_bytes (take 8 bs)\<rparr>)"

definition i128_from_int128 :: "int128 \<Rightarrow> i128" where
  "i128_from_int128 pb = from_be_bytes (to_be_bytes 8 (i_hi pb) @ to_be_bytes 8 (i_lo pb))"

lemma i128_int128 [simp]: "i128_from_int128 (int128_from_i128 x) = x"
  using u128_uint128 [of x]
  by (simp add: i128_from_int128_def int128_from_i128_def u128_from_uint128_def uint128_from_u128_def Let_def)

section \<open>Transaction identifiers\<close>

record raw_transaction_id =
  rti_inner :: string

definition transaction_id_to_raw :: "transaction_id \<Rightarrow> raw_transaction_id" where
  "transaction_id_to_raw i = \<lparr>rti_inner = concat (map hex_byte i)\<rparr>"

definition transaction_id_try_from_raw :: "codec \<Rightarrow> raw_transaction_id \<Rightarrow> string + transaction_id" where
  "transaction_id_try_from_raw C r = from_hex C (rti_inner r)"

section \<open>Deposits\<close>

record raw_deposit =
  rdp_bridge_address :: "raw_address option"
  rdp_rollup_id :: "raw_rollup_id option"
  rdp_amount :: "uint128 option"
  rdp_asset :: string
  rdp_destination_chain_address :: string
  rdp_source_transaction_id :: "raw_transaction_id option"
  rdp_source_action_index :: u64

datatype deposit_error =
    DepositAddress address_error
  | DepositFieldNotSet string
  | DepositRollupIdLength nat
  | DepositIncorrectAsset parse_denom_error
  | DepositTransactionId string

definition deposit_to_raw :: "codec \<Rightarrow> deposit \<Rightarrow> raw_deposit" where
  "deposit_to_raw C d =
     \<lparr>rdp_bridge_address = Some (address_to_raw C (dep_bridge_address d)),
      rdp_rollup_id = Some (rollup_id_to_raw (dep_rollup_id d)),
      rdp_amount = Some (uint128_from_u128 (dep_amount d)),
      rdp_asset = denom_display (dep_asset d),
      rdp_destination_chain_address = dep_destination_chain_address d,
      rdp_source_transaction_id = Some (transaction_id_to_raw (dep_source_transaction_id d)),
      rdp_source_action_index = dep_source_action_index d\<rparr>"

definition deposit_try_from_raw :: "codec \<Rightarrow> raw_deposit \<Rightarrow> deposit_error + deposit" where
  "deposit_try_from_raw C r =
     try_bind (ok_or (rdp_bridge_address r) (DepositFieldNotSet ''bridge_address'')) (\<lambda>ba.
     try_bind (map_err DepositAddress (address_try_from_raw C ba)) (\<lambda>bridge_address.
     try_bind (ok_or (rdp_amount r) (DepositFieldNotSet ''amount'')) (\<lambda>amount.
     try_bind (ok_or (rdp_rollup_id r) (DepositFieldNotSet ''rollup_id'')) (\<lambda>ri.
     try_bind (map_err DepositRollupIdLength (rollup_id_try_from_raw ri)) (\<lambda>rollup_id.
     try_bind (map_err DepositIncorrectAsset (denom_parse C (rdp_asset r))) (\<lambda>asset.
     try_bind (ok_or (rdp_source_transaction_id r) (DepositFieldNotSet ''transaction_id'')) (\<lambda>ti.
     try_bind (map_err DepositTransactionId (transaction_id_try_from_raw C ti)) (\<lambda>source_transaction_id.
     Inr \<lparr>dep_bridge_address = bridge_address, dep_rollup_id = rollup_id,
          dep_amount = u128_from_uint128 amount, dep_asset = asset,
          dep_destination_chain_address = rdp_destination_chain_address r,
          dep_source_transaction_id = source_transaction_id,
          dep_source_action_index = rdp_source_action_index r\<rparr>))))))))"

definition wf_deposit :: "codec \<Rightarrow> deposit \<Rightarrow> bool" where
  "wf_deposit C d \<longleftrightarrow> wf_address C (dep_bridge_address d) \<and> wf_rollup_id (dep_rollup_id d) \<and>
     wf_denom (dep_asset d) \<and> length (dep_source_transaction_id d) = 32"

lemma deposit_roundtrip:
  assumes "codec_ok C" "wf_deposit C d" "lower_address (dep_bridge_address d)"
  shows "deposit_try_from_raw C (deposit_to_raw C d) = Inr d"
proof -
  have "from_hex C (concat (map hex_byte (dep_source_transaction_id d))) = Inr (dep_source_transaction_id d)"
    using assms by (simp add: codec_ok_def wf_deposit_def)
  then show ?thesis using assms
    by (simp add: deposit_try_from_raw_def deposit_to_raw_def wf_deposit_def transaction_id_try_from_raw_def
        transaction_id_to_raw_def wire_rt)
qed

lemma deposit_wf:
  assumes "codec_ok C" "deposit_try_from_raw C r = Inr d" shows "wf_deposit C d"
proof -
  from assms(2) have "\<exists>ba. address_try_from_raw C ba = Inr (dep_bridge_address d)"
    "\<exists>ri. rollup_id_try_from_raw ri = Inr (dep_rollup_id d)" "\<exists>a. denom_parse C a = Inr (dep_asset d)"
    "\<exists>ti. from_hex C ti = Inr (dep_source_transaction_id d)"
    by (auto simp: deposit_try_from_raw_def transaction_id_try_from_raw_def)
  then show ?thesis using assms(1)
    by (auto simp: wf_deposit_def codec_ok_def intro: address_wf [OF assms(1)] rollup_id_wf denom_wf [OF assms(1)])
qed

section \<open>Prices\<close>

record price =
  pr_currency_pair :: currency_pair
  pr_price :: i128
  pr_decimals :: u8

record raw_price =
  rpr_currency_pair :: "raw_currency_pair option"
  rpr_price :: "int128 option"
  rpr_decimals :: u64

datatype price_error =
  PriceFieldNotSet string | PriceCurrency currency_pair_error | PriceDecimalsTooLarge

definition price_to_raw :: "price \<Rightarrow> raw_price" where
  "price_to_raw p =
     \<lparr>rpr_currency_pair = Some (currency_pair_to_raw (pr_currency_pair p)),
      rpr_price = Some (int128_from_i128 (pr_price p)),
      rpr_decimals = ucast (pr_decimals p)\<rparr>"

definition price_try_from_raw :: "raw_price \<Rightarrow> price_error + price" where
  "price_try_from_raw r =
     try_bind (ok_or (rpr_currency_pair r) (PriceFieldNotSet ''currency_pair'')) (\<lambda>rp.
     try_bind (map_err PriceCurrency (currency_pair_try_from_raw rp)) (\<lambda>currency_pair.
     try_bind (ok_or (rpr_price r) (PriceFieldNotSet ''price'')) (\<lambda>price.
     try_bind (if unat (rpr_decimals r) < 256 then Inr (ucast (rpr_decimals r)) else Inl PriceDecimalsTooLarge) (\<lambda>decimals.
     Inr \<lparr>pr_currency_pair = currency_pair, pr_price = i128_from_int128 price, pr_decimals = decimals\<rparr>))))"

definition wf_price :: "price \<Rightarrow> bool" where
  "wf_price p \<longleftrightarrow> wf_currency_pair (pr_currency_pair p)"

interpretation price_wire: wire_format price_to_raw price_try_from_raw wf_price
proof
  show "price_try_from_raw (price_to_raw p) = Inr p" if "wf_price p" for p
    using that unat_less_pow [of "pr_decimals p"]
    by (simp add: price_try_from_raw_def price_to_raw_def wf_price_def pair_wire.roundtrip byte_as_u64)
  show "wf_price p" if "price_try_from_raw r = Inr p" for r p
    using that by (auto simp: price_try_from_raw_def wf_price_def dest: pair_wire.sound split: if_splits)
qed

record price_feed_data =
  pfd_prices :: "price list"

record raw_price_feed_data =
  rpfd_prices :: "raw_price list"

definition price_feed_data_to_raw :: "price_feed_data \<Rightarrow> raw_price_feed_data" where
  "price_feed_data_to_raw d = \<lparr>rpfd_prices = map price_to_raw (pfd_prices d)\<rparr>"

definition price_feed_data_try_from_raw :: "raw_price_feed_data \<Rightarrow> price_error + price_feed_data" where
  "price_feed_data_try_from_raw r =
     try_bind (try_map price_try_from_raw (rpfd_prices r)) (\<lambda>prices. Inr \<lparr>pfd_prices = prices\<rparr>)"

definition wf_price_feed_data :: "price_feed_data \<Rightarrow> bool" where
  "wf_price_feed_data d \<longleftrightarrow> list_all wf_price (pfd_prices d)"

interpretation price_feed_wire: wire_format price_feed_data_to_raw price_feed_data_try_from_raw wf_price_feed_data
proof
  show "price_feed_data_try_from_raw (price_feed_data_to_raw d) = Inr d" if "wf_price_feed_data d" for d
    using that by (simp add: price_feed_data_try_from_raw_def price_feed_data_to_raw_def wf_price_feed_data_def
        price_wire.list_roundtrip)
  show "wf_price_feed_data d" if "price_feed_data_try_from_raw r = Inr d" for r d
    using that by (auto simp: price_feed_data_try_from_raw_def wf_price_feed_data_def dest: price_wire.list_sound)
qed

section \<open>Rollup data\<close>

datatype rollup_data =
    SequencedData bytes
  | RollupDeposit deposit
  | RollupPriceFeedData price_feed_data

datatype raw_rollup_data_value =
    RawSequencedData bytes
  | RawDeposit raw_deposit
  | RawPriceFeedData raw_price_feed_data

record raw_rollup_data =
  rrd_value :: "raw_rollup_data_value option"

datatype rollup_data_error =
    RollupDataFieldNotSet string
  | RollupDataDeposit deposit_error
  | RollupDataPriceFeedData price_error

fun rollup_data_to_raw :: "codec \<Rightarrow> rollup_data \<Rightarrow> raw_rollup_data" where
  "rollup_data_to_raw C (SequencedData data) = \<lparr>rrd_value = Some (RawSequencedData data)\<rparr>"
| "rollup_data_to_raw C (RollupDeposit d) = \<lparr>rrd_value = Some (RawDeposit (deposit_to_raw C d))\<rparr>"
| "rollup_data_to_raw C (RollupPriceFeedData d) =
     \<lparr>rrd_value = Some (RawPriceFeedData (price_feed_data_to_raw d))\<rparr>"

definition rollup_data_try_from_raw :: "codec \<Rightarrow> raw_rollup_data \<Rightarrow> rollup_data_error + rollup_data" where
  "rollup_data_try_from_raw C r =
     (case rrd_value r of
        Some (RawSequencedData data) \<Rightarrow> Inr (SequencedData data)
      | Some (RawDeposit d) \<Rightarrow>
          try_bind (map_err RollupDataDeposit (deposit_try_from_raw C d)) (\<lambda>d'. Inr (RollupDeposit d'))
      | Some (RawPriceFeedData d) \<Rightarrow>
          try_bind (map_err RollupDataPriceFeedData (price_feed_data_try_from_raw d))
            (\<lambda>d'. Inr (RollupPriceFeedData d'))
      | None \<Rightarrow> Inl (RollupDataFieldNotSet ''data''))"

text \<open>What a rollup node can read, and what the sequencer writes with lower-case prefixes.\<close>

fun wf_rollup_data :: "codec \<Rightarrow> rollup_data \<Rightarrow> bool" where
  "wf_rollup_data C (SequencedData data) \<longleftrightarrow> True"
| "wf_rollup_data C (RollupDeposit d) \<longleftrightarrow> wf_deposit C d"
| "wf_rollup_data C (RollupPriceFeedData d) \<longleftrightarrow> wf_price_feed_data d"

fun lower_rollup_data :: "rollup_data \<Rightarrow> bool" where
  "lower_rollup_data (RollupDeposit d) \<longleftrightarrow> lower_address (dep_bridge_address d)"
| "lower_rollup_data _ \<longleftrightarrow> True"

lemma rollup_data_roundtrip:
  "codec_ok C \<Longrightarrow> wf_rollup_data C d \<Longrightarrow> lower_rollup_data d \<Longrightarrow>
    rollup_data_try_from_raw C (rollup_data_to_raw C d) = Inr d"
  by (cases d) (simp_all add: rollup_data_try_from_raw_def deposit_roundtrip price_feed_wire.roundtrip)

lemma rollup_data_wf:
  "codec_ok C \<Longrightarrow> rollup_data_try_from_raw C r = Inr d \<Longrightarrow> wf_rollup_data C d"
  by (auto simp: rollup_data_try_from_raw_def dest: deposit_wf price_feed_wire.sound
      split: option.splits raw_rollup_data_value.splits)

end
