(* ===== verification/Block_Data.thy ===== *)
theory Block_Data
  imports Rollup_Data Merkle_Audit "HOL-Library.List_Lexorder"
begin

text \<open>
  The data of a block and what the sequencer derives from it
  (\<^verbatim>\<open>crates/astria-core/src/sequencerblock/v1/block/mod.rs\<close>,
  \<^verbatim>\<open>crates/astria-sequencer/src/proposal/commitment.rs\<close>): the data of the transactions and the deposits grouped
  by rollup, the two commitments at the start of the block's data, the items of the data, and the block that
  is built from them.

  \<open>IndexMap\<close> is an association list in insertion order, in which inserting for a key that exists replaces the
  value in place, as \<open>AList.update\<close> does. The deposits come from a \<open>HashMap\<close>: they are an association list
  in the arbitrary order of its iteration.

  Code outside the repository is a field of \<open>block_codec\<close>: the protobuf coders, SHA-256 and the checks of
  CometBFT's types. A panic of an \<open>expect\<close> is the error \<open>Panicked\<close>; a refusal with the source's error is
  \<open>Fault\<close>.
\<close>

section \<open>Refusals and panics\<close>

datatype 'e fault = Fault 'e | Panicked

definition refuse :: "'e \<Rightarrow> 'e fault + 'a" where
  [simp]: "refuse e = Inl (Fault e)"

definition no_panic :: "'a option \<Rightarrow> 'e fault + 'a" where
  "no_panic v = ok_or v Panicked"

definition wrap :: "('f \<Rightarrow> 'e) \<Rightarrow> 'f + 'a \<Rightarrow> 'e fault + 'a" where
  "wrap g m = map_err (\<lambda>e. Fault (g e)) m"

definition rewrap :: "('f \<Rightarrow> 'e) \<Rightarrow> 'f fault + 'a \<Rightarrow> 'e fault + 'a" where
  "rewrap g m = map_err (map_fault g) m"

definition require :: "bool \<Rightarrow> 'e \<Rightarrow> 'e fault + unit" where
  "require b e = (if b then Inr () else Inl (Fault e))"

lemma no_panic_Inr_iff [simp]: "no_panic v = Inr x \<longleftrightarrow> v = Some x"
  by (simp add: no_panic_def)

lemma wrap_Inr_iff [simp]: "wrap g m = Inr x \<longleftrightarrow> m = Inr x"
  by (simp add: wrap_def)

lemma rewrap_Inr_iff [simp]: "rewrap g m = Inr x \<longleftrightarrow> m = Inr x"
  by (simp add: rewrap_def)

lemma require_Inr_iff [simp]: "require b e = Inr u \<longleftrightarrow> b"
  by (simp add: require_def)

lemma fault_simps [simp]: "no_panic (Some x) = Inr x" "wrap g (Inr x) = Inr x" "rewrap g (Inr x) = Inr x"
  "require True e = Inr ()"
  by (simp_all add: no_panic_def wrap_def rewrap_def require_def)

section \<open>Messages\<close>

record raw_proof =
  rpf_audit_path :: bytes
  rpf_leaf_index :: u64
  rpf_tree_size :: u64

datatype raw_data_item_value =
    RawRollupTransactionsRoot bytes
  | RawRollupIdsRoot bytes
  | RawUpgradeChangeHashes "bytes list"
  | RawExtendedCommitInfo bytes

record raw_data_item =
  rdi_value :: "raw_data_item_value option"

text \<open>The seconds and nanoseconds of a protobuf timestamp (\<open>i64\<close>, \<open>i32\<close>) are only copied; they are unbounded here.\<close>

record raw_timestamp =
  ts_seconds :: int
  ts_nanos :: int

record raw_id_with_currency_pair =
  rid_id :: u64
  rid_currency_pair :: "raw_currency_pair option"
  rid_decimals :: u64

record raw_commit_info_mapping =
  rcim_extended_commit_info :: "bytes option"
  rcim_id_to_currency_pair :: "raw_id_with_currency_pair list"

section \<open>The code outside the repository\<close>

text \<open>
  \<open>'c\<close> is CometBFT's extended commit info; its message is only passed on and stands here as bytes. Times are
  in nanoseconds.
\<close>

record 'c block_codec =
  sha256 :: hash_fun
  block_tx_codec :: tx_codec
  decode_transaction :: "bytes \<Rightarrow> string + raw_transaction"
  encode_rollup_data :: "raw_rollup_data \<Rightarrow> bytes"
  encode_data_item :: "raw_data_item \<Rightarrow> bytes"
  decode_data_item :: "bytes \<Rightarrow> string + raw_data_item"
  decode_commit_info :: "bytes \<Rightarrow> string + raw_commit_info_mapping"
  commit_info_try_from :: "bytes \<Rightarrow> string + 'c"
  chain_id_try_from :: "string \<Rightarrow> string + string"
  height_try_from :: "u64 \<Rightarrow> string + u64"
  time_try_from :: "raw_timestamp \<Rightarrow> string + int"
  time_into :: "int \<Rightarrow> raw_timestamp"
  account_id_try_from :: "bytes \<Rightarrow> string + bytes"

section \<open>Merkle proofs on the wire\<close>

definition proof_to_raw :: "merkle_proof \<Rightarrow> raw_proof" where
  "proof_to_raw p =
     (let u = into_unchecked p in
      \<lparr>rpf_audit_path = u_audit_path u, rpf_leaf_index = u_leaf_index u, rpf_tree_size = u_tree_size u\<rparr>)"

definition proof_try_from_raw :: "raw_proof \<Rightarrow> invalid_proof fault + merkle_proof" where
  "proof_try_from_raw r =
     try_bind (no_panic (try_into_proof \<lparr>u_audit_path = rpf_audit_path r, u_leaf_index = rpf_leaf_index r,
         u_tree_size = rpf_tree_size r\<rparr>))
       (wrap id)"

text \<open>\<open>Tree::construct_proof\<close> followed by \<open>expect\<close>.\<close>

definition expect_proof :: "tree \<Rightarrow> nat \<Rightarrow> 'e fault + merkle_proof" where
  "expect_proof t i = try_bind (no_panic (construct_proof t (of_nat i))) no_panic"

section \<open>Data by rollup\<close>

type_synonym rollup_map = "(rollup_id \<times> bytes list) list"

text \<open>\<open>entry(k).or_default().extend(vs)\<close>\<close>

definition entry_extend :: "'k \<Rightarrow> 'v list \<Rightarrow> ('k \<times> 'v list) list \<Rightarrow> ('k \<times> 'v list) list" where
  "entry_extend k vs m = AList.update k ((case map_of m k of None \<Rightarrow> [] | Some xs \<Rightarrow> xs) @ vs) m"

definition sort_keys :: "('k::linorder \<times> 'v) list \<Rightarrow> ('k \<times> 'v) list" where
  "sort_keys m = sort_key fst m"

abbreviation stx_actions :: "signed_transaction \<Rightarrow> action list" where
  "stx_actions t \<equiv> acts_inner (body_actions (stx_body t))"

definition encoded_rollup_data :: "'c block_codec \<Rightarrow> rollup_data \<Rightarrow> bytes" where
  "encoded_rollup_data B d = encode_rollup_data B (rollup_data_to_raw (field_codec (block_tx_codec B)) d)"

fun group_actions :: "'c block_codec \<Rightarrow> action list \<Rightarrow> rollup_map \<Rightarrow> rollup_map" where
  "group_actions B [] m = m"
| "group_actions B (a # acts) m =
     group_actions B acts
       (case a of
          RollupDataSubmission s \<Rightarrow>
            entry_extend (rds_rollup_id s) [encoded_rollup_data B (SequencedData (rds_data s))] m
        | _ \<Rightarrow> m)"

definition group_rollup_data_submissions :: "'c block_codec \<Rightarrow> signed_transaction list \<Rightarrow> rollup_map" where
  "group_rollup_data_submissions B txs = sort_keys (group_actions B (concat (map stx_actions txs)) [])"

fun extend_with_deposits :: "'c block_codec \<Rightarrow> (rollup_id \<times> deposit list) list \<Rightarrow> rollup_map \<Rightarrow> rollup_map" where
  "extend_with_deposits B [] m = m"
| "extend_with_deposits B ((i, ds) # deposits) m =
     extend_with_deposits B deposits
       (entry_extend i (map (\<lambda>d. encoded_rollup_data B (RollupDeposit d)) ds) m)"

fun derive_tree_loop :: "hash_fun \<Rightarrow> rollup_map \<Rightarrow> tree \<Rightarrow> tree option" where
  "derive_tree_loop H [] t = Some t"
| "derive_tree_loop H ((rollup_id, txs) # m) t = do {
     txs_tree \<leftarrow> from_leaves H txs;
     root \<leftarrow> tree_root H txs_tree;
     builder \<leftarrow> builder_write (build_leaf t) rollup_id;
     builder \<leftarrow> builder_write builder root;
     t' \<leftarrow> drop_builder H builder;
     derive_tree_loop H m t'
   }"

definition derive_merkle_tree_from_rollup_txs :: "hash_fun \<Rightarrow> rollup_map \<Rightarrow> tree option" where
  "derive_merkle_tree_from_rollup_txs H m = derive_tree_loop H m new_tree"

section \<open>The commitments of a proposal\<close>

record generated_commitments =
  rollup_datas_root :: bytes
  gen_rollup_ids_root :: bytes

definition generate_rollup_datas_commitment ::
  "'c block_codec \<Rightarrow> signed_transaction list \<Rightarrow> (rollup_id \<times> deposit list) list \<Rightarrow> generated_commitments option" where
  "generate_rollup_datas_commitment B signed_txs deposits =
     (let rollup_ids_to_txs =
        sort_keys (extend_with_deposits B deposits (group_rollup_data_submissions B signed_txs)) in
      do {
        ids_tree \<leftarrow> from_leaves (sha256 B) (map fst rollup_ids_to_txs);
        ids_root \<leftarrow> tree_root (sha256 B) ids_tree;
        datas_tree \<leftarrow> derive_merkle_tree_from_rollup_txs (sha256 B) rollup_ids_to_txs;
        datas_root \<leftarrow> tree_root (sha256 B) datas_tree;
        Some \<lparr>rollup_datas_root = datas_root, gen_rollup_ids_root = ids_root\<rparr>
      })"

section \<open>Items of the block data\<close>

datatype data_item =
    RollupTransactionsRoot bytes
  | RollupIdsRoot bytes
  | UpgradeChangeHashes "bytes list"
  | ExtendedCommitInfo bytes

fun variant_name :: "data_item \<Rightarrow> string" where
  "variant_name (RollupTransactionsRoot _) = ''rollup transactions root''"
| "variant_name (RollupIdsRoot _) = ''rollup ids root''"
| "variant_name (UpgradeChangeHashes _) = ''upgrade change hashes''"
| "variant_name (ExtendedCommitInfo _) = ''extended commit info''"

fun data_item_value :: "data_item \<Rightarrow> raw_data_item_value" where
  "data_item_value (RollupTransactionsRoot root) = RawRollupTransactionsRoot root"
| "data_item_value (RollupIdsRoot root) = RawRollupIdsRoot root"
| "data_item_value (UpgradeChangeHashes hashes) = RawUpgradeChangeHashes hashes"
| "data_item_value (ExtendedCommitInfo info) = RawExtendedCommitInfo info"

definition data_item_encode :: "'c block_codec \<Rightarrow> data_item \<Rightarrow> bytes" where
  "data_item_encode B item = encode_data_item B \<lparr>rdi_value = Some (data_item_value item)\<rparr>"

datatype data_item_error =
    ItemDecode string nat
  | ItemFieldNotSet string
  | IncorrectHashLength string nat
  | Mismatch nat string string

text \<open>\<open><[u8; 32]>::try_from\<close>\<close>

definition array32 :: "bytes \<Rightarrow> (nat \<Rightarrow> 'e) \<Rightarrow> 'e + bytes" where
  "array32 bs e = (if length bs = 32 then Inr bs else Inl (e (length bs)))"

definition data_item_decode :: "'c block_codec \<Rightarrow> nat \<Rightarrow> bytes \<Rightarrow> data_item_error + data_item" where
  "data_item_decode B index bytes =
     try_bind (map_err (\<lambda>e. ItemDecode e index) (decode_data_item B bytes)) (\<lambda>raw.
     try_bind (ok_or (rdi_value raw) (ItemFieldNotSet ''value'')) (\<lambda>value.
     case value of
       RawRollupTransactionsRoot root \<Rightarrow>
         try_bind (array32 root (IncorrectHashLength ''rollup_transactions_root'')) (\<lambda>r. Inr (RollupTransactionsRoot r))
     | RawRollupIdsRoot root \<Rightarrow>
         try_bind (array32 root (IncorrectHashLength ''rollup_ids_root'')) (\<lambda>r. Inr (RollupIdsRoot r))
     | RawUpgradeChangeHashes hashes \<Rightarrow>
         try_bind (try_map (\<lambda>h. array32 h (IncorrectHashLength ''upgrade_change_hash'')) hashes)
           (\<lambda>hs. Inr (UpgradeChangeHashes hs))
     | RawExtendedCommitInfo info \<Rightarrow> Inr (ExtendedCommitInfo info)))"

fun into_rollup_transactions_root :: "data_item \<Rightarrow> nat \<Rightarrow> data_item_error + bytes" where
  "into_rollup_transactions_root (RollupTransactionsRoot root) i = Inr root"
| "into_rollup_transactions_root item i = Inl (Mismatch i ''rollup transactions root'' (variant_name item))"

fun into_rollup_ids_root :: "data_item \<Rightarrow> nat \<Rightarrow> data_item_error + bytes" where
  "into_rollup_ids_root (RollupIdsRoot root) i = Inr root"
| "into_rollup_ids_root item i = Inl (Mismatch i ''rollup ids root'' (variant_name item))"

fun into_extended_commit_info :: "data_item \<Rightarrow> nat \<Rightarrow> data_item_error + bytes" where
  "into_extended_commit_info (ExtendedCommitInfo info) i = Inr info"
| "into_extended_commit_info item i = Inl (Mismatch i ''extended commit info'' (variant_name item))"

definition commitment_items :: "'c block_codec \<Rightarrow> bool \<Rightarrow> generated_commitments \<Rightarrow> bytes list" where
  "commitment_items B uses_data_item_enum c =
     (if uses_data_item_enum
      then [data_item_encode B (RollupTransactionsRoot (rollup_datas_root c)),
            data_item_encode B (RollupIdsRoot (gen_rollup_ids_root c))]
      else [rollup_datas_root c, gen_rollup_ids_root c])"

section \<open>Extended commit infos\<close>

record currency_pair_info =
  cpi_currency_pair :: currency_pair
  cpi_decimals :: u8

record 'c commit_info_mapping =
  cim_extended_commit_info :: 'c
  cim_id_to_currency_pair :: "(u64 \<times> currency_pair_info) list"

datatype commit_info_mapping_error =
    MappingFieldNotSet string
  | MappingCurrencyPair currency_pair_error
  | MappingExtendedCommitInfo string
  | MappingDecimalsTooLarge u64

definition id_with_currency_pair_try_from_raw ::
  "raw_id_with_currency_pair \<Rightarrow> commit_info_mapping_error + u64 \<times> currency_pair_info" where
  "id_with_currency_pair_try_from_raw r =
     try_bind (ok_or (rid_currency_pair r) (MappingFieldNotSet ''currency_pair'')) (\<lambda>rp.
     try_bind (map_err MappingCurrencyPair (currency_pair_try_from_raw rp)) (\<lambda>pair.
     try_bind (if unat (rid_decimals r) < 256 then Inr (ucast (rid_decimals r))
               else Inl (MappingDecimalsTooLarge (rid_decimals r))) (\<lambda>decimals.
     Inr (rid_id r, \<lparr>cpi_currency_pair = pair, cpi_decimals = decimals\<rparr>))))"

text \<open>\<open>collect\<close> into an \<open>IndexMap\<close>.\<close>

definition collect_map :: "('k \<times> 'v) list \<Rightarrow> ('k \<times> 'v) list" where
  "collect_map kvs = fold (\<lambda>(k, v). AList.update k v) kvs []"

definition commit_info_mapping_try_from_raw ::
  "'c block_codec \<Rightarrow> raw_commit_info_mapping \<Rightarrow> commit_info_mapping_error + 'c commit_info_mapping" where
  "commit_info_mapping_try_from_raw B r =
     try_bind (ok_or (rcim_extended_commit_info r) (MappingFieldNotSet ''extended_commit_info'')) (\<lambda>ri.
     try_bind (map_err MappingExtendedCommitInfo (commit_info_try_from B ri)) (\<lambda>info.
     try_bind (try_map id_with_currency_pair_try_from_raw (rcim_id_to_currency_pair r)) (\<lambda>pairs.
     Inr \<lparr>cim_extended_commit_info = info, cim_id_to_currency_pair = collect_map pairs\<rparr>)))"

record 'c commit_info_with_proof =
  cip_extended_commit_info :: "'c commit_info_mapping"
  cip_encoded_extended_commit_info :: bytes
  cip_proof :: merkle_proof

section \<open>The expanded data of a block\<close>

datatype sequencer_block_header_error =
    InvalidChainId string
  | InvalidHeight string
  | HeaderFieldNotSet string
  | HeaderTime string
  | HeaderRootLength nat
  | ProposerAddress string

datatype rollup_transactions_error =
    RtRollupId nat
  | RtFieldNotSet string
  | RtProofInvalid invalid_proof

datatype extended_commit_info_error =
    CommitInfoProofNotSet
  | CommitInfoInvalidProof invalid_proof
  | CommitInfoNotInSequencerBlock
  | CommitInfoDecode string
  | CommitInfoInvalid commit_info_mapping_error

datatype sequencer_block_error =
    InvalidBlockHash nat
  | BlockFieldNotSet string
  | BlockHeader sequencer_block_header_error
  | ParseRollupTransactions rollup_transactions_error
  | TransactionProofInvalid invalid_proof
  | IdProofInvalid invalid_proof
  | BlockDataItem data_item_error
  | NoRollupTransactionsRoot
  | IncorrectRollupTransactionsRootLength
  | NoRollupIdsRoot
  | IncorrectRollupIdsRootLength
  | NoExtendedCommitInfo
  | RollupTransactionsNotInSequencerBlock
  | TransactionProtobufDecode string
  | RawTransactionConversion transaction_error
  | RollupTransactionsRootDoesNotMatchReconstructed
  | RollupIdsRootDoesNotMatchReconstructed
  | InvalidRollupTransactionsRoot
  | InvalidRollupIdsProof
  | BlockChangeHash nat
  | BlockExtendedCommitInfo extended_commit_info_error
  | DecodeExtendedCommitInfo string
  | InvalidExtendedCommitInfo commit_info_mapping_error

record 'c expanded_block_data =
  data_root_hash :: bytes
  ebd_rollup_transactions_root :: bytes
  ebd_rollup_transactions_proof :: merkle_proof
  ebd_rollup_ids_root :: bytes
  ebd_rollup_ids_proof :: merkle_proof
  ebd_upgrade_change_hashes :: "bytes list"
  ebd_extended_commit_info_with_proof :: "'c commit_info_with_proof option"
  user_submitted_transactions :: "signed_transaction list"

definition merkle_tree_from_data :: "hash_fun \<Rightarrow> bytes list \<Rightarrow> tree option" where
  "merkle_tree_from_data H items = from_leaves H (map H items)"

definition read_transaction :: "'c block_codec \<Rightarrow> bytes \<Rightarrow> sequencer_block_error fault + signed_transaction" where
  "read_transaction B bytes =
     try_bind (wrap TransactionProtobufDecode (decode_transaction B bytes)) (\<lambda>raw_tx.
     wrap RawTransactionConversion (transaction_try_from_raw (block_tx_codec B) raw_tx))"

definition new_from_untyped_data ::
  "'c block_codec \<Rightarrow> bytes list \<Rightarrow> sequencer_block_error fault + 'c expanded_block_data" where
  "new_from_untyped_data B data =
     try_bind (no_panic (merkle_tree_from_data (sha256 B) data)) (\<lambda>tree.
     try_bind (no_panic (tree_root (sha256 B) tree)) (\<lambda>root.
     case data of
       [] \<Rightarrow> refuse NoRollupTransactionsRoot
     | b0 # rest \<Rightarrow>
         try_bind (wrap id (array32 b0 (\<lambda>_. IncorrectRollupTransactionsRootLength))) (\<lambda>txs_root.
         try_bind (expect_proof tree 0) (\<lambda>txs_proof.
         case rest of
           [] \<Rightarrow> refuse NoRollupIdsRoot
         | b1 # rest \<Rightarrow>
             try_bind (wrap id (array32 b1 (\<lambda>_. IncorrectRollupIdsRootLength))) (\<lambda>ids_root.
             try_bind (expect_proof tree 1) (\<lambda>ids_proof.
             try_bind (try_map (read_transaction B) rest) (\<lambda>txs.
             Inr \<lparr>data_root_hash = root, ebd_rollup_transactions_root = txs_root,
                  ebd_rollup_transactions_proof = txs_proof, ebd_rollup_ids_root = ids_root,
                  ebd_rollup_ids_proof = ids_proof, ebd_upgrade_change_hashes = [],
                  ebd_extended_commit_info_with_proof = None, user_submitted_transactions = txs\<rparr>)))))))"

text \<open>
  The parts of \<open>new_from_typed_data\<close> in their order: the optional change hashes are peeked at, the
  extended commit info is read when it is expected. The results carry the items that are left.
\<close>

fun take_upgrade_change_hashes ::
  "'c block_codec \<Rightarrow> nat \<Rightarrow> bytes list \<Rightarrow> bytes list \<times> nat \<times> bytes list" where
  "take_upgrade_change_hashes B i [] = ([], i, [])"
| "take_upgrade_change_hashes B i (b # rest) =
     (case data_item_decode B i b of
        Inr (UpgradeChangeHashes hs) \<Rightarrow> (hs, Suc i, rest)
      | _ \<Rightarrow> ([], i, b # rest))"

definition take_extended_commit_info ::
  "'c block_codec \<Rightarrow> bool \<Rightarrow> nat \<Rightarrow> bytes list \<Rightarrow>
     sequencer_block_error fault + ('c commit_info_mapping \<times> bytes) option \<times> bytes list" where
  "take_extended_commit_info B with_info i items =
     (if \<not> with_info then Inr (None, items)
      else case items of
        [] \<Rightarrow> refuse NoExtendedCommitInfo
      | b # rest \<Rightarrow>
          try_bind (wrap BlockDataItem (try_bind (data_item_decode B i b)
              (\<lambda>item. into_extended_commit_info item i))) (\<lambda>encoded.
          try_bind (wrap DecodeExtendedCommitInfo (decode_commit_info B encoded)) (\<lambda>raw_info.
          try_bind (wrap InvalidExtendedCommitInfo (commit_info_mapping_try_from_raw B raw_info)) (\<lambda>info.
          Inr (Some (info, encoded), rest)))))"

definition new_from_typed_data ::
  "'c block_codec \<Rightarrow> bytes list \<Rightarrow> bool \<Rightarrow> sequencer_block_error fault + 'c expanded_block_data" where
  "new_from_typed_data B data with_info =
     (case data of
        [] \<Rightarrow> refuse NoRollupTransactionsRoot
      | b0 # rest \<Rightarrow>
          try_bind (wrap BlockDataItem (try_bind (data_item_decode B 0 b0)
              (\<lambda>item. into_rollup_transactions_root item 0))) (\<lambda>txs_root.
          case rest of
            [] \<Rightarrow> refuse NoRollupIdsRoot
          | b1 # rest \<Rightarrow>
              try_bind (wrap BlockDataItem (try_bind (data_item_decode B 1 b1)
                  (\<lambda>item. into_rollup_ids_root item 1))) (\<lambda>ids_root.
              let (hashes, i, rest) = take_upgrade_change_hashes B 2 rest in
              try_bind (take_extended_commit_info B with_info i rest) (\<lambda>(info_item, items).
              try_bind (try_map (read_transaction B) items) (\<lambda>txs.
              let leaves = [sha256 B txs_root, sha256 B ids_root] @
                (case info_item of None \<Rightarrow> [] | Some (_, encoded) \<Rightarrow> [sha256 B encoded]) @
                map (sha256 B) items in
              try_bind (no_panic (from_leaves (sha256 B) leaves)) (\<lambda>tree.
              try_bind (no_panic (tree_root (sha256 B) tree)) (\<lambda>root.
              try_bind (expect_proof tree 0) (\<lambda>txs_proof.
              try_bind (expect_proof tree 1) (\<lambda>ids_proof.
              try_bind (case info_item of
                  None \<Rightarrow> Inr None
                | Some (info, encoded) \<Rightarrow>
                    try_bind (expect_proof tree 2) (\<lambda>p.
                    Inr (Some \<lparr>cip_extended_commit_info = info, cip_encoded_extended_commit_info = encoded,
                               cip_proof = p\<rparr>))) (\<lambda>info_with_proof.
              Inr \<lparr>data_root_hash = root, ebd_rollup_transactions_root = txs_root,
                   ebd_rollup_transactions_proof = txs_proof, ebd_rollup_ids_root = ids_root,
                   ebd_rollup_ids_proof = ids_proof, ebd_upgrade_change_hashes = hashes,
                   ebd_extended_commit_info_with_proof = info_with_proof,
                   user_submitted_transactions = txs\<rparr>)))))))))) "

definition injected_transaction_count :: "'c expanded_block_data \<Rightarrow> usize" where
  "injected_transaction_count d =
     saturating_add (saturating_add 2 (if ebd_upgrade_change_hashes d = [] then 0 else 1))
       (if ebd_extended_commit_info_with_proof d = None then 0 else 1)"

section \<open>Building a block\<close>

record sequencer_block_header =
  sbh_chain_id :: string
  sbh_height :: u64
  sbh_time :: int
  sbh_rollup_transactions_root :: bytes
  sbh_data_hash :: bytes
  sbh_proposer_address :: bytes

record rollup_transactions =
  rt_rollup_id :: rollup_id
  rt_transactions :: "bytes list"
  rt_proof :: merkle_proof

record 'c sequencer_block =
  sb_block_hash :: bytes
  sb_header :: sequencer_block_header
  sb_rollup_transactions :: "(rollup_id \<times> rollup_transactions) list"
  sb_rollup_transactions_proof :: merkle_proof
  sb_rollup_ids_proof :: merkle_proof
  sb_upgrade_change_hashes :: "bytes list"
  sb_extended_commit_info_with_proof :: "'c commit_info_with_proof option"

record 'c sequencer_block_builder =
  sbb_block_hash :: bytes
  sbb_chain_id :: string
  sbb_height :: u64
  sbb_time :: int
  sbb_proposer_address :: bytes
  sbb_expanded_block_data :: "'c expanded_block_data"
  sbb_deposits :: "(rollup_id \<times> deposit list) list"

fun group_transactions :: "'c block_codec \<Rightarrow> signed_transaction list \<Rightarrow> rollup_map \<Rightarrow> rollup_map" where
  "group_transactions B [] m = m"
| "group_transactions B (tx # txs) m = group_transactions B txs (group_actions B (stx_actions tx) m)"

fun attach_proofs ::
  "tree \<Rightarrow> nat \<Rightarrow> rollup_map \<Rightarrow> (rollup_id \<times> rollup_transactions) list \<Rightarrow>
     'e fault + (rollup_id \<times> rollup_transactions) list" where
  "attach_proofs t i [] acc = Inr acc"
| "attach_proofs t i ((rollup_id, data) # m) acc =
     try_bind (expect_proof t i) (\<lambda>p.
     attach_proofs t (Suc i) m
       (AList.update rollup_id \<lparr>rt_rollup_id = rollup_id, rt_transactions = data, rt_proof = p\<rparr> acc))"

definition try_build :: "'c block_codec \<Rightarrow> 'c sequencer_block_builder \<Rightarrow> sequencer_block_error fault + 'c sequencer_block" where
  "try_build B b =
     (let d = sbb_expanded_block_data b;
          rollup_datas = sort_keys (extend_with_deposits B (sbb_deposits b)
            (group_transactions B (user_submitted_transactions d) [])) in
      try_bind (no_panic (from_leaves (sha256 B) (map fst rollup_datas))) (\<lambda>ids_tree.
      try_bind (no_panic (tree_root (sha256 B) ids_tree)) (\<lambda>ids_root.
      try_bind (require (ebd_rollup_ids_root d = ids_root) RollupIdsRootDoesNotMatchReconstructed) (\<lambda>_.
      try_bind (no_panic (derive_merkle_tree_from_rollup_txs (sha256 B) rollup_datas)) (\<lambda>tree.
      try_bind (no_panic (tree_root (sha256 B) tree)) (\<lambda>root.
      try_bind (require (ebd_rollup_transactions_root d = root)
          RollupTransactionsRootDoesNotMatchReconstructed) (\<lambda>_.
      try_bind (attach_proofs tree 0 rollup_datas []) (\<lambda>rollup_transactions.
      Inr \<lparr>sb_block_hash = sbb_block_hash b,
           sb_header = \<lparr>sbh_chain_id = sbb_chain_id b, sbh_height = sbb_height b, sbh_time = sbb_time b,
             sbh_rollup_transactions_root = ebd_rollup_transactions_root d,
             sbh_data_hash = data_root_hash d, sbh_proposer_address = sbb_proposer_address b\<rparr>,
           sb_rollup_transactions = sort_keys rollup_transactions,
           sb_rollup_transactions_proof = ebd_rollup_transactions_proof d,
           sb_rollup_ids_proof = ebd_rollup_ids_proof d,
           sb_upgrade_change_hashes = ebd_upgrade_change_hashes d,
           sb_extended_commit_info_with_proof = ebd_extended_commit_info_with_proof d\<rparr>))))))))"

end
