(* ===== verification/Block_Build.thy ===== *)
theory Block_Build
  imports Block_Data
begin

text \<open>
  Building blocks. The data by rollup depends only on the transactions and on the deposits of each rollup, not on
  the order in which the deposits are iterated; the trees over it have the Merkle tree hashes of the data as roots, and
  the proofs that are attached verify.
\<close>

section \<open>Data by rollup\<close>

definition content :: "('k \<times> 'v list) list \<Rightarrow> 'k \<Rightarrow> 'v list" where
  "content m k = (case map_of m k of None \<Rightarrow> [] | Some xs \<Rightarrow> xs)"

lemma map_of_entry_extend: "map_of (entry_extend k vs m) = (map_of m)(k \<mapsto> content m k @ vs)"
  by (simp add: entry_extend_def content_def update_conv')

lemma distinct_entry_extend: "distinct (map fst m) \<Longrightarrow> distinct (map fst (entry_extend k vs m))"
  by (simp add: entry_extend_def distinct_update)

lemma distinct_group_actions: "distinct (map fst m) \<Longrightarrow> distinct (map fst (group_actions B acts m))"
  by (induction acts arbitrary: m) (auto simp: distinct_entry_extend split: action.split)

lemma distinct_extend_with_deposits:
  "distinct (map fst m) \<Longrightarrow> distinct (map fst (extend_with_deposits B deposits m))"
  by (induction B deposits m rule: extend_with_deposits.induct) (simp_all add: distinct_entry_extend)

lemma group_actions_append: "group_actions B (acts @ acts') m = group_actions B acts' (group_actions B acts m)"
  by (induction acts arbitrary: m) simp_all

lemma group_transactions_eq: "group_transactions B txs m = group_actions B (concat (map stx_actions txs)) m"
  by (induction txs arbitrary: m) (simp_all add: group_actions_append)

text \<open>A list with distinct keys is sorted to the same list as any other with the same entries.\<close>

lemma distinct_sort_keys: "distinct (map fst (sort_keys m)) \<longleftrightarrow> distinct (map fst m)"
  by (simp add: sort_keys_def distinct_map)

lemma sort_keys_unique:
  assumes "distinct (map fst m)" "distinct (map fst m')" "map_of m = map_of m'"
  shows "sort_keys m = sort_keys m'"
proof (rule map_sorted_distinct_set_unique [of fst])
  have "set m = set m'" using assms by (simp add: map_of_inject_set)
  then show "set (sort_keys m) = set (sort_keys m')" by (simp add: sort_keys_def)
  show "inj_on fst (set (sort_keys m) \<union> set (sort_keys m'))"
    using assms(1) \<open>set m = set m'\<close> by (simp add: sort_keys_def distinct_map)
qed (use assms in \<open>simp_all only: distinct_sort_keys, simp_all add: sort_keys_def\<close>)

lemma map_of_sort_keys: "distinct (map fst m) \<Longrightarrow> map_of (sort_keys m) = map_of m"
  using distinct_sort_keys [of m] by (simp add: map_of_inject_set sort_keys_def)

lemma map_of_extend_with_deposits:
  assumes "distinct (map fst deposits)"
  shows "map_of (extend_with_deposits B deposits m) i =
    (case map_of deposits i of
       None \<Rightarrow> map_of m i
     | Some ds \<Rightarrow> Some (content m i @ map (\<lambda>d. encoded_rollup_data B (RollupDeposit d)) ds))"
  using assms
proof (induction B deposits m rule: extend_with_deposits.induct)
  case (2 B j ds deposits m)
  then have "map_of deposits j = None" by (simp add: map_of_eq_None_iff)
  with 2 show ?case by (auto simp: map_of_entry_extend content_def split: option.split)
qed simp

text \<open>The data a block has for each rollup, as the builder of the block computes it.\<close>

definition block_rollup_datas ::
  "'c block_codec \<Rightarrow> signed_transaction list \<Rightarrow> (rollup_id \<times> deposit list) list \<Rightarrow> rollup_map" where
  "block_rollup_datas B txs deposits = sort_keys (extend_with_deposits B deposits (group_transactions B txs []))"

text \<open>For one rollup: the data submitted for it in the order of the actions, then its deposits.\<close>

fun submitted_data :: "'c block_codec \<Rightarrow> action list \<Rightarrow> rollup_id \<Rightarrow> bytes list" where
  "submitted_data B [] i = []"
| "submitted_data B (a # acts) i =
     (case a of
        RollupDataSubmission s \<Rightarrow>
          if rds_rollup_id s = i then [encoded_rollup_data B (SequencedData (rds_data s))] else []
      | _ \<Rightarrow> []) @ submitted_data B acts i"

definition rollup_share ::
  "'c block_codec \<Rightarrow> signed_transaction list \<Rightarrow> (rollup_id \<times> deposit list) list \<Rightarrow> rollup_id \<Rightarrow> bytes list option" where
  "rollup_share B txs deposits i =
     (let own = submitted_data B (concat (map stx_actions txs)) i in
      case map_of deposits i of
        None \<Rightarrow> if own = [] then None else Some own
      | Some ds \<Rightarrow> Some (own @ map (\<lambda>d. encoded_rollup_data B (RollupDeposit d)) ds))"

lemma map_of_group_actions:
  "map_of (group_actions B acts m) i =
    (if submitted_data B acts i = [] then map_of m i else Some (content m i @ submitted_data B acts i))"
  by (induction B acts m rule: group_actions.induct)
    (auto simp: map_of_entry_extend content_def split: action.split)

lemma distinct_block_rollup_datas: "distinct (map fst (block_rollup_datas B txs deposits))"
  unfolding block_rollup_datas_def distinct_sort_keys group_transactions_eq
  by (intro distinct_extend_with_deposits distinct_group_actions) simp

lemma map_of_block_rollup_datas:
  assumes "distinct (map fst deposits)"
  shows "map_of (block_rollup_datas B txs deposits) i = rollup_share B txs deposits i"
proof -
  have "distinct (map fst (extend_with_deposits B deposits (group_actions B (concat (map stx_actions txs)) [])))"
    by (intro distinct_extend_with_deposits distinct_group_actions) simp
  then show ?thesis
    by (simp add: block_rollup_datas_def map_of_sort_keys group_transactions_eq map_of_extend_with_deposits [OF assms]
        map_of_group_actions rollup_share_def Let_def content_def split: option.split)
qed

lemma sorted_block_rollup_datas: "sorted (map fst (block_rollup_datas B txs deposits))"
  by (simp add: block_rollup_datas_def sort_keys_def)

lemma committed_rollup_datas:
  assumes "distinct (map fst deposits)" "distinct (map fst deposits')" "set deposits = set deposits'"
  shows "sort_keys (extend_with_deposits B deposits (group_rollup_data_submissions B txs)) =
    block_rollup_datas B txs deposits'"
proof -
  let ?m = "group_actions B (concat (map stx_actions txs)) []"
  have d: "distinct (map fst ?m)" by (rule distinct_group_actions) simp
  have dep: "map_of deposits = map_of deposits'" using assms by (simp add: map_of_inject_set)
  have m: "map_of (sort_keys ?m) = map_of ?m" by (rule map_of_sort_keys [OF d])
  have "map_of (extend_with_deposits B deposits (sort_keys ?m)) = map_of (extend_with_deposits B deposits' ?m)"
    by (rule ext) (simp add: map_of_extend_with_deposits [OF assms(1)] map_of_extend_with_deposits [OF assms(2)]
        dep m content_def split: option.split)
  then show ?thesis unfolding block_rollup_datas_def group_rollup_data_submissions_def group_transactions_eq
    by (intro sort_keys_unique distinct_extend_with_deposits) (simp_all only: distinct_sort_keys d)
qed

section \<open>Trees over the data\<close>

text \<open>The number of leaves a tree can hold.\<close>

definition fits_tree :: "'a list \<Rightarrow> bool" where
  "fits_tree xs \<longleftrightarrow> 64 * length xs \<le> 2 ^ 63"

definition rollup_leaf :: "hash_fun \<Rightarrow> rollup_id \<times> bytes list \<Rightarrow> bytes" where
  "rollup_leaf H = (\<lambda>(i, txs). i @ MTH H txs)"

lemma from_leaves_MTH:
  assumes "\<And>x. length (H x) = 32" "fits_tree xs"
  obtains t where "from_leaves H xs = Some t" "tree_of H xs t" "tree_root H t = Some (MTH H xs)"
  using from_leaves_correct [of H xs] assms tree_root_correct unfolding fits_tree_def by metis

lemma builder_writes:
  "do { b \<leftarrow> builder_write (build_leaf t) x; b \<leftarrow> builder_write b y; drop_builder H b } = push H t (x @ y)"
  by (simp add: build_leaf_def builder_write_def push_def)

lemma derive_tree_loop_of:
  assumes len: "\<And>x. length (H x) = 32"
  shows "tree_of H ls t \<Longrightarrow> list_all (\<lambda>e. fits_tree (snd e)) m \<Longrightarrow> 64 * (length ls + length m) \<le> 2 ^ 63 \<Longrightarrow>
    \<exists>t'. derive_tree_loop H m t = Some t' \<and> tree_of H (ls @ map (rollup_leaf H) m) t'"
proof (induction m arbitrary: ls t)
  case (Cons e m)
  obtain i txs where e: "e = (i, txs)" by (cases e)
  have "fits_tree txs" using Cons.prems(2) e by simp
  then obtain tt where tt: "from_leaves H txs = Some tt" "tree_root H tt = Some (MTH H txs)"
    by (rule from_leaves_MTH [of H txs, OF len])
  obtain t1 where t1: "push H t (i @ MTH H txs) = Some t1" "tree_of H (ls @ [i @ MTH H txs]) t1"
    using push_correct [OF Cons.prems(1) len] Cons.prems(3) by fastforce
  have "derive_tree_loop H (e # m) t = derive_tree_loop H m t1"
    using builder_writes [of t i "MTH H txs" H] t1(1) e tt
    by (cases "builder_write (build_leaf t) i") (auto split: bind_splits)
  then show ?case using Cons.IH [OF t1(2)] Cons.prems(2,3) e by (simp add: rollup_leaf_def)
qed simp

lemma derive_tree_MTH:
  assumes "\<And>x. length (H x) = 32" "fits_tree m" "list_all (\<lambda>e. fits_tree (snd e)) m"
  obtains t where "derive_merkle_tree_from_rollup_txs H m = Some t" "tree_of H (map (rollup_leaf H) m) t"
    "tree_root H t = Some (MTH H (map (rollup_leaf H) m))"
proof -
  have "\<exists>t. derive_merkle_tree_from_rollup_txs H m = Some t \<and> tree_of H (map (rollup_leaf H) m) t"
    using derive_tree_loop_of [of H "[]" new_tree m, OF assms(1)] assms(2,3)
    by (simp add: derive_merkle_tree_from_rollup_txs_def tree_of_empty new_tree_def fits_tree_def)
  then show ?thesis using that tree_root_correct by blast
qed

text \<open>A proof that can be sent and received, and that verifies a leaf.\<close>

definition proves :: "hash_fun \<Rightarrow> merkle_proof \<Rightarrow> bytes \<Rightarrow> bytes \<Rightarrow> bool" where
  "proves H p leaf root \<longleftrightarrow>
     try_into_proof (into_unchecked p) = Some (Inr p) \<and> verify H p leaf root = Some True"

lemma expect_proof_proves:
  assumes "tree_of H ls t" "\<And>x. length (H x) = 32" "i < length ls"
  obtains p where "expect_proof t i = Inr p" "proves H p (ls ! i) (MTH H ls)"
  using constructed_proof_accepted [OF assms] by (auto simp: expect_proof_def proves_def)

text \<open>A rollup's part of the block, with a proof against the root over all rollups.\<close>

definition proven_rollup ::
  "hash_fun \<Rightarrow> bytes \<Rightarrow> rollup_id \<times> bytes list \<Rightarrow> rollup_id \<times> rollup_transactions \<Rightarrow> bool" where
  "proven_rollup H root e r \<longleftrightarrow>
     fst r = fst e \<and> rt_rollup_id (snd r) = fst e \<and> rt_transactions (snd r) = snd e \<and>
     proves H (rt_proof (snd r)) (rollup_leaf H e) root"

lemma attach_proofs_proven:
  assumes t: "tree_of H ls t" and len: "\<And>x. length (H x) = 32"
  shows "ls = pre @ map (rollup_leaf H) m \<Longrightarrow> distinct (map fst acc @ map fst m) \<Longrightarrow>
    \<exists>rts. attach_proofs t (length pre) m acc = Inr (acc @ rts) \<and> list_all2 (proven_rollup H (MTH H ls)) m rts"
proof (induction m arbitrary: pre acc)
  case (Cons e m)
  obtain i data where e: "e = (i, data)" by (cases e)
  obtain p where p: "expect_proof t (length pre) = (Inr p :: 'a fault + merkle_proof)"
    "proves H p (ls ! length pre) (MTH H ls)"
    by (rule expect_proof_proves [OF t len, of "length pre"]) (use Cons.prems(1) in auto)
  let ?r = "\<lparr>rt_rollup_id = i, rt_transactions = data, rt_proof = p\<rparr>"
  have "AList.update i ?r acc = acc @ [(i, ?r)]"
    using Cons.prems(2) e by (intro update_fresh) auto
  then obtain rts where "attach_proofs t (length pre) (e # m) acc = (Inr (acc @ (i, ?r) # rts) :: 'a fault + _)"
    "list_all2 (proven_rollup H (MTH H ls)) m rts"
    using Cons.IH [of "pre @ [rollup_leaf H e]" "acc @ [(i, ?r)]"] Cons.prems p(1) e by auto
  moreover have "proven_rollup H (MTH H ls) e (i, ?r)"
    using p(2) Cons.prems(1) e by (simp add: proven_rollup_def nth_append)
  ultimately show ?case by blast
qed simp

section \<open>Expanding the data\<close>

definition block_codec_ok :: "'c block_codec \<Rightarrow> bool" where
  "block_codec_ok B \<longleftrightarrow> (\<forall>x. length (sha256 B x) = 32) \<and> tx_codec_ok (block_tx_codec B) \<and>
     (\<forall>r. decode_data_item B (encode_data_item B r) = Inr r) \<and>
     (\<forall>t. time_try_from B (time_into B t) = Inr t)"

definition info_readable :: "'c block_codec \<Rightarrow> bytes \<Rightarrow> 'c commit_info_mapping \<Rightarrow> bool" where
  "info_readable B e info \<longleftrightarrow>
     try_bind (wrap CommitInfoDecode (decode_commit_info B e)) (\<lambda>raw.
       wrap CommitInfoInvalid (commit_info_mapping_try_from_raw B raw)) = Inr info"

definition commit_info_proven :: "'c block_codec \<Rightarrow> bytes \<Rightarrow> 'c commit_info_with_proof \<Rightarrow> bool" where
  "commit_info_proven B data_hash c \<longleftrightarrow>
     proves (sha256 B) (cip_proof c) (sha256 B (cip_encoded_extended_commit_info c)) data_hash \<and>
     info_readable B (cip_encoded_extended_commit_info c) (cip_extended_commit_info c)"

text \<open>Expanded data with the given roots, whose proofs are right.\<close>

definition expanded_of :: "'c block_codec \<Rightarrow> bytes \<Rightarrow> bytes \<Rightarrow> 'c expanded_block_data \<Rightarrow> bool" where
  "expanded_of B txs_root ids_root d \<longleftrightarrow>
     ebd_rollup_transactions_root d = txs_root \<and> ebd_rollup_ids_root d = ids_root \<and>
     length (data_root_hash d) = 32 \<and>
     proves (sha256 B) (ebd_rollup_transactions_proof d) (sha256 B txs_root) (data_root_hash d) \<and>
     proves (sha256 B) (ebd_rollup_ids_proof d) (sha256 B ids_root) (data_root_hash d) \<and>
     list_all (\<lambda>h. length h = 32) (ebd_upgrade_change_hashes d) \<and>
     pred_option (commit_info_proven B (data_root_hash d)) (ebd_extended_commit_info_with_proof d)"

fun wf_data_item :: "data_item \<Rightarrow> bool" where
  "wf_data_item (RollupTransactionsRoot r) \<longleftrightarrow> length r = 32"
| "wf_data_item (RollupIdsRoot r) \<longleftrightarrow> length r = 32"
| "wf_data_item (UpgradeChangeHashes hs) \<longleftrightarrow> list_all (\<lambda>h. length h = 32) hs"
| "wf_data_item (ExtendedCommitInfo e) \<longleftrightarrow> True"

lemma array32_ok: "length bs = 32 \<Longrightarrow> array32 bs e = Inr bs"
  by (simp add: array32_def)

lemma try_map_array32: "list_all (\<lambda>h. length h = 32) hs \<Longrightarrow> try_map (\<lambda>h. array32 h e) hs = Inr hs"
  by (induction hs) (simp_all add: array32_ok)

lemma data_item_decode_encode:
  "block_codec_ok B \<Longrightarrow> wf_data_item item \<Longrightarrow> data_item_decode B i (data_item_encode B item) = Inr item"
  by (cases item) (simp_all add: block_codec_ok_def data_item_decode_def data_item_encode_def array32_ok
      try_map_array32)

text \<open>
  The items of a block after the Aspen upgrade. A transaction must not be taken for change hashes where
  they are peeked for.
\<close>

definition typed_items ::
  "'c block_codec \<Rightarrow> generated_commitments \<Rightarrow> bytes list \<Rightarrow> bytes option \<Rightarrow> bytes list \<Rightarrow> bytes list" where
  "typed_items B c hashes info tx_bytes =
     commitment_items B True c @ (if hashes = [] then [] else [data_item_encode B (UpgradeChangeHashes hashes)]) @
     (case info of None \<Rightarrow> [] | Some e \<Rightarrow> [data_item_encode B (ExtendedCommitInfo e)]) @ tx_bytes"

definition no_change_hashes :: "'c block_codec \<Rightarrow> bytes \<Rightarrow> bool" where
  "no_change_hashes B b \<longleftrightarrow> (case data_item_decode B 2 b of Inr (UpgradeChangeHashes _) \<Rightarrow> False | _ \<Rightarrow> True)"

lemma take_change_hashes_typed:
  assumes "block_codec_ok B" "list_all (\<lambda>h. length h = 32) hashes" "list_all (no_change_hashes B) tx_bytes"
  shows "take_upgrade_change_hashes B 2 ((if hashes = [] then [] else [data_item_encode B (UpgradeChangeHashes hashes)]) @
      (case info of None \<Rightarrow> [] | Some e \<Rightarrow> [data_item_encode B (ExtendedCommitInfo e)]) @ tx_bytes) =
    (hashes, if hashes = [] then 2 else 3,
     (case info of None \<Rightarrow> [] | Some e \<Rightarrow> [data_item_encode B (ExtendedCommitInfo e)]) @ tx_bytes)"
proof (cases "hashes = [] \<and> info = None")
  case True
  then show ?thesis using assms(3)
    by (cases tx_bytes) (auto simp: no_change_hashes_def split: sum.splits data_item.splits)
next
  case False
  then show ?thesis using assms(1,2) by (auto simp: data_item_decode_encode split: option.split)
qed

lemma take_commit_info_typed:
  assumes "block_codec_ok B" "info_readable B e info"
  shows "take_extended_commit_info B True i (data_item_encode B (ExtendedCommitInfo e) # rest) =
    Inr (Some (info, e), rest)"
  using assms by (auto simp: take_extended_commit_info_def data_item_decode_encode info_readable_def)

lemma read_all: "list_all2 (\<lambda>b t. f b = Inr t) bs ts \<Longrightarrow> try_map f bs = Inr ts"
  by (induction rule: list_all2_induct) simp_all

lemma untyped_data_expands:
  assumes ok: "block_codec_ok B" and lens: "length txs_root = 32" "length ids_root = 32"
    and read: "list_all2 (\<lambda>b t. read_transaction B b = Inr t) tx_bytes txs"
    and fits: "fits_tree (txs_root # ids_root # tx_bytes)"
  shows "\<exists>d. new_from_untyped_data B (txs_root # ids_root # tx_bytes) = Inr d \<and> expanded_of B txs_root ids_root d \<and>
    user_submitted_transactions d = txs"
proof -
  let ?H = "sha256 B" and ?ls = "map (sha256 B) (txs_root # ids_root # tx_bytes)"
  have len: "length (?H x) = 32" for x using ok by (simp add: block_codec_ok_def)
  have "fits_tree ?ls" using fits by (simp add: fits_tree_def)
  then obtain t where t: "from_leaves ?H ?ls = Some t" "tree_of ?H ?ls t" "tree_root ?H t = Some (MTH ?H ?ls)"
    by (rule from_leaves_MTH [of ?H ?ls, OF len])
  obtain p0 where p0: "expect_proof t 0 = (Inr p0 :: sequencer_block_error fault + merkle_proof)"
    "proves ?H p0 (?ls ! 0) (MTH ?H ?ls)" by (rule expect_proof_proves [OF t(2) len, of 0]) auto
  obtain p1 where p1: "expect_proof t 1 = (Inr p1 :: sequencer_block_error fault + merkle_proof)"
    "proves ?H p1 (?ls ! 1) (MTH ?H ?ls)" by (rule expect_proof_proves [OF t(2) len, of 1]) auto
  show ?thesis
    using t(1,3) p0 p1 lens read_all [OF read] MTH_length [of ?H, OF len]
    by (simp add: new_from_untyped_data_def merkle_tree_from_data_def array32_ok expanded_of_def)
qed

lemma typed_data_expands:
  assumes ok: "block_codec_ok B" and lens: "length (rollup_datas_root c) = 32" "length (gen_rollup_ids_root c) = 32"
    and hashes: "list_all (\<lambda>h. length h = 32) hashes" and info: "pred_option (\<lambda>e. info_readable B e i) info"
    and read: "list_all2 (\<lambda>b t. read_transaction B b = Inr t) tx_bytes txs"
    and txs: "list_all (no_change_hashes B) tx_bytes" and fits: "fits_tree (typed_items B c hashes info tx_bytes)"
  shows "\<exists>d. new_from_typed_data B (typed_items B c hashes info tx_bytes) (info \<noteq> None) = Inr d \<and>
    expanded_of B (rollup_datas_root c) (gen_rollup_ids_root c) d \<and>
    user_submitted_transactions d = txs \<and> ebd_upgrade_change_hashes d = hashes \<and>
    map_option cip_encoded_extended_commit_info (ebd_extended_commit_info_with_proof d) = info"
proof -
  let ?H = "sha256 B"
  let ?ls = "[?H (rollup_datas_root c), ?H (gen_rollup_ids_root c)] @
    (case info of None \<Rightarrow> [] | Some e \<Rightarrow> [?H e]) @ map ?H tx_bytes"
  have len: "length (?H x) = 32" for x using ok by (simp add: block_codec_ok_def)
  have "fits_tree ?ls" using fits by (auto simp: fits_tree_def typed_items_def commitment_items_def split: option.splits)
  then obtain t where t: "from_leaves ?H ?ls = Some t" "tree_of ?H ?ls t" "tree_root ?H t = Some (MTH ?H ?ls)"
    by (rule from_leaves_MTH [of ?H ?ls, OF len])
  obtain p0 where p0: "expect_proof t 0 = (Inr p0 :: sequencer_block_error fault + merkle_proof)"
    "proves ?H p0 (?ls ! 0) (MTH ?H ?ls)" by (rule expect_proof_proves [OF t(2) len, of 0]) auto
  obtain p1 where p1: "expect_proof t 1 = (Inr p1 :: sequencer_block_error fault + merkle_proof)"
    "proves ?H p1 (?ls ! 1) (MTH ?H ?ls)" by (rule expect_proof_proves [OF t(2) len, of 1]) auto
  note facts = t(1,3) p0 p1 lens hashes read_all [OF read] MTH_length [of ?H, OF len]
    take_change_hashes_typed [OF ok hashes txs, of info]
  note defs = new_from_typed_data_def typed_items_def commitment_items_def expanded_of_def data_item_decode_encode [OF ok]
  show ?thesis
  proof (cases info)
    case None
    then show ?thesis using facts by (simp add: defs take_extended_commit_info_def)
  next
    case (Some e)
    obtain p2 where p2: "expect_proof t 2 = (Inr p2 :: sequencer_block_error fault + merkle_proof)"
      "proves ?H p2 (?ls ! 2) (MTH ?H ?ls)" by (rule expect_proof_proves [OF t(2) len, of 2]) (auto simp: Some)
    from Some info have "info_readable B e i" by simp
    then show ?thesis using facts p2 Some
      by (simp add: defs take_commit_info_typed [OF ok] commit_info_proven_def)
  qed
qed

section \<open>The commitments and the block\<close>

text \<open>The commitments to a map of rollup data, and a block for it whose proofs are right.\<close>

definition commitments_of :: "hash_fun \<Rightarrow> rollup_map \<Rightarrow> generated_commitments" where
  "commitments_of H m = \<lparr>rollup_datas_root = MTH H (map (rollup_leaf H) m), gen_rollup_ids_root = MTH H (map fst m)\<rparr>"

definition block_of :: "'c block_codec \<Rightarrow> rollup_map \<Rightarrow> 'c sequencer_block \<Rightarrow> bool" where
  "block_of B m b \<longleftrightarrow>
     (let H = sha256 B; c = commitments_of H m; data_hash = sbh_data_hash (sb_header b) in
      sbh_rollup_transactions_root (sb_header b) = rollup_datas_root c \<and> length data_hash = 32 \<and>
      list_all2 (proven_rollup H (rollup_datas_root c)) m (sb_rollup_transactions b) \<and>
      proves H (sb_rollup_transactions_proof b) (H (rollup_datas_root c)) data_hash \<and>
      proves H (sb_rollup_ids_proof b) (H (gen_rollup_ids_root c)) data_hash \<and>
      list_all (\<lambda>h. length h = 32) (sb_upgrade_change_hashes b) \<and>
      pred_option (commit_info_proven B data_hash) (sb_extended_commit_info_with_proof b))"

definition fits_trees :: "rollup_map \<Rightarrow> bool" where
  "fits_trees m \<longleftrightarrow> fits_tree m \<and> list_all (\<lambda>e. fits_tree (snd e)) m"

lemma rollup_trees:
  assumes "block_codec_ok B" "fits_trees m"
  obtains it dt where "from_leaves (sha256 B) (map fst m) = Some it"
    "tree_root (sha256 B) it = Some (gen_rollup_ids_root (commitments_of (sha256 B) m))"
    "derive_merkle_tree_from_rollup_txs (sha256 B) m = Some dt"
    "tree_of (sha256 B) (map (rollup_leaf (sha256 B)) m) dt"
    "tree_root (sha256 B) dt = Some (rollup_datas_root (commitments_of (sha256 B) m))"
proof -
  have len: "length (sha256 B x) = 32" for x using assms(1) by (simp add: block_codec_ok_def)
  have fits: "fits_tree m" "list_all (\<lambda>e. fits_tree (snd e)) m" "fits_tree (map fst m)"
    using assms(2) by (simp_all add: fits_trees_def fits_tree_def)
  obtain it where "from_leaves (sha256 B) (map fst m) = Some it" "tree_root (sha256 B) it = Some (MTH (sha256 B) (map fst m))"
    by (rule from_leaves_MTH [of "sha256 B" "map fst m", OF len fits(3)])
  moreover obtain dt where "derive_merkle_tree_from_rollup_txs (sha256 B) m = Some dt"
    "tree_of (sha256 B) (map (rollup_leaf (sha256 B)) m) dt"
    "tree_root (sha256 B) dt = Some (MTH (sha256 B) (map (rollup_leaf (sha256 B)) m))"
    by (rule derive_tree_MTH [of "sha256 B" m, OF len fits(1,2)])
  ultimately show ?thesis using that by (simp add: commitments_of_def)
qed

lemma generated_commitments:
  assumes "block_codec_ok B" "fits_trees (block_rollup_datas B txs deposits')"
    and "distinct (map fst deposits)" "distinct (map fst deposits')" "set deposits = set deposits'"
  shows "generate_rollup_datas_commitment B txs deposits =
    Some (commitments_of (sha256 B) (block_rollup_datas B txs deposits'))"
  by (rule rollup_trees [OF assms(1,2)])
    (simp add: generate_rollup_datas_commitment_def committed_rollup_datas [OF assms(3-5)] Let_def)

lemma sort_keys_same_keys: "map fst xs = map fst m \<Longrightarrow> sorted (map fst m) \<Longrightarrow> sort_keys xs = xs"
  unfolding sort_keys_def by (rule sort_key_id_if_sorted) simp

lemma proven_keys: "list_all2 (proven_rollup H root) m rts \<Longrightarrow> map fst rts = map fst m"
  by (induction rule: list_all2_induct) (simp_all add: proven_rollup_def)

lemma attached_rollups:
  assumes ok: "block_codec_ok B" and fits: "fits_trees m" and m: "m = block_rollup_datas B txs deposits"
  obtains it dt rts where "from_leaves (sha256 B) (map fst m) = Some it"
    "tree_root (sha256 B) it = Some (gen_rollup_ids_root (commitments_of (sha256 B) m))"
    "derive_merkle_tree_from_rollup_txs (sha256 B) m = Some dt"
    "tree_root (sha256 B) dt = Some (rollup_datas_root (commitments_of (sha256 B) m))"
    "attach_proofs dt 0 m [] = (Inr rts :: sequencer_block_error fault + _)"
    "list_all2 (proven_rollup (sha256 B) (rollup_datas_root (commitments_of (sha256 B) m))) m rts"
    "sort_keys rts = rts"
proof -
  have len: "length (sha256 B x) = 32" for x using ok by (simp add: block_codec_ok_def)
  obtain it dt where trees: "from_leaves (sha256 B) (map fst m) = Some it"
    "tree_root (sha256 B) it = Some (gen_rollup_ids_root (commitments_of (sha256 B) m))"
    "derive_merkle_tree_from_rollup_txs (sha256 B) m = Some dt"
    "tree_of (sha256 B) (map (rollup_leaf (sha256 B)) m) dt"
    "tree_root (sha256 B) dt = Some (rollup_datas_root (commitments_of (sha256 B) m))"
    by (rule rollup_trees [OF ok fits])
  have "distinct (map fst m)" unfolding m by (rule distinct_block_rollup_datas)
  then obtain rts where rts: "attach_proofs dt 0 m [] = (Inr rts :: sequencer_block_error fault + _)"
    "list_all2 (proven_rollup (sha256 B) (rollup_datas_root (commitments_of (sha256 B) m))) m rts"
    using attach_proofs_proven [OF trees(4) len, of "[]" m "[]"] by (auto simp: commitments_of_def)
  moreover have "sort_keys rts = rts"
    using proven_keys [OF rts(2)] sorted_block_rollup_datas m by (metis sort_keys_same_keys)
  ultimately show ?thesis using that trees by blast
qed

lemma try_build_succeeds:
  assumes ok: "block_codec_ok B" and fits: "fits_trees m"
    and m: "m = block_rollup_datas B (user_submitted_transactions (sbb_expanded_block_data b)) (sbb_deposits b)"
    and exp: "expanded_of B (rollup_datas_root (commitments_of (sha256 B) m))
      (gen_rollup_ids_root (commitments_of (sha256 B) m)) (sbb_expanded_block_data b)"
  shows "\<exists>blk. try_build B b = Inr blk \<and> block_of B m blk \<and> sb_block_hash blk = sbb_block_hash b \<and>
    sbh_chain_id (sb_header blk) = sbb_chain_id b \<and> sbh_height (sb_header blk) = sbb_height b \<and>
    sbh_time (sb_header blk) = sbb_time b \<and> sbh_proposer_address (sb_header blk) = sbb_proposer_address b \<and>
    sbh_data_hash (sb_header blk) = data_root_hash (sbb_expanded_block_data b)"
  by (rule attached_rollups [OF ok fits m])
    (use exp in \<open>simp add: try_build_def m [unfolded block_rollup_datas_def, symmetric] Let_def block_of_def expanded_of_def\<close>)

end
