(* ===== verification/Block_Wire.thy ===== *)
theory Block_Wire
  imports Block_Build
begin

text \<open>
  Sequencer blocks on the wire (\<^verbatim>\<open>crates/astria-core/src/sequencerblock/v1/block/mod.rs\<close> and
  \<^verbatim>\<open>crates/astria-core/src/sequencerblock/v1/mod.rs\<close>): the whole block, and the block filtered for some rollups.
  Reading a block checks its Merkle proofs; a block that was built passes these checks.
\<close>

section \<open>Parts of a block\<close>

record raw_rollup_transactions =
  rrt_rollup_id :: "raw_rollup_id option"
  rrt_transactions :: "bytes list"
  rrt_proof :: "raw_proof option"

definition rollup_transactions_to_raw :: "rollup_transactions \<Rightarrow> raw_rollup_transactions" where
  "rollup_transactions_to_raw r =
     \<lparr>rrt_rollup_id = Some (rollup_id_to_raw (rt_rollup_id r)), rrt_transactions = rt_transactions r,
      rrt_proof = Some (proof_to_raw (rt_proof r))\<rparr>"

definition rollup_transactions_try_from_raw ::
  "raw_rollup_transactions \<Rightarrow> rollup_transactions_error fault + rollup_transactions" where
  "rollup_transactions_try_from_raw r =
     try_bind (ok_or (rrt_rollup_id r) (Fault (RtFieldNotSet ''rollup_id''))) (\<lambda>ri.
     try_bind (wrap RtRollupId (rollup_id_try_from_raw ri)) (\<lambda>rollup_id.
     try_bind (ok_or (rrt_proof r) (Fault (RtFieldNotSet ''proof''))) (\<lambda>rp.
     try_bind (rewrap RtProofInvalid (proof_try_from_raw rp)) (\<lambda>p.
     Inr \<lparr>rt_rollup_id = rollup_id, rt_transactions = rrt_transactions r, rt_proof = p\<rparr>))))"

definition rollup_txs_to_tuple ::
  "raw_rollup_transactions \<Rightarrow> rollup_transactions_error fault + rollup_id \<times> rollup_transactions" where
  "rollup_txs_to_tuple r =
     try_bind (rollup_transactions_try_from_raw r) (\<lambda>rt. Inr (rt_rollup_id rt, rt))"

record raw_sequencer_block_header =
  rbh_chain_id :: string
  rbh_height :: u64
  rbh_time :: "raw_timestamp option"
  rbh_rollup_transactions_root :: bytes
  rbh_data_hash :: bytes
  rbh_proposer_address :: bytes

definition header_to_raw :: "'c block_codec \<Rightarrow> sequencer_block_header \<Rightarrow> raw_sequencer_block_header" where
  "header_to_raw B h =
     \<lparr>rbh_chain_id = sbh_chain_id h, rbh_height = sbh_height h, rbh_time = Some (time_into B (sbh_time h)),
      rbh_rollup_transactions_root = sbh_rollup_transactions_root h, rbh_data_hash = sbh_data_hash h,
      rbh_proposer_address = sbh_proposer_address h\<rparr>"

definition header_try_from_raw ::
  "'c block_codec \<Rightarrow> raw_sequencer_block_header \<Rightarrow> sequencer_block_header_error + sequencer_block_header" where
  "header_try_from_raw B r =
     try_bind (map_err InvalidChainId (chain_id_try_from B (rbh_chain_id r))) (\<lambda>chain_id.
     try_bind (map_err InvalidHeight (height_try_from B (rbh_height r))) (\<lambda>height.
     try_bind (ok_or (rbh_time r) (HeaderFieldNotSet ''time'')) (\<lambda>rt.
     try_bind (map_err HeaderTime (time_try_from B rt)) (\<lambda>time.
     try_bind (array32 (rbh_rollup_transactions_root r) HeaderRootLength) (\<lambda>root.
     try_bind (array32 (rbh_data_hash r) HeaderRootLength) (\<lambda>data_hash.
     try_bind (map_err ProposerAddress (account_id_try_from B (rbh_proposer_address r))) (\<lambda>proposer.
     Inr \<lparr>sbh_chain_id = chain_id, sbh_height = height, sbh_time = time, sbh_rollup_transactions_root = root,
          sbh_data_hash = data_hash, sbh_proposer_address = proposer\<rparr>)))))))"

record raw_commit_info_with_proof =
  rci_extended_commit_info :: bytes
  rci_proof :: "raw_proof option"

definition commit_info_to_raw :: "'c commit_info_with_proof \<Rightarrow> raw_commit_info_with_proof" where
  "commit_info_to_raw c =
     \<lparr>rci_extended_commit_info = cip_encoded_extended_commit_info c, rci_proof = Some (proof_to_raw (cip_proof c))\<rparr>"

definition commit_info_try_from_raw ::
  "'c block_codec \<Rightarrow> bytes \<Rightarrow> raw_commit_info_with_proof \<Rightarrow>
     extended_commit_info_error fault + 'c commit_info_with_proof" where
  "commit_info_try_from_raw B data_hash r =
     try_bind (ok_or (rci_proof r) (Fault CommitInfoProofNotSet)) (\<lambda>rp.
     try_bind (rewrap CommitInfoInvalidProof (proof_try_from_raw rp)) (\<lambda>p.
     try_bind (no_panic (verify (sha256 B) p (sha256 B (rci_extended_commit_info r)) data_hash)) (\<lambda>verified.
     try_bind (require verified CommitInfoNotInSequencerBlock) (\<lambda>_.
     try_bind (wrap CommitInfoDecode (decode_commit_info B (rci_extended_commit_info r))) (\<lambda>raw_info.
     try_bind (wrap CommitInfoInvalid (commit_info_mapping_try_from_raw B raw_info)) (\<lambda>info.
     Inr \<lparr>cip_extended_commit_info = info, cip_encoded_extended_commit_info = rci_extended_commit_info r,
          cip_proof = p\<rparr>))))))"

definition change_hash_try_from :: "bytes \<Rightarrow> nat + bytes" where
  "change_hash_try_from bs = array32 bs id"

section \<open>Inclusion\<close>

definition are_rollup_ids_included :: "hash_fun \<Rightarrow> rollup_id list \<Rightarrow> merkle_proof \<Rightarrow> bytes \<Rightarrow> bool option" where
  "are_rollup_ids_included H ids p data_hash = do {
     tree \<leftarrow> from_leaves H ids;
     root \<leftarrow> tree_root H tree;
     verify H p (H root) data_hash
   }"

definition are_rollup_txs_included ::
  "hash_fun \<Rightarrow> (rollup_id \<times> rollup_transactions) list \<Rightarrow> merkle_proof \<Rightarrow> bytes \<Rightarrow> bool option" where
  "are_rollup_txs_included H rollup_datas p data_hash = do {
     tree \<leftarrow> derive_merkle_tree_from_rollup_txs H (map (\<lambda>(i, rt). (i, rt_transactions rt)) rollup_datas);
     root \<leftarrow> tree_root H tree;
     verify H p (H root) data_hash
   }"

definition do_rollup_transactions_match_root :: "hash_fun \<Rightarrow> rollup_transactions \<Rightarrow> bytes \<Rightarrow> bool option" where
  "do_rollup_transactions_match_root H rt root = do {
     tree \<leftarrow> from_leaves H (rt_transactions rt);
     txs_root \<leftarrow> tree_root H tree;
     perform H (finish_leaf H (write_leaf (write_leaf
       (with_leaf_builder (with_root (new_audit (rt_proof rt)) root)) (rt_rollup_id rt)) txs_root))
   }"

section \<open>The block\<close>

record raw_sequencer_block =
  rsb_block_hash :: bytes
  rsb_header :: "raw_sequencer_block_header option"
  rsb_rollup_transactions :: "raw_rollup_transactions list"
  rsb_rollup_transactions_proof :: "raw_proof option"
  rsb_rollup_ids_proof :: "raw_proof option"
  rsb_upgrade_change_hashes :: "bytes list"
  rsb_extended_commit_info_with_proof :: "raw_commit_info_with_proof option"

definition sequencer_block_to_raw :: "'c block_codec \<Rightarrow> 'c sequencer_block \<Rightarrow> raw_sequencer_block" where
  "sequencer_block_to_raw B b =
     \<lparr>rsb_block_hash = sb_block_hash b, rsb_header = Some (header_to_raw B (sb_header b)),
      rsb_rollup_transactions = map (\<lambda>(_, rt). rollup_transactions_to_raw rt) (sb_rollup_transactions b),
      rsb_rollup_transactions_proof = Some (proof_to_raw (sb_rollup_transactions_proof b)),
      rsb_rollup_ids_proof = Some (proof_to_raw (sb_rollup_ids_proof b)),
      rsb_upgrade_change_hashes = sb_upgrade_change_hashes b,
      rsb_extended_commit_info_with_proof = map_option commit_info_to_raw (sb_extended_commit_info_with_proof b)\<rparr>"

definition sequencer_block_try_from_raw ::
  "'c block_codec \<Rightarrow> raw_sequencer_block \<Rightarrow> sequencer_block_error fault + 'c sequencer_block" where
  "sequencer_block_try_from_raw B r =
     try_bind (wrap id (array32 (rsb_block_hash r) InvalidBlockHash)) (\<lambda>block_hash.
     try_bind (ok_or (rsb_rollup_transactions_proof r) (Fault (BlockFieldNotSet ''rollup_transactions_proof''))) (\<lambda>rtp.
     try_bind (rewrap TransactionProofInvalid (proof_try_from_raw rtp)) (\<lambda>txs_proof.
     try_bind (ok_or (rsb_rollup_ids_proof r) (Fault (BlockFieldNotSet ''rollup_ids_proof''))) (\<lambda>rip.
     try_bind (rewrap IdProofInvalid (proof_try_from_raw rip)) (\<lambda>ids_proof.
     try_bind (ok_or (rsb_header r) (Fault (BlockFieldNotSet ''header''))) (\<lambda>rh.
     try_bind (wrap BlockHeader (header_try_from_raw B rh)) (\<lambda>header.
     try_bind (rewrap ParseRollupTransactions (try_map rollup_txs_to_tuple (rsb_rollup_transactions r))) (\<lambda>rts.
     let rollup_transactions = collect_map rts; data_hash = sbh_data_hash header in
     try_bind (no_panic (verify (sha256 B) txs_proof (sha256 B (sbh_rollup_transactions_root header)) data_hash)) (\<lambda>v.
     try_bind (require v InvalidRollupTransactionsRoot) (\<lambda>_.
     try_bind (no_panic (are_rollup_txs_included (sha256 B) rollup_transactions txs_proof data_hash)) (\<lambda>v.
     try_bind (require v RollupTransactionsNotInSequencerBlock) (\<lambda>_.
     try_bind (no_panic (are_rollup_ids_included (sha256 B) (map fst rollup_transactions) ids_proof data_hash)) (\<lambda>v.
     try_bind (require v InvalidRollupIdsProof) (\<lambda>_.
     try_bind (wrap BlockChangeHash (try_map change_hash_try_from (rsb_upgrade_change_hashes r))) (\<lambda>hashes.
     try_bind (rewrap BlockExtendedCommitInfo
         (try_opt (commit_info_try_from_raw B data_hash) (rsb_extended_commit_info_with_proof r))) (\<lambda>info.
     Inr \<lparr>sb_block_hash = block_hash, sb_header = header, sb_rollup_transactions = rollup_transactions,
          sb_rollup_transactions_proof = txs_proof, sb_rollup_ids_proof = ids_proof,
          sb_upgrade_change_hashes = hashes, sb_extended_commit_info_with_proof = info\<rparr>))))))))))))))))"

section \<open>The filtered block\<close>

record 'c filtered_sequencer_block =
  fsb_block_hash :: bytes
  fsb_header :: sequencer_block_header
  fsb_rollup_transactions :: "(rollup_id \<times> rollup_transactions) list"
  fsb_rollup_transactions_proof :: merkle_proof
  fsb_all_rollup_ids :: "rollup_id list"
  fsb_rollup_ids_proof :: merkle_proof
  fsb_upgrade_change_hashes :: "bytes list"
  fsb_extended_commit_info_with_proof :: "'c commit_info_with_proof option"

fun filter_rollups ::
  "(rollup_id \<times> rollup_transactions) list \<Rightarrow> rollup_id list \<Rightarrow>
     (rollup_id \<times> rollup_transactions) list \<Rightarrow> (rollup_id \<times> rollup_transactions) list" where
  "filter_rollups rts [] acc = acc"
| "filter_rollups rts (i # ids) acc =
     filter_rollups rts ids (case map_of rts i of None \<Rightarrow> acc | Some rt \<Rightarrow> AList.update i rt acc)"

definition to_filtered_block :: "'c sequencer_block \<Rightarrow> rollup_id list \<Rightarrow> 'c filtered_sequencer_block" where
  "to_filtered_block b rollup_ids =
     \<lparr>fsb_block_hash = sb_block_hash b, fsb_header = sb_header b,
      fsb_rollup_transactions = filter_rollups (sb_rollup_transactions b) rollup_ids [],
      fsb_rollup_transactions_proof = sb_rollup_transactions_proof b,
      fsb_all_rollup_ids = map fst (sb_rollup_transactions b), fsb_rollup_ids_proof = sb_rollup_ids_proof b,
      fsb_upgrade_change_hashes = sb_upgrade_change_hashes b,
      fsb_extended_commit_info_with_proof = sb_extended_commit_info_with_proof b\<rparr>"

text \<open>\<open>into_filtered_block\<close> moves the entries out of the block with \<open>shift_remove\<close>.\<close>

fun move_rollups ::
  "(rollup_id \<times> rollup_transactions) list \<Rightarrow> rollup_id list \<Rightarrow>
     (rollup_id \<times> rollup_transactions) list \<Rightarrow> (rollup_id \<times> rollup_transactions) list" where
  "move_rollups rts [] acc = acc"
| "move_rollups rts (i # ids) acc =
     (case map_of rts i of
        None \<Rightarrow> move_rollups rts ids acc
      | Some rt \<Rightarrow> move_rollups (AList.delete i rts) ids (AList.update i rt acc))"

definition into_filtered_block :: "'c sequencer_block \<Rightarrow> rollup_id list \<Rightarrow> 'c filtered_sequencer_block" where
  "into_filtered_block b rollup_ids =
     \<lparr>fsb_block_hash = sb_block_hash b, fsb_header = sb_header b,
      fsb_rollup_transactions = move_rollups (sb_rollup_transactions b) rollup_ids [],
      fsb_rollup_transactions_proof = sb_rollup_transactions_proof b,
      fsb_all_rollup_ids = map fst (sb_rollup_transactions b), fsb_rollup_ids_proof = sb_rollup_ids_proof b,
      fsb_upgrade_change_hashes = sb_upgrade_change_hashes b,
      fsb_extended_commit_info_with_proof = sb_extended_commit_info_with_proof b\<rparr>"

record raw_filtered_sequencer_block =
  rfb_block_hash :: bytes
  rfb_header :: "raw_sequencer_block_header option"
  rfb_rollup_transactions :: "raw_rollup_transactions list"
  rfb_rollup_transactions_proof :: "raw_proof option"
  rfb_all_rollup_ids :: "raw_rollup_id list"
  rfb_rollup_ids_proof :: "raw_proof option"
  rfb_upgrade_change_hashes :: "bytes list"
  rfb_extended_commit_info_with_proof :: "raw_commit_info_with_proof option"

definition filtered_block_to_raw :: "'c block_codec \<Rightarrow> 'c filtered_sequencer_block \<Rightarrow> raw_filtered_sequencer_block" where
  "filtered_block_to_raw B b =
     \<lparr>rfb_block_hash = fsb_block_hash b, rfb_header = Some (header_to_raw B (fsb_header b)),
      rfb_rollup_transactions = map (\<lambda>(_, rt). rollup_transactions_to_raw rt) (fsb_rollup_transactions b),
      rfb_rollup_transactions_proof = Some (proof_to_raw (fsb_rollup_transactions_proof b)),
      rfb_all_rollup_ids = map rollup_id_to_raw (fsb_all_rollup_ids b),
      rfb_rollup_ids_proof = Some (proof_to_raw (fsb_rollup_ids_proof b)),
      rfb_upgrade_change_hashes = fsb_upgrade_change_hashes b,
      rfb_extended_commit_info_with_proof = map_option commit_info_to_raw (fsb_extended_commit_info_with_proof b)\<rparr>"

datatype filtered_block_error =
    FilteredInvalidBlockHash nat
  | FilteredInvalidHeader sequencer_block_header_error
  | FilteredInvalidRollupId nat
  | FilteredFieldNotSet string
  | FilteredParseRollupTransactions rollup_transactions_error
  | FilteredTransactionsNotInSequencerBlock
  | FilteredTransactionForIdNotInSequencerBlock rollup_id
  | FilteredInvalidRollupIdsProof
  | FilteredTransactionProofInvalid invalid_proof
  | FilteredIdProofInvalid invalid_proof
  | FilteredChangeHash nat
  | FilteredExtendedCommitInfo extended_commit_info_error

fun check_rollups_in_root ::
  "hash_fun \<Rightarrow> bytes \<Rightarrow> (rollup_id \<times> rollup_transactions) list \<Rightarrow> filtered_block_error fault + unit" where
  "check_rollups_in_root H root [] = Inr ()"
| "check_rollups_in_root H root ((_, rt) # rts) =
     try_bind (no_panic (do_rollup_transactions_match_root H rt root)) (\<lambda>v.
     try_bind (require v (FilteredTransactionForIdNotInSequencerBlock (rt_rollup_id rt))) (\<lambda>_.
     check_rollups_in_root H root rts))"

definition filtered_block_try_from_raw ::
  "'c block_codec \<Rightarrow> raw_filtered_sequencer_block \<Rightarrow> filtered_block_error fault + 'c filtered_sequencer_block" where
  "filtered_block_try_from_raw B r =
     try_bind (wrap id (array32 (rfb_block_hash r) FilteredInvalidBlockHash)) (\<lambda>block_hash.
     try_bind (ok_or (rfb_rollup_transactions_proof r) (Fault (FilteredFieldNotSet ''rollup_transactions_proof''))) (\<lambda>rtp.
     try_bind (rewrap FilteredTransactionProofInvalid (proof_try_from_raw rtp)) (\<lambda>txs_proof.
     try_bind (ok_or (rfb_rollup_ids_proof r) (Fault (FilteredFieldNotSet ''rollup_ids_proof''))) (\<lambda>rip.
     try_bind (rewrap FilteredIdProofInvalid (proof_try_from_raw rip)) (\<lambda>ids_proof.
     try_bind (ok_or (rfb_header r) (Fault (FilteredFieldNotSet ''header''))) (\<lambda>rh.
     try_bind (wrap FilteredInvalidHeader (header_try_from_raw B rh)) (\<lambda>header.
     try_bind (rewrap FilteredParseRollupTransactions (try_map rollup_txs_to_tuple (rfb_rollup_transactions r))) (\<lambda>rts.
     let rollup_transactions = collect_map rts; data_hash = sbh_data_hash header in
     try_bind (wrap FilteredInvalidRollupId (try_map rollup_id_try_from_raw (rfb_all_rollup_ids r))) (\<lambda>all_rollup_ids.
     try_bind (no_panic (verify (sha256 B) txs_proof (sha256 B (sbh_rollup_transactions_root header)) data_hash)) (\<lambda>v.
     try_bind (require v FilteredTransactionsNotInSequencerBlock) (\<lambda>_.
     try_bind (check_rollups_in_root (sha256 B) (sbh_rollup_transactions_root header) rollup_transactions) (\<lambda>_.
     try_bind (no_panic (are_rollup_ids_included (sha256 B) all_rollup_ids ids_proof data_hash)) (\<lambda>v.
     try_bind (require v FilteredInvalidRollupIdsProof) (\<lambda>_.
     try_bind (wrap FilteredChangeHash (try_map change_hash_try_from (rfb_upgrade_change_hashes r))) (\<lambda>hashes.
     try_bind (rewrap FilteredExtendedCommitInfo
         (try_opt (commit_info_try_from_raw B data_hash) (rfb_extended_commit_info_with_proof r))) (\<lambda>info.
     Inr \<lparr>fsb_block_hash = block_hash, fsb_header = header, fsb_rollup_transactions = rollup_transactions,
          fsb_rollup_transactions_proof = txs_proof, fsb_all_rollup_ids = all_rollup_ids,
          fsb_rollup_ids_proof = ids_proof, fsb_upgrade_change_hashes = hashes,
          fsb_extended_commit_info_with_proof = info\<rparr>))))))))))))))))"

end
