(* ===== verification/Celestia.thy ===== *)
theory Celestia
  imports Block_Wire
begin

text \<open>
  The blobs a block is split into for Celestia (\<^verbatim>\<open>crates/astria-core/src/sequencerblock/v1/celestia.rs\<close>): the
  metadata of the block, and the data of each rollup with its proof. The metadata is checked when it is read;
  the proof of a rollup is checked later against the metadata.
\<close>

record 'c submitted_metadata =
  sm_block_hash :: bytes
  sm_header :: sequencer_block_header
  sm_rollup_ids :: "rollup_id list"
  sm_rollup_transactions_proof :: merkle_proof
  sm_rollup_ids_proof :: merkle_proof
  sm_upgrade_change_hashes :: "bytes list"
  sm_extended_commit_info_with_proof :: "'c commit_info_with_proof option"

record submitted_rollup_data =
  srd_sequencer_block_hash :: bytes
  srd_rollup_id :: rollup_id
  srd_transactions :: "bytes list"
  srd_proof :: merkle_proof

record 'c prepared_block =
  pb_head :: "'c submitted_metadata"
  pb_tail :: "submitted_rollup_data list"

definition from_sequencer_block :: "'c sequencer_block \<Rightarrow> 'c prepared_block" where
  "from_sequencer_block b =
     \<lparr>pb_head =
        \<lparr>sm_block_hash = sb_block_hash b, sm_header = sb_header b,
         sm_rollup_ids = map fst (sb_rollup_transactions b),
         sm_rollup_transactions_proof = sb_rollup_transactions_proof b,
         sm_rollup_ids_proof = sb_rollup_ids_proof b, sm_upgrade_change_hashes = sb_upgrade_change_hashes b,
         sm_extended_commit_info_with_proof = sb_extended_commit_info_with_proof b\<rparr>,
      pb_tail =
        map (\<lambda>(rollup_id, rt).
          \<lparr>srd_sequencer_block_hash = sb_block_hash b, srd_rollup_id = rollup_id,
           srd_transactions = rt_transactions rt, srd_proof = rt_proof rt\<rparr>) (sb_rollup_transactions b)\<rparr>"

definition split_for_celestia :: "'c sequencer_block \<Rightarrow> 'c submitted_metadata \<times> submitted_rollup_data list" where
  "split_for_celestia b = (let p = from_sequencer_block b in (pb_head p, pb_tail p))"

section \<open>Rollup data\<close>

record raw_submitted_rollup_data =
  rsr_sequencer_block_hash :: bytes
  rsr_rollup_id :: "raw_rollup_id option"
  rsr_transactions :: "bytes list"
  rsr_proof :: "raw_proof option"

datatype submitted_rollup_data_error =
    SrdFieldNotSet string
  | SrdRollupId nat
  | SrdProof invalid_proof
  | SrdSequencerBlockHash nat

definition submitted_rollup_data_to_raw :: "submitted_rollup_data \<Rightarrow> raw_submitted_rollup_data" where
  "submitted_rollup_data_to_raw d =
     \<lparr>rsr_sequencer_block_hash = srd_sequencer_block_hash d, rsr_rollup_id = Some (rollup_id_to_raw (srd_rollup_id d)),
      rsr_transactions = srd_transactions d, rsr_proof = Some (proof_to_raw (srd_proof d))\<rparr>"

definition submitted_rollup_data_try_from_raw ::
  "raw_submitted_rollup_data \<Rightarrow> submitted_rollup_data_error fault + submitted_rollup_data" where
  "submitted_rollup_data_try_from_raw r =
     try_bind (ok_or (rsr_rollup_id r) (Fault (SrdFieldNotSet ''rollup_id''))) (\<lambda>ri.
     try_bind (wrap SrdRollupId (rollup_id_try_from_raw ri)) (\<lambda>rollup_id.
     try_bind (wrap id (array32 (rsr_sequencer_block_hash r) SrdSequencerBlockHash)) (\<lambda>block_hash.
     try_bind (ok_or (rsr_proof r) (Fault (SrdFieldNotSet ''proof''))) (\<lambda>rp.
     try_bind (rewrap SrdProof (proof_try_from_raw rp)) (\<lambda>p.
     Inr \<lparr>srd_sequencer_block_hash = block_hash, srd_rollup_id = rollup_id,
          srd_transactions = rsr_transactions r, srd_proof = p\<rparr>)))))"

section \<open>Metadata\<close>

record raw_submitted_metadata =
  rsm_block_hash :: bytes
  rsm_header :: "raw_sequencer_block_header option"
  rsm_rollup_ids :: "raw_rollup_id list"
  rsm_rollup_transactions_proof :: "raw_proof option"
  rsm_rollup_ids_proof :: "raw_proof option"
  rsm_upgrade_change_hashes :: "bytes list"
  rsm_extended_commit_info_with_proof :: "raw_commit_info_with_proof option"

datatype submitted_metadata_error =
    SmBlockHash nat
  | SmHeader sequencer_block_header_error
  | SmRollupIds nat
  | SmFieldNotSet string
  | SmRollupTransactionsNotInCometBftBlock
  | SmRollupIdsNotInCometBftBlock
  | SmRollupTransactionsProof invalid_proof
  | SmRollupIdsProof invalid_proof
  | SmUpgradeChangeHashes nat
  | SmExtendedCommitInfo extended_commit_info_error

definition submitted_metadata_to_raw :: "'c block_codec \<Rightarrow> 'c submitted_metadata \<Rightarrow> raw_submitted_metadata" where
  "submitted_metadata_to_raw B m =
     \<lparr>rsm_block_hash = sm_block_hash m, rsm_header = Some (header_to_raw B (sm_header m)),
      rsm_rollup_ids = map rollup_id_to_raw (sm_rollup_ids m),
      rsm_rollup_transactions_proof = Some (proof_to_raw (sm_rollup_transactions_proof m)),
      rsm_rollup_ids_proof = Some (proof_to_raw (sm_rollup_ids_proof m)),
      rsm_upgrade_change_hashes = sm_upgrade_change_hashes m,
      rsm_extended_commit_info_with_proof = map_option commit_info_to_raw (sm_extended_commit_info_with_proof m)\<rparr>"

text \<open>The unchecked metadata has the same fields.\<close>

definition unchecked_metadata_try_from_raw ::
  "'c block_codec \<Rightarrow> raw_submitted_metadata \<Rightarrow> submitted_metadata_error fault + 'c submitted_metadata" where
  "unchecked_metadata_try_from_raw B r =
     try_bind (ok_or (rsm_header r) (Fault (SmFieldNotSet ''header''))) (\<lambda>rh.
     try_bind (wrap SmHeader (header_try_from_raw B rh)) (\<lambda>header.
     try_bind (wrap SmRollupIds (try_map rollup_id_try_from_raw (rsm_rollup_ids r))) (\<lambda>rollup_ids.
     try_bind (ok_or (rsm_rollup_transactions_proof r) (Fault (SmFieldNotSet ''rollup_transactions_proof''))) (\<lambda>rtp.
     try_bind (rewrap SmRollupTransactionsProof (proof_try_from_raw rtp)) (\<lambda>txs_proof.
     try_bind (ok_or (rsm_rollup_ids_proof r) (Fault (SmFieldNotSet ''rollup_ids_proof''))) (\<lambda>rip.
     try_bind (rewrap SmRollupIdsProof (proof_try_from_raw rip)) (\<lambda>ids_proof.
     try_bind (wrap id (array32 (rsm_block_hash r) SmBlockHash)) (\<lambda>block_hash.
     try_bind (wrap SmUpgradeChangeHashes (try_map change_hash_try_from (rsm_upgrade_change_hashes r))) (\<lambda>hashes.
     try_bind (rewrap SmExtendedCommitInfo
         (try_opt (commit_info_try_from_raw B (sbh_data_hash header)) (rsm_extended_commit_info_with_proof r))) (\<lambda>info.
     Inr \<lparr>sm_block_hash = block_hash, sm_header = header, sm_rollup_ids = rollup_ids,
          sm_rollup_transactions_proof = txs_proof, sm_rollup_ids_proof = ids_proof,
          sm_upgrade_change_hashes = hashes, sm_extended_commit_info_with_proof = info\<rparr>))))))))))"

definition submitted_metadata_try_from_unchecked ::
  "'c block_codec \<Rightarrow> 'c submitted_metadata \<Rightarrow> submitted_metadata_error fault + 'c submitted_metadata" where
  "submitted_metadata_try_from_unchecked B m =
     (let data_hash = sbh_data_hash (sm_header m) in
      try_bind (no_panic (verify (sha256 B) (sm_rollup_transactions_proof m)
          (sha256 B (sbh_rollup_transactions_root (sm_header m))) data_hash)) (\<lambda>v.
      try_bind (require v SmRollupTransactionsNotInCometBftBlock) (\<lambda>_.
      try_bind (no_panic (are_rollup_ids_included (sha256 B) (sm_rollup_ids m) (sm_rollup_ids_proof m) data_hash)) (\<lambda>v.
      try_bind (require v SmRollupIdsNotInCometBftBlock) (\<lambda>_.
      Inr m)))))"

definition submitted_metadata_try_from_raw ::
  "'c block_codec \<Rightarrow> raw_submitted_metadata \<Rightarrow> submitted_metadata_error fault + 'c submitted_metadata" where
  "submitted_metadata_try_from_raw B r =
     try_bind (unchecked_metadata_try_from_raw B r) (submitted_metadata_try_from_unchecked B)"

end
