(* ===== verification/Sample_Block.thy ===== *)
theory Sample_Block
  imports Block_Build
begin

text \<open>
  A concrete instance of the code outside the repository, and a block of one transaction and one deposit, on which the
  theorems about blocks are instantiated.
\<close>

section \<open>Coders\<close>

fun write_lists :: "bytes list \<Rightarrow> bytes" where
  "write_lists [] = []"
| "write_lists (h # hs) = concat (map (\<lambda>b. [1, b]) h) @ 0 # write_lists hs"

fun read_lists :: "bytes \<Rightarrow> bytes \<Rightarrow> bytes list" where
  "read_lists acc [] = []"
| "read_lists acc [x] = (if x = 0 then [rev acc] else [])"
| "read_lists acc (x # y # xs) = (if x = 0 then rev acc # read_lists [] (y # xs) else read_lists (y # acc) xs)"

lemma read_zero: "read_lists acc (0 # xs) = rev acc # read_lists [] xs"
  by (cases xs) auto

lemma read_list: "read_lists acc (concat (map (\<lambda>b. [1, b]) h) @ 0 # xs) = (rev acc @ h) # read_lists [] xs"
  by (induction h arbitrary: acc) (simp_all add: read_zero)

lemma read_write_lists: "read_lists [] (write_lists hs) = hs"
  by (induction hs) (simp_all add: read_list)

definition sample_encode_item :: "raw_data_item \<Rightarrow> bytes" where
  "sample_encode_item r =
     (case rdi_value r of
        None \<Rightarrow> []
      | Some (RawRollupTransactionsRoot b) \<Rightarrow> 1 # b
      | Some (RawRollupIdsRoot b) \<Rightarrow> 2 # b
      | Some (RawUpgradeChangeHashes hs) \<Rightarrow> 3 # write_lists hs
      | Some (RawExtendedCommitInfo b) \<Rightarrow> 4 # b)"

definition sample_decode_item :: "bytes \<Rightarrow> string + raw_data_item" where
  "sample_decode_item bs =
     (case bs of
        [] \<Rightarrow> Inr \<lparr>rdi_value = None\<rparr>
      | t # b \<Rightarrow>
          if t = 1 then Inr \<lparr>rdi_value = Some (RawRollupTransactionsRoot b)\<rparr>
          else if t = 2 then Inr \<lparr>rdi_value = Some (RawRollupIdsRoot b)\<rparr>
          else if t = 3 then Inr \<lparr>rdi_value = Some (RawUpgradeChangeHashes (read_lists [] b))\<rparr>
          else if t = 4 then Inr \<lparr>rdi_value = Some (RawExtendedCommitInfo b)\<rparr>
          else Inl ''unknown tag'')"

lemma sample_item_roundtrip: "sample_decode_item (sample_encode_item r) = Inr r"
  by (cases r) (simp add: sample_encode_item_def sample_decode_item_def read_write_lists
      split: option.split raw_data_item_value.split)

definition sample_signed :: signed_transaction where
  "sample_signed = sign_body sample_tx_codec sample_body [4]"

definition sample_block_codec :: "unit block_codec" where
  "sample_block_codec =
     \<lparr>sha256 = (\<lambda>x. take 32 (x @ replicate 32 0)), block_tx_codec = sample_tx_codec,
      decode_transaction = (\<lambda>_. Inr (transaction_to_raw sample_signed)),
      encode_rollup_data = (\<lambda>r. case rrd_value r of Some (RawSequencedData b) \<Rightarrow> 1 # b | _ \<Rightarrow> [2]),
      encode_data_item = sample_encode_item, decode_data_item = sample_decode_item,
      decode_commit_info = (\<lambda>_. Inl ''''), commit_info_try_from = (\<lambda>_. Inr ()),
      chain_id_try_from = Inr, height_try_from = Inr,
      time_try_from = (\<lambda>t. Inr (ts_seconds t * 1000000000 + ts_nanos t)),
      time_into = (\<lambda>t. \<lparr>ts_seconds = t div 1000000000, ts_nanos = t mod 1000000000\<rparr>),
      account_id_try_from = Inr\<rparr>"

lemma sample_block_codec_ok: "block_codec_ok sample_block_codec"
  by (simp add: block_codec_ok_def sample_block_codec_def sample_tx_codec_ok sample_item_roundtrip min_def)

section \<open>A block\<close>

definition sample_deposit :: deposit where
  "sample_deposit = \<lparr>dep_bridge_address = \<lparr>addr_bytes = replicate 20 7, addr_prefix = ''astria''\<rparr>,
     dep_rollup_id = replicate 32 5, dep_amount = 3, dep_asset = TracePrefixed \<lparr>trace = [], base_denom = ''nria''\<rparr>,
     dep_destination_chain_address = ''rollup'', dep_source_transaction_id = replicate 32 1, dep_source_action_index = 0\<rparr>"

definition sample_deposits :: "(rollup_id \<times> deposit list) list" where
  "sample_deposits = [(replicate 32 5, [sample_deposit])]"

definition sample_rollups :: rollup_map where
  "sample_rollups = [(replicate 32 5, [[2]])]"

lemma sample_read_transaction: "read_transaction sample_block_codec b = Inr sample_signed"
  using sample_read by (simp add: read_transaction_def sample_block_codec_def sample_signed_def)

lemma sample_rollup_datas: "block_rollup_datas sample_block_codec [sample_signed] sample_deposits = sample_rollups"
  by (simp add: block_rollup_datas_def sample_signed_def sign_body_def sample_body_def sample_transfer_action_def
      sample_deposits_def entry_extend_def sort_keys_def sample_rollups_def encoded_rollup_data_def
      sample_block_codec_def Let_def)

lemma sample_no_change_hashes: "no_change_hashes sample_block_codec [9]"
  by (simp add: no_change_hashes_def data_item_decode_def sample_block_codec_def sample_decode_item_def)

lemma sample_fits: "fits_trees sample_rollups"
  by (simp add: fits_trees_def fits_tree_def sample_rollups_def)

end
