(* ===== verification/Block_Properties.thy ===== *)
theory Block_Properties
  imports Celestia Sample_Block
begin

text \<open>
  What a sequencer block guarantees: the items of a proposal are expanded and built into a block whose data by
  rollup is the one the proposer committed to; the block and the parts of it that are sent to rollups are read
  back; and what a reader accepts is the committed data.
\<close>

section \<open>Reading back what was written\<close>

lemma proof_roundtrip: "proves H p leaf root \<Longrightarrow> proof_try_from_raw (proof_to_raw p) = Inr p"
  by (simp add: proves_def proof_try_from_raw_def proof_to_raw_def into_unchecked_def)

definition wf_header :: "'c block_codec \<Rightarrow> sequencer_block_header \<Rightarrow> bool" where
  "wf_header B h \<longleftrightarrow> chain_id_try_from B (sbh_chain_id h) = Inr (sbh_chain_id h) \<and>
     height_try_from B (sbh_height h) = Inr (sbh_height h) \<and>
     account_id_try_from B (sbh_proposer_address h) = Inr (sbh_proposer_address h) \<and>
     length (sbh_rollup_transactions_root h) = 32 \<and> length (sbh_data_hash h) = 32"

lemma header_roundtrip:
  "block_codec_ok B \<Longrightarrow> wf_header B h \<Longrightarrow> header_try_from_raw B (header_to_raw B h) = Inr h"
  by (simp add: block_codec_ok_def wf_header_def header_try_from_raw_def header_to_raw_def array32_ok)

lemma commit_info_roundtrip:
  "commit_info_proven B data_hash c \<Longrightarrow> commit_info_try_from_raw B data_hash (commit_info_to_raw c) = Inr c"
  by (auto simp: commit_info_proven_def commit_info_try_from_raw_def commit_info_to_raw_def proof_roundtrip
      proves_def info_readable_def)

lemma opt_commit_info_roundtrip:
  "pred_option (commit_info_proven B data_hash) c \<Longrightarrow>
    try_opt (commit_info_try_from_raw B data_hash) (map_option commit_info_to_raw c) = Inr c"
  by (cases c) (simp_all add: commit_info_roundtrip)

lemma rollup_transactions_roundtrip:
  "wf_rollup_id (rt_rollup_id rt) \<Longrightarrow> proves H (rt_proof rt) leaf root \<Longrightarrow>
    rollup_txs_to_tuple (rollup_transactions_to_raw rt) = Inr (rt_rollup_id rt, rt)"
  by (simp add: rollup_txs_to_tuple_def rollup_transactions_try_from_raw_def rollup_transactions_to_raw_def
      rollup_id_roundtrip proof_roundtrip)

lemma change_hashes_roundtrip: "list_all (\<lambda>h. length h = 32) hs \<Longrightarrow> try_map change_hash_try_from hs = Inr hs"
  by (induction hs) (simp_all add: change_hash_try_from_def array32_ok)

lemma rollup_ids_roundtrip:
  "list_all wf_rollup_id ids \<Longrightarrow> try_map rollup_id_try_from_raw (map rollup_id_to_raw ids) = Inr ids"
  by (induction ids) (simp_all add: rollup_id_roundtrip)

text \<open>Collecting entries with distinct keys.\<close>

lemma collect_from: "distinct (map fst acc @ map fst kvs) \<Longrightarrow> fold (\<lambda>(k, v). AList.update k v) kvs acc = acc @ kvs"
proof (induction kvs arbitrary: acc)
  case (Cons kv kvs)
  obtain k v where kv: "kv = (k, v)" by (cases kv)
  have "AList.update k v acc = acc @ [(k, v)]" using Cons.prems kv by (intro update_fresh) auto
  then show ?case using Cons.IH [of "acc @ [kv]"] Cons.prems kv by auto
qed simp

lemma collect_distinct: "distinct (map fst kvs) \<Longrightarrow> collect_map kvs = kvs"
  using collect_from [of "[]" kvs] by (simp add: collect_map_def)

text \<open>The rollups of a block, or some of them.\<close>

definition proven_part :: "hash_fun \<Rightarrow> bytes \<Rightarrow> (rollup_id \<times> rollup_transactions) list \<Rightarrow> bool" where
  "proven_part H root rts \<longleftrightarrow> distinct (map fst rts) \<and>
     list_all (\<lambda>(i, rt). rt_rollup_id rt = i \<and> wf_rollup_id i \<and> fits_tree (rt_transactions rt) \<and>
       proves H (rt_proof rt) (rollup_leaf H (i, rt_transactions rt)) root) rts"

lemma part_roundtrip:
  assumes "proven_part H root rts"
  shows "try_map rollup_txs_to_tuple (map (\<lambda>(_, rt). rollup_transactions_to_raw rt) rts) = Inr rts"
    and "collect_map rts = rts"
proof -
  have "list_all (\<lambda>(i, rt). rollup_txs_to_tuple (rollup_transactions_to_raw rt) = Inr (i, rt)) rts"
    using assms by (auto simp: proven_part_def list_all_iff intro: rollup_transactions_roundtrip)
  then show "try_map rollup_txs_to_tuple (map (\<lambda>(_, rt). rollup_transactions_to_raw rt) rts) = Inr rts"
    by (induction rts) auto
  show "collect_map rts = rts" using assms by (intro collect_distinct) (simp add: proven_part_def)
qed

lemma match_root_eq:
  assumes "\<And>x. length (H x) = 32" "fits_tree (rt_transactions rt)"
  shows "do_rollup_transactions_match_root H rt root =
    verify H (rt_proof rt) (rollup_leaf H (rt_rollup_id rt, rt_transactions rt)) root"
proof -
  obtain t where "from_leaves H (rt_transactions rt) = Some t" "tree_root H t = Some (MTH H (rt_transactions rt))"
    by (rule from_leaves_MTH [of H "rt_transactions rt", OF assms])
  then show ?thesis
    by (simp add: do_rollup_transactions_match_root_def verify_def with_leaf_def with_root_def with_leaf_hash_def
        with_leaf_builder_def write_leaf_def finish_leaf_def hash_leaf_def rollup_leaf_def new_audit_def)
qed

lemma part_in_root:
  assumes "\<And>x. length (H x) = 32" "proven_part H root rts"
  shows "check_rollups_in_root H root rts = Inr ()"
proof -
  have "list_all (\<lambda>(i, rt). do_rollup_transactions_match_root H rt root = Some True) rts"
    using assms(2) by (auto simp: proven_part_def list_all_iff match_root_eq [OF assms(1)] proves_def)
  then show ?thesis by (induction rts) auto
qed

lemma block_part:
  assumes "list_all2 (proven_rollup H root) m rts" "distinct (map fst m)" "list_all wf_rollup_id (map fst m)"
    "list_all (\<lambda>e. fits_tree (snd e)) m"
  shows "proven_part H root rts" "map (\<lambda>(i, rt). (i, rt_transactions rt)) rts = m"
  using assms proven_keys [OF assms(1)]
  by (auto simp: proven_part_def list_all2_conv_all_nth list_all_length proven_rollup_def split_beta
      intro!: nth_equalityI prod_eqI)

lemma ids_included:
  assumes "\<And>x. length (H x) = 32" "fits_tree ids"
  shows "are_rollup_ids_included H ids p data_hash = verify H p (H (MTH H ids)) data_hash"
  by (rule from_leaves_MTH [of H ids, OF assms]) (simp add: are_rollup_ids_included_def)

lemma txs_included:
  assumes "\<And>x. length (H x) = 32" "fits_tree m" "list_all (\<lambda>e. fits_tree (snd e)) m"
    and "map (\<lambda>(i, rt). (i, rt_transactions rt)) rts = m"
  shows "are_rollup_txs_included H rts p data_hash = verify H p (H (MTH H (map (rollup_leaf H) m))) data_hash"
  by (rule derive_tree_MTH [of H m, OF assms(1-3)]) (simp add: are_rollup_txs_included_def assms(4))

section \<open>A block that was built\<close>

text \<open>A block for \<open>m\<close> with right proofs, a block hash and fields of the header that can be sent.\<close>

definition sendable_block :: "'c block_codec \<Rightarrow> rollup_map \<Rightarrow> 'c sequencer_block \<Rightarrow> bool" where
  "sendable_block B m b \<longleftrightarrow> block_of B m b \<and> fits_trees m \<and> distinct (map fst m) \<and>
     list_all wf_rollup_id (map fst m) \<and> length (sb_block_hash b) = 32 \<and> wf_header B (sb_header b)"

lemma sendable_parts:
  assumes "block_codec_ok B" "sendable_block B m b"
  shows "proven_part (sha256 B) (sbh_rollup_transactions_root (sb_header b)) (sb_rollup_transactions b)"
    and "map (\<lambda>(i, rt). (i, rt_transactions rt)) (sb_rollup_transactions b) = m"
    and "map fst (sb_rollup_transactions b) = map fst m"
    and "are_rollup_ids_included (sha256 B) (map fst m) (sb_rollup_ids_proof b) (sbh_data_hash (sb_header b)) = Some True"
    and "are_rollup_txs_included (sha256 B) (sb_rollup_transactions b) (sb_rollup_transactions_proof b)
      (sbh_data_hash (sb_header b)) = Some True"
    and "verify (sha256 B) (sb_rollup_transactions_proof b) (sha256 B (sbh_rollup_transactions_root (sb_header b)))
      (sbh_data_hash (sb_header b)) = Some True"
proof -
  let ?H = "sha256 B"
  have len: "length (?H x) = 32" for x using assms(1) by (simp add: block_codec_ok_def)
  have b: "block_of B m b" "fits_tree m" "list_all (\<lambda>e. fits_tree (snd e)) m" "fits_tree (map fst m)"
      "distinct (map fst m)" "list_all wf_rollup_id (map fst m)"
    using assms(2) by (simp_all add: sendable_block_def fits_trees_def fits_tree_def)
  have rts: "list_all2 (proven_rollup ?H (sbh_rollup_transactions_root (sb_header b))) m (sb_rollup_transactions b)"
    using b(1) by (simp add: block_of_def Let_def)
  note part = block_part [OF rts b(5,6,3)]
  show "proven_part ?H (sbh_rollup_transactions_root (sb_header b)) (sb_rollup_transactions b)" by (rule part(1))
  show m: "map (\<lambda>(i, rt). (i, rt_transactions rt)) (sb_rollup_transactions b) = m" by (rule part(2))
  show "map fst (sb_rollup_transactions b) = map fst m" by (rule proven_keys [OF rts])
  show "are_rollup_ids_included ?H (map fst m) (sb_rollup_ids_proof b) (sbh_data_hash (sb_header b)) = Some True"
    using b(1) by (simp add: ids_included [OF len b(4)] block_of_def Let_def commitments_of_def proves_def)
  show "verify ?H (sb_rollup_transactions_proof b) (?H (sbh_rollup_transactions_root (sb_header b)))
      (sbh_data_hash (sb_header b)) = Some True"
    using b(1) by (simp add: block_of_def Let_def proves_def)
  then show "are_rollup_txs_included ?H (sb_rollup_transactions b) (sb_rollup_transactions_proof b)
      (sbh_data_hash (sb_header b)) = Some True"
    using b(1) by (simp add: txs_included [OF len b(2,3) m] block_of_def Let_def commitments_of_def)
qed

lemma sendable_fields:
  assumes "block_codec_ok B" "sendable_block B m b"
  shows "array32 (sb_block_hash b) e = Inr (sb_block_hash b)"
    and "header_try_from_raw B (header_to_raw B (sb_header b)) = Inr (sb_header b)"
    and "proof_try_from_raw (proof_to_raw (sb_rollup_transactions_proof b)) = Inr (sb_rollup_transactions_proof b)"
    and "proof_try_from_raw (proof_to_raw (sb_rollup_ids_proof b)) = Inr (sb_rollup_ids_proof b)"
    and "try_map change_hash_try_from (sb_upgrade_change_hashes b) = Inr (sb_upgrade_change_hashes b)"
    and "try_opt (commit_info_try_from_raw B (sbh_data_hash (sb_header b)))
      (map_option commit_info_to_raw (sb_extended_commit_info_with_proof b)) = Inr (sb_extended_commit_info_with_proof b)"
  using assms by (auto simp: sendable_block_def block_of_def Let_def array32_ok header_roundtrip
      change_hashes_roundtrip opt_commit_info_roundtrip simp del: try_opt_Inr_iff intro: proof_roundtrip)

lemma sequencer_block_roundtrip:
  assumes "block_codec_ok B" "sendable_block B m b"
  shows "sequencer_block_try_from_raw B (sequencer_block_to_raw B b) = Inr b"
  using sendable_parts [OF assms]
  by (simp add: sendable_fields [OF assms] sequencer_block_try_from_raw_def sequencer_block_to_raw_def part_roundtrip Let_def
      del: try_opt_Inr_iff)

lemma metadata_roundtrip:
  assumes "block_codec_ok B" "sendable_block B m b"
  shows "submitted_metadata_try_from_raw B (submitted_metadata_to_raw B (fst (split_for_celestia b))) =
    Inr (fst (split_for_celestia b))"
proof -
  have "list_all wf_rollup_id (map fst m)" using assms(2) by (simp add: sendable_block_def)
  then show ?thesis using sendable_parts [OF assms]
    by (simp add: sendable_fields [OF assms] submitted_metadata_try_from_raw_def submitted_metadata_to_raw_def split_for_celestia_def
        unchecked_metadata_try_from_raw_def submitted_metadata_try_from_unchecked_def from_sequencer_block_def
        rollup_ids_roundtrip Let_def del: try_opt_Inr_iff map_map)
qed

lemma submitted_rollups_roundtrip:
  assumes "block_codec_ok B" "sendable_block B m b"
  shows "try_map submitted_rollup_data_try_from_raw (map submitted_rollup_data_to_raw (snd (split_for_celestia b))) =
    Inr (snd (split_for_celestia b))"
proof (rule try_map_roundtrip)
  have "length (sb_block_hash b) = 32" using assms(2) by (simp add: sendable_block_def)
  then show "list_all (\<lambda>d. submitted_rollup_data_try_from_raw (submitted_rollup_data_to_raw d) = Inr d)
      (snd (split_for_celestia b))"
    using sendable_parts(1) [OF assms]
    by (auto simp: split_for_celestia_def from_sequencer_block_def Let_def list_all_iff proven_part_def
        submitted_rollup_data_try_from_raw_def submitted_rollup_data_to_raw_def rollup_id_roundtrip array32_ok
        proof_roundtrip)
qed

section \<open>Filtering\<close>

lemma filter_rollups_part:
  assumes rts: "proven_part H root rts" and acc: "proven_part H root acc" "set acc \<subseteq> set rts"
  shows "proven_part H root (filter_rollups rts ids acc)" "set (filter_rollups rts ids acc) \<subseteq> set rts"
    "map_of (filter_rollups rts ids acc) i = (if i \<in> set ids then map_of rts i else map_of acc i)"
proof -
  have "proven_part H root (filter_rollups rts ids acc) \<and> set (filter_rollups rts ids acc) \<subseteq> set rts \<and>
    map_of (filter_rollups rts ids acc) i = (if i \<in> set ids then map_of rts i else map_of acc i)"
    using acc
  proof (induction ids arbitrary: acc)
    case (Cons j ids)
    show ?case
    proof (cases "map_of rts j")
      case None
      then have "j \<notin> fst ` set acc" using Cons.prems(2) by (auto simp: map_of_eq_None_iff)
      then have "map_of acc j = None" by (simp add: map_of_eq_None_iff)
      then show ?thesis using None Cons.IH [OF Cons.prems] by auto
    next
      case (Some rt)
      then have j: "(j, rt) \<in> set rts" by (rule map_of_SomeD)
      have "set (AList.update j rt acc) \<subseteq> insert (j, rt) (set acc)" by (induction acc) auto
      then have sub: "set (AList.update j rt acc) \<subseteq> set rts" using Cons.prems(2) j by blast
      have "proven_part H root (AList.update j rt acc)"
        using rts Cons.prems(1) sub by (auto simp: proven_part_def distinct_update list_all_iff)
      then show ?thesis using Some Cons.IH [OF _ sub] by (auto simp: update_conv')
    qed
  qed simp
  then show "proven_part H root (filter_rollups rts ids acc)" "set (filter_rollups rts ids acc) \<subseteq> set rts"
    "map_of (filter_rollups rts ids acc) i = (if i \<in> set ids then map_of rts i else map_of acc i)" by blast+
qed

lemma filtered_block_roundtrip:
  assumes "block_codec_ok B" "sendable_block B m b"
  shows "filtered_block_try_from_raw B (filtered_block_to_raw B (to_filtered_block b ids)) = Inr (to_filtered_block b ids)"
proof -
  let ?rts = "filter_rollups (sb_rollup_transactions b) ids []"
  have len: "length (sha256 B x) = 32" for x using assms(1) by (simp add: block_codec_ok_def)
  have wf: "list_all wf_rollup_id (map fst m)" using assms(2) by (simp add: sendable_block_def)
  have part: "proven_part (sha256 B) (sbh_rollup_transactions_root (sb_header b)) ?rts"
    by (rule filter_rollups_part(1) [OF sendable_parts(1) [OF assms]]) (simp_all add: proven_part_def)
  show ?thesis using sendable_parts [OF assms] part_roundtrip [OF part]
      part_in_root [OF len part] rollup_ids_roundtrip [OF wf]
    by (simp add: sendable_fields [OF assms] filtered_block_try_from_raw_def filtered_block_to_raw_def to_filtered_block_def Let_def
        del: try_opt_Inr_iff map_map)
qed

section \<open>From a proposal to a block\<close>

definition block_builder ::
  "bytes \<Rightarrow> string \<Rightarrow> u64 \<Rightarrow> int \<Rightarrow> bytes \<Rightarrow> 'c expanded_block_data \<Rightarrow> (rollup_id \<times> deposit list) list \<Rightarrow>
     'c sequencer_block_builder" where
  "block_builder block_hash cid height time proposer d deposits =
     \<lparr>sbb_block_hash = block_hash, sbb_chain_id = cid, sbb_height = height, sbb_time = time,
      sbb_proposer_address = proposer, sbb_expanded_block_data = d, sbb_deposits = deposits\<rparr>"

section \<open>Expanded data and the block built from it\<close>

lemma take_change_hashes_length:
  "take_upgrade_change_hashes B i xs = (hs, j, rest) \<Longrightarrow> length rest \<le> length xs"
  by (cases xs) (auto split: sum.splits data_item.splits)

lemma take_commit_info_length:
  "take_extended_commit_info B w i xs = Inr (info, items) \<Longrightarrow>
    length ((case info of None \<Rightarrow> [] | Some (_, encoded) \<Rightarrow> [encoded]) @ items) \<le> length xs"
  by (auto simp: take_extended_commit_info_def split: if_splits list.splits)

lemma take_change_hashes_wf:
  assumes "take_upgrade_change_hashes B i xs = (hs, j, rest)" shows "list_all (\<lambda>h. length h = 32) hs"
proof -
  have decoded: "list_all (\<lambda>h. length h = 32) gs"
    if dec: "data_item_decode B i b = Inr (UpgradeChangeHashes gs)" for b gs
  proof -
    have arrays: "list_all (\<lambda>h. length h = 32) ys" if "try_map (\<lambda>h. array32 h e) zs = Inr ys" for e :: "nat \<Rightarrow> data_item_error" and zs ys
      using that by (induction zs arbitrary: ys) (auto simp: array32_def split: if_splits)
    obtain raw where raw: "decode_data_item B b = Inr raw" using dec by (auto simp: data_item_decode_def)
    obtain v where v: "rdi_value raw = Some v"
      using dec raw by (cases "rdi_value raw") (auto simp: data_item_decode_def)
    show ?thesis using dec raw v arrays by (cases v) (auto simp: data_item_decode_def)
  qed
  show ?thesis using assms decoded by (cases xs) (auto split: sum.splits data_item.splits)
qed

lemma take_commit_info_readable:
  "take_extended_commit_info B w i xs = Inr (Some (info, e), items) \<Longrightarrow> info_readable B e info"
  by (auto simp: take_extended_commit_info_def info_readable_def wrap_def split: if_splits list.splits)

text \<open>Data that was expanded without an error has the proofs of its two roots and of its extended commit info.\<close>

lemma typed_data_expanded:
  assumes ok: "block_codec_ok B" and d: "new_from_typed_data B data w = Inr d" and fits: "fits_tree data"
  shows "expanded_of B (ebd_rollup_transactions_root d) (ebd_rollup_ids_root d) d"
proof -
  let ?H = "sha256 B"
  have len: "length (?H x) = 32" for x using ok by (simp add: block_codec_ok_def)
  obtain b0 b1 items where data: "data = b0 # b1 # items"
    using d by (cases data; cases "tl data") (auto simp: new_from_typed_data_def)
  obtain hs i rest where hs: "take_upgrade_change_hashes B 2 items = (hs, i, rest)"
    by (cases "take_upgrade_change_hashes B 2 items") auto
  from d data hs obtain info txs where info: "take_extended_commit_info B w i rest = Inr (info, txs)"
    by (auto simp: new_from_typed_data_def)
  let ?ls = "[?H (ebd_rollup_transactions_root d), ?H (ebd_rollup_ids_root d)] @
    (case info of None \<Rightarrow> [] | Some (_, e) \<Rightarrow> [?H e]) @ map ?H txs"
  have "length ?ls \<le> length data"
    using take_change_hashes_length [OF hs] take_commit_info_length [OF info] data
    by (auto split: option.splits)
  then have "fits_tree ?ls" using fits by (simp add: fits_tree_def)
  then obtain t where t: "from_leaves ?H ?ls = Some t" "tree_of ?H ?ls t" "tree_root ?H t = Some (MTH ?H ?ls)"
    by (rule from_leaves_MTH [of ?H ?ls, OF len])
  obtain p0 where p0: "expect_proof t 0 = (Inr p0 :: sequencer_block_error fault + merkle_proof)"
    "proves ?H p0 (?ls ! 0) (MTH ?H ?ls)" by (rule expect_proof_proves [OF t(2) len, of 0]) auto
  obtain p1 where p1: "expect_proof t 1 = (Inr p1 :: sequencer_block_error fault + merkle_proof)"
    "proves ?H p1 (?ls ! 1) (MTH ?H ?ls)" by (rule expect_proof_proves [OF t(2) len, of 1]) auto
  note facts = t(1,3) p0 p1 take_change_hashes_wf [OF hs] MTH_length [of ?H, OF len]
  show ?thesis
  proof (cases info)
    case None
    then show ?thesis using d facts data hs info by (auto simp: new_from_typed_data_def expanded_of_def Let_def)
  next
    case (Some q)
    obtain x e where q: "q = (x, e)" by (cases q)
    obtain p2 where p2: "expect_proof t 2 = (Inr p2 :: sequencer_block_error fault + merkle_proof)"
      "proves ?H p2 (?ls ! 2) (MTH ?H ?ls)" by (rule expect_proof_proves [OF t(2) len, of 2]) (auto simp: Some q)
    have "info_readable B e x" using info Some q by (intro take_commit_info_readable) simp
    then show ?thesis using d facts p2 data hs info Some q
      by (auto simp: new_from_typed_data_def expanded_of_def Let_def commit_info_proven_def)
  qed
qed

lemma untyped_data_expanded:
  assumes ok: "block_codec_ok B" and d: "new_from_untyped_data B data = Inr d" and fits: "fits_tree data"
  shows "expanded_of B (ebd_rollup_transactions_root d) (ebd_rollup_ids_root d) d"
proof -
  let ?H = "sha256 B" and ?ls = "map (sha256 B) data"
  have len: "length (?H x) = 32" for x using ok by (simp add: block_codec_ok_def)
  obtain b0 b1 items where data: "data = b0 # b1 # items"
    using d by (cases data; cases "tl data") (auto simp: new_from_untyped_data_def)
  have "fits_tree ?ls" using fits by (simp add: fits_tree_def)
  then obtain t where t: "from_leaves ?H ?ls = Some t" "tree_of ?H ?ls t" "tree_root ?H t = Some (MTH ?H ?ls)"
    by (rule from_leaves_MTH [of ?H ?ls, OF len])
  obtain p0 where p0: "expect_proof t 0 = (Inr p0 :: sequencer_block_error fault + merkle_proof)"
    "proves ?H p0 (?ls ! 0) (MTH ?H ?ls)" by (rule expect_proof_proves [OF t(2) len, of 0]) (auto simp: data)
  obtain p1 where p1: "expect_proof t 1 = (Inr p1 :: sequencer_block_error fault + merkle_proof)"
    "proves ?H p1 (?ls ! 1) (MTH ?H ?ls)" by (rule expect_proof_proves [OF t(2) len, of 1]) (auto simp: data)
  show ?thesis
    using d t(1,3) p0 p1 data MTH_length [of ?H, OF len]
    by (auto simp: new_from_untyped_data_def merkle_tree_from_data_def array32_def wrap_def expanded_of_def split: if_splits)
qed

lemma try_build_Inr:
  assumes ok: "block_codec_ok B" and blk: "try_build B b = Inr blk"
    and m: "m = block_rollup_datas B (user_submitted_transactions (sbb_expanded_block_data b)) (sbb_deposits b)"
    and fits: "fits_trees m"
  shows "ebd_rollup_transactions_root (sbb_expanded_block_data b) = MTH (sha256 B) (map (rollup_leaf (sha256 B)) m)"
    and "ebd_rollup_ids_root (sbb_expanded_block_data b) = MTH (sha256 B) (map fst m)"
    and "sbh_data_hash (sb_header blk) = data_root_hash (sbb_expanded_block_data b)"
    and "map (\<lambda>(i, rt). (i, rt_transactions rt)) (sb_rollup_transactions blk) = m"
proof -
  obtain it dt rts where trees: "from_leaves (sha256 B) (map fst m) = Some it"
    "tree_root (sha256 B) it = Some (gen_rollup_ids_root (commitments_of (sha256 B) m))"
    "derive_merkle_tree_from_rollup_txs (sha256 B) m = Some dt"
    "tree_root (sha256 B) dt = Some (rollup_datas_root (commitments_of (sha256 B) m))"
    and rts: "attach_proofs dt 0 m [] = (Inr rts :: sequencer_block_error fault + _)"
    "list_all2 (proven_rollup (sha256 B) (rollup_datas_root (commitments_of (sha256 B) m))) m rts" "sort_keys rts = rts"
    by (rule attached_rollups [OF ok fits m])
  have "map (\<lambda>(i, rt). (i, rt_transactions rt)) rts = m"
    using rts(2) by (auto simp: list_all2_conv_all_nth proven_rollup_def split_beta intro!: nth_equalityI prod_eqI)
  with blk show "ebd_rollup_transactions_root (sbb_expanded_block_data b) = MTH (sha256 B) (map (rollup_leaf (sha256 B)) m)"
    and "ebd_rollup_ids_root (sbb_expanded_block_data b) = MTH (sha256 B) (map fst m)"
    and "sbh_data_hash (sb_header blk) = data_root_hash (sbb_expanded_block_data b)"
    and "map (\<lambda>(i, rt). (i, rt_transactions rt)) (sb_rollup_transactions blk) = m"
    by (auto simp: try_build_def m [unfolded block_rollup_datas_def, symmetric] trees rts Let_def commitments_of_def)
qed

lemma proposal_to_block:
  assumes ok: "block_codec_ok B" and fits: "fits_trees (block_rollup_datas B txs deposits')"
    and deps: "distinct (map fst deposits)" "distinct (map fst deposits')" "set deposits = set deposits'"
    and items: "list_all (\<lambda>h. length h = 32) hashes" "pred_option (\<lambda>e. info_readable B e i) info"
      "list_all2 (\<lambda>b t. read_transaction B b = Inr t) tx_bytes txs" "list_all (no_change_hashes B) tx_bytes"
      "64 * (length tx_bytes + 4) \<le> 2 ^ 63"
  obtains c d blk where "generate_rollup_datas_commitment B txs deposits = Some c"
    "new_from_typed_data B (typed_items B c hashes info tx_bytes) (info \<noteq> None) = Inr d"
    "try_build B (block_builder block_hash cid height time proposer d deposits') = Inr blk"
    "block_of B (block_rollup_datas B txs deposits') blk" "sb_block_hash blk = block_hash"
    "sbh_chain_id (sb_header blk) = cid" "sbh_height (sb_header blk) = height" "sbh_time (sb_header blk) = time"
    "sbh_proposer_address (sb_header blk) = proposer" "user_submitted_transactions d = txs"
proof -
  let ?m = "block_rollup_datas B txs deposits'"
  let ?c = "commitments_of (sha256 B) ?m"
  have len: "length (sha256 B x) = 32" for x using ok by (simp add: block_codec_ok_def)
  have c: "generate_rollup_datas_commitment B txs deposits = Some ?c" by (rule generated_commitments [OF ok fits deps])
  have lens: "length (rollup_datas_root ?c) = 32" "length (gen_rollup_ids_root ?c) = 32"
    by (simp_all add: commitments_of_def MTH_length [OF len])
  have "fits_tree (typed_items B ?c hashes info tx_bytes)"
    using items(5) by (auto simp: fits_tree_def typed_items_def commitment_items_def split: option.split)
  from typed_data_expands [OF ok lens items(1-4) this] obtain d where
    d: "new_from_typed_data B (typed_items B ?c hashes info tx_bytes) (info \<noteq> None) = Inr d"
      "expanded_of B (rollup_datas_root ?c) (gen_rollup_ids_root ?c) d" "user_submitted_transactions d = txs"
    by blast
  from try_build_succeeds [OF ok fits, of "block_builder block_hash cid height time proposer d deposits'"]
  show ?thesis using that [OF c d(1)] d(2,3) by (auto simp: block_builder_def)
qed

text \<open>
  C32. What a proposer commits to is what the other nodes build: the items of a proposal (the two commitments, the
  hashes of upgrade changes, the extended commit info and the transactions) are expanded and built into a block
  without an error, although the deposits may be iterated in another order, and the block holds for each rollup the
  data submitted for it in the order of the actions, followed by its deposits.
\<close>

theorem proposal_is_built_into_block:
  assumes "block_codec_ok B" "fits_trees (block_rollup_datas B txs deposits')"
    and "distinct (map fst deposits)" "distinct (map fst deposits')" "set deposits = set deposits'"
    and "list_all (\<lambda>h. length h = 32) hashes" "pred_option (\<lambda>e. info_readable B e i) info"
    and "list_all2 (\<lambda>b t. read_transaction B b = Inr t) tx_bytes txs" "list_all (no_change_hashes B) tx_bytes"
    and "64 * (length tx_bytes + 4) \<le> 2 ^ 63"
  shows "\<exists>c d blk. generate_rollup_datas_commitment B txs deposits = Some c \<and>
    new_from_typed_data B (typed_items B c hashes info tx_bytes) (info \<noteq> None) = Inr d \<and>
    try_build B (block_builder block_hash cid height time proposer d deposits') = Inr blk \<and>
    sorted (map fst (sb_rollup_transactions blk)) \<and>
    (\<forall>r. map_option rt_transactions (map_of (sb_rollup_transactions blk) r) = rollup_share B txs deposits r)"
proof -
  obtain c d blk where built: "generate_rollup_datas_commitment B txs deposits = Some c"
    "new_from_typed_data B (typed_items B c hashes info tx_bytes) (info \<noteq> None) = Inr d"
    "try_build B (block_builder block_hash cid height time proposer d deposits') = Inr blk"
    and blk: "block_of B (block_rollup_datas B txs deposits') blk"
    by (rule proposal_to_block [OF assms(1-10)])
  have rts: "list_all2 (proven_rollup (sha256 B) (sbh_rollup_transactions_root (sb_header blk)))
      (block_rollup_datas B txs deposits') (sb_rollup_transactions blk)"
    using blk by (simp add: block_of_def Let_def)
  have same: "map_of deposits = map_of deposits'" using assms(3-5) by (simp add: map_of_inject_set)
  have "map_option rt_transactions (map_of (sb_rollup_transactions blk) r) =
      map_of (block_rollup_datas B txs deposits') r" for r
    using rts by (induction rule: list_all2_induct) (auto simp: proven_rollup_def)
  then show ?thesis using built proven_keys [OF rts] sorted_block_rollup_datas [of B txs deposits']
    by (simp add: map_of_block_rollup_datas [OF assms(4)] rollup_share_def same)
qed

theorem proposal_is_built_into_block_witness:
  "\<exists>c d blk. generate_rollup_datas_commitment sample_block_codec [sample_signed] sample_deposits = Some c \<and>
    new_from_typed_data sample_block_codec (typed_items sample_block_codec c [replicate 32 3] None [[9]]) False = Inr d \<and>
    try_build sample_block_codec (block_builder (replicate 32 8) ''astria'' 7 0 (replicate 20 1) d sample_deposits) =
      Inr blk \<and>
    map_option rt_transactions (map_of (sb_rollup_transactions blk) (replicate 32 5)) = Some [[2]]"
proof -
  have share: "rollup_share sample_block_codec [sample_signed] sample_deposits (replicate 32 5) = Some [[2]]"
    using map_of_block_rollup_datas [of sample_deposits sample_block_codec "[sample_signed]" "replicate 32 5"]
    by (simp add: sample_rollup_datas) (simp add: sample_deposits_def sample_rollups_def)
  have fits: "fits_trees (block_rollup_datas sample_block_codec [sample_signed] sample_deposits)"
    by (simp add: sample_rollup_datas sample_fits)
  have deps: "distinct (map fst sample_deposits)" by (simp add: sample_deposits_def)
  have "list_all (\<lambda>h. length h = 32) [replicate 32 (3::u8)]" "64 * (length [[9::u8]] + 4) \<le> 2 ^ 63"
    "pred_option (\<lambda>e. info_readable sample_block_codec e undefined) None"
    "list_all2 (\<lambda>b t. read_transaction sample_block_codec b = Inr t) [[9]] [sample_signed]"
    "list_all (no_change_hashes sample_block_codec) [[9]]"
    by (simp_all add: sample_read_transaction sample_no_change_hashes)
  note ex = proposal_is_built_into_block [OF sample_block_codec_ok fits deps deps refl this(1,3,4,5,2),
      of "replicate 32 8" "''astria''" 7 0 "replicate 20 1"]
  show ?thesis using ex share by (fastforce simp del: map_option_eq_Some)
qed

lemma built_is_sendable:
  assumes ok: "block_codec_ok B"
    and d: "new_from_typed_data B data w = Inr d \<or> new_from_untyped_data B data = Inr d" "fits_tree data"
    and b: "try_build B (block_builder block_hash cid height time proposer d deposits) = Inr b"
    and m: "m = block_rollup_datas B (user_submitted_transactions d) deposits" and fits: "fits_trees m"
    and wf: "length block_hash = 32" "chain_id_try_from B cid = Inr cid" "height_try_from B height = Inr height"
      "account_id_try_from B proposer = Inr proposer" "list_all wf_rollup_id (map fst m)"
  shows "sendable_block B m b"
proof -
  let ?b = "block_builder block_hash cid height time proposer d deposits"
  have m': "m = block_rollup_datas B (user_submitted_transactions (sbb_expanded_block_data ?b)) (sbb_deposits ?b)"
    by (simp add: m block_builder_def)
  have len: "length (sha256 B x) = 32" for x using ok by (simp add: block_codec_ok_def)
  have "expanded_of B (ebd_rollup_transactions_root d) (ebd_rollup_ids_root d) d"
    using d typed_data_expanded [OF ok] untyped_data_expanded [OF ok] by blast
  then have "expanded_of B (rollup_datas_root (commitments_of (sha256 B) m))
      (gen_rollup_ids_root (commitments_of (sha256 B) m)) (sbb_expanded_block_data ?b)"
    using try_build_Inr(1,2) [OF ok b m' fits] by (simp add: commitments_of_def block_builder_def)
  from try_build_succeeds [OF ok fits m' this] b wf MTH_length [of "sha256 B", OF len] fits
  show ?thesis
    by (auto simp: sendable_block_def wf_header_def block_of_def block_builder_def Let_def commitments_of_def
        m distinct_block_rollup_datas)
qed

text \<open>
  C33. A block that was built can be sent. Let the data of a block be expanded without an error, in the typed form or in
  the one before the upgrade, and let \<open>try_build\<close> build a block from it and from the deposits; the data and the
  rollups' data fit a tree, the chain id, height and proposer are values of their types, and hashes and rollup ids have
  32 bytes. Then the block's message is read back to the same block, so is the message of the block filtered for
  any rollups, which then holds for exactly those of them that are in the block the data submitted for the rollup and
  its deposits, and so are the metadata and the blobs of each rollup that are posted to Celestia.
\<close>

theorem built_block_is_read_back:
  assumes "block_codec_ok B"
    and "new_from_typed_data B data w = Inr d \<or> new_from_untyped_data B data = Inr d" "fits_tree data"
    and "try_build B (block_builder block_hash cid height time proposer d deposits) = Inr b"
    and "fits_trees (block_rollup_datas B (user_submitted_transactions d) deposits)" "distinct (map fst deposits)"
    and "length block_hash = 32" "chain_id_try_from B cid = Inr cid" "height_try_from B height = Inr height"
      "account_id_try_from B proposer = Inr proposer"
      "list_all wf_rollup_id (map fst (block_rollup_datas B (user_submitted_transactions d) deposits))"
  shows "sequencer_block_try_from_raw B (sequencer_block_to_raw B b) = Inr b \<and>
    filtered_block_try_from_raw B (filtered_block_to_raw B (to_filtered_block b ids)) = Inr (to_filtered_block b ids) \<and>
    map_option rt_transactions (map_of (fsb_rollup_transactions (to_filtered_block b ids)) i) =
      (if i \<in> set ids then rollup_share B (user_submitted_transactions d) deposits i else None) \<and>
    submitted_metadata_try_from_raw B (submitted_metadata_to_raw B (fst (split_for_celestia b))) =
      Inr (fst (split_for_celestia b)) \<and>
    try_map submitted_rollup_data_try_from_raw (map submitted_rollup_data_to_raw (snd (split_for_celestia b))) =
      Inr (snd (split_for_celestia b))"
proof -
  let ?m = "block_rollup_datas B (user_submitted_transactions d) deposits"
  have s: "sendable_block B ?m b" by (rule built_is_sendable [OF assms(1-4) refl assms(5,7-11)])
  note parts = sendable_parts [OF assms(1) s]
  have "map_option rt_transactions (map_of (sb_rollup_transactions b) i) =
      rollup_share B (user_submitted_transactions d) deposits i"
    unfolding map_of_block_rollup_datas [OF assms(6), symmetric] parts(2) [symmetric] by (simp add: map_of_map)
  moreover have "map_of (fsb_rollup_transactions (to_filtered_block b ids)) i =
      (if i \<in> set ids then map_of (sb_rollup_transactions b) i else None)"
    using filter_rollups_part(3) [OF parts(1), of "[]" ids i] by (simp add: to_filtered_block_def proven_part_def)
  moreover note submitted_rollups_roundtrip [OF assms(1) s]
  ultimately show ?thesis
    using sequencer_block_roundtrip [OF assms(1) s] filtered_block_roundtrip [OF assms(1) s]
      metadata_roundtrip [OF assms(1) s]
    by simp
qed

lemma sample_wf_rollups: "list_all wf_rollup_id (map fst sample_rollups)"
  by (simp add: sample_rollups_def wf_rollup_id_def ROLLUP_ID_LEN_def)

lemma sample_header_values:
  "chain_id_try_from sample_block_codec ''astria'' = Inr ''astria''" "height_try_from sample_block_codec 7 = Inr 7"
  "account_id_try_from sample_block_codec (replicate 20 1) = Inr (replicate 20 1)"
  by (simp_all add: sample_block_codec_def)

lemma sample_block_built:
  obtains c d blk where "new_from_typed_data sample_block_codec (typed_items sample_block_codec c [] None [[9]]) False = Inr d"
    "try_build sample_block_codec (block_builder (replicate 32 8) ''astria'' 7 0 (replicate 20 1) d sample_deposits) =
      Inr blk" "user_submitted_transactions d = [sample_signed]"
    "fits_tree (typed_items sample_block_codec c [] None [[9]])"
proof -
  let ?B = sample_block_codec
  have fits: "fits_trees (block_rollup_datas ?B [sample_signed] sample_deposits)"
    by (simp add: sample_rollup_datas sample_fits)
  have prems: "distinct (map fst sample_deposits)" "list_all (\<lambda>h. length h = 32) []"
    "pred_option (\<lambda>e. info_readable ?B e undefined) None" "list_all (no_change_hashes ?B) [[9]]"
    "list_all2 (\<lambda>b t. read_transaction ?B b = Inr t) [[9]] [sample_signed]" "64 * (length [[9::u8]] + 4) \<le> 2 ^ 63"
    by (simp_all add: sample_deposits_def sample_read_transaction sample_no_change_hashes)
  obtain c d blk where built: "new_from_typed_data ?B (typed_items ?B c [] None [[9]]) (None \<noteq> (None :: bytes option)) = Inr d"
      "try_build ?B (block_builder (replicate 32 8) ''astria'' 7 0 (replicate 20 1) d sample_deposits) = Inr blk"
      "user_submitted_transactions d = [sample_signed]"
    by (rule proposal_to_block [OF sample_block_codec_ok fits prems(1) prems(1) refl prems(2,3,5,4,6)])
  have "fits_tree (typed_items ?B c [] None [[9]])"
    by (simp add: fits_tree_def typed_items_def commitment_items_def)
  then show ?thesis using that built by simp
qed

lemma sample_block_sendable:
  obtains c d blk where "new_from_typed_data sample_block_codec (typed_items sample_block_codec c [] None [[9]]) False = Inr d"
    "try_build sample_block_codec (block_builder (replicate 32 8) ''astria'' 7 0 (replicate 20 1) d sample_deposits) =
      Inr blk" "sendable_block sample_block_codec sample_rollups blk" "user_submitted_transactions d = [sample_signed]"
proof -
  let ?B = sample_block_codec
  obtain c d blk where built: "new_from_typed_data ?B (typed_items ?B c [] None [[9]]) False = Inr d"
      "try_build ?B (block_builder (replicate 32 8) ''astria'' 7 0 (replicate 20 1) d sample_deposits) = Inr blk"
      "user_submitted_transactions d = [sample_signed]" "fits_tree (typed_items ?B c [] None [[9]])"
    by (rule sample_block_built)
  have "sample_rollups = block_rollup_datas ?B (user_submitted_transactions d) sample_deposits"
    by (simp add: built(3) sample_rollup_datas)
  from built_is_sendable [OF sample_block_codec_ok disjI1 [OF built(1)] built(4,2) this sample_fits _
      sample_header_values sample_wf_rollups]
  show ?thesis using that built by simp
qed

theorem built_block_is_read_back_witness:
  "\<exists>c d b. new_from_typed_data sample_block_codec (typed_items sample_block_codec c [] None [[9]]) False = Inr d \<and>
    try_build sample_block_codec (block_builder (replicate 32 8) ''astria'' 7 0 (replicate 20 1) d sample_deposits) =
      Inr b \<and>
    sequencer_block_try_from_raw sample_block_codec (sequencer_block_to_raw sample_block_codec b) = Inr b \<and>
    map_option rt_transactions (map_of (fsb_rollup_transactions (to_filtered_block b [replicate 32 5])) (replicate 32 5)) =
      Some [[2]]"
proof -
  let ?B = sample_block_codec
  obtain c d b where built: "new_from_typed_data ?B (typed_items ?B c [] None [[9]]) False = Inr d"
      "try_build ?B (block_builder (replicate 32 8) ''astria'' 7 0 (replicate 20 1) d sample_deposits) = Inr b"
      "user_submitted_transactions d = [sample_signed]" "fits_tree (typed_items ?B c [] None [[9]])"
    by (rule sample_block_built)
  have m: "block_rollup_datas ?B (user_submitted_transactions d) sample_deposits = sample_rollups"
    by (simp add: built(3) sample_rollup_datas)
  have deps: "distinct (map fst sample_deposits)" by (simp add: sample_deposits_def)
  have share: "rollup_share ?B (user_submitted_transactions d) sample_deposits (replicate 32 5) = Some [[2]]"
    unfolding map_of_block_rollup_datas [OF deps, symmetric] m by (simp add: sample_rollups_def)
  from built_block_is_read_back [OF sample_block_codec_ok disjI1 [OF built(1)] built(4,2) _ deps _
      sample_header_values, of "[replicate 32 5]" "replicate 32 5"] m sample_fits sample_wf_rollups share built
  show ?thesis by (fastforce simp del: map_option_eq_Some)
qed

end
