(* ===== verification/Block_Binding.thy ===== *)
theory Block_Binding
  imports Block_Properties
begin

text \<open>
  What a reader of a filtered block or of Celestia blobs accepts for the data hash of a block is the data of
  the block, or the reader holds a collision of the hash function: two different inputs with the same hash among
  the explicit sets of inputs that the builder and the reader hashed.
\<close>

section \<open>The Merkle tree hash is injective\<close>

definition collision_in :: "hash_fun \<Rightarrow> bytes set \<Rightarrow> bool" where
  "collision_in H A \<longleftrightarrow> (\<exists>x\<in>A. \<exists>y\<in>A. x \<noteq> y \<and> H x = H y)"

lemma no_collision: "\<not> collision_in H A \<longleftrightarrow> inj_on H A"
  by (auto simp: collision_in_def inj_on_def)

lemma MTH_inj:
  assumes len: "\<And>x. length (H x) = 32" and inj: "inj_on H A"
  shows "MTH_inputs H xs \<subseteq> A \<Longrightarrow> MTH_inputs H ys \<subseteq> A \<Longrightarrow> MTH H xs = MTH H ys \<Longrightarrow> xs = ys"
proof (induction "length xs" arbitrary: xs ys rule: less_induct)
  case less
  have top: "x = y" if "x \<in> MTH_inputs H xs" "y \<in> MTH_inputs H ys" "MTH H xs = H x" "MTH H ys = H y" for x y
    using inj_onD [OF inj, of x y] that less.prems by auto
  consider "xs = []" | d where "xs = [d]" | "xs \<noteq> []" "length xs \<noteq> 1" by (cases xs; cases "tl xs") auto
  then show ?case
  proof cases
    case 1
    then have "[] \<in> MTH_inputs H xs" "MTH H xs = H []" by (simp_all add: MTH_Nil MTH_inputs.simps)
    then show ?thesis using MTH_top [of ys H] top 1 by (fastforce simp: init_leaf_hasher_def)
  next
    case (2 d)
    then have "init_leaf_hasher @ d \<in> MTH_inputs H xs" "MTH H xs = H (init_leaf_hasher @ d)"
      by (simp_all add: MTH_single hash_leaf_def MTH_inputs.simps)
    then show ?thesis using MTH_top [of ys H] top 2 by (fastforce simp: init_leaf_hasher_def)
  next
    case 3
    let ?k = "split_point (length xs)"
    have k: "0 < ?k" "?k < length xs" using 3 split_point_bounds [of "length xs"] by (cases xs; auto)+
    have xs: "MTH H xs = combine H (MTH H (take ?k xs)) (MTH H (drop ?k xs))"
      using 3 by (subst MTH.simps) (simp add: Let_def)
    have inp: "insert ([0x01] @ MTH H (take ?k xs) @ MTH H (drop ?k xs))
        (MTH_inputs H (take ?k xs) \<union> MTH_inputs H (drop ?k xs)) \<subseteq> MTH_inputs H xs"
      using 3 by (subst (3) MTH_inputs.simps) (simp add: Let_def)
    obtain a b where ab: "ys = a @ b" "MTH H (take ?k xs) = MTH H a" "MTH H (drop ?k xs) = MTH H b"
      "MTH_inputs H a \<subseteq> A" "MTH_inputs H b \<subseteq> A"
      using combine_injD [OF inj _ _ less.prems(2) len, of "MTH H (take ?k xs)" "MTH H (drop ?k xs)"]
        inp less.prems(1,3) xs MTH_length [of H "take ?k xs", OF len] by auto
    have "take ?k xs = a" by (rule less.hyps) (use k inp less.prems(1) ab in auto)
    moreover have "drop ?k xs = b" by (rule less.hyps) (use k inp less.prems(1) ab in auto)
    ultimately show ?thesis using ab(1) by (metis append_take_drop_id)
  qed
qed

section \<open>Data bound by a data hash\<close>

text \<open>
  The items that are hashed into the data hash of a block: the two roots and the others (extended commit info and
  transactions), and everything the builder of the block hashes.
\<close>

definition hashed_items :: "hash_fun \<Rightarrow> rollup_map \<Rightarrow> bytes list \<Rightarrow> bytes list" where
  "hashed_items H m others = MTH H (map (rollup_leaf H) m) # MTH H (map fst m) # others"

definition builder_inputs :: "hash_fun \<Rightarrow> rollup_map \<Rightarrow> bytes list \<Rightarrow> bytes set" where
  "builder_inputs H m others =
     MTH_inputs H (map H (hashed_items H m others)) \<union> set (hashed_items H m others) \<union>
     MTH_inputs H (map (rollup_leaf H) m) \<union> MTH_inputs H (map fst m) \<union> (\<Union>e\<in>set m. MTH_inputs H (snd e))"

text \<open>What checking an inclusion in the data hash, and the rollups against a root, hashes.\<close>

definition item_inputs :: "hash_fun \<Rightarrow> merkle_proof \<Rightarrow> bytes \<Rightarrow> bytes set" where
  "item_inputs H p item = insert item (audit_inputs H p (H item))"

definition ids_inputs :: "hash_fun \<Rightarrow> merkle_proof \<Rightarrow> rollup_id list \<Rightarrow> bytes set" where
  "ids_inputs H p ids = MTH_inputs H ids \<union> item_inputs H p (MTH H ids)"

definition rollup_inputs :: "hash_fun \<Rightarrow> rollup_transactions \<Rightarrow> bytes set" where
  "rollup_inputs H rt = MTH_inputs H (rt_transactions rt) \<union>
     audit_inputs H (rt_proof rt) (rollup_leaf H (rt_rollup_id rt, rt_transactions rt))"

lemma checked_path: "proof_try_from_raw r = Inr p \<Longrightarrow> length (audit_path p) mod 32 = 0"
  by (auto simp: proof_try_from_raw_def try_into_proof_def split: if_splits bind_splits)

lemma item_bound:
  assumes "\<And>x. length (H x) = 32" "inj_on H A" "builder_inputs H m others \<subseteq> A" "item_inputs H p item \<subseteq> A"
    and "length (audit_path p) mod 32 = 0"
    and "verify H p (H item) (MTH H (map H (hashed_items H m others))) = Some True"
  shows "item \<in> set (hashed_items H m others)"
proof -
  have "H item \<in> set (map H (hashed_items H m others))"
    by (rule verify_binds_leaf [OF assms(1,2) _ _ assms(5,6)])
      (use assms(3,4) in \<open>auto simp: builder_inputs_def item_inputs_def\<close>)
  then obtain x where "x \<in> set (hashed_items H m others)" "H item = H x" by auto
  then show ?thesis using inj_onD [OF assms(2), of item x] assms(3,4)
    by (auto simp: builder_inputs_def item_inputs_def)
qed

text \<open>An item of 32 bytes is one of the two roots.\<close>

lemma root_bound:
  assumes "item \<in> set (hashed_items H m others)" "length item = 32" "list_all (\<lambda>x. length x \<noteq> 32) others"
  shows "item = MTH H (map (rollup_leaf H) m) \<or> item = MTH H (map fst m)"
  using assms by (auto simp: hashed_items_def list_all_iff)

lemma leaf_length: "\<lbrakk>\<And>x. length (H x) = 32; wf_rollup_id (fst e)\<rbrakk> \<Longrightarrow> length (rollup_leaf H e) = 64"
  by (cases e) (simp add: rollup_leaf_def MTH_length wf_rollup_id_def ROLLUP_ID_LEN_def)

lemma ids_bound:
  assumes len: "\<And>x. length (H x) = 32" and inj: "inj_on H A" and inp: "builder_inputs H m others \<subseteq> A"
    and others: "list_all (\<lambda>x. length x \<noteq> 32) others" and m: "list_all wf_rollup_id (map fst m)"
    and ids: "list_all wf_rollup_id ids" "ids_inputs H p ids \<subseteq> A" "length (audit_path p) mod 32 = 0"
      "verify H p (H (MTH H ids)) (MTH H (map H (hashed_items H m others))) = Some True"
  shows "ids = map fst m"
proof -
  have "MTH H ids \<in> set (hashed_items H m others)"
    using ids(2) by (intro item_bound [OF len inj inp _ ids(3,4)]) (simp add: ids_inputs_def)
  then consider "MTH H ids = MTH H (map (rollup_leaf H) m)" | "MTH H ids = MTH H (map fst m)"
    using root_bound [OF _ _ others] MTH_length [of H ids, OF len] by metis
  then show ?thesis
  proof cases
    case 1
    then have eq: "ids = map (rollup_leaf H) m"
      by (intro MTH_inj [OF len inj]) (use ids(2) inp in \<open>auto simp: ids_inputs_def builder_inputs_def\<close>)
    have "m = []"
    proof (rule ccontr)
      assume "m \<noteq> []"
      then have "length (rollup_leaf H (hd m)) = 32" "wf_rollup_id (fst (hd m))"
        using ids(1) m by (cases m; simp add: eq wf_rollup_id_def ROLLUP_ID_LEN_def)+
      then show False using leaf_length [OF len, where e = "hd m"] by simp
    qed
    then show ?thesis using eq by simp
  next
    case 2
    then show ?thesis
      by (intro MTH_inj [OF len inj]) (use ids(2) inp in \<open>auto simp: ids_inputs_def builder_inputs_def\<close>)
  qed
qed

lemma rollup_bound:
  assumes len: "\<And>x. length (H x) = 32" and inj: "inj_on H A" and inp: "builder_inputs H m others \<subseteq> A"
    and m: "list_all wf_rollup_id (map fst m)" "distinct (map fst m)"
    and root: "root = MTH H (map (rollup_leaf H) m) \<or> root = MTH H (map fst m)"
    and rt: "wf_rollup_id (rt_rollup_id rt)" "rollup_inputs H rt \<subseteq> A" "length (audit_path (rt_proof rt)) mod 32 = 0"
      "verify H (rt_proof rt) (rollup_leaf H (rt_rollup_id rt, rt_transactions rt)) root = Some True"
  shows "map_of m (rt_rollup_id rt) = Some (rt_transactions rt)"
proof -
  let ?leaf = "rollup_leaf H (rt_rollup_id rt, rt_transactions rt)"
  have leaf: "length ?leaf = 64" by (rule leaf_length [OF len]) (simp add: rt(1))
  have bound: "?leaf \<in> set ls" if "root = MTH H ls" "MTH_inputs H ls \<subseteq> A" for ls
    by (rule verify_binds_leaf [OF len inj that(2) _ rt(3)]) (use rt(2,4) that(1) in \<open>auto simp: rollup_inputs_def\<close>)
  from root show ?thesis
  proof
    assume "root = MTH H (map fst m)"
    then have "?leaf \<in> set (map fst m)" by (rule bound) (use inp in \<open>auto simp: builder_inputs_def\<close>)
    then have "wf_rollup_id ?leaf" using m(1) by (auto simp: list_all_iff)
    then show ?thesis using leaf by (simp add: wf_rollup_id_def ROLLUP_ID_LEN_def)
  next
    assume "root = MTH H (map (rollup_leaf H) m)"
    then have "?leaf \<in> set (map (rollup_leaf H) m)" by (rule bound) (use inp in \<open>auto simp: builder_inputs_def\<close>)
    then obtain i txs where e: "(i, txs) \<in> set m" "rt_rollup_id rt @ MTH H (rt_transactions rt) = i @ MTH H txs"
      by (auto simp: rollup_leaf_def)
    have "length i = length (rt_rollup_id rt)" using m(1) e(1) rt(1) by (auto simp: list_all_iff wf_rollup_id_def)
    then have i: "i = rt_rollup_id rt" "MTH H (rt_transactions rt) = MTH H txs" using e(2) by auto
    have "MTH_inputs H txs \<subseteq> A" using inp e(1) by (force simp: builder_inputs_def)
    then have "rt_transactions rt = txs"
      by (intro MTH_inj [OF len inj _ _ i(2)]) (use rt(2) in \<open>auto simp: rollup_inputs_def\<close>)
    then show ?thesis using e(1) i(1) m(2) by (auto intro: map_of_is_SomeI)
  qed
qed

section \<open>The data hash of a block\<close>

text \<open>The items after the two roots, as \<open>new_from_typed_data\<close> hashes them.\<close>

definition committed_items :: "'c block_codec \<Rightarrow> bool \<Rightarrow> bytes list \<Rightarrow> bytes list" where
  "committed_items B with_info data =
     (let (_, i, rest) = take_upgrade_change_hashes B 2 (drop 2 data) in
      case take_extended_commit_info B with_info i rest of
        Inl _ \<Rightarrow> []
      | Inr (info, items) \<Rightarrow> (case info of None \<Rightarrow> [] | Some (_, encoded) \<Rightarrow> [encoded]) @ items)"

lemma typed_data_hash:
  assumes ok: "block_codec_ok B" and d: "new_from_typed_data B data w = Inr d" and fits: "fits_tree data"
  shows "data_root_hash d = MTH (sha256 B) (map (sha256 B)
      (ebd_rollup_transactions_root d # ebd_rollup_ids_root d # committed_items B w data))"
proof -
  let ?H = "sha256 B"
  have len: "length (?H x) = 32" for x using ok by (simp add: block_codec_ok_def)
  obtain b0 b1 items where data: "data = b0 # b1 # items"
    using d by (cases data; cases "tl data") (auto simp: new_from_typed_data_def)
  obtain hs i rest where hs: "take_upgrade_change_hashes B 2 items = (hs, i, rest)"
    by (cases "take_upgrade_change_hashes B 2 items") auto
  from d data hs obtain info txs where info: "take_extended_commit_info B w i rest = Inr (info, txs)"
    by (auto simp: new_from_typed_data_def)
  let ?items = "(case info of None \<Rightarrow> [] | Some (_, encoded) \<Rightarrow> [encoded]) @ txs"
  let ?ls = "map ?H (ebd_rollup_transactions_root d # ebd_rollup_ids_root d # ?items)"
  have "length ?items + 2 \<le> length data"
    using take_change_hashes_length [OF hs] take_commit_info_length [OF info] data by simp
  then have "fits_tree ?ls" using fits by (simp add: fits_tree_def)
  then obtain t where t: "from_leaves ?H ?ls = Some t" "tree_root ?H t = Some (MTH ?H ?ls)"
    by (rule from_leaves_MTH [of ?H ?ls, OF len])
  have "map ?H ?items = (case info of None \<Rightarrow> [] | Some (_, encoded) \<Rightarrow> [?H encoded]) @ map ?H txs"
    by (simp split: option.split)
  then have "\<exists>t. from_leaves ?H ?ls = Some t \<and> tree_root ?H t = Some (data_root_hash d)"
    using d data hs info by (auto simp: new_from_typed_data_def Let_def)
  then show ?thesis using t data hs info by (simp add: committed_items_def)
qed

section \<open>What a reader of a filtered block accepts\<close>

definition filtered_inputs :: "hash_fun \<Rightarrow> 'c filtered_sequencer_block \<Rightarrow> bytes set" where
  "filtered_inputs H f =
     item_inputs H (fsb_rollup_transactions_proof f) (sbh_rollup_transactions_root (fsb_header f)) \<union>
     ids_inputs H (fsb_rollup_ids_proof f) (fsb_all_rollup_ids f) \<union>
     (\<Union>(i, rt)\<in>set (fsb_rollup_transactions f). rollup_inputs H rt)"

lemma set_collect: "set (collect_map kvs) \<subseteq> set kvs"
proof -
  have upd: "set (AList.update k v m) \<subseteq> insert (k, v) (set m)" for k v and m :: "('a \<times> 'b) list"
    by (induction m) auto
  have "set (fold (\<lambda>(k, v). AList.update k v) kvs acc) \<subseteq> set acc \<union> set kvs" for acc
  proof (induction kvs arbitrary: acc)
    case (Cons kv kvs)
    then show ?case using upd by (cases kv) fastforce
  qed simp
  from this [of "[]"] show ?thesis by (simp add: collect_map_def)
qed

lemma rollup_txs_to_tuple_Inr:
  assumes "rollup_txs_to_tuple r = Inr (i, rt)"
  shows "i = rt_rollup_id rt" "wf_rollup_id i" "length (audit_path (rt_proof rt)) mod 32 = 0"
  using assms by (auto simp: rollup_txs_to_tuple_def rollup_transactions_try_from_raw_def
      dest: rollup_id_wf checked_path)

lemma check_rollups_Inr:
  "check_rollups_in_root H root rts = Inr u \<Longrightarrow> (i, rt) \<in> set rts \<Longrightarrow>
    do_rollup_transactions_match_root H rt root = Some True"
  by (induction rts) auto

lemma header_Inr:
  "header_try_from_raw B r = Inr h \<Longrightarrow> length (sbh_rollup_transactions_root h) = 32 \<and> length (sbh_data_hash h) = 32"
  by (auto simp: header_try_from_raw_def array32_def split: if_splits)

lemma filtered_block_Inr:
  assumes "filtered_block_try_from_raw B r = Inr f"
  shows "length (sbh_rollup_transactions_root (fsb_header f)) = 32"
    and "length (audit_path (fsb_rollup_transactions_proof f)) mod 32 = 0"
    and "length (audit_path (fsb_rollup_ids_proof f)) mod 32 = 0"
    and "verify (sha256 B) (fsb_rollup_transactions_proof f) (sha256 B (sbh_rollup_transactions_root (fsb_header f)))
      (sbh_data_hash (fsb_header f)) = Some True"
    and "are_rollup_ids_included (sha256 B) (fsb_all_rollup_ids f) (fsb_rollup_ids_proof f)
      (sbh_data_hash (fsb_header f)) = Some True"
    and "list_all wf_rollup_id (fsb_all_rollup_ids f)"
    and "(i, rt) \<in> set (fsb_rollup_transactions f) \<Longrightarrow> i = rt_rollup_id rt \<and> wf_rollup_id i \<and>
      length (audit_path (rt_proof rt)) mod 32 = 0 \<and>
      do_rollup_transactions_match_root (sha256 B) rt (sbh_rollup_transactions_root (fsb_header f)) = Some True"
proof -
  from assms obtain rtp rip rh where p: "proof_try_from_raw rtp = Inr (fsb_rollup_transactions_proof f)"
      "proof_try_from_raw rip = Inr (fsb_rollup_ids_proof f)" "header_try_from_raw B rh = Inr (fsb_header f)"
    by (auto simp: filtered_block_try_from_raw_def Let_def simp del: try_opt_Inr_iff)
  then show "length (sbh_rollup_transactions_root (fsb_header f)) = 32"
    "length (audit_path (fsb_rollup_transactions_proof f)) mod 32 = 0"
    "length (audit_path (fsb_rollup_ids_proof f)) mod 32 = 0"
    by (auto dest: header_Inr checked_path)
  show "verify (sha256 B) (fsb_rollup_transactions_proof f) (sha256 B (sbh_rollup_transactions_root (fsb_header f)))
      (sbh_data_hash (fsb_header f)) = Some True"
    "are_rollup_ids_included (sha256 B) (fsb_all_rollup_ids f) (fsb_rollup_ids_proof f)
      (sbh_data_hash (fsb_header f)) = Some True"
    using assms by (auto simp: filtered_block_try_from_raw_def Let_def simp del: try_opt_Inr_iff)
  from assms obtain rts where rts: "try_map rollup_txs_to_tuple (rfb_rollup_transactions r) = Inr rts"
      "fsb_rollup_transactions f = collect_map rts"
      "check_rollups_in_root (sha256 B) (sbh_rollup_transactions_root (fsb_header f)) (collect_map rts) = Inr ()"
      "try_map rollup_id_try_from_raw (rfb_all_rollup_ids r) = Inr (fsb_all_rollup_ids f)"
    by (auto simp: filtered_block_try_from_raw_def Let_def simp del: try_opt_Inr_iff)
  show "list_all wf_rollup_id (fsb_all_rollup_ids f)" by (rule try_map_Inr_all [OF rts(4)]) (rule rollup_id_wf)
  have all: "list_all (\<lambda>(i, rt). i = rt_rollup_id rt \<and> wf_rollup_id i \<and> length (audit_path (rt_proof rt)) mod 32 = 0) rts"
    by (rule try_map_Inr_all [OF rts(1)]) (auto dest: rollup_txs_to_tuple_Inr)
  show "(i, rt) \<in> set (fsb_rollup_transactions f) \<Longrightarrow> i = rt_rollup_id rt \<and> wf_rollup_id i \<and>
      length (audit_path (rt_proof rt)) mod 32 = 0 \<and>
      do_rollup_transactions_match_root (sha256 B) rt (sbh_rollup_transactions_root (fsb_header f)) = Some True"
    using all set_collect [of rts] check_rollups_Inr [OF rts(3), of i rt] rts(2) by (auto simp: list_all_iff)
qed

lemma filtered_block_bound:
  assumes ok: "block_codec_ok B" and inj: "inj_on (sha256 B) (builder_inputs (sha256 B) m others \<union> filtered_inputs (sha256 B) f)"
    and m: "list_all wf_rollup_id (map fst m)" "distinct (map fst m)"
    and others: "list_all (\<lambda>x. length x \<noteq> 32) others"
    and read: "filtered_block_try_from_raw B r = Inr f"
    and fits: "fits_tree (fsb_all_rollup_ids f)" "list_all (\<lambda>(i, rt). fits_tree (rt_transactions rt)) (fsb_rollup_transactions f)"
    and hash: "sbh_data_hash (fsb_header f) = MTH (sha256 B) (map (sha256 B) (hashed_items (sha256 B) m others))"
  shows "fsb_all_rollup_ids f = map fst m"
    and "list_all (\<lambda>(i, rt). map_of m i = Some (rt_transactions rt)) (fsb_rollup_transactions f)"
proof -
  let ?H = "sha256 B"
  let ?A = "builder_inputs ?H m others \<union> filtered_inputs ?H f"
  let ?root = "sbh_rollup_transactions_root (fsb_header f)"
  have len: "length (?H x) = 32" for x using ok by (simp add: block_codec_ok_def)
  note f = filtered_block_Inr [OF read]
  have sub: "builder_inputs ?H m others \<subseteq> ?A" "item_inputs ?H (fsb_rollup_transactions_proof f) ?root \<subseteq> ?A"
    "ids_inputs ?H (fsb_rollup_ids_proof f) (fsb_all_rollup_ids f) \<subseteq> ?A" by (auto simp: filtered_inputs_def)
  show "fsb_all_rollup_ids f = map fst m"
    by (rule ids_bound [OF len inj sub(1) others m(1) f(6) sub(3) f(3)])
      (use f(5) in \<open>simp add: ids_included [OF len fits(1)] hash\<close>)
  have "?root \<in> set (hashed_items ?H m others)"
    by (rule item_bound [OF len inj sub(1,2) f(2)]) (use f(4) in \<open>simp add: hash\<close>)
  note root = root_bound [OF this f(1) others]
  have "map_of m i = Some (rt_transactions rt)" if "(i, rt) \<in> set (fsb_rollup_transactions f)" for i rt
  proof -
    note rt = f(7) [OF that]
    have "fits_tree (rt_transactions rt)" using fits(2) that by (auto simp: list_all_iff)
    then have "verify ?H (rt_proof rt) (rollup_leaf ?H (rt_rollup_id rt, rt_transactions rt)) ?root = Some True"
      using rt match_root_eq [of ?H, OF len] by simp
    moreover have "rollup_inputs ?H rt \<subseteq> ?A" using that by (auto simp: filtered_inputs_def)
    ultimately have "map_of m (rt_rollup_id rt) = Some (rt_transactions rt)"
      by (intro rollup_bound [OF len inj sub(1) m root]) (use rt in auto)
    then show ?thesis using rt by simp
  qed
  then show "list_all (\<lambda>(i, rt). map_of m i = Some (rt_transactions rt)) (fsb_rollup_transactions f)"
    by (auto simp: list_all_iff)
qed

text \<open>The data by rollup of a block.\<close>

definition rollups_of :: "'c sequencer_block \<Rightarrow> rollup_map" where
  "rollups_of b = map (\<lambda>(i, rt). (i, rt_transactions rt)) (sb_rollup_transactions b)"

lemma built_data_hash:
  assumes "block_codec_ok B" "new_from_typed_data B data w = Inr d" "fits_tree data"
    and "try_build B (block_builder block_hash cid height time proposer d deposits) = Inr blk"
    and "fits_trees (block_rollup_datas B (user_submitted_transactions d) deposits)"
  shows "sbh_data_hash (sb_header blk) =
      MTH (sha256 B) (map (sha256 B) (hashed_items (sha256 B) (rollups_of blk) (committed_items B w data)))"
    and "distinct (map fst (rollups_of blk))"
proof -
  let ?b = "block_builder block_hash cid height time proposer d deposits"
  let ?m = "block_rollup_datas B (user_submitted_transactions d) deposits"
  have m: "?m = block_rollup_datas B (user_submitted_transactions (sbb_expanded_block_data ?b)) (sbb_deposits ?b)"
    by (simp add: block_builder_def)
  note built = try_build_Inr [OF assms(1,4) m assms(5)]
  have r: "rollups_of blk = ?m" using built(4) by (simp add: rollups_of_def)
  show "sbh_data_hash (sb_header blk) =
      MTH (sha256 B) (map (sha256 B) (hashed_items (sha256 B) (rollups_of blk) (committed_items B w data)))"
    using built(1-3) typed_data_hash [OF assms(1-3)] by (simp add: block_builder_def hashed_items_def r)
  show "distinct (map fst (rollups_of blk))" unfolding r by (rule distinct_block_rollup_datas)
qed

text \<open>
  C34. A filtered block cannot be tampered with: if a message is accepted as a filtered block with the data hash of a
  block that was built, then it names exactly the rollups of the block and every rollup in it has exactly
  the data it has in the block - whatever proofs, indices and roots the message has - or two different inputs that the
  builder or the reader hashed have the same hash. No other item of the block's data may be 32 bytes long:
  such an item could be taken for a root.
\<close>

theorem filtered_block_is_committed_data:
  assumes "block_codec_ok B" "new_from_typed_data B data w = Inr d" "fits_tree data"
    and "try_build B (block_builder block_hash cid height time proposer d deposits) = Inr blk"
    and "fits_trees (block_rollup_datas B (user_submitted_transactions d) deposits)"
    and "list_all wf_rollup_id (map fst (rollups_of blk))"
    and "list_all (\<lambda>x. length x \<noteq> 32) (committed_items B w data)"
    and "filtered_block_try_from_raw B r = Inr f" "sbh_data_hash (fsb_header f) = sbh_data_hash (sb_header blk)"
    and "fits_tree (fsb_all_rollup_ids f)"
      "list_all (\<lambda>(i, rt). fits_tree (rt_transactions rt)) (fsb_rollup_transactions f)"
  shows "(fsb_all_rollup_ids f = map fst (rollups_of blk) \<and>
      list_all (\<lambda>(i, rt). map_of (rollups_of blk) i = Some (rt_transactions rt)) (fsb_rollup_transactions f)) \<or>
    collision_in (sha256 B)
      (builder_inputs (sha256 B) (rollups_of blk) (committed_items B w data) \<union> filtered_inputs (sha256 B) f)"
  using filtered_block_bound [OF assms(1) _ assms(6) built_data_hash(2) [OF assms(1-5)] assms(7,8,10,11)]
    built_data_hash(1) [OF assms(1-5)] assms(9)
  unfolding no_collision [symmetric] by metis

theorem filtered_block_is_committed_data_witness:
  "\<exists>blk f. filtered_block_try_from_raw sample_block_codec
      (filtered_block_to_raw sample_block_codec (to_filtered_block blk [replicate 32 5])) = Inr f \<and>
    (fsb_all_rollup_ids f = map fst (rollups_of blk) \<and>
      list_all (\<lambda>(i, rt). map_of (rollups_of blk) i = Some (rt_transactions rt)) (fsb_rollup_transactions f) \<or>
     collision_in (sha256 sample_block_codec)
      (builder_inputs (sha256 sample_block_codec) (rollups_of blk) [[9]] \<union> filtered_inputs (sha256 sample_block_codec) f))"
proof -
  let ?B = sample_block_codec
  obtain c d blk where d: "new_from_typed_data ?B (typed_items ?B c [] None [[9]]) False = Inr d"
    and blk: "try_build ?B (block_builder (replicate 32 8) ''astria'' 7 0 (replicate 20 1) d sample_deposits) = Inr blk"
      "sendable_block ?B sample_rollups blk" "user_submitted_transactions d = [sample_signed]"
    by (rule sample_block_sendable)
  let ?f = "to_filtered_block blk [replicate 32 5]"
  have read: "filtered_block_try_from_raw ?B (filtered_block_to_raw ?B ?f) = Inr ?f"
    by (rule filtered_block_roundtrip [OF sample_block_codec_ok blk(2)])
  note parts = sendable_parts [OF sample_block_codec_ok blk(2)]
  have rollups: "rollups_of blk = sample_rollups" using parts(2) by (simp add: rollups_of_def)
  have items: "committed_items ?B False (typed_items ?B c [] None [[9]]) = [[9]]"
    using sample_no_change_hashes
    by (auto simp: committed_items_def typed_items_def commitment_items_def take_extended_commit_info_def
        no_change_hashes_def split: sum.splits data_item.splits)
  have fits: "fits_trees (block_rollup_datas ?B (user_submitted_transactions d) sample_deposits)"
    by (simp add: blk(3) sample_rollup_datas sample_fits)
  have part: "proven_part (sha256 ?B) (sbh_rollup_transactions_root (sb_header blk)) (fsb_rollup_transactions ?f)"
    unfolding to_filtered_block_def filtered_sequencer_block.simps
    by (rule filter_rollups_part(1) [OF parts(1)]) (simp_all add: proven_part_def)
  have "(fsb_all_rollup_ids ?f = map fst (rollups_of blk) \<and>
      list_all (\<lambda>(i, rt). map_of (rollups_of blk) i = Some (rt_transactions rt)) (fsb_rollup_transactions ?f)) \<or>
    collision_in (sha256 ?B) (builder_inputs (sha256 ?B) (rollups_of blk)
      (committed_items ?B False (typed_items ?B c [] None [[9]])) \<union> filtered_inputs (sha256 ?B) ?f)"
  proof (rule filtered_block_is_committed_data [OF sample_block_codec_ok d _ blk(1) fits _ _ read])
    show "list_all (\<lambda>(i, rt). fits_tree (rt_transactions rt)) (fsb_rollup_transactions ?f)"
      using part by (auto simp: proven_part_def list_all_iff)
    show "fits_tree (fsb_all_rollup_ids ?f)"
      using parts(3) by (simp add: to_filtered_block_def fits_tree_def sample_rollups_def)
  qed (simp_all add: items rollups, simp_all add: to_filtered_block_def fits_tree_def typed_items_def
      commitment_items_def sample_rollups_def wf_rollup_id_def ROLLUP_ID_LEN_def)
  then show ?thesis using read unfolding items by blast
qed

end
