(* ===== verification/Block_Cache.thy ===== *)
theory Block_Cache
  imports Prelude
begin

text \<open>
  The cache that the readers of the conductor put blocks in (\<^verbatim>\<open>crates/astria-conductor/src/block_cache.rs\<close>): blocks are
  inserted in any order and taken out in the order of their heights. The \<open>BTreeMap\<close> is a list sorted by height;
  \<open>get_height\<close> is the trait method of the block type.
\<close>

record 't block_cache =
  bc_inner :: "(u64 \<times> 't) list"
  bc_next_height :: u64

datatype block_cache_error =
    CacheOccupied u64
  | CacheOld u64 u64
  | ZeroHeightsNotSupported

definition with_next_height :: "u64 \<Rightarrow> block_cache_error + 't block_cache" where
  "with_next_height next_height =
     (if next_height = 0 then Inl ZeroHeightsNotSupported
      else Inr \<lparr>bc_inner = [], bc_next_height = next_height\<rparr>)"

text \<open>The outer \<open>None\<close> is the panic when the height cannot be incremented.\<close>

definition cache_pop :: "'t block_cache \<Rightarrow> ('t option \<times> 't block_cache) option" where
  "cache_pop c =
     (case map_of (bc_inner c) (bc_next_height c) of
        None \<Rightarrow> Some (None, c)
      | Some block \<Rightarrow>
          map_option (\<lambda>n. (Some block, \<lparr>bc_inner = AList.delete (bc_next_height c) (bc_inner c), bc_next_height = n\<rparr>))
            (checked_add (bc_next_height c) 1))"

definition drop_obsolete :: "u64 \<Rightarrow> 't block_cache \<Rightarrow> 't block_cache" where
  "drop_obsolete latest_height c =
     \<lparr>bc_inner =
        (case bc_inner c of
           [] \<Rightarrow> []
         | (first, _) # _ \<Rightarrow>
             if first < latest_height then filter (\<lambda>(h, _). latest_height \<le> h) (bc_inner c) else bc_inner c),
      bc_next_height = max (bc_next_height c) latest_height\<rparr>"

definition cache_insert :: "('t \<Rightarrow> u64) \<Rightarrow> 't \<Rightarrow> 't block_cache \<Rightarrow> block_cache_error + 't block_cache" where
  "cache_insert get_height block c =
     (let block_height = get_height block in
      if block_height < bc_next_height c then Inl (CacheOld block_height (bc_next_height c))
      else case map_of (bc_inner c) block_height of
        None \<Rightarrow> Inr (c\<lparr>bc_inner := insort_key fst (block_height, block) (bc_inner c)\<rparr>)
      | Some _ \<Rightarrow> Inl (CacheOccupied block_height))"

section \<open>Blocks come out in order\<close>

datatype 't cache_op = CacheInsert 't | CacheDrop u64 | CachePop

text \<open>A run of operations, with the blocks that were taken out; a failed insertion leaves the cache.\<close>

fun cache_run :: "('t \<Rightarrow> u64) \<Rightarrow> 't cache_op list \<Rightarrow> 't block_cache \<Rightarrow> ('t list \<times> 't block_cache) option" where
  "cache_run g [] c = Some ([], c)"
| "cache_run g (CacheInsert b # ops) c =
     cache_run g ops (case cache_insert g b c of Inl _ \<Rightarrow> c | Inr c' \<Rightarrow> c')"
| "cache_run g (CacheDrop h # ops) c = cache_run g ops (drop_obsolete h c)"
| "cache_run g (CachePop # ops) c =
     (case cache_pop c of
        None \<Rightarrow> None
      | Some (popped, c') \<Rightarrow>
          map_option (\<lambda>(bs, c''). (case popped of None \<Rightarrow> bs | Some b \<Rightarrow> b # bs, c'')) (cache_run g ops c'))"

definition wf_cache :: "('t \<Rightarrow> u64) \<Rightarrow> 't block_cache \<Rightarrow> bool" where
  "wf_cache g c \<longleftrightarrow> sorted (map fst (bc_inner c)) \<and> distinct (map fst (bc_inner c)) \<and>
     (\<forall>(h, b) \<in> set (bc_inner c). g b = h \<and> bc_next_height c \<le> h)"

lemma distinct_keys_insort: "distinct (map fst (insort_key fst x xs)) \<longleftrightarrow> fst x \<notin> fst ` set xs \<and> distinct (map fst xs)"
  by (induction xs) (auto simp: set_insort_key)

lemma wf_insert:
  assumes "wf_cache g c" "cache_insert g b c = Inr c'"
  shows "wf_cache g c' \<and> bc_next_height c' = bc_next_height c"
proof -
  have new: "\<not> g b < bc_next_height c" "g b \<notin> fst ` set (bc_inner c)"
    and c': "c' = c\<lparr>bc_inner := insort_key fst (g b, b) (bc_inner c)\<rparr>"
    using assms(2) by (auto simp: cache_insert_def Let_def map_of_eq_None_iff split: if_splits option.splits)
  then show ?thesis using assms(1)
    by (simp add: wf_cache_def distinct_keys_insort sorted_insort_key set_insort_key not_less)
qed

lemma wf_drop: "wf_cache g c \<Longrightarrow> wf_cache g (drop_obsolete h c) \<and> bc_next_height c \<le> bc_next_height (drop_obsolete h c)"
proof -
  assume wf: "wf_cache g c"
  let ?keep = "\<lambda>(k, _). h \<le> k"
  have "bc_inner (drop_obsolete h c) = filter ?keep (bc_inner c)"
  proof (cases "bc_inner c")
    case (Cons x xs)
    have le: "fst x \<le> fst y" if "y \<in> set (bc_inner c)" for y using wf Cons that by (auto simp: wf_cache_def)
    show ?thesis
    proof (cases "fst x < h")
      case True
      then show ?thesis using Cons by (cases x) (simp add: drop_obsolete_def)
    next
      case False
      then have "filter ?keep (bc_inner c) = bc_inner c" using le by (intro filter_True ballI) (metis (mono_tags) case_prod_beta not_less order.trans)
      then show ?thesis using Cons False by (cases x) (simp add: drop_obsolete_def)
    qed
  qed (simp add: drop_obsolete_def)
  then show ?thesis using wf
    by (auto simp: wf_cache_def drop_obsolete_def distinct_map_filter sorted_filter max_def split_beta)
qed

lemma wf_pop:
  assumes wf: "wf_cache g c" and pop: "cache_pop c = Some (r, c')"
  shows "wf_cache g c' \<and> (case r of None \<Rightarrow> c' = c
    | Some b \<Rightarrow> g b = bc_next_height c \<and> unat (bc_next_height c') = unat (bc_next_height c) + 1)"
proof (cases r)
  case None
  then show ?thesis using wf pop by (auto simp: cache_pop_def split: option.splits)
next
  case (Some b)
  with pop obtain n where b: "map_of (bc_inner c) (bc_next_height c) = Some b" and n: "checked_add (bc_next_height c) 1 = Some n"
    and c': "c' = \<lparr>bc_inner = AList.delete (bc_next_height c) (bc_inner c), bc_next_height = n\<rparr>"
    by (auto simp: cache_pop_def split: option.splits)
  have num: "unat n = unat (bc_next_height c) + 1" using n by (simp add: checked_add_Some_iff)
  have "n \<le> h" if "bc_next_height c \<le> h" "h \<noteq> bc_next_height c" for h
    using that num by (simp add: word_le_nat_alt word_unat_eq_iff)
  then have "wf_cache g c'" using wf
    by (fastforce simp: wf_cache_def c' AList.delete_eq sorted_filter distinct_map_filter split_beta)
  moreover have "g b = bc_next_height c" using wf map_of_SomeD [OF b] by (auto simp: wf_cache_def)
  ultimately show ?thesis using Some num by (simp add: c')
qed

text \<open>
  Whatever is inserted and dropped in between, the blocks that are taken out have increasing heights from the next
  height on.
\<close>

lemma popped_in_order:
  assumes "wf_cache g c" "cache_run g ops c = Some (bs, c')"
  shows "sorted_wrt (<) (map (\<lambda>b. unat (g b)) bs) \<and> list_all (\<lambda>b. unat (bc_next_height c) \<le> unat (g b)) bs"
  using assms
proof (induction g ops c arbitrary: bs c' rule: cache_run.induct)
  case (2 g b ops c)
  then show ?case using wf_insert [of g c b] by (auto split: sum.splits)
next
  case (3 g h ops c)
  then have "sorted_wrt (<) (map (\<lambda>b. unat (g b)) bs) \<and>
      list_all (\<lambda>b. unat (bc_next_height (drop_obsolete h c)) \<le> unat (g b)) bs"
    using wf_drop [of g c h] by (intro "3.IH") simp_all
  then show ?case using wf_drop [OF "3.prems"(1), of h] by (force simp: list_all_iff word_le_nat_alt)
next
  case (4 g ops c)
  then obtain r c1 bs1 where r: "cache_pop c = Some (r, c1)" "cache_run g ops c1 = Some (bs1, c')"
    "bs = (case r of None \<Rightarrow> bs1 | Some b \<Rightarrow> b # bs1)" by (auto split: option.splits)
  note wf = wf_pop [OF "4.prems"(1) r(1)]
  have "sorted_wrt (<) (map (\<lambda>b. unat (g b)) bs1) \<and> list_all (\<lambda>b. unat (bc_next_height c1) \<le> unat (g b)) bs1"
    by (rule "4.IH" [OF r(1) refl _ r(2)]) (use wf in simp)
  then show ?case using wf r(3) by (cases r) (auto simp: list_all_iff)
qed simp

end
