(* ===== verification/Execution_Session.thy ===== *)
theory Execution_Session
  imports Block_Data
begin

text \<open>
  The messages between the conductor and a rollup node (\<^verbatim>\<open>crates/astria-core/src/execution/v2/mod.rs\<close>): an execution
  session with its parameters, the metadata of executed blocks, and the soft and firm commitments. A commitment
  state that is built or read never has its firm block after its soft block.

  CometBFT heights are code outside the repository and stand as \<open>height_api\<close>.
\<close>

section \<open>Heights\<close>

text \<open>\<open>Height::try_from\<close>, and \<open>Height::increment\<close> which panics when the height cannot be incremented.\<close>

record height_api =
  height_from :: "u64 \<Rightarrow> string + u64"
  height_increment :: "u64 \<Rightarrow> u64 option"

text \<open>A height is at most \<open>i64::MAX\<close>.\<close>

definition valid_height :: "u64 \<Rightarrow> bool" where
  "valid_height h \<longleftrightarrow> unat h < 2 ^ 63"

definition height_api_ok :: "height_api \<Rightarrow> bool" where
  "height_api_ok A \<longleftrightarrow>
     (\<forall>h. if valid_height h then height_from A h = Inr h else (\<exists>e. height_from A h = Inl e)) \<and>
     (\<forall>h. height_increment A h = (if unat h + 1 < 2 ^ 63 then Some (h + 1) else None))"

lemma height_from_iff: "height_api_ok A \<Longrightarrow> height_from A h = Inr g \<longleftrightarrow> valid_height h \<and> g = h"
  unfolding height_api_ok_def by (metis Inl_Inr_False Inr_inject)

lemma height_increment_iff:
  "height_api_ok A \<Longrightarrow> height_increment A h = Some g \<longleftrightarrow> unat g = unat h + 1 \<and> valid_height g"
  by (auto simp: height_api_ok_def valid_height_def unat_word_ariths word_unat_eq_iff)

section \<open>Metadata of executed blocks\<close>

record executed_block_metadata =
  ebm_number :: u64
  ebm_hash :: string
  ebm_parent_hash :: string
  ebm_timestamp :: raw_timestamp
  ebm_sequencer_block_hash :: string

record raw_executed_block_metadata =
  reb_number :: u64
  reb_hash :: string
  reb_parent_hash :: string
  reb_timestamp :: "raw_timestamp option"
  reb_sequencer_block_hash :: string

datatype executed_block_metadata_error = EbmFieldNotSet string

definition block_metadata_try_from_raw ::
  "raw_executed_block_metadata \<Rightarrow> executed_block_metadata_error + executed_block_metadata" where
  "block_metadata_try_from_raw r =
     try_bind (ok_or (reb_timestamp r) (EbmFieldNotSet ''.timestamp'')) (\<lambda>timestamp.
     Inr \<lparr>ebm_number = reb_number r, ebm_hash = reb_hash r, ebm_parent_hash = reb_parent_hash r,
          ebm_timestamp = timestamp, ebm_sequencer_block_hash = reb_sequencer_block_hash r\<rparr>)"

definition block_metadata_to_raw :: "executed_block_metadata \<Rightarrow> raw_executed_block_metadata" where
  "block_metadata_to_raw m =
     \<lparr>reb_number = ebm_number m, reb_hash = ebm_hash m, reb_parent_hash = ebm_parent_hash m,
      reb_timestamp = Some (ebm_timestamp m), reb_sequencer_block_hash = ebm_sequencer_block_hash m\<rparr>"

interpretation block_metadata_wire: wire_format block_metadata_to_raw block_metadata_try_from_raw "\<lambda>_. True"
  by unfold_locales (simp_all add: block_metadata_to_raw_def block_metadata_try_from_raw_def)

section \<open>Commitments\<close>

record commitment_state =
  soft_executed_block_metadata :: executed_block_metadata
  firm_executed_block_metadata :: executed_block_metadata
  cs_lowest_celestia_search_height :: u64

record raw_commitment_state =
  rcs_soft_executed_block_metadata :: "raw_executed_block_metadata option"
  rcs_firm_executed_block_metadata :: "raw_executed_block_metadata option"
  rcs_lowest_celestia_search_height :: u64

record firm_exceeds_soft =
  fes_firm :: u64
  fes_soft :: u64

datatype commitment_state_error =
    CsFieldNotSet string
  | CsFirm executed_block_metadata_error
  | CsSoft executed_block_metadata_error
  | CsFirmExceedsSoft firm_exceeds_soft

text \<open>\<open>CommitmentStateBuilder\<close> with its three fields set, then built.\<close>

definition commitment_state_build ::
  "executed_block_metadata \<Rightarrow> executed_block_metadata \<Rightarrow> u64 \<Rightarrow> firm_exceeds_soft + commitment_state" where
  "commitment_state_build firm soft celestia_height =
     (if ebm_number firm > ebm_number soft
      then Inl \<lparr>fes_firm = ebm_number firm, fes_soft = ebm_number soft\<rparr>
      else Inr \<lparr>soft_executed_block_metadata = soft, firm_executed_block_metadata = firm,
                cs_lowest_celestia_search_height = celestia_height\<rparr>)"

definition commitment_state_try_from_raw :: "raw_commitment_state \<Rightarrow> commitment_state_error + commitment_state" where
  "commitment_state_try_from_raw r =
     try_bind (case rcs_soft_executed_block_metadata r of
         None \<Rightarrow> Inl (CsFieldNotSet ''.soft'')
       | Some soft \<Rightarrow> map_err CsSoft (block_metadata_try_from_raw soft)) (\<lambda>soft.
     try_bind (case rcs_firm_executed_block_metadata r of
         None \<Rightarrow> Inl (CsFieldNotSet ''.firm'')
       | Some firm \<Rightarrow> map_err CsFirm (block_metadata_try_from_raw firm)) (\<lambda>firm.
     map_err CsFirmExceedsSoft (commitment_state_build firm soft (rcs_lowest_celestia_search_height r))))"

definition commitment_state_to_raw :: "commitment_state \<Rightarrow> raw_commitment_state" where
  "commitment_state_to_raw c =
     \<lparr>rcs_soft_executed_block_metadata = Some (block_metadata_to_raw (soft_executed_block_metadata c)),
      rcs_firm_executed_block_metadata = Some (block_metadata_to_raw (firm_executed_block_metadata c)),
      rcs_lowest_celestia_search_height = cs_lowest_celestia_search_height c\<rparr>"

definition firm_le_soft :: "commitment_state \<Rightarrow> bool" where
  "firm_le_soft c \<longleftrightarrow>
     unat (ebm_number (firm_executed_block_metadata c)) \<le> unat (ebm_number (soft_executed_block_metadata c))"

lemma commitment_state_build_Inr:
  "commitment_state_build firm soft h = Inr c \<longleftrightarrow>
     c = \<lparr>soft_executed_block_metadata = soft, firm_executed_block_metadata = firm,
          cs_lowest_celestia_search_height = h\<rparr> \<and> firm_le_soft c"
  by (auto simp: commitment_state_build_def firm_le_soft_def word_less_nat_alt not_less)

interpretation commitment_wire: wire_format commitment_state_to_raw commitment_state_try_from_raw firm_le_soft
proof
  show "commitment_state_try_from_raw (commitment_state_to_raw c) = Inr c" if "firm_le_soft c" for c
    using that by (simp add: commitment_state_try_from_raw_def commitment_state_to_raw_def
        block_metadata_wire.roundtrip commitment_state_build_Inr)
  show "firm_le_soft c" if "commitment_state_try_from_raw r = Inr c" for r c
    using that by (auto simp: commitment_state_try_from_raw_def commitment_state_build_Inr)
qed

section \<open>Sessions\<close>

record execution_session_parameters =
  esp_rollup_id :: rollup_id
  esp_rollup_start_block_number :: u64
  esp_rollup_end_block_number :: "u64 option"
  esp_sequencer_chain_id :: string
  esp_sequencer_start_block_height :: u64
  esp_celestia_chain_id :: string
  esp_celestia_search_height_max_look_ahead :: u64

record raw_execution_session_parameters =
  rep_rollup_id :: "raw_rollup_id option"
  rep_rollup_start_block_number :: u64
  rep_rollup_end_block_number :: u64
  rep_sequencer_chain_id :: string
  rep_sequencer_start_block_height :: u64
  rep_celestia_chain_id :: string
  rep_celestia_search_height_max_look_ahead :: u64

datatype execution_session_parameters_error =
    EspIncorrectRollupIdLength nat
  | EspNoRollupId
  | EspInvalidSequencerStartBlockHeight string

text \<open>\<open>NonZeroU64::new\<close>\<close>

definition non_zero :: "u64 \<Rightarrow> u64 option" where
  "non_zero n = (if n = 0 then None else Some n)"

definition session_parameters_try_from_raw ::
  "height_api \<Rightarrow> raw_execution_session_parameters \<Rightarrow>
     execution_session_parameters_error + execution_session_parameters" where
  "session_parameters_try_from_raw A r =
     try_bind (ok_or (rep_rollup_id r) EspNoRollupId) (\<lambda>ri.
     try_bind (map_err EspIncorrectRollupIdLength (rollup_id_try_from_raw ri)) (\<lambda>rollup_id.
     try_bind (map_err EspInvalidSequencerStartBlockHeight (height_from A (rep_sequencer_start_block_height r))) (\<lambda>h.
     Inr \<lparr>esp_rollup_id = rollup_id, esp_rollup_start_block_number = rep_rollup_start_block_number r,
          esp_rollup_end_block_number = non_zero (rep_rollup_end_block_number r),
          esp_sequencer_chain_id = rep_sequencer_chain_id r, esp_sequencer_start_block_height = h,
          esp_celestia_chain_id = rep_celestia_chain_id r,
          esp_celestia_search_height_max_look_ahead = rep_celestia_search_height_max_look_ahead r\<rparr>)))"

definition session_parameters_to_raw :: "execution_session_parameters \<Rightarrow> raw_execution_session_parameters" where
  "session_parameters_to_raw p =
     \<lparr>rep_rollup_id = Some (rollup_id_to_raw (esp_rollup_id p)),
      rep_rollup_start_block_number = esp_rollup_start_block_number p,
      rep_rollup_end_block_number = (case esp_rollup_end_block_number p of None \<Rightarrow> 0 | Some n \<Rightarrow> n),
      rep_sequencer_chain_id = esp_sequencer_chain_id p,
      rep_sequencer_start_block_height = esp_sequencer_start_block_height p,
      rep_celestia_chain_id = esp_celestia_chain_id p,
      rep_celestia_search_height_max_look_ahead = esp_celestia_search_height_max_look_ahead p\<rparr>"

record execution_session =
  es_session_id :: string
  es_execution_session_parameters :: execution_session_parameters
  es_commitment_state :: commitment_state

record raw_execution_session =
  res_session_id :: string
  res_execution_session_parameters :: "raw_execution_session_parameters option"
  res_commitment_state :: "raw_commitment_state option"

datatype execution_session_error =
    InvalidExecutionSessionParameters execution_session_parameters_error
  | InvalidCommitmentState commitment_state_error
  | MissingExecutionSessionParameters
  | MissingCommitmentState

definition execution_session_try_from_raw ::
  "height_api \<Rightarrow> raw_execution_session \<Rightarrow> execution_session_error + execution_session" where
  "execution_session_try_from_raw A r =
     try_bind (ok_or (res_execution_session_parameters r) MissingExecutionSessionParameters) (\<lambda>rp.
     try_bind (map_err InvalidExecutionSessionParameters (session_parameters_try_from_raw A rp)) (\<lambda>params.
     try_bind (ok_or (res_commitment_state r) MissingCommitmentState) (\<lambda>rc.
     try_bind (map_err InvalidCommitmentState (commitment_state_try_from_raw rc)) (\<lambda>c.
     Inr \<lparr>es_session_id = res_session_id r, es_execution_session_parameters = params, es_commitment_state = c\<rparr>))))"

definition execution_session_to_raw :: "execution_session \<Rightarrow> raw_execution_session" where
  "execution_session_to_raw s =
     \<lparr>res_session_id = es_session_id s,
      res_execution_session_parameters = Some (session_parameters_to_raw (es_execution_session_parameters s)),
      res_commitment_state = Some (commitment_state_to_raw (es_commitment_state s))\<rparr>"

section \<open>What is read\<close>

definition wf_session_parameters :: "execution_session_parameters \<Rightarrow> bool" where
  "wf_session_parameters p \<longleftrightarrow> wf_rollup_id (esp_rollup_id p) \<and> esp_rollup_end_block_number p \<noteq> Some 0 \<and>
     valid_height (esp_sequencer_start_block_height p)"

definition wf_session :: "execution_session \<Rightarrow> bool" where
  "wf_session s \<longleftrightarrow> wf_session_parameters (es_execution_session_parameters s) \<and> firm_le_soft (es_commitment_state s)"

lemma parameters_wf:
  "\<lbrakk>height_api_ok A; session_parameters_try_from_raw A r = Inr p\<rbrakk> \<Longrightarrow> wf_session_parameters p"
  by (auto simp: session_parameters_try_from_raw_def wf_session_parameters_def height_from_iff non_zero_def
      dest: rollup_id_wf split: if_splits)

lemma parameters_roundtrip:
  "\<lbrakk>height_api_ok A; wf_session_parameters p\<rbrakk> \<Longrightarrow>
    session_parameters_try_from_raw A (session_parameters_to_raw p) = Inr p"
  by (auto simp: session_parameters_try_from_raw_def session_parameters_to_raw_def wf_session_parameters_def
      height_from_iff wire_rt non_zero_def split: option.splits)

lemma session_wf: "\<lbrakk>height_api_ok A; execution_session_try_from_raw A r = Inr s\<rbrakk> \<Longrightarrow> wf_session s"
  by (auto simp: execution_session_try_from_raw_def wf_session_def dest: parameters_wf commitment_wire.sound)

lemma session_roundtrip:
  "\<lbrakk>height_api_ok A; wf_session s\<rbrakk> \<Longrightarrow> execution_session_try_from_raw A (execution_session_to_raw s) = Inr s"
  by (simp add: execution_session_try_from_raw_def execution_session_to_raw_def wf_session_def
      parameters_roundtrip commitment_wire.roundtrip)

end
