(* ===== verification/Conductor_State.thy ===== *)
theory Conductor_State
  imports Execution_Session
begin

text \<open>
  The state the conductor tracks of its rollup (\<^verbatim>\<open>crates/astria-conductor/src/state.rs\<close>): the parameters of the
  execution session and the last commitments, and the maps between rollup block numbers and sequencer heights.
\<close>

section \<open>Commit levels\<close>

datatype commit_level = FirmOnly | SoftOnly | SoftAndFirm

definition is_with_firm :: "commit_level \<Rightarrow> bool" where
  "is_with_firm l \<longleftrightarrow> l = FirmOnly \<or> l = SoftAndFirm"

definition is_with_soft :: "commit_level \<Rightarrow> bool" where
  "is_with_soft l \<longleftrightarrow> l = SoftOnly \<or> l = SoftAndFirm"

section \<open>Numbers and heights\<close>

definition map_rollup_number_to_sequencer_height :: "height_api \<Rightarrow> u64 \<Rightarrow> u64 \<Rightarrow> u64 \<Rightarrow> string + u64" where
  "map_rollup_number_to_sequencer_height A sequencer_start_height rollup_start_block_number rollup_number =
     try_bind (ok_or (checked_add rollup_number 1) ''overflows u64::MAX'') (\<lambda>next_number.
     if rollup_start_block_number > next_number then Inl ''rollup start height exceeds rollup number + 1''
     else
       try_bind (ok_or (checked_add sequencer_start_height rollup_number) ''overflows u64::MAX'') (\<lambda>s.
       try_bind (ok_or (checked_sub s rollup_start_block_number)
           ''(sequencer height + rollup number - rollup start height) is negative'') (\<lambda>sequencer_height.
       map_err (\<lambda>_. ''overflows u64::MAX'') (height_from A sequencer_height))))"

datatype height_map_error = HeightUnderflowed u64 u64 | HeightOverflowed u64 u64 u64

definition try_map_sequencer_height_to_rollup_height :: "u64 \<Rightarrow> u64 \<Rightarrow> u64 \<Rightarrow> height_map_error + u64" where
  "try_map_sequencer_height_to_rollup_height sequencer_start_height rollup_start_block_number sequencer_height =
     try_bind (ok_or (checked_sub sequencer_height sequencer_start_height)
         (HeightUnderflowed sequencer_height sequencer_start_height)) (\<lambda>d.
     ok_or (checked_add d rollup_start_block_number)
         (HeightOverflowed sequencer_height sequencer_start_height rollup_start_block_number))"

record invalid_state =
  is_map_purpose :: string
  is_issue :: string
  is_sequencer_start_height :: u64
  is_rollup_start_block_number :: u64
  is_rollup_number :: u64

definition map_number_for ::
  "height_api \<Rightarrow> string \<Rightarrow> execution_session_parameters \<Rightarrow> u64 \<Rightarrow> invalid_state + u64" where
  "map_number_for A purpose p n =
     map_err (\<lambda>issue. \<lparr>is_map_purpose = purpose, is_issue = issue,
         is_sequencer_start_height = esp_sequencer_start_block_height p,
         is_rollup_start_block_number = esp_rollup_start_block_number p, is_rollup_number = n\<rparr>)
       (map_rollup_number_to_sequencer_height A (esp_sequencer_start_block_height p)
         (esp_rollup_start_block_number p) n)"

definition map_firm_to_sequencer_height ::
  "height_api \<Rightarrow> execution_session_parameters \<Rightarrow> commitment_state \<Rightarrow> invalid_state + u64" where
  "map_firm_to_sequencer_height A p c =
     map_number_for A ''firm commitment'' p (ebm_number (firm_executed_block_metadata c))"

definition map_soft_to_sequencer_height ::
  "height_api \<Rightarrow> execution_session_parameters \<Rightarrow> commitment_state \<Rightarrow> invalid_state + u64" where
  "map_soft_to_sequencer_height A p c =
     map_number_for A ''soft commitment'' p (ebm_number (soft_executed_block_metadata c))"

section \<open>The state\<close>

record conductor_state =
  st_execution_session_id :: string
  st_execution_session_parameters :: execution_session_parameters
  st_commitment_state :: commitment_state

text \<open>The checks of a commitment state at a commit level.\<close>

definition check_commitment ::
  "height_api \<Rightarrow> commit_level \<Rightarrow> execution_session_parameters \<Rightarrow> commitment_state \<Rightarrow> invalid_state + unit" where
  "check_commitment A l p c =
     try_bind (if is_with_firm l then try_bind (map_firm_to_sequencer_height A p c) (\<lambda>_. Inr ()) else Inr ()) (\<lambda>_.
     if is_with_soft l then try_bind (map_soft_to_sequencer_height A p c) (\<lambda>_. Inr ()) else Inr ())"

definition try_from_execution_session ::
  "height_api \<Rightarrow> execution_session \<Rightarrow> commit_level \<Rightarrow> invalid_state + conductor_state" where
  "try_from_execution_session A s l =
     (let p = es_execution_session_parameters s; c = es_commitment_state s in
      try_bind (check_commitment A l p c) (\<lambda>_.
      try_bind (case esp_rollup_end_block_number p of
          None \<Rightarrow> Inr ()
        | Some n \<Rightarrow> try_bind (map_number_for A ''rollup end block number'' p n) (\<lambda>_. Inr ())) (\<lambda>_.
      Inr \<lparr>st_execution_session_id = es_session_id s, st_execution_session_parameters = p,
           st_commitment_state = c\<rparr>)))"

definition try_update_commitment_state ::
  "height_api \<Rightarrow> conductor_state \<Rightarrow> commitment_state \<Rightarrow> commit_level \<Rightarrow> invalid_state + conductor_state" where
  "try_update_commitment_state A st c l =
     try_bind (check_commitment A l (st_execution_session_parameters st) c) (\<lambda>_.
     Inr (st\<lparr>st_commitment_state := c\<rparr>))"

definition st_firm :: "conductor_state \<Rightarrow> executed_block_metadata" where
  "st_firm st = firm_executed_block_metadata (st_commitment_state st)"

definition st_soft :: "conductor_state \<Rightarrow> executed_block_metadata" where
  "st_soft st = soft_executed_block_metadata (st_commitment_state st)"

definition firm_number :: "conductor_state \<Rightarrow> u64" where
  "firm_number st = ebm_number (st_firm st)"

definition soft_number :: "conductor_state \<Rightarrow> u64" where
  "soft_number st = ebm_number (st_soft st)"

definition firm_hash :: "conductor_state \<Rightarrow> string" where
  "firm_hash st = ebm_hash (st_firm st)"

definition soft_hash :: "conductor_state \<Rightarrow> string" where
  "soft_hash st = ebm_hash (st_soft st)"

definition sequencer_start_block_height :: "conductor_state \<Rightarrow> u64" where
  "sequencer_start_block_height st = esp_sequencer_start_block_height (st_execution_session_parameters st)"

definition rollup_start_block_number :: "conductor_state \<Rightarrow> u64" where
  "rollup_start_block_number st = esp_rollup_start_block_number (st_execution_session_parameters st)"

definition rollup_end_block_number :: "conductor_state \<Rightarrow> u64 option" where
  "rollup_end_block_number st = esp_rollup_end_block_number (st_execution_session_parameters st)"

definition lowest_celestia_search_height :: "conductor_state \<Rightarrow> u64" where
  "lowest_celestia_search_height st = cs_lowest_celestia_search_height (st_commitment_state st)"

definition celestia_search_height_max_look_ahead :: "conductor_state \<Rightarrow> u64" where
  "celestia_search_height_max_look_ahead st =
     esp_celestia_search_height_max_look_ahead (st_execution_session_parameters st)"

definition has_firm_number_reached_stop_height :: "conductor_state \<Rightarrow> bool" where
  "has_firm_number_reached_stop_height st =
     (case rollup_end_block_number st of None \<Rightarrow> False | Some n \<Rightarrow> firm_number st \<ge> n)"

definition has_soft_number_reached_stop_height :: "conductor_state \<Rightarrow> bool" where
  "has_soft_number_reached_stop_height st =
     (case rollup_end_block_number st of None \<Rightarrow> False | Some n \<Rightarrow> soft_number st \<ge> n)"

text \<open>\<open>expect\<close> on the height, and the panic of \<open>Height::increment\<close>.\<close>

definition next_expected_firm_sequencer_height :: "height_api \<Rightarrow> conductor_state \<Rightarrow> u64 option" where
  "next_expected_firm_sequencer_height A st =
     (case map_firm_to_sequencer_height A (st_execution_session_parameters st) (st_commitment_state st) of
        Inl _ \<Rightarrow> None
      | Inr h \<Rightarrow> height_increment A h)"

definition next_expected_soft_sequencer_height :: "height_api \<Rightarrow> conductor_state \<Rightarrow> u64 option" where
  "next_expected_soft_sequencer_height A st =
     (case map_soft_to_sequencer_height A (st_execution_session_parameters st) (st_commitment_state st) of
        Inl _ \<Rightarrow> None
      | Inr h \<Rightarrow> height_increment A h)"

text \<open>The outer \<open>None\<close> is a panic; a stop height of zero is none.\<close>

definition sequencer_stop_height :: "height_api \<Rightarrow> conductor_state \<Rightarrow> u64 option option" where
  "sequencer_stop_height A st =
     (case rollup_end_block_number st of
        None \<Rightarrow> Some None
      | Some n \<Rightarrow>
          case map_rollup_number_to_sequencer_height A (sequencer_start_block_height st)
              (rollup_start_block_number st) n of
            Inl _ \<Rightarrow> None
          | Inr h \<Rightarrow> Some (non_zero h))"

section \<open>Heights of numbers\<close>

text \<open>The height of a number, over the integers.\<close>

definition height_of :: "conductor_state \<Rightarrow> u64 \<Rightarrow> int" where
  "height_of st n = int (unat (sequencer_start_block_height st)) + int (unat n) - int (unat (rollup_start_block_number st))"

lemma height_of_eq_iff: "height_of st m = height_of st n \<longleftrightarrow> m = n"
  by (simp add: height_of_def word_uint_eq_iff)

lemma map_number_Inr:
  assumes "height_api_ok A" "map_rollup_number_to_sequencer_height A s r n = Inr h"
  shows "unat s + unat n = unat h + unat r"
  using assms(2)
  by (auto simp: map_rollup_number_to_sequencer_height_def height_from_iff [OF assms(1)] checked_add_Some_iff
      checked_sub_Some_iff split: if_splits)

lemma number_of_next_height:
  assumes "try_map_sequencer_height_to_rollup_height (sequencer_start_block_height st)
      (rollup_start_block_number st) h = Inr n"
  shows "int (unat h) = height_of st n"
proof -
  from assms have "unat h + unat (rollup_start_block_number st) = unat (sequencer_start_block_height st) + unat n"
    by (auto simp: try_map_sequencer_height_to_rollup_height_def checked_add_Some_iff checked_sub_Some_iff)
  then show ?thesis unfolding height_of_def by linarith
qed

text \<open>A height is expected after the number it belongs to.\<close>

lemma next_height_number:
  assumes A: "height_api_ok A" and h: "map_number_for A purpose (st_execution_session_parameters st) n = Inr h"
    and g: "height_increment A h = Some g"
  shows "int (unat g) = height_of st n + 1"
proof -
  have "unat (sequencer_start_block_height st) + unat n = unat h + unat (rollup_start_block_number st)"
    using h by (intro map_number_Inr [OF A])
      (simp add: map_number_for_def sequencer_start_block_height_def rollup_start_block_number_def)
  moreover have "unat g = unat h + 1" using g by (simp add: height_increment_iff [OF A])
  ultimately show ?thesis unfolding height_of_def by linarith
qed

lemma next_firm_height:
  assumes "height_api_ok A" "next_expected_firm_sequencer_height A st = Some g"
  shows "int (unat g) = height_of st (firm_number st) + 1"
  using assms(2) unfolding next_expected_firm_sequencer_height_def map_firm_to_sequencer_height_def
    firm_number_def st_firm_def
  by (auto split: sum.splits dest: next_height_number [OF assms(1)])

lemma next_soft_height:
  assumes "height_api_ok A" "next_expected_soft_sequencer_height A st = Some g"
  shows "int (unat g) = height_of st (soft_number st) + 1"
  using assms(2) unfolding next_expected_soft_sequencer_height_def map_soft_to_sequencer_height_def
    soft_number_def st_soft_def
  by (auto split: sum.splits dest: next_height_number [OF assms(1)])

end
