(* ===== verification/Conductor_Blobs.thy ===== *)
theory Conductor_Blobs
  imports Block_Binding Conductor_State
begin

text \<open>
  How the conductor turns the blobs of a Celestia height into blocks of its rollup
  (\<^verbatim>\<open>crates/astria-conductor/src/celestia/{convert,verify,block_verifier,reconstruct}.rs\<close>): the blobs are decoded,
  the metadata is verified against the commits of the sequencer, and rollup data is matched with it.

  Brotli, the protobuf decoders, CometBFT's types and the RPC clients are code outside the repository and fields of
  \<open>blob_api\<close>, \<open>commit_api\<close> and \<open>sequencer_client\<close>. A function that returns an \<open>option\<close> of its result panics with \<open>None\<close>.
\<close>

section \<open>Decoding blobs (convert.rs)\<close>

record blob =
  blob_namespace :: bytes
  blob_data :: bytes

record raw_blobs =
  rb_celestia_height :: u64
  rb_header_blobs :: "blob list"
  rb_rollup_blobs :: "blob list"

record 'c converted_blobs =
  cb_celestia_height :: u64
  cb_metadata :: "'c submitted_metadata list"
  cb_rollup_data :: "submitted_rollup_data list"

record blob_api =
  decompress_bytes :: "bytes \<Rightarrow> string + bytes"
  decode_metadata_list :: "bytes \<Rightarrow> string + raw_submitted_metadata list"
  decode_rollup_data_list :: "bytes \<Rightarrow> string + raw_submitted_rollup_data list"

definition convert_blob_to_header_list :: "blob_api \<Rightarrow> blob \<Rightarrow> raw_submitted_metadata list option" where
  "convert_blob_to_header_list P blob =
     (case try_bind (decompress_bytes P (blob_data blob)) (decode_metadata_list P) of Inl _ \<Rightarrow> None | Inr l \<Rightarrow> Some l)"

definition convert_blob_to_rollup_data_list :: "blob_api \<Rightarrow> blob \<Rightarrow> raw_submitted_rollup_data list option" where
  "convert_blob_to_rollup_data_list P blob =
     (case try_bind (decompress_bytes P (blob_data blob)) (decode_rollup_data_list P) of Inl _ \<Rightarrow> None | Inr l \<Rightarrow> Some l)"

definition extend_from_header_list_if_well_formed ::
  "'c block_codec \<Rightarrow> raw_submitted_metadata list \<Rightarrow> 'c converted_blobs \<Rightarrow> 'c converted_blobs option" where
  "extend_from_header_list_if_well_formed B entries c =
     (case try_map (submitted_metadata_try_from_raw B) entries of
        Inl Panicked \<Rightarrow> None
      | Inl (Fault _) \<Rightarrow> Some c
      | Inr headers \<Rightarrow> Some (c\<lparr>cb_metadata := cb_metadata c @ headers\<rparr>))"

definition extend_from_rollup_data_list_if_well_formed ::
  "raw_submitted_rollup_data list \<Rightarrow> 'c converted_blobs \<Rightarrow> 'c converted_blobs option" where
  "extend_from_rollup_data_list_if_well_formed entries c =
     (case try_map submitted_rollup_data_try_from_raw entries of
        Inl Panicked \<Rightarrow> None
      | Inl (Fault _) \<Rightarrow> Some c
      | Inr rollups \<Rightarrow> Some (c\<lparr>cb_rollup_data := cb_rollup_data c @ rollups\<rparr>))"

fun decode_header_blobs ::
  "'c block_codec \<Rightarrow> blob_api \<Rightarrow> bytes \<Rightarrow> blob list \<Rightarrow> 'c converted_blobs \<Rightarrow> 'c converted_blobs option" where
  "decode_header_blobs B P ns [] c = Some c"
| "decode_header_blobs B P ns (blob # blobs) c =
     Option.bind
       (if blob_namespace blob = ns then
          (case convert_blob_to_header_list P blob of
             None \<Rightarrow> Some c
           | Some entries \<Rightarrow> extend_from_header_list_if_well_formed B entries c)
        else Some c)
       (decode_header_blobs B P ns blobs)"

fun decode_rollup_blobs ::
  "blob_api \<Rightarrow> bytes \<Rightarrow> blob list \<Rightarrow> 'c converted_blobs \<Rightarrow> 'c converted_blobs option" where
  "decode_rollup_blobs P ns [] c = Some c"
| "decode_rollup_blobs P ns (blob # blobs) c =
     Option.bind
       (if blob_namespace blob = ns then
          (case convert_blob_to_rollup_data_list P blob of
             None \<Rightarrow> Some c
           | Some entries \<Rightarrow> extend_from_rollup_data_list_if_well_formed entries c)
        else Some c)
       (decode_rollup_blobs P ns blobs)"

definition decode_raw_blobs ::
  "'c block_codec \<Rightarrow> blob_api \<Rightarrow> raw_blobs \<Rightarrow> bytes \<Rightarrow> bytes \<Rightarrow> 'c converted_blobs option" where
  "decode_raw_blobs B P raw rollup_namespace sequencer_namespace =
     Option.bind
       (decode_header_blobs B P sequencer_namespace (rb_header_blobs raw)
         \<lparr>cb_celestia_height = rb_celestia_height raw, cb_metadata = [], cb_rollup_data = []\<rparr>)
       (decode_rollup_blobs P rollup_namespace (rb_rollup_blobs raw))"

section \<open>The quorum of a commit (block_verifier.rs)\<close>

datatype commit_sig =
    BlockIdFlagAbsent
  | BlockIdFlagCommit bytes int "bytes option"
  | BlockIdFlagNil bytes int "bytes option"

record commit =
  co_height :: u64
  co_round :: u32
  co_block_hash :: bytes
  co_signatures :: "commit_sig list"

record validator_info =
  vi_pub_key :: bytes
  vi_power :: u64

record validators_response =
  vr_block_height :: u64
  vr_validators :: "validator_info list"

text \<open>The vote a validator signs; its type is always a precommit.\<close>

record canonical_vote =
  cv_height :: u64
  cv_round :: u32
  cv_block_hash :: bytes
  cv_timestamp :: int
  cv_chain_id :: string

record commit_api =
  account_id_of :: "bytes \<Rightarrow> bytes"
  encode_canonical_vote :: "canonical_vote \<Rightarrow> bytes"

datatype quorum_error =
    CommitHeightMismatch u64 u64
  | CommitVotingPowerExceedsTotal u64 u64
  | EmptySignature bytes
  | QuorumMissed u64 u64
  | NoSuchValidator bytes
  | QuorumSignature string
  | TotalVotingPowerOverflowed
  | ValidatorAddressMismatch bytes bytes
  | QuorumVerificationKey string
  | VerifyVoteSignature

definition does_commit_voting_power_have_quorum :: "u64 \<Rightarrow> u64 \<Rightarrow> bool" where
  "does_commit_voting_power_have_quorum commited total_power =
     (if total_power < 3 then saturating_mul commited 3 > saturating_mul total_power 2
      else commited > saturating_mul (total_power div 3) 2)"

definition verify_vote_signature ::
  "tx_codec \<Rightarrow> commit_api \<Rightarrow> int \<Rightarrow> commit \<Rightarrow> string \<Rightarrow> bytes \<Rightarrow> bytes \<Rightarrow> quorum_error + unit" where
  "verify_vote_signature X K timestamp commit cid public_key signature_bytes =
     try_bind (map_err QuorumVerificationKey (ed25519_key_try_from (field_codec X) public_key)) (\<lambda>key.
     try_bind (map_err QuorumSignature (signature_try_from X signature_bytes)) (\<lambda>signature.
     if ed25519_verify X key signature
         (encode_canonical_vote K \<lparr>cv_height = co_height commit, cv_round = co_round commit,
            cv_block_hash = co_block_hash commit, cv_timestamp = timestamp, cv_chain_id = cid\<rparr>)
     then Inr () else Inl VerifyVoteSignature))"

fun sum_voting_power :: "validator_info list \<Rightarrow> u64 \<Rightarrow> u64 option" where
  "sum_voting_power [] acc = Some acc"
| "sum_voting_power (v # vs) acc = Option.bind (checked_add acc (vi_power v)) (sum_voting_power vs)"

text \<open>\<open>collect\<close> into a \<open>HashMap\<close> keeps the last validator of an address.\<close>

definition validator_map :: "commit_api \<Rightarrow> validator_info list \<Rightarrow> (bytes \<times> validator_info) list" where
  "validator_map K vs = rev (map (\<lambda>v. (account_id_of K (vi_pub_key v), v)) vs)"

fun count_votes ::
  "tx_codec \<Rightarrow> commit_api \<Rightarrow> (bytes \<times> validator_info) list \<Rightarrow> commit \<Rightarrow> string \<Rightarrow> commit_sig list \<Rightarrow> u64 \<Rightarrow>
     quorum_error + u64" where
  "count_votes X K vals commit cid [] voted = Inr voted"
| "count_votes X K vals commit cid (BlockIdFlagCommit validator_address timestamp signature # votes) voted =
     (case signature of
        None \<Rightarrow> Inl (EmptySignature validator_address)
      | Some signature \<Rightarrow>
          (case map_of vals validator_address of
             None \<Rightarrow> Inl (NoSuchValidator validator_address)
           | Some validator \<Rightarrow>
               (let address_from_pubkey = account_id_of K (vi_pub_key validator) in
                if address_from_pubkey \<noteq> validator_address
                then Inl (ValidatorAddressMismatch validator_address address_from_pubkey)
                else
                  try_bind (verify_vote_signature X K timestamp commit cid (vi_pub_key validator) signature) (\<lambda>_.
                  count_votes X K vals commit cid votes (saturating_add voted (vi_power validator))))))"
| "count_votes X K vals commit cid (_ # votes) voted = count_votes X K vals commit cid votes voted"

definition ensure_commit_has_quorum ::
  "height_api \<Rightarrow> tx_codec \<Rightarrow> commit_api \<Rightarrow> commit \<Rightarrow> validators_response \<Rightarrow> string \<Rightarrow> quorum_error fault + unit" where
  "ensure_commit_has_quorum A X K commit validator_set cid =
     try_bind (no_panic (height_increment A (vr_block_height validator_set))) (\<lambda>expected_height.
     try_bind (require (expected_height = co_height commit) (CommitHeightMismatch expected_height (co_height commit))) (\<lambda>_.
     try_bind (wrap id (ok_or (sum_voting_power (vr_validators validator_set) 0) TotalVotingPowerOverflowed)) (\<lambda>total_power.
     try_bind (wrap id (count_votes X K (validator_map K (vr_validators validator_set)) commit cid
         (co_signatures commit) 0)) (\<lambda>voted.
     try_bind (require (\<not> voted > total_power) (CommitVotingPowerExceedsTotal voted total_power)) (\<lambda>_.
     require (does_commit_voting_power_have_quorum voted total_power) (QuorumMissed voted total_power))))))"

section \<open>Verifying metadata (verify.rs)\<close>

record signed_header =
  sh_chain_id :: string
  sh_commit :: commit

record sequencer_client =
  get_commit :: "u64 \<Rightarrow> string + signed_header"
  get_validators :: "u64 \<Rightarrow> u64 \<Rightarrow> string + validators_response"

datatype verification_meta_error =
    CantVerifyHeightZero
  | FetchFailed string
  | NoQuorum u64 u64 quorum_error

definition fetch_verification_meta ::
  "height_api \<Rightarrow> tx_codec \<Rightarrow> commit_api \<Rightarrow> sequencer_client \<Rightarrow> u64 \<Rightarrow> verification_meta_error fault + signed_header" where
  "fetch_verification_meta A X K client height =
     (if height = 0 then refuse CantVerifyHeightZero
      else
        try_bind (case height_from A (saturating_sub height 1) of Inl _ \<Rightarrow> Inl Panicked | Inr h \<Rightarrow> Inr h) (\<lambda>prev_height.
        try_bind (wrap FetchFailed (get_commit client height)) (\<lambda>header.
        try_bind (wrap FetchFailed (get_validators client prev_height height)) (\<lambda>validators.
        try_bind (rewrap (NoQuorum height prev_height)
            (ensure_commit_has_quorum A X K (sh_commit header) validators (sh_chain_id header))) (\<lambda>_.
        Inr header)))))"

definition ensure_chain_ids_match :: "string \<Rightarrow> string \<Rightarrow> string + unit" where
  "ensure_chain_ids_match in_commit in_header =
     (if in_commit = in_header then Inr () else Inl ''expected cometbft chain ID'')"

definition ensure_block_hashes_match :: "bytes \<Rightarrow> bytes \<Rightarrow> string + unit" where
  "ensure_block_hashes_match in_commit in_header =
     (if in_commit = in_header then Inr () else Inl ''expected block hash'')"

text \<open>
  \<open>BlobVerifier::verify_metadata\<close>, with the cache as a map from heights: a failed match is only logged. The result
  is the returned metadata and the cache, or a panic of the task.
\<close>

definition verify_blob ::
  "height_api \<Rightarrow> tx_codec \<Rightarrow> commit_api \<Rightarrow> sequencer_client \<Rightarrow> (u64 \<rightharpoonup> signed_header) \<Rightarrow> 'c submitted_metadata \<Rightarrow>
     'c submitted_metadata option option \<times> (u64 \<rightharpoonup> signed_header)" where
  "verify_blob A X K client cache metadata =
     (let height = sbh_height (sm_header metadata) in
      case (case cache height of Some m \<Rightarrow> Inr m | None \<Rightarrow> fetch_verification_meta A X K client height) of
        Inl Panicked \<Rightarrow> (None, cache)
      | Inl (Fault _) \<Rightarrow> (Some None, cache)
      | Inr cached \<Rightarrow>
          (case try_bind (ensure_chain_ids_match (sh_chain_id cached) (sbh_chain_id (sm_header metadata))) (\<lambda>_.
               ensure_block_hashes_match (co_block_hash (sh_commit cached)) (sm_block_hash metadata)) of
             Inl reason \<Rightarrow> (Some (Some metadata), cache(height \<mapsto> cached))
           | Inr _ \<Rightarrow> (Some (Some metadata), cache(height \<mapsto> cached))))"

record 'c verified_blobs =
  vb_celestia_height :: u64
  vb_header_blobs :: "(bytes \<times> 'c submitted_metadata) list"
  vb_rollup_blobs :: "submitted_rollup_data list"

fun join_verifications ::
  "height_api \<Rightarrow> tx_codec \<Rightarrow> commit_api \<Rightarrow> sequencer_client \<Rightarrow> (u64 \<rightharpoonup> signed_header) \<Rightarrow> 'c submitted_metadata list \<Rightarrow>
     (bytes \<times> 'c submitted_metadata) list \<Rightarrow> (bytes \<times> 'c submitted_metadata) list" where
  "join_verifications A X K client cache [] acc = acc"
| "join_verifications A X K client cache (blob # blobs) acc =
     (let (result, cache') = verify_blob A X K client cache blob in
      join_verifications A X K client cache' blobs
        (case result of
           Some (Some verified_blob) \<Rightarrow> AList.update (sm_block_hash verified_blob) verified_blob acc
         | _ \<Rightarrow> acc))"

text \<open>\<open>completed\<close> is the order in which the tasks that were spawned complete.\<close>

definition verify_metadata ::
  "height_api \<Rightarrow> tx_codec \<Rightarrow> commit_api \<Rightarrow> sequencer_client \<Rightarrow> (u64 \<rightharpoonup> signed_header) \<Rightarrow>
     ('c submitted_metadata list \<Rightarrow> 'c submitted_metadata list) \<Rightarrow> 'c converted_blobs \<Rightarrow> conductor_state \<Rightarrow>
     'c verified_blobs option" where
  "verify_metadata A X K client cache completed c st =
     map_option (\<lambda>next_expected.
       \<lparr>vb_celestia_height = cb_celestia_height c,
        vb_header_blobs = join_verifications A X K client cache
          (completed (filter (\<lambda>blob. \<not> sbh_height (sm_header blob) < next_expected) (cb_metadata c))) [],
        vb_rollup_blobs = cb_rollup_data c\<rparr>)
       (next_expected_firm_sequencer_height A st)"

section \<open>Reconstruction (reconstruct.rs)\<close>

record 'c reconstructed_block =
  rcb_celestia_height :: u64
  rcb_block_hash :: bytes
  rcb_header :: sequencer_block_header
  rcb_transactions :: "bytes list"
  rcb_extended_commit_info :: "'c commit_info_mapping option"

definition sm_extended_commit_info :: "'c submitted_metadata \<Rightarrow> 'c commit_info_mapping option" where
  "sm_extended_commit_info m = map_option cip_extended_commit_info (sm_extended_commit_info_with_proof m)"

definition block_from :: "u64 \<Rightarrow> 'c submitted_metadata \<Rightarrow> bytes list \<Rightarrow> 'c reconstructed_block" where
  "block_from celestia_height header_blob transactions =
     \<lparr>rcb_celestia_height = celestia_height, rcb_block_hash = sm_block_hash header_blob,
      rcb_header = sm_header header_blob, rcb_transactions = transactions,
      rcb_extended_commit_info = sm_extended_commit_info header_blob\<rparr>"

definition contains_rollup_id :: "'c submitted_metadata \<Rightarrow> rollup_id \<Rightarrow> bool" where
  "contains_rollup_id m rollup_id \<longleftrightarrow> rollup_id \<in> set (sm_rollup_ids m)"

definition verify_rollup_blob_against_sequencer_blob ::
  "hash_fun \<Rightarrow> submitted_rollup_data \<Rightarrow> 'c submitted_metadata \<Rightarrow> bool option" where
  "verify_rollup_blob_against_sequencer_blob H rollup_blob sequencer_blob = do {
     tree \<leftarrow> from_leaves H (srd_transactions rollup_blob);
     txs_root \<leftarrow> tree_root H tree;
     perform H (finish_leaf H (write_leaf (write_leaf
       (with_leaf_builder (with_root (new_audit (srd_proof rollup_blob))
         (sbh_rollup_transactions_root (sm_header sequencer_blob)))) (srd_rollup_id rollup_blob)) txs_root))
   }"

definition remove_header_blob_matching_rollup_blob ::
  "hash_fun \<Rightarrow> (bytes \<times> 'c submitted_metadata) list \<Rightarrow> submitted_rollup_data \<Rightarrow>
     ('c submitted_metadata option \<times> (bytes \<times> 'c submitted_metadata) list) option" where
  "remove_header_blob_matching_rollup_blob H headers rollup =
     (case map_of headers (srd_sequencer_block_hash rollup) of
        None \<Rightarrow> Some (None, headers)
      | Some header \<Rightarrow>
          map_option (\<lambda>ok. if ok then (Some header, AList.delete (srd_sequencer_block_hash rollup) headers)
              else (None, headers))
            (verify_rollup_blob_against_sequencer_blob H rollup header))"

fun match_rollup_blobs ::
  "hash_fun \<Rightarrow> u64 \<Rightarrow> submitted_rollup_data list \<Rightarrow> (bytes \<times> 'c submitted_metadata) list \<Rightarrow> 'c reconstructed_block list \<Rightarrow>
     ((bytes \<times> 'c submitted_metadata) list \<times> 'c reconstructed_block list) option" where
  "match_rollup_blobs H celestia_height [] headers blocks = Some (headers, blocks)"
| "match_rollup_blobs H celestia_height (rollup # rollups) headers blocks =
     (case remove_header_blob_matching_rollup_blob H headers rollup of
        None \<Rightarrow> None
      | Some (None, headers') \<Rightarrow> match_rollup_blobs H celestia_height rollups headers' blocks
      | Some (Some header_blob, headers') \<Rightarrow>
          match_rollup_blobs H celestia_height rollups headers'
            (blocks @ [block_from celestia_height header_blob (srd_transactions rollup)]))"

fun reconstruct_empty_blocks ::
  "u64 \<Rightarrow> rollup_id \<Rightarrow> 'c submitted_metadata list \<Rightarrow> 'c reconstructed_block list \<Rightarrow> 'c reconstructed_block list" where
  "reconstruct_empty_blocks celestia_height rollup_id [] blocks = blocks"
| "reconstruct_empty_blocks celestia_height rollup_id (header_blob # header_blobs) blocks =
     reconstruct_empty_blocks celestia_height rollup_id header_blobs
       (if contains_rollup_id header_blob rollup_id then blocks
        else blocks @ [block_from celestia_height header_blob []])"

text \<open>The header blobs are a \<open>HashMap\<close>: the order in which those left over are read is the order of the list.\<close>

definition reconstruct_blocks_from_verified_blobs ::
  "hash_fun \<Rightarrow> 'c verified_blobs \<Rightarrow> rollup_id \<Rightarrow> 'c reconstructed_block list option" where
  "reconstruct_blocks_from_verified_blobs H v rollup_id =
     map_option (\<lambda>(headers, blocks).
         reconstruct_empty_blocks (vb_celestia_height v) rollup_id (map snd headers) blocks)
       (match_rollup_blobs H (vb_celestia_height v) (vb_rollup_blobs v) (vb_header_blobs v) [])"

section \<open>From Celestia to blocks (mod.rs)\<close>

text \<open>
  The steps for one Celestia height, from the blobs that were fetched. Panics while decoding and reconstructing happen
  on another thread and are errors; one while verifying is a panic of this task.
\<close>

record 'c celestia_reader =
  rd_block_codec :: "'c block_codec"
  rd_blob_api :: blob_api
  rd_height_api :: height_api
  rd_commit_api :: commit_api
  rd_sequencer_client :: sequencer_client
  rd_completed :: "'c submitted_metadata list \<Rightarrow> 'c submitted_metadata list"

definition fetch_convert_verify_and_reconstruct ::
  "'c celestia_reader \<Rightarrow> (u64 \<rightharpoonup> signed_header) \<Rightarrow> string + raw_blobs \<Rightarrow> conductor_state \<Rightarrow> rollup_id \<Rightarrow> bytes \<Rightarrow> bytes \<Rightarrow>
     string fault + 'c reconstructed_block list" where
  "fetch_convert_verify_and_reconstruct R cache fetched st rollup_id rollup_namespace sequencer_namespace =
     try_bind (wrap id fetched) (\<lambda>new_blobs.
     try_bind (ok_or (decode_raw_blobs (rd_block_codec R) (rd_blob_api R) new_blobs rollup_namespace sequencer_namespace)
         (Fault ''encountered panic while decoding raw Celestia blobs'')) (\<lambda>decoded_blobs.
     try_bind (no_panic (verify_metadata (rd_height_api R) (block_tx_codec (rd_block_codec R)) (rd_commit_api R)
         (rd_sequencer_client R) cache (rd_completed R) decoded_blobs st)) (\<lambda>verified_blobs.
     ok_or (reconstruct_blocks_from_verified_blobs (sha256 (rd_block_codec R)) verified_blobs rollup_id)
         (Fault ''encountered panic while reconstructing blocks from verified blobs''))))"

end
