(* ===== verification/Price_Votes.thy ===== *)
theory Price_Votes
  imports Block_Data "HOL-Library.Signed_Division"
begin

text \<open>
  The price of each currency pair as the median of the prices that validators voted
  (\<^verbatim>\<open>crates/astria-core/src/oracles/price_feed/{utils,abci,types}.rs\<close>). A price is an \<open>i128\<close>, so the two middle
  prices are halved before they are added.

  The extended commit info of CometBFT is code outside the repository: its vote extensions and the decoder of their
  message are fields of \<open>vote_api\<close>.
\<close>

record 'c vote_api =
  vote_extensions :: "'c \<Rightarrow> bytes list"
  decode_vote_extension :: "bytes \<Rightarrow> string + (u64 \<times> bytes) list"

section \<open>Prices\<close>

definition price_checked_add :: "i128 \<Rightarrow> i128 \<Rightarrow> i128 option" where
  "price_checked_add a b =
     (if - (2 ^ 127) \<le> sint a + sint b \<and> sint a + sint b < 2 ^ 127 then Some (a + b) else None)"

definition price_checked_div :: "i128 \<Rightarrow> int \<Rightarrow> i128 option" where
  "price_checked_div a d =
     (if d = 0 \<or> \<not> (- (2 ^ 127) \<le> sint a sdiv d \<and> sint a sdiv d < 2 ^ 127) then None
      else Some (word_of_int (sint a sdiv d)))"

definition price_try_from_bytes :: "bytes \<Rightarrow> bytes + i128" where
  "price_try_from_bytes b = (if length b = 16 then Inr (from_be_bytes b) else Inl b)"

section \<open>Vote extensions\<close>

datatype vote_extension_error =
    VoteDecodeError string
  | VoteDecodePrice u64 bytes

definition vote_extension_try_from_raw :: "(u64 \<times> bytes) list \<Rightarrow> vote_extension_error + (u64 \<times> i128) list" where
  "vote_extension_try_from_raw raw =
     try_bind (try_map (\<lambda>(i, b).
         try_bind (map_err (VoteDecodePrice i) (price_try_from_bytes b)) (\<lambda>p. Inr (i, p))) raw) (\<lambda>ps.
     Inr (collect_map ps))"

text \<open>The message holds a \<open>BTreeMap\<close>: the entries in the order of the ids, the last one of each id.\<close>

definition vote_extension_to_raw :: "(u64 \<times> i128) list \<Rightarrow> (u64 \<times> bytes) list" where
  "vote_extension_to_raw prices = sort_keys (collect_map (map (\<lambda>(i, p). (i, to_be_bytes 16 p)) prices))"

section \<open>The median\<close>

definition median :: "i128 list \<Rightarrow> i128 option option" where
  "median price_list =
     (let sorted_list = sort_key sint price_list;
          midpoint = length sorted_list div 2 in
      if length sorted_list mod 2 = 1 then Some (Some (sorted_list ! midpoint))
      else if midpoint = 0 then Some None
      else do {
        let higher_price = sorted_list ! midpoint;
        let lower_price = sorted_list ! (midpoint - 1);
        half_high \<leftarrow> price_checked_div higher_price 2;
        half_low \<leftarrow> price_checked_div lower_price 2;
        sum \<leftarrow> price_checked_add half_high half_low;
        median \<leftarrow> (if sint higher_price smod 2 = 1 \<and> sint lower_price smod 2 = 1
                   then price_checked_add sum 1 else Some sum);
        Some (Some median)
      })"

section \<open>Aggregation\<close>

fun collect_prices ::
  "(u64 \<times> currency_pair_info) list \<Rightarrow> (u64 \<times> i128) list \<Rightarrow> (currency_pair_info \<times> i128 list) list \<Rightarrow>
     (currency_pair_info \<times> i128 list) list" where
  "collect_prices ids [] m = m"
| "collect_prices ids ((i, p) # ps) m =
     collect_prices ids ps (case map_of ids i of None \<Rightarrow> m | Some pair \<Rightarrow> entry_extend pair [p] m)"

fun median_prices :: "(currency_pair_info \<times> i128 list) list \<Rightarrow> price list option" where
  "median_prices [] = Some []"
| "median_prices ((pair, ps) # m) = do {
     p \<leftarrow> median ps;
     rest \<leftarrow> median_prices m;
     Some (case p of
         None \<Rightarrow> rest
       | Some v \<Rightarrow> \<lparr>pr_currency_pair = cpi_currency_pair pair, pr_price = v, pr_decimals = cpi_decimals pair\<rparr> # rest)
   }"

definition aggregate_oracle_votes :: "(u64 \<times> i128) list list \<Rightarrow> (u64 \<times> currency_pair_info) list \<Rightarrow> price list option" where
  "aggregate_oracle_votes votes ids = median_prices (fold (\<lambda>v m. collect_prices ids v m) votes [])"

definition calculate_prices_from_vote_extensions ::
  "'c vote_api \<Rightarrow> 'c \<Rightarrow> (u64 \<times> currency_pair_info) list \<Rightarrow> vote_extension_error fault + price list" where
  "calculate_prices_from_vote_extensions V info ids =
     try_bind (wrap id (try_map (\<lambda>v.
         try_bind (map_err VoteDecodeError (decode_vote_extension V v)) vote_extension_try_from_raw)
         (vote_extensions V info))) (\<lambda>votes.
     no_panic (aggregate_oracle_votes votes ids))"

section \<open>The median does not panic\<close>

lemma half_bounds: "- (2 ^ 126) \<le> (x :: int) sdiv 2 \<and> x sdiv 2 < 2 ^ 126" if "- (2 ^ 127) \<le> x" "x < 2 ^ 127"
proof -
  have "\<bar>x\<bar> div 2 \<le> 2 ^ 126" "x \<ge> 0 \<Longrightarrow> x div 2 < 2 ^ 126" using that by auto
  then show ?thesis by (auto simp: signed_divide_int_def sgn_if)
qed

lemma sdiv_two: "(x :: int) sdiv 2 = (if x < 0 then - ((- x) div 2) else x div 2)"
  by (simp add: signed_divide_int_def sgn_if)

lemma smod_two: "(x :: int) smod 2 = 1 \<longleftrightarrow> 0 \<le> x \<and> odd x"
  by (cases "x < 0") (auto simp: signed_modulo_int_def sgn_if odd_iff_mod_2_eq_one zmod_zminus1_eq_if)

lemma sint_bounds: "- (2 ^ 127) \<le> sint (p :: i128) \<and> sint p < 2 ^ 127"
  using sint_range_size [of p] by (simp add: word_size)

lemma sint_word_of: "- (2 ^ 127) \<le> x \<Longrightarrow> x < 2 ^ 127 \<Longrightarrow> sint (word_of_int x :: i128) = x"
  by (simp add: sint_sbintrunc' signed_take_bit_int_eq_self)

lemma price_half: "price_checked_div p 2 = Some (word_of_int (sint p sdiv 2))"
  "sint (word_of_int (sint p sdiv 2) :: i128) = sint p sdiv 2"
  using half_bounds [of "sint p"] sint_bounds [of p]
  by (auto simp: price_checked_div_def intro!: sint_word_of)

lemma price_add:
  assumes "- (2 ^ 127) \<le> sint a + sint b" "sint a + sint b < 2 ^ 127"
  shows "\<exists>c. price_checked_add a b = Some c \<and> sint c = sint a + sint b"
proof -
  have "a + b = word_of_int (sint a + sint b)" by simp
  then show ?thesis using assms sint_word_of [OF assms] by (simp add: price_checked_add_def)
qed

text \<open>The price between two middle prices, as the code rounds it.\<close>

definition mid_price :: "int \<Rightarrow> int \<Rightarrow> int" where
  "mid_price x y = x sdiv 2 + y sdiv 2 + (if 0 \<le> x \<and> odd x \<and> 0 \<le> y \<and> odd y then 1 else 0)"

lemma median_even:
  assumes "even (length ps)" "ps \<noteq> []"
  shows "\<exists>m. median ps = Some (Some m) \<and>
    sint m = mid_price (sint (sort_key sint ps ! (length ps div 2 - 1))) (sint (sort_key sint ps ! (length ps div 2)))"
proof -
  let ?hi = "sort_key sint ps ! (length ps div 2)" and ?lo = "sort_key sint ps ! (length ps div 2 - 1)"
  let ?h = "word_of_int (sint ?hi sdiv 2) :: i128" and ?l = "word_of_int (sint ?lo sdiv 2) :: i128"
  have b: "- (2 ^ 126) \<le> sint ?h" "sint ?h < 2 ^ 126" "- (2 ^ 126) \<le> sint ?l" "sint ?l < 2 ^ 126"
    using half_bounds sint_bounds by (simp_all add: price_half)
  obtain s where s: "price_checked_add ?h ?l = Some s" "sint s = sint ?h + sint ?l"
    using price_add [of ?h ?l] b by auto
  have c: "\<exists>c. price_checked_add s 1 = Some c \<and> sint c = sint s + 1"
    using price_add [of s 1] b s(2) by auto
  have "length ps div 2 \<noteq> 0" using assms by (cases ps; cases "tl ps") auto
  then show ?thesis using assms s c
    by (auto simp: median_def Let_def price_half mid_price_def smod_two)
qed

text \<open>Both middle prices are read from the sorted list, the lower one first.\<close>

lemma middle_nonneg:
  assumes "list_all (\<lambda>p. 0 \<le> sint p) ps" "k < length ps"
  shows "0 \<le> sint (sort_key sint ps ! k)"
proof -
  have "sort_key sint ps ! k \<in> set ps" using assms(2) by (metis length_sort nth_mem set_sort)
  then show ?thesis using assms(1) by (simp add: list_all_iff)
qed

lemma mid_price_nonneg: "0 \<le> x \<Longrightarrow> 0 \<le> y \<Longrightarrow> mid_price x y = (x + y) div 2"
  unfolding mid_price_def sdiv_two by simp presburger

lemma half_near: "\<bar>2 * ((x :: int) sdiv 2) - x\<bar> \<le> 1" "0 \<le> x \<Longrightarrow> odd x \<Longrightarrow> 2 * (x sdiv 2) = x - 1"
  by (simp_all add: sdiv_two abs_le_iff odd_iff_mod_2_eq_one) presburger+

lemma mid_price_near: "\<bar>2 * mid_price x y - (x + y)\<bar> \<le> 2"
  using half_near [of x] half_near [of y] by (auto simp: mid_price_def abs_le_iff)

text \<open>
  C39. The median of the voted prices is computed without a panic for every list of prices that is not empty: it is
  the middle price of the sorted list when there is an odd number of them, and else differs from the mean of the
  two middle prices by at most one; for prices that are not negative it is the mean rounded down.
\<close>

theorem median_of_votes:
  assumes "ps \<noteq> []"
  shows "\<exists>m. median ps = Some (Some m) \<and>
    (let s = sort_key sint ps; k = length ps div 2 in
       if odd (length ps) then m = s ! k
       else \<bar>2 * sint m - (sint (s ! (k - 1)) + sint (s ! k))\<bar> \<le> 2 \<and>
            (list_all (\<lambda>p. 0 \<le> sint p) ps \<longrightarrow> sint m = (sint (s ! (k - 1)) + sint (s ! k)) div 2))"
proof (cases "odd (length ps)")
  case True
  then show ?thesis by (simp add: median_def Let_def odd_iff_mod_2_eq_one)
next
  case False
  then have "length ps div 2 < length ps" "length ps div 2 - 1 < length ps" using assms
    by (simp_all add: less_imp_diff_less)
  with False assms show ?thesis
    using median_even [of ps] mid_price_near by (auto simp: Let_def mid_price_nonneg middle_nonneg)
qed

theorem median_of_votes_witness:
  "[5, 2, 9, 4] \<noteq> ([] :: i128 list) \<and>
   (\<exists>m. median [5, 2, 9, 4] = Some (Some m) \<and> sint m = 4)"
  using median_of_votes [of "[5, 2, 9, 4]"] by (auto simp: Let_def)

text \<open>Two equal negative odd prices have a median above both.\<close>

lemma median_negative_odd: "median [- 3, - 3] = Some (Some (- 2))"
  by code_simp

end
