(* ===== verification/Conductor_Executor.thy ===== *)
theory Conductor_Executor
  imports Conductor_Blobs Price_Votes
begin

text \<open>
  The executor of the conductor (\<^verbatim>\<open>crates/astria-conductor/src/executor/{mod,client}.rs\<close>): it hands soft blocks from the
  sequencer and firm blocks from Celestia to the rollup node, and keeps its commitments.

  The rollup node is a service: its calls, with their retries, are the functions of a \<open>rollup_node\<close>, which may differ
  from call to call. \<open>ex_executed\<close> holds the blocks that the node was asked to execute, the latest last.
\<close>

section \<open>The client (client.rs)\<close>

record execute_block_request =
  ebr_session_id :: string
  ebr_parent_hash :: string
  ebr_transactions :: "raw_rollup_data list"
  ebr_timestamp :: "raw_timestamp option"
  ebr_sequencer_block_hash :: string

record rollup_node =
  rn_get_executed_block_metadata :: "u64 \<Rightarrow> string + raw_executed_block_metadata"
  rn_create_execution_session :: "string + raw_execution_session"
  rn_execute_block :: "execute_block_request \<Rightarrow> string + raw_executed_block_metadata option"
  rn_update_commitment_state :: "string \<Rightarrow> raw_commitment_state \<Rightarrow> string + raw_commitment_state"

record 'c executor_env =
  ee_blocks :: "'c block_codec"
  ee_heights :: height_api
  ee_votes :: "'c vote_api"
  ee_decode_rollup_data :: "bytes \<Rightarrow> string + raw_rollup_data"

datatype client_error =
    RpcFailed string
  | WrongNumberReceived u64 u64
  | InvalidBlockMetadata executed_block_metadata_error
  | InvalidSession execution_session_error
  | UndecodableTransaction string
  | MissingBlockMetadata
  | InvalidCommitment commitment_state_error

definition get_executed_block_metadata_with_retry :: "rollup_node \<Rightarrow> u64 \<Rightarrow> client_error + executed_block_metadata" where
  "get_executed_block_metadata_with_retry N block_number =
     try_bind (map_err RpcFailed (rn_get_executed_block_metadata N block_number)) (\<lambda>raw.
     if block_number = reb_number raw then map_err InvalidBlockMetadata (block_metadata_try_from_raw raw)
     else Inl (WrongNumberReceived block_number (reb_number raw)))"

definition create_execution_session_with_retry :: "'c executor_env \<Rightarrow> rollup_node \<Rightarrow> client_error + execution_session" where
  "create_execution_session_with_retry E N =
     try_bind (map_err RpcFailed (rn_create_execution_session N)) (\<lambda>raw.
     map_err InvalidSession (execution_session_try_from_raw (ee_heights E) raw))"

text \<open>A block hash is shown in hexadecimal digits.\<close>

definition execute_block_with_retry ::
  "'c executor_env \<Rightarrow> rollup_node \<Rightarrow> string \<Rightarrow> string \<Rightarrow> bytes list \<Rightarrow> raw_timestamp \<Rightarrow> bytes \<Rightarrow>
     client_error + executed_block_metadata" where
  "execute_block_with_retry E N session_id parent_hash transactions timestamp sequencer_block_hash =
     try_bind (map_err UndecodableTransaction (try_map (ee_decode_rollup_data E) transactions)) (\<lambda>txs.
     try_bind (map_err RpcFailed (rn_execute_block N
         \<lparr>ebr_session_id = session_id, ebr_parent_hash = parent_hash, ebr_transactions = txs,
          ebr_timestamp = Some timestamp, ebr_sequencer_block_hash = concat (map hex_byte sequencer_block_hash)\<rparr>)) (\<lambda>response.
     try_bind (ok_or response MissingBlockMetadata) (\<lambda>raw.
     map_err InvalidBlockMetadata (block_metadata_try_from_raw raw))))"

definition update_commitment_state_with_retry ::
  "rollup_node \<Rightarrow> string \<Rightarrow> commitment_state \<Rightarrow> client_error + commitment_state" where
  "update_commitment_state_with_retry N session_id c =
     try_bind (map_err RpcFailed (rn_update_commitment_state N session_id (commitment_state_to_raw c))) (\<lambda>raw.
     map_err InvalidCommitment (commitment_state_try_from_raw raw))"

section \<open>Blocks to execute\<close>

record executable_block =
  xb_hash :: bytes
  xb_height :: u64
  xb_timestamp :: raw_timestamp
  xb_transactions :: "bytes list"

text \<open>\<open>None\<close> is a panic of the price calculation.\<close>

definition prepend_transactions_by_price_feed_if_exists ::
  "'c executor_env \<Rightarrow> bytes list \<Rightarrow> 'c commit_info_mapping option \<Rightarrow> bytes list option" where
  "prepend_transactions_by_price_feed_if_exists E transactions extended_commit_info =
     (case extended_commit_info of
        None \<Rightarrow> Some transactions
      | Some info \<Rightarrow>
          (case calculate_prices_from_vote_extensions (ee_votes E) (cim_extended_commit_info info)
               (cim_id_to_currency_pair info) of
             Inl Panicked \<Rightarrow> None
           | Inl (Fault _) \<Rightarrow> Some transactions
           | Inr prices \<Rightarrow>
               Some (encoded_rollup_data (ee_blocks E) (RollupPriceFeedData \<lparr>pfd_prices = prices\<rparr>) # transactions)))"

definition from_reconstructed :: "'c executor_env \<Rightarrow> 'c reconstructed_block \<Rightarrow> executable_block option" where
  "from_reconstructed E b =
     map_option (\<lambda>transactions.
       \<lparr>xb_hash = rcb_block_hash b, xb_height = sbh_height (rcb_header b),
        xb_timestamp = time_into (ee_blocks E) (sbh_time (rcb_header b)), xb_transactions = transactions\<rparr>)
       (prepend_transactions_by_price_feed_if_exists E (rcb_transactions b) (rcb_extended_commit_info b))"

definition from_sequencer :: "'c executor_env \<Rightarrow> 'c filtered_sequencer_block \<Rightarrow> rollup_id \<Rightarrow> executable_block option" where
  "from_sequencer E b rollup_id =
     map_option (\<lambda>transactions.
       \<lparr>xb_hash = fsb_block_hash b, xb_height = sbh_height (fsb_header b),
        xb_timestamp = time_into (ee_blocks E) (sbh_time (fsb_header b)), xb_transactions = transactions\<rparr>)
       (prepend_transactions_by_price_feed_if_exists E
         (case map_of (fsb_rollup_transactions b) rollup_id of None \<Rightarrow> [] | Some txs \<Rightarrow> rt_transactions txs)
         (map_option cip_extended_commit_info (fsb_extended_commit_info_with_proof b)))"

section \<open>The executor\<close>

record executor =
  ex_commit_level :: commit_level
  ex_state :: conductor_state
  ex_blocks_pending_finalization :: "u64 \<rightharpoonup> executed_block_metadata"
  ex_executed :: "executable_block list"

datatype execution_kind = FirmExecution | SoftExecution

datatype contract_violation =
    WrongBlock execution_kind u64 u64 u64
  | CurrentBlockNumberIsMax execution_kind u64

datatype block_update =
    OnlyFirm executed_block_metadata u64
  | OnlySoft executed_block_metadata
  | ToSame executed_block_metadata u64

datatype executor_error =
    BlockOutOfOrder u64 u64
  | UnmappedHeight height_map_error
  | ClientError client_error
  | ContractViolated contract_violation
  | FirmExceedsSoftState firm_exceeds_soft
  | InvalidStateReceived invalid_state
  | TaskExited string
  | ChannelError string
  | TaskNotExpected

definition does_block_response_fulfill_contract ::
  "conductor_state \<Rightarrow> execution_kind \<Rightarrow> executed_block_metadata \<Rightarrow> contract_violation + unit" where
  "does_block_response_fulfill_contract st kind block_metadata =
     (let current = (case kind of FirmExecution \<Rightarrow> firm_number st | SoftExecution \<Rightarrow> soft_number st);
          actual = ebm_number block_metadata in
      try_bind (ok_or (checked_add current 1) (CurrentBlockNumberIsMax kind actual)) (\<lambda>expected.
      if actual = expected then Inr () else Inl (WrongBlock kind current expected actual)))"

fun should_execute_firm_block :: "u64 \<Rightarrow> u64 \<Rightarrow> commit_level \<Rightarrow> bool" where
  "should_execute_firm_block firm_height soft_height SoftAndFirm = (firm_height = soft_height)"
| "should_execute_firm_block firm_height soft_height SoftOnly = False"
| "should_execute_firm_block firm_height soft_height FirmOnly = True"

definition execute_block ::
  "'c executor_env \<Rightarrow> rollup_node \<Rightarrow> string \<Rightarrow> string \<Rightarrow> executable_block \<Rightarrow> client_error + executed_block_metadata" where
  "execute_block E N session_id parent_hash block =
     execute_block_with_retry E N session_id parent_hash (xb_transactions block) (xb_timestamp block) (xb_hash block)"

definition update_commitment_state ::
  "'c executor_env \<Rightarrow> rollup_node \<Rightarrow> executor \<Rightarrow> block_update \<Rightarrow> executor_error + executor" where
  "update_commitment_state E N e update =
     (let st = ex_state e;
          (firm, soft, celestia_height, level) =
            (case update of
               OnlyFirm firm celestia_height \<Rightarrow> (firm, st_soft st, celestia_height, FirmOnly)
             | OnlySoft soft \<Rightarrow> (st_firm st, soft, lowest_celestia_search_height st, SoftOnly)
             | ToSame block celestia_height \<Rightarrow> (block, block, celestia_height, SoftAndFirm)) in
      try_bind (map_err FirmExceedsSoftState (commitment_state_build firm soft celestia_height)) (\<lambda>c.
      try_bind (map_err ClientError (update_commitment_state_with_retry N (st_execution_session_id st) c)) (\<lambda>new_state.
      try_bind (map_err InvalidStateReceived (try_update_commitment_state (ee_heights E) st new_state level)) (\<lambda>st'.
      Inr (e\<lparr>ex_state := st'\<rparr>)))))"

definition rollup_number_of :: "executor \<Rightarrow> u64 \<Rightarrow> executor_error + u64" where
  "rollup_number_of e height =
     map_err UnmappedHeight (try_map_sequencer_height_to_rollup_height (sequencer_start_block_height (ex_state e))
       (rollup_start_block_number (ex_state e)) height)"

text \<open>The block is sent to the node and its response is checked against the contract.\<close>

definition execute_and_check ::
  "'c executor_env \<Rightarrow> rollup_node \<Rightarrow> executor \<Rightarrow> execution_kind \<Rightarrow> string \<Rightarrow> executable_block \<Rightarrow>
     executor_error + executed_block_metadata" where
  "execute_and_check E N e kind parent_hash block =
     try_bind (map_err ClientError (execute_block E N (st_execution_session_id (ex_state e)) parent_hash block)) (\<lambda>executed_block.
     try_bind (map_err ContractViolated (does_block_response_fulfill_contract (ex_state e) kind executed_block)) (\<lambda>_.
     Inr executed_block))"

definition execute_soft ::
  "'c executor_env \<Rightarrow> rollup_node \<Rightarrow> executor \<Rightarrow> 'c filtered_sequencer_block \<Rightarrow> executor_error fault + executor" where
  "execute_soft E N e b =
     try_bind (no_panic (from_sequencer E b (esp_rollup_id (st_execution_session_parameters (ex_state e))))) (\<lambda>block.
     try_bind (no_panic (next_expected_soft_sequencer_height (ee_heights E) (ex_state e))) (\<lambda>expected_height.
     if xb_height block < expected_height then Inr e
     else if xb_height block > expected_height then refuse (BlockOutOfOrder expected_height (xb_height block))
     else
       try_bind (wrap id (rollup_number_of e (xb_height block))) (\<lambda>block_number.
       try_bind (wrap id (execute_and_check E N e SoftExecution (soft_hash (ex_state e)) block)) (\<lambda>executed_block.
       try_bind (wrap id (update_commitment_state E N (e\<lparr>ex_executed := ex_executed e @ [block]\<rparr>) (OnlySoft executed_block))) (\<lambda>e'.
       Inr (e'\<lparr>ex_blocks_pending_finalization := (ex_blocks_pending_finalization e')(block_number \<mapsto> executed_block)\<rparr>))))))"

text \<open>A pending block is taken out of the map before the commitment is updated.\<close>

definition execute_firm ::
  "'c executor_env \<Rightarrow> rollup_node \<Rightarrow> executor \<Rightarrow> 'c reconstructed_block \<Rightarrow> executor_error fault + executor" where
  "execute_firm E N e b =
     try_bind (no_panic (from_reconstructed E b)) (\<lambda>block.
     try_bind (no_panic (next_expected_firm_sequencer_height (ee_heights E) (ex_state e))) (\<lambda>expected_height.
     try_bind (require (xb_height block = expected_height) (BlockOutOfOrder expected_height (xb_height block))) (\<lambda>_.
     try_bind (wrap id (rollup_number_of e (xb_height block))) (\<lambda>block_number.
     try_bind (no_panic (next_expected_firm_sequencer_height (ee_heights E) (ex_state e))) (\<lambda>next_firm.
     try_bind (no_panic (next_expected_soft_sequencer_height (ee_heights E) (ex_state e))) (\<lambda>next_soft.
     try_bind
       (if should_execute_firm_block next_firm next_soft (ex_commit_level e) then
          try_bind (wrap id (execute_and_check E N e FirmExecution (firm_hash (ex_state e)) block)) (\<lambda>executed_block.
          Inr (e\<lparr>ex_executed := ex_executed e @ [block]\<rparr>, ToSame executed_block (rcb_celestia_height b)))
        else
          (case ex_blocks_pending_finalization e block_number of
             Some pending \<Rightarrow>
               Inr (e\<lparr>ex_blocks_pending_finalization := (ex_blocks_pending_finalization e)(block_number := None)\<rparr>,
                    OnlyFirm pending (rcb_celestia_height b))
           | None \<Rightarrow>
               try_bind (wrap ClientError (get_executed_block_metadata_with_retry N block_number)) (\<lambda>block.
               Inr (e, OnlyFirm block (rcb_celestia_height b))))) (\<lambda>(e', update).
     wrap id (update_commitment_state E N e' update))))))))"

section \<open>The event loop\<close>

definition is_spread_too_large :: "'c executor_env \<Rightarrow> executor \<Rightarrow> bool option" where
  "is_spread_too_large E e =
     (if \<not> is_with_firm (ex_commit_level e) then Some False
      else do {
        next_firm \<leftarrow> next_expected_firm_sequencer_height (ee_heights E) (ex_state e);
        next_soft \<leftarrow> next_expected_soft_sequencer_height (ee_heights E) (ex_state e);
        Some (saturating_sub next_soft next_firm \<ge> celestia_search_height_max_look_ahead (ex_state e))
      })"

datatype reader_kind = FirmReader | SoftReader

datatype task_result = TaskOk | TaskErr string | TaskPanic string

fun unexpected_exit :: "task_result \<Rightarrow> executor_error + bool" where
  "unexpected_exit TaskOk = Inl (TaskExited ''task exited with success value'')"
| "unexpected_exit (TaskErr m) = Inl (TaskExited m)"
| "unexpected_exit (TaskPanic m) = Inl (TaskExited m)"

text \<open>The result says if the readers are cancelled and the channels closed.\<close>

definition handle_task_exit :: "executor \<Rightarrow> reader_kind \<Rightarrow> task_result \<Rightarrow> executor_error + bool" where
  "handle_task_exit e task res =
     (if task = FirmReader \<and> is_with_firm (ex_commit_level e) then
        (case (rollup_end_block_number (ex_state e) \<noteq> None, has_firm_number_reached_stop_height (ex_state e)) of
           (True, True) \<Rightarrow> Inr True
         | (True, False) \<Rightarrow> unexpected_exit res
         | (False, _) \<Rightarrow> unexpected_exit res)
      else if task = SoftReader \<and> is_with_soft (ex_commit_level e) then
        (case (rollup_end_block_number (ex_state e) \<noteq> None, has_soft_number_reached_stop_height (ex_state e)) of
           (True, True) \<Rightarrow> Inr False
         | (True, False) \<Rightarrow> unexpected_exit res
         | (False, _) \<Rightarrow> unexpected_exit res)
      else Inl TaskNotExpected)"

text \<open>
  What the loop waits for. The guard of the soft channel is evaluated before waiting; a soft block stays in the
  channel while the spread is too large.
\<close>

datatype 'c loop_event =
    FirmBlock "'c reconstructed_block"
  | SoftBlock "'c filtered_sequencer_block"
  | ReaderExit reader_kind task_result

definition loop_iteration ::
  "'c executor_env \<Rightarrow> rollup_node \<Rightarrow> executor \<Rightarrow> 'c loop_event \<Rightarrow> executor_error fault + executor" where
  "loop_iteration E N e event =
     try_bind (no_panic (is_spread_too_large E e)) (\<lambda>spread.
     case event of
       FirmBlock b \<Rightarrow> execute_firm E N e b
     | SoftBlock b \<Rightarrow> if spread then Inr e else execute_soft E N e b
     | ReaderExit task res \<Rightarrow> try_bind (wrap id (handle_task_exit e task res)) (\<lambda>_. Inr e))"

fun run_event_loop ::
  "'c executor_env \<Rightarrow> executor \<Rightarrow> (rollup_node \<times> 'c loop_event) list \<Rightarrow> executor_error fault + executor" where
  "run_event_loop E e [] = Inr e"
| "run_event_loop E e ((N, event) # evs) = try_bind (loop_iteration E N e event) (\<lambda>e'. run_event_loop E e' evs)"

section \<open>Initialization\<close>

definition create_initial_node_state ::
  "'c executor_env \<Rightarrow> rollup_node \<Rightarrow> commit_level \<Rightarrow> executor_error + conductor_state" where
  "create_initial_node_state E N level =
     try_bind (map_err ClientError (create_execution_session_with_retry E N)) (\<lambda>session.
     map_err InvalidStateReceived (try_from_execution_session (ee_heights E) session level))"

text \<open>The sizes of the channels for firm and soft blocks.\<close>

fun create_block_channels :: "commit_level \<Rightarrow> conductor_state \<Rightarrow> executor_error + usize \<times> usize" where
  "create_block_channels FirmOnly st =
     (let channel_size = celestia_search_height_max_look_ahead st in
      Inr (16, if channel_size = 0 then 1 else channel_size))"
| "create_block_channels SoftAndFirm st =
     (let channel_size = celestia_search_height_max_look_ahead st in
      if channel_size > 0 then Inr (16, channel_size)
      else Inl (ChannelError ''celestia-search-height-max-look-ahead must be greater than 0''))"
| "create_block_channels SoftOnly st = Inr (16, 1024)"

definition executor_init :: "'c executor_env \<Rightarrow> rollup_node \<Rightarrow> commit_level \<Rightarrow> executor_error + executor" where
  "executor_init E N level =
     try_bind (create_initial_node_state E N level) (\<lambda>st.
     try_bind (create_block_channels level st) (\<lambda>_.
     Inr \<lparr>ex_commit_level = level, ex_state = st, ex_blocks_pending_finalization = Map.empty, ex_executed = []\<rparr>))"

end
