(* ===== verification/Conductor_Quorum.thy ===== *)
theory Conductor_Quorum
  imports Conductor_Blobs
begin

text \<open>
  What a commit that \<open>ensure_commit_has_quorum\<close> accepts guarantees, and what it does not: the threshold is rounded
  down, and a vote that is repeated counts again.
\<close>

lemma sum_voting_power_Some:
  "sum_voting_power vs acc = Some t \<Longrightarrow> unat t = unat acc + sum_list (map (unat \<circ> vi_power) vs)"
  by (induction vs arbitrary: acc) (auto simp: checked_add_Some_iff split: bind_splits)

text \<open>
  A vote for the block that counts, and the power it adds. Votes for nil and absent votes are skipped: they are not
  checked and add nothing.
\<close>

definition signed_by_validator ::
  "tx_codec \<Rightarrow> commit_api \<Rightarrow> (bytes \<times> validator_info) list \<Rightarrow> commit \<Rightarrow> string \<Rightarrow> bytes \<Rightarrow> int \<Rightarrow> bytes option \<Rightarrow> bool" where
  "signed_by_validator X K vals commit cid address timestamp signature =
     (case (signature, map_of vals address) of
        (Some s, Some v) \<Rightarrow> account_id_of K (vi_pub_key v) = address \<and>
          verify_vote_signature X K timestamp commit cid (vi_pub_key v) s = Inr ()
      | _ \<Rightarrow> False)"

fun valid_vote :: "tx_codec \<Rightarrow> commit_api \<Rightarrow> (bytes \<times> validator_info) list \<Rightarrow> commit \<Rightarrow> string \<Rightarrow> commit_sig \<Rightarrow> bool" where
  "valid_vote X K vals commit cid (BlockIdFlagCommit address timestamp signature) =
     signed_by_validator X K vals commit cid address timestamp signature"
| "valid_vote X K vals commit cid _ = True"

definition validator_power :: "(bytes \<times> validator_info) list \<Rightarrow> bytes \<Rightarrow> nat" where
  "validator_power vals address = (case map_of vals address of None \<Rightarrow> 0 | Some v \<Rightarrow> unat (vi_power v))"

fun vote_power :: "(bytes \<times> validator_info) list \<Rightarrow> commit_sig \<Rightarrow> nat" where
  "vote_power vals (BlockIdFlagCommit address _ _) = validator_power vals address"
| "vote_power vals _ = 0"

text \<open>The addresses of the votes for the block, in the order of the commit.\<close>

fun block_voters :: "commit_sig list \<Rightarrow> bytes list" where
  "block_voters [] = []"
| "block_voters (BlockIdFlagCommit address _ _ # votes) = address # block_voters votes"
| "block_voters (_ # votes) = block_voters votes"

lemma vote_power_voters:
  "sum_list (map (vote_power vals) votes) = sum_list (map (validator_power vals) (block_voters votes))"
  by (induction votes rule: block_voters.induct) simp_all

lemma map_of_validator_map:
  "map_of (validator_map K vs) address = Some v \<Longrightarrow> v \<in> set vs"
  by (auto simp: validator_map_def dest!: map_of_SomeD)

lemma count_votes_Inr:
  "count_votes X K vals commit cid votes acc = Inr p \<Longrightarrow>
    list_all (valid_vote X K vals commit cid) votes \<and>
    unat p = min (unat acc + sum_list (map (vote_power vals) votes)) (2 ^ 64 - 1)"
proof (induction votes arbitrary: acc)
  case Nil
  then show ?case using unat_less_pow [of acc] by simp
next
  case (Cons v votes)
  then show ?case
  proof (cases v)
    case (BlockIdFlagCommit a t s)
    with Cons.prems obtain g u where "s = Some g" "map_of vals a = Some u" "account_id_of K (vi_pub_key u) = a"
      "verify_vote_signature X K t commit cid (vi_pub_key u) g = Inr ()"
      "count_votes X K vals commit cid votes (saturating_add acc (vi_power u)) = Inr p"
      by (auto simp: Let_def split: option.splits if_splits)
    then show ?thesis using Cons.IH BlockIdFlagCommit
      by (fastforce simp: unat_saturating_add signed_by_validator_def validator_power_def)
  qed auto
qed

lemma quorum_threshold:
  assumes "does_commit_voting_power_have_quorum c t"
  shows "2 * unat t \<le> 3 * unat c + 1"
proof (cases "t < 3")
  case True
  then have "unat t < 3" by (simp add: word_less_nat_alt)
  moreover have "unat (saturating_mul t 2) < unat (saturating_mul c 3)"
    using assms True by (simp add: does_commit_voting_power_have_quorum_def word_less_nat_alt)
  ultimately show ?thesis by (simp add: unat_saturating_mul min_def split: if_splits)
next
  case False
  then have "unat (saturating_mul (t div 3) 2) < unat c"
    using assms by (simp add: does_commit_voting_power_have_quorum_def word_less_nat_alt)
  moreover have "unat t div 3 * 2 < 2 ^ 64" using unat_less_pow [of t] by simp
  ultimately show ?thesis by (simp add: unat_saturating_mul unat_div min_def split: if_splits)
qed

text \<open>
  C38. A commit that \<open>ensure_commit_has_quorum\<close> accepts is for the height after the height of the validator set. Every
  vote for the block in it carries a signature that verifies under the key of a validator of the set whose address is
  the voter's; votes for nil and absent votes are not checked. The total power of the set fits 64 bits, and the power of
  the votes for the block, where a validator counts as often as it occurs in the commit, is at most the total (unless the
  total is the largest 64-bit number) and reaches two thirds of the total less a third of a unit. When no voter occurs twice, the same holds of the power of the set of voters.
\<close>

theorem accepted_commit_has_quorum:
  assumes "height_api_ok A" "ensure_commit_has_quorum A X K commit vset cid = Inr ()"
  shows "let vals = validator_map K (vr_validators vset);
             voters = block_voters (co_signatures commit);
             total_power = sum_list (map (unat \<circ> vi_power) (vr_validators vset)) in
    unat (co_height commit) = unat (vr_block_height vset) + 1 \<and>
    (\<forall>a t g. BlockIdFlagCommit a t g \<in> set (co_signatures commit) \<longrightarrow>
      (\<exists>s v. g = Some s \<and> v \<in> set (vr_validators vset) \<and> map_of vals a = Some v \<and>
        account_id_of K (vi_pub_key v) = a \<and> verify_vote_signature X K t commit cid (vi_pub_key v) s = Inr ())) \<and>
    total_power < 2 ^ 64 \<and>
    min (sum_list (map (validator_power vals) voters)) (2 ^ 64 - 1) \<le> total_power \<and>
    2 * total_power \<le> 3 * sum_list (map (validator_power vals) voters) + 1 \<and>
    (distinct voters \<longrightarrow> 2 * total_power \<le> 3 * (\<Sum>a\<in>set voters. validator_power vals a) + 1)"
proof -
  let ?vals = "validator_map K (vr_validators vset)"
  from assms(2) obtain t p where q: "height_increment A (vr_block_height vset) = Some (co_height commit)"
    "sum_voting_power (vr_validators vset) 0 = Some t"
    "count_votes X K ?vals commit cid (co_signatures commit) 0 = Inr p"
    "does_commit_voting_power_have_quorum p t" "\<not> p > t"
    by (auto simp: ensure_commit_has_quorum_def)
  note c = count_votes_Inr [OF q(3)]
  have v: "\<exists>s v. g = Some s \<and> v \<in> set (vr_validators vset) \<and> map_of ?vals a = Some v \<and>
      account_id_of K (vi_pub_key v) = a \<and> verify_vote_signature X K ts commit cid (vi_pub_key v) s = Inr ()"
    if "BlockIdFlagCommit a ts g \<in> set (co_signatures commit)" for a ts g
  proof -
    from that c have "signed_by_validator X K ?vals commit cid a ts g" by (auto simp: list_all_iff)
    then show ?thesis
      by (auto simp: signed_by_validator_def map_of_validator_map split: option.splits)
  qed
  have m: "2 * unat t \<le> 3 * sum_list (map (validator_power ?vals) (block_voters (co_signatures commit))) + 1"
    using c quorum_threshold [OF q(4)] by (simp add: vote_power_voters)
  have l: "min (sum_list (map (validator_power ?vals) (block_voters (co_signatures commit)))) (2 ^ 64 - 1) \<le> unat t"
    using c q(5) by (simp add: vote_power_voters not_less word_le_nat_alt)
  have d: "distinct (block_voters (co_signatures commit)) \<longrightarrow>
      2 * unat t \<le> 3 * (\<Sum>a\<in>set (block_voters (co_signatures commit)). validator_power ?vals a) + 1"
    using m by (metis sum_list_distinct_conv_sum_set)
  show ?thesis
    using sum_voting_power_Some [OF q(2)] unat_less_pow [of t] q(1) v m l d
    by (simp add: Let_def height_increment_iff [OF assms(1)])
qed

section \<open>The code outside the repository, instantiated\<close>

definition sample_heights :: height_api where
  "sample_heights =
     \<lparr>height_from = (\<lambda>h. if h < 0x8000000000000000 then Inr h else Inl ''height''),
      height_increment = (\<lambda>h. if h < 0x7fffffffffffffff then Some (h + 1) else None)\<rparr>"

lemma sample_heights_ok: "height_api_ok sample_heights"
  by (simp add: sample_heights_def height_api_ok_def valid_height_def word_less_nat_alt)

definition sample_commit_api :: commit_api where
  "sample_commit_api = \<lparr>account_id_of = id, encode_canonical_vote = (\<lambda>v. [ucast (cv_height v)])\<rparr>"

text \<open>A validator set of powers 1, 1 and 1, and a commit that holds the vote of the first validator three times.\<close>

definition sample_validators :: validators_response where
  "sample_validators = \<lparr>vr_block_height = 6,
     vr_validators = map (\<lambda>k. \<lparr>vi_pub_key = ed25519_public_key sample_tx_codec [k], vi_power = 1\<rparr>) [1, 2, 3]\<rparr>"

definition sample_vote :: "u8 \<Rightarrow> commit_sig" where
  "sample_vote k = BlockIdFlagCommit (ed25519_public_key sample_tx_codec [k]) 0 (Some (ed25519_sign sample_tx_codec [k] [7]))"

definition sample_commit :: "u8 list \<Rightarrow> commit" where
  "sample_commit ks = \<lparr>co_height = 7, co_round = 0, co_block_hash = replicate 32 8, co_signatures = map sample_vote ks\<rparr>"

lemma sample_vote_verifies:
  "verify_vote_signature sample_tx_codec sample_commit_api 0 (sample_commit ks) cid
     (ed25519_public_key sample_tx_codec [k]) (ed25519_sign sample_tx_codec [k] [7]) = Inr ()"
  by (simp add: verify_vote_signature_def sample_tx_codec_def sample_codec_def sample_commit_api_def sample_commit_def)

lemma sample_members:
  "k \<in> {1, 2, 3} \<Longrightarrow> map_of (validator_map sample_commit_api (vr_validators sample_validators))
     (ed25519_public_key sample_tx_codec [k]) = Some \<lparr>vi_pub_key = ed25519_public_key sample_tx_codec [k], vi_power = 1\<rparr>"
  by (auto simp: validator_map_def sample_validators_def sample_commit_api_def sample_tx_codec_def)

lemma count_sample_votes:
  "set ks \<subseteq> {1, 2, 3} \<Longrightarrow>
    count_votes sample_tx_codec sample_commit_api (validator_map sample_commit_api (vr_validators sample_validators))
      (sample_commit js) cid (map sample_vote ks) acc = Inr (fold (\<lambda>_ p. saturating_add p 1) ks acc)"
  by (induction ks arbitrary: acc)
    (simp_all add: sample_vote_def sample_members sample_vote_verifies Let_def, simp add: sample_commit_api_def)

lemma sample_commit_quorum:
  assumes "set ks \<subseteq> {1, 2, 3}" "length ks = 3"
  shows "ensure_commit_has_quorum sample_heights sample_tx_codec sample_commit_api (sample_commit ks) sample_validators
     ''astria'' = Inr ()"
proof -
  obtain a b c where "ks = [a, b, c]" using assms(2) by (auto simp: length_Suc_conv eval_nat_numeral)
  then have "fold (\<lambda>_ p. saturating_add p 1) ks (0 :: u64) = 3" by (simp add: saturating_add_def)
  moreover have "sum_voting_power (vr_validators sample_validators) 0 = Some 3"
    by (simp add: sample_validators_def checked_add_def)
  moreover have "co_signatures (sample_commit ks) = map sample_vote ks" "co_height (sample_commit ks) = 7"
    "height_increment sample_heights (vr_block_height sample_validators) = Some 7"
    by (simp_all add: sample_commit_def sample_heights_def sample_validators_def)
  ultimately show ?thesis
    using count_sample_votes [OF assms(1), of ks "''astria''" 0]
    by (simp add: ensure_commit_has_quorum_def require_def does_commit_voting_power_have_quorum_def saturating_mul_def)
qed

lemma sample_quorum:
  "ensure_commit_has_quorum sample_heights sample_tx_codec sample_commit_api (sample_commit [1, 2, 3]) sample_validators
     ''astria'' = Inr ()"
  by (rule sample_commit_quorum) simp_all

text \<open>One validator of three reaches the quorum alone when its vote is repeated.\<close>

lemma repeated_vote_reaches_quorum:
  "ensure_commit_has_quorum sample_heights sample_tx_codec sample_commit_api (sample_commit [1, 1, 1]) sample_validators
     ''astria'' = Inr ()"
  by (rule sample_commit_quorum) simp_all

lemma quorum_below_two_thirds: "does_commit_voting_power_have_quorum 3 5" "\<not> 3 * unat (3 :: u64) > 2 * unat (5 :: u64)"
  by code_simp+

theorem accepted_commit_has_quorum_witness:
  "height_api_ok sample_heights \<and>
   ensure_commit_has_quorum sample_heights sample_tx_codec sample_commit_api (sample_commit [1, 2, 3]) sample_validators
     ''astria'' = Inr () \<and>
   (let vals = validator_map sample_commit_api (vr_validators sample_validators);
        voters = block_voters (co_signatures (sample_commit [1, 2, 3])) in
      distinct voters \<and> (6 :: nat) \<le> 3 * (\<Sum>a\<in>set voters. validator_power vals a) + 1)"
proof -
  have d: "distinct (block_voters (co_signatures (sample_commit [1, 2, 3])))"
    by (simp add: sample_commit_def sample_vote_def sample_tx_codec_def)
  have t: "sum_list (map (unat \<circ> vi_power) (vr_validators sample_validators)) = 3"
    by (simp add: sample_validators_def)
  from accepted_commit_has_quorum [OF sample_heights_ok sample_quorum, unfolded Let_def t] d
    sample_heights_ok sample_quorum show ?thesis unfolding Let_def by simp
qed

end
