(* ===== verification/Conductor_Reconstruct.thy ===== *)
theory Conductor_Reconstruct
  imports Conductor_Quorum "HOL-Library.Multiset"
begin

text \<open>
  Blocks that the conductor reconstructs from Celestia hold committed data: whatever blobs are posted, a
  reconstructed block with the data hash of a block that was built has the data of one of its rollups, or is empty.
  And the blobs of a block are reconstructed to the data of the rollup in it.
\<close>

section \<open>What is decoded\<close>

definition checked_metadata :: "'c block_codec \<Rightarrow> 'c submitted_metadata \<Rightarrow> bool" where
  "checked_metadata B m \<longleftrightarrow> length (sbh_rollup_transactions_root (sm_header m)) = 32 \<and>
     length (audit_path (sm_rollup_transactions_proof m)) mod 32 = 0 \<and>
     length (audit_path (sm_rollup_ids_proof m)) mod 32 = 0 \<and> list_all wf_rollup_id (sm_rollup_ids m) \<and>
     verify (sha256 B) (sm_rollup_transactions_proof m) (sha256 B (sbh_rollup_transactions_root (sm_header m)))
       (sbh_data_hash (sm_header m)) = Some True \<and>
     are_rollup_ids_included (sha256 B) (sm_rollup_ids m) (sm_rollup_ids_proof m) (sbh_data_hash (sm_header m)) = Some True"

definition checked_rollup :: "submitted_rollup_data \<Rightarrow> bool" where
  "checked_rollup r \<longleftrightarrow> wf_rollup_id (srd_rollup_id r) \<and> length (audit_path (srd_proof r)) mod 32 = 0"

lemma metadata_Inr: "submitted_metadata_try_from_raw B r = Inr m \<Longrightarrow> checked_metadata B m"
proof -
  assume a: "submitted_metadata_try_from_raw B r = Inr m"
  then obtain rtp rip rh ids where "proof_try_from_raw rtp = Inr (sm_rollup_transactions_proof m)"
      "proof_try_from_raw rip = Inr (sm_rollup_ids_proof m)" "header_try_from_raw B rh = Inr (sm_header m)"
    and ids: "try_map rollup_id_try_from_raw ids = Inr (sm_rollup_ids m)"
    by (auto simp: submitted_metadata_try_from_raw_def submitted_metadata_try_from_unchecked_def
        unchecked_metadata_try_from_raw_def Let_def simp del: try_opt_Inr_iff)
  moreover have "list_all wf_rollup_id (sm_rollup_ids m)" by (rule try_map_Inr_all [OF ids]) (rule rollup_id_wf)
  ultimately show ?thesis using a
    by (auto simp: checked_metadata_def submitted_metadata_try_from_raw_def submitted_metadata_try_from_unchecked_def
        Let_def dest: header_Inr checked_path simp del: try_opt_Inr_iff)
qed

lemma rollup_Inr: "submitted_rollup_data_try_from_raw r = Inr d \<Longrightarrow> checked_rollup d"
  by (auto simp: submitted_rollup_data_try_from_raw_def checked_rollup_def dest: rollup_id_wf checked_path)

definition checked_blobs :: "'c block_codec \<Rightarrow> 'c converted_blobs \<Rightarrow> bool" where
  "checked_blobs B c \<longleftrightarrow> list_all (checked_metadata B) (cb_metadata c) \<and> list_all checked_rollup (cb_rollup_data c)"

lemma extend_headers_checked:
  "\<lbrakk>extend_from_header_list_if_well_formed B entries c = Some c'; checked_blobs B c\<rbrakk> \<Longrightarrow> checked_blobs B c'"
  by (auto simp: extend_from_header_list_if_well_formed_def checked_blobs_def
      dest: try_map_Inr_all [where P = "checked_metadata B"] metadata_Inr split: sum.splits fault.splits)

lemma extend_rollups_checked:
  "\<lbrakk>extend_from_rollup_data_list_if_well_formed entries c = Some c'; checked_blobs B c\<rbrakk> \<Longrightarrow> checked_blobs B c'"
  by (auto simp: extend_from_rollup_data_list_if_well_formed_def checked_blobs_def
      dest: try_map_Inr_all [where P = checked_rollup] rollup_Inr split: sum.splits fault.splits)

lemma decode_headers_checked:
  "\<lbrakk>decode_header_blobs B P ns blobs c = Some c'; checked_blobs B c\<rbrakk> \<Longrightarrow> checked_blobs B c'"
  by (induction blobs arbitrary: c)
    (auto split: bind_splits if_splits option.splits dest: extend_headers_checked)

lemma decode_rollups_checked:
  "\<lbrakk>decode_rollup_blobs P ns blobs c = Some c'; checked_blobs B c\<rbrakk> \<Longrightarrow> checked_blobs B c'"
  by (induction blobs arbitrary: c)
    (auto split: bind_splits if_splits option.splits dest: extend_rollups_checked)

lemma decode_checked: "decode_raw_blobs B P raw rns sns = Some c \<Longrightarrow> checked_blobs B c"
  by (auto simp: decode_raw_blobs_def bind_eq_Some_conv checked_blobs_def
      dest!: decode_headers_checked [of B] decode_rollups_checked [of _ _ _ _ _ B])

section \<open>Where blocks come from\<close>

lemma verify_blob_same: "verify_blob A X K client cache m = (Some (Some m'), cache') \<Longrightarrow> m' = m"
  by (auto simp: verify_blob_def Let_def split: option.splits sum.splits fault.splits)

lemma snd_update: "snd ` set (AList.update k v al) \<subseteq> insert v (snd ` set al)"
  by (induction al) auto

lemma join_subset:
  "snd ` set (join_verifications A X K client cache blobs acc) \<subseteq> set blobs \<union> snd ` set acc"
proof (induction blobs arbitrary: cache acc)
  case (Cons b bs)
  obtain res cache' where v: "verify_blob A X K client cache b = (res, cache')" by fastforce
  let ?acc = "case res of Some (Some m) \<Rightarrow> AList.update (sm_block_hash m) m acc | _ \<Rightarrow> acc"
  have "snd ` set ?acc \<subseteq> insert b (snd ` set acc)"
  proof (cases "res = Some (Some b)")
    case True
    then show ?thesis using snd_update [of "sm_block_hash b" b acc] by simp
  next
    case False
    then have "?acc = acc" using verify_blob_same v by (auto split: option.splits)
    then show ?thesis by auto
  qed
  moreover have "join_verifications A X K client cache (b # bs) acc = join_verifications A X K client cache' bs ?acc"
    using v by simp
  ultimately show ?case using Cons.IH [of cache' ?acc] by (simp only: list.set Un_insert_left) blast
qed simp

lemma match_origin:
  "match_rollup_blobs H ch rs hs bs = Some (hs', bs') \<Longrightarrow> set hs' \<subseteq> set hs \<and>
    (\<forall>b \<in> set bs'. b \<in> set bs \<or> (\<exists>m \<in> snd ` set hs. \<exists>r \<in> set rs.
      verify_rollup_blob_against_sequencer_blob H r m = Some True \<and> b = block_from ch m (srd_transactions r)))"
proof (induction rs arbitrary: hs bs)
  case (Cons r rs)
  show ?case
  proof (cases "remove_header_blob_matching_rollup_blob H hs r")
    case None
    with Cons.prems show ?thesis by simp
  next
    case (Some p)
    obtain res hs1 where p: "p = (res, hs1)" by fastforce
    have sub: "set hs1 \<subseteq> set hs"
      using Some p by (auto simp: remove_header_blob_matching_rollup_blob_def AList.delete_eq split: option.splits if_splits)
    have res: "m \<in> snd ` set hs \<and> verify_rollup_blob_against_sequencer_blob H r m = Some True" if "res = Some m" for m
      using Some p that
      by (force simp: remove_header_blob_matching_rollup_blob_def dest: map_of_SomeD split: option.splits if_splits)
    let ?bs = "case res of None \<Rightarrow> bs | Some m \<Rightarrow> bs @ [block_from ch m (srd_transactions r)]"
    have "match_rollup_blobs H ch rs hs1 ?bs = Some (hs', bs')" using Cons.prems Some p by (cases res) simp_all
    note IH = Cons.IH [OF this]
    have new: "b \<in> set ?bs \<Longrightarrow> b \<in> set bs \<or> (\<exists>m. res = Some m \<and> b = block_from ch m (srd_transactions r))" for b
      by (cases res) auto
    show ?thesis
    proof (intro conjI ballI)
      show "set hs' \<subseteq> set hs" using IH sub by blast
      fix b assume "b \<in> set bs'"
      with IH consider "b \<in> set ?bs" | m r' where "m \<in> snd ` set hs1" "r' \<in> set rs"
        "verify_rollup_blob_against_sequencer_blob H r' m = Some True" "b = block_from ch m (srd_transactions r')"
        by blast
      then show "b \<in> set bs \<or> (\<exists>m \<in> snd ` set hs. \<exists>r \<in> set (r # rs).
        verify_rollup_blob_against_sequencer_blob H r m = Some True \<and> b = block_from ch m (srd_transactions r))"
      proof cases
        case 1
        then show ?thesis using new res by (meson list.set_intros(1))
      next
        case 2
        then have "m \<in> snd ` set hs" "r' \<in> set (r # rs)" using sub by auto
        then show ?thesis using 2(3,4) by blast
      qed
    qed
  qed
qed simp

lemma empty_origin:
  "b \<in> set (reconstruct_empty_blocks ch i ms bs) \<Longrightarrow>
    b \<in> set bs \<or> (\<exists>m \<in> set ms. i \<notin> set (sm_rollup_ids m) \<and> b = block_from ch m [])"
  by (induction ms arbitrary: bs) (fastforce simp: contains_rollup_id_def split: if_splits)+

lemma reconstruct_origin:
  assumes "reconstruct_blocks_from_verified_blobs H v i = Some bs" "b \<in> set bs"
  shows "\<exists>m \<in> snd ` set (vb_header_blobs v).
    (i \<notin> set (sm_rollup_ids m) \<and> b = block_from (vb_celestia_height v) m []) \<or>
    (\<exists>r \<in> set (vb_rollup_blobs v). verify_rollup_blob_against_sequencer_blob H r m = Some True \<and>
      b = block_from (vb_celestia_height v) m (srd_transactions r))"
proof -
  from assms(1) obtain hs bs' where hs: "match_rollup_blobs H (vb_celestia_height v) (vb_rollup_blobs v) (vb_header_blobs v) []
      = Some (hs, bs')" "bs = reconstruct_empty_blocks (vb_celestia_height v) i (map snd hs) bs'"
    by (auto simp: reconstruct_blocks_from_verified_blobs_def)
  note m = match_origin [OF hs(1)]
  have "b \<in> set bs' \<or> (\<exists>m \<in> set (map snd hs). i \<notin> set (sm_rollup_ids m) \<and> b = block_from (vb_celestia_height v) m [])"
    using assms(2) unfolding hs(2) by (rule empty_origin)
  then consider "b \<in> set bs'"
    | m where "m \<in> snd ` set hs" "i \<notin> set (sm_rollup_ids m)" "b = block_from (vb_celestia_height v) m []"
    unfolding set_map by blast
  then show ?thesis
  proof cases
    case 1
    show ?thesis using bspec [OF conjunct2 [OF m] 1] unfolding list.set by blast
  next
    case 2
    then have "m \<in> snd ` set (vb_header_blobs v)" using conjunct1 [OF m] by auto
    then show ?thesis using 2(2,3) by blast
  qed
qed

section \<open>Reconstructed data is committed\<close>

definition as_rollup_transactions :: "submitted_rollup_data \<Rightarrow> rollup_transactions" where
  "as_rollup_transactions r =
     \<lparr>rt_rollup_id = srd_rollup_id r, rt_transactions = srd_transactions r, rt_proof = srd_proof r\<rparr>"

lemma verify_rollup_blob_eq:
  "verify_rollup_blob_against_sequencer_blob H r m =
    do_rollup_transactions_match_root H (as_rollup_transactions r) (sbh_rollup_transactions_root (sm_header m))"
  by (simp add: verify_rollup_blob_against_sequencer_blob_def do_rollup_transactions_match_root_def
      as_rollup_transactions_def)

text \<open>Everything that checking the decoded blobs hashes.\<close>

definition metadata_inputs :: "hash_fun \<Rightarrow> 'c submitted_metadata \<Rightarrow> bytes set" where
  "metadata_inputs H m =
     item_inputs H (sm_rollup_transactions_proof m) (sbh_rollup_transactions_root (sm_header m)) \<union>
     ids_inputs H (sm_rollup_ids_proof m) (sm_rollup_ids m)"

definition blob_inputs :: "hash_fun \<Rightarrow> 'c converted_blobs \<Rightarrow> bytes set" where
  "blob_inputs H c = (\<Union>m\<in>set (cb_metadata c). metadata_inputs H m) \<union>
     (\<Union>r\<in>set (cb_rollup_data c). rollup_inputs H (as_rollup_transactions r))"

definition blobs_fit :: "'c converted_blobs \<Rightarrow> bool" where
  "blobs_fit c \<longleftrightarrow> list_all (\<lambda>m. fits_tree (sm_rollup_ids m)) (cb_metadata c) \<and>
     list_all (\<lambda>r. fits_tree (srd_transactions r)) (cb_rollup_data c)"

lemma metadata_bound:
  assumes ok: "block_codec_ok B" and inj: "inj_on (sha256 B) A" and inp: "builder_inputs (sha256 B) m others \<subseteq> A"
    and m: "list_all wf_rollup_id (map fst m)" and others: "list_all (\<lambda>x. length x \<noteq> 32) others"
    and md: "checked_metadata B md" "metadata_inputs (sha256 B) md \<subseteq> A" "fits_tree (sm_rollup_ids md)"
    and hash: "sbh_data_hash (sm_header md) = MTH (sha256 B) (map (sha256 B) (hashed_items (sha256 B) m others))"
  shows "sm_rollup_ids md = map fst m"
    and "sbh_rollup_transactions_root (sm_header md) = MTH (sha256 B) (map (rollup_leaf (sha256 B)) m) \<or>
      sbh_rollup_transactions_root (sm_header md) = MTH (sha256 B) (map fst m)"
proof -
  let ?H = "sha256 B"
  have len: "length (?H x) = 32" for x using ok by (simp add: block_codec_ok_def)
  have sub: "item_inputs ?H (sm_rollup_transactions_proof md) (sbh_rollup_transactions_root (sm_header md)) \<subseteq> A"
    "ids_inputs ?H (sm_rollup_ids_proof md) (sm_rollup_ids md) \<subseteq> A" using md(2) by (auto simp: metadata_inputs_def)
  have c: "length (sbh_rollup_transactions_root (sm_header md)) = 32"
    "length (audit_path (sm_rollup_transactions_proof md)) mod 32 = 0"
    "length (audit_path (sm_rollup_ids_proof md)) mod 32 = 0" "list_all wf_rollup_id (sm_rollup_ids md)"
    using md(1) by (simp_all add: checked_metadata_def)
  show "sm_rollup_ids md = map fst m"
    by (rule ids_bound [OF len inj inp others m c(4) sub(2) c(3)])
      (use md(1) in \<open>simp add: checked_metadata_def ids_included [OF len md(3)] hash\<close>)
  have "sbh_rollup_transactions_root (sm_header md) \<in> set (hashed_items ?H m others)"
    by (rule item_bound [OF len inj inp sub(1) c(2)]) (use md(1) in \<open>simp add: checked_metadata_def hash\<close>)
  then show "sbh_rollup_transactions_root (sm_header md) = MTH ?H (map (rollup_leaf ?H) m) \<or>
      sbh_rollup_transactions_root (sm_header md) = MTH ?H (map fst m)" by (rule root_bound [OF _ c(1) others])
qed

lemma reconstructed_bound:
  assumes ok: "block_codec_ok B" and inj: "inj_on (sha256 B) (builder_inputs (sha256 B) m others \<union> blob_inputs (sha256 B) c)"
    and m: "list_all wf_rollup_id (map fst m)" "distinct (map fst m)"
    and others: "list_all (\<lambda>x. length x \<noteq> 32) others"
    and c: "checked_blobs B c" "blobs_fit c"
    and v: "snd ` set (vb_header_blobs v) \<subseteq> set (cb_metadata c)" "vb_rollup_blobs v = cb_rollup_data c"
    and b: "reconstruct_blocks_from_verified_blobs (sha256 B) v i = Some bs" "b \<in> set bs"
    and hash: "sbh_data_hash (rcb_header b) = MTH (sha256 B) (map (sha256 B) (hashed_items (sha256 B) m others))"
  shows "(map_of m i = None \<and> rcb_transactions b = []) \<or> (\<exists>j. map_of m j = Some (rcb_transactions b))"
proof -
  let ?H = "sha256 B"
  let ?A = "builder_inputs ?H m others \<union> blob_inputs ?H c"
  have len: "length (?H x) = 32" for x using ok by (simp add: block_codec_ok_def)
  from reconstruct_origin [OF b, unfolded v(2)] obtain md where "md \<in> snd ` set (vb_header_blobs v)" and
    cases: "(i \<notin> set (sm_rollup_ids md) \<and> b = block_from (vb_celestia_height v) md []) \<or>
      (\<exists>r \<in> set (cb_rollup_data c). verify_rollup_blob_against_sequencer_blob ?H r md = Some True \<and>
        b = block_from (vb_celestia_height v) md (srd_transactions r))"
    by (rule bexE)
  then have md: "md \<in> set (cb_metadata c)" using v(1) by (blast intro: subsetD)
  have h: "sbh_data_hash (sm_header md) = MTH ?H (map ?H (hashed_items ?H m others))"
    using cases hash by (auto simp: block_from_def)
  have chk: "checked_metadata B md" "metadata_inputs ?H md \<subseteq> ?A" "fits_tree (sm_rollup_ids md)"
    using md c by (auto simp: checked_blobs_def blobs_fit_def list_all_iff blob_inputs_def)
  note bound = metadata_bound [OF ok inj Un_upper1 m(1) others chk h]
  from cases show ?thesis
  proof
    assume "i \<notin> set (sm_rollup_ids md) \<and> b = block_from (vb_celestia_height v) md []"
    then show ?thesis by (simp add: bound(1) block_from_def map_of_eq_None_iff)
  next
    assume "\<exists>r \<in> set (cb_rollup_data c). verify_rollup_blob_against_sequencer_blob ?H r md = Some True \<and>
        b = block_from (vb_celestia_height v) md (srd_transactions r)"
    then obtain r where r: "r \<in> set (cb_rollup_data c)" "verify_rollup_blob_against_sequencer_blob ?H r md = Some True"
      "b = block_from (vb_celestia_height v) md (srd_transactions r)" by blast
    have chk: "checked_rollup r" "fits_tree (srd_transactions r)" "rollup_inputs ?H (as_rollup_transactions r) \<subseteq> ?A"
      using r(1) c by (auto simp: checked_blobs_def blobs_fit_def list_all_iff blob_inputs_def)
    have "map_of m (rt_rollup_id (as_rollup_transactions r)) = Some (rt_transactions (as_rollup_transactions r))"
      by (rule rollup_bound [OF len inj Un_upper1 m bound(2) _ chk(3)])
        (use r(2) chk(1,2) match_root_eq [of ?H "as_rollup_transactions r", OF len] in
          \<open>simp_all add: verify_rollup_blob_eq checked_rollup_def as_rollup_transactions_def\<close>)
    then have "map_of m (srd_rollup_id r) = Some (rcb_transactions b)"
      by (simp add: as_rollup_transactions_def r(3) block_from_def)
    then show ?thesis by blast
  qed
qed

text \<open>
  C36. Whatever blobs are posted to Celestia and whatever the sequencer node answers, a block that the conductor
  reconstructs with the data hash of a block that was built has the data of one of the rollups of that block, or
  is empty and the block has no data for the conductor's rollup - or two different inputs that were hashed
  have the same hash.
\<close>

theorem reconstructed_block_is_committed_data:
  assumes "B = rd_block_codec R" "block_codec_ok B" "new_from_typed_data B data w = Inr d" "fits_tree data"
    and "try_build B (block_builder block_hash cid height time proposer d deposits) = Inr blk"
    and "fits_trees (block_rollup_datas B (user_submitted_transactions d) deposits)"
    and "list_all wf_rollup_id (map fst (rollups_of blk))"
    and "list_all (\<lambda>x. length x \<noteq> 32) (committed_items B w data)"
    and "\<And>xs. mset (rd_completed R xs) = mset xs"
    and "decode_raw_blobs B (rd_blob_api R) new_blobs rns sns = Some c" "blobs_fit c"
    and "fetch_convert_verify_and_reconstruct R cache (Inr new_blobs) st i rns sns = Inr bs" "b \<in> set bs"
    and "sbh_data_hash (rcb_header b) = sbh_data_hash (sb_header blk)"
  shows "(map_of (rollups_of blk) i = None \<and> rcb_transactions b = []) \<or>
    (\<exists>j. map_of (rollups_of blk) j = Some (rcb_transactions b)) \<or>
    collision_in (sha256 B)
      (builder_inputs (sha256 B) (rollups_of blk) (committed_items B w data) \<union> blob_inputs (sha256 B) c)"
proof -
  from assms(1,10,12) obtain v where v: "verify_metadata (rd_height_api R) (block_tx_codec B) (rd_commit_api R)
      (rd_sequencer_client R) cache (rd_completed R) c st = Some v"
    "reconstruct_blocks_from_verified_blobs (sha256 B) v i = Some bs"
    by (auto simp: fetch_convert_verify_and_reconstruct_def)
  have completed: "set (rd_completed R xs) = set xs" for xs using assms(9) by (rule mset_eq_setD)
  from v(1) obtain n where hb: "vb_header_blobs v = join_verifications (rd_height_api R) (block_tx_codec B)
      (rd_commit_api R) (rd_sequencer_client R) cache
      (rd_completed R (filter (\<lambda>blob. \<not> sbh_height (sm_header blob) < n) (cb_metadata c))) []"
    by (auto simp: verify_metadata_def)
  have "snd ` set (vb_header_blobs v) \<subseteq>
      set (rd_completed R (filter (\<lambda>blob. \<not> sbh_height (sm_header blob) < n) (cb_metadata c)))"
    unfolding hb by (rule subset_trans [OF join_subset]) simp
  then have "snd ` set (vb_header_blobs v) \<subseteq> set (cb_metadata c)" unfolding completed by auto
  moreover have "vb_rollup_blobs v = cb_rollup_data c" using v(1) by (auto simp: verify_metadata_def)
  moreover note built_data_hash [OF assms(2-6)]
  ultimately show ?thesis
    using reconstructed_bound [OF assms(2) _ assms(7) _ assms(8) decode_checked [OF assms(10)] assms(11) _ _ v(2) assms(13)]
      assms(14) unfolding no_collision [symmetric] by metis
qed

section \<open>The blobs of a block\<close>

lemma filter_tail:
  assumes "distinct (map fst rts)"
  shows "filter (\<lambda>r. srd_rollup_id r = i) (map (\<lambda>(j, rt).
      \<lparr>srd_sequencer_block_hash = h, srd_rollup_id = j, srd_transactions = rt_transactions rt, srd_proof = rt_proof rt\<rparr>) rts) =
    (case map_of rts i of None \<Rightarrow> []
     | Some rt \<Rightarrow> [\<lparr>srd_sequencer_block_hash = h, srd_rollup_id = i, srd_transactions = rt_transactions rt, srd_proof = rt_proof rt\<rparr>])"
  using assms
proof (induction rts)
  case (Cons e rts)
  then have "fst e = i \<Longrightarrow> map_of rts i = None" by (auto simp: map_of_eq_None_iff)
  then show ?case using Cons by (cases e) (auto split: option.splits)
qed simp

lemma try_map_each: "try_map f (map g xs) = Inr xs \<Longrightarrow> list_all (\<lambda>x. f (g x) = Inr x) xs"
  by (induction xs) auto

lemma split_verifies:
  assumes ok: "block_codec_ok B" and blk: "sendable_block B m blk" and rt: "map_of (sb_rollup_transactions blk) i = Some rt"
  shows "verify_rollup_blob_against_sequencer_blob (sha256 B)
      \<lparr>srd_sequencer_block_hash = h, srd_rollup_id = i, srd_transactions = rt_transactions rt, srd_proof = rt_proof rt\<rparr>
      (fst (split_for_celestia blk)) = Some True"
proof -
  have len: "length (sha256 B x) = 32" for x using ok by (simp add: block_codec_ok_def)
  have "rt_rollup_id rt = i \<and> fits_tree (rt_transactions rt) \<and> proves (sha256 B) (rt_proof rt)
      (rollup_leaf (sha256 B) (i, rt_transactions rt)) (sbh_rollup_transactions_root (sb_header blk))"
    using sendable_parts(1) [OF ok blk] map_of_SomeD [OF rt] by (auto simp: proven_part_def list_all_iff)
  then show ?thesis
    by (simp add: verify_rollup_blob_eq as_rollup_transactions_def match_root_eq [of "sha256 B", OF len] proves_def
        split_for_celestia_def from_sequencer_block_def Let_def)
qed

lemma reconstruct_split:
  assumes ok: "block_codec_ok B" and blk: "sendable_block B m blk"
  shows "reconstruct_blocks_from_verified_blobs (sha256 B)
      \<lparr>vb_celestia_height = ch, vb_header_blobs = [(sb_block_hash blk, fst (split_for_celestia blk))],
       vb_rollup_blobs = filter (\<lambda>r. srd_rollup_id r = i) (snd (split_for_celestia blk))\<rparr> i =
    Some [block_from ch (fst (split_for_celestia blk)) (content m i)]"
proof -
  have d: "distinct (map fst (sb_rollup_transactions blk))"
    using sendable_parts(1) [OF ok blk] by (simp add: proven_part_def)
  have tail: "snd (split_for_celestia blk) = map (\<lambda>(j, rt). \<lparr>srd_sequencer_block_hash = sb_block_hash blk,
      srd_rollup_id = j, srd_transactions = rt_transactions rt, srd_proof = rt_proof rt\<rparr>) (sb_rollup_transactions blk)"
    by (simp add: split_for_celestia_def from_sequencer_block_def Let_def)
  have m: "map_of m i = map_option rt_transactions (map_of (sb_rollup_transactions blk) i)"
    unfolding sendable_parts(2) [OF ok blk, symmetric] by (simp add: map_of_map)
  have ids: "sm_rollup_ids (fst (split_for_celestia blk)) = map fst (sb_rollup_transactions blk)"
    by (simp add: split_for_celestia_def from_sequencer_block_def Let_def)
  show ?thesis
  proof (cases "map_of (sb_rollup_transactions blk) i")
    case None
    then have "\<not> contains_rollup_id (fst (split_for_celestia blk)) i"
      by (simp add: contains_rollup_id_def ids map_of_eq_None_iff)
    then show ?thesis using None m
      by (simp add: reconstruct_blocks_from_verified_blobs_def tail filter_tail [OF d] content_def)
  next
    case (Some rt)
    then show ?thesis using m split_verifies [OF ok blk Some]
      by (simp add: reconstruct_blocks_from_verified_blobs_def tail filter_tail [OF d] content_def
          remove_header_blob_matching_rollup_blob_def)
  qed
qed

text \<open>The reader's commit for the height of the metadata: cached, or fetched with its quorum checked.\<close>

definition commit_known :: "'c celestia_reader \<Rightarrow> (u64 \<rightharpoonup> signed_header) \<Rightarrow> u64 \<Rightarrow> bool" where
  "commit_known R cache height \<longleftrightarrow> cache height \<noteq> None \<or>
     (case fetch_verification_meta (rd_height_api R) (block_tx_codec (rd_block_codec R)) (rd_commit_api R)
         (rd_sequencer_client R) height of Inl _ \<Rightarrow> False | Inr _ \<Rightarrow> True)"

lemma verify_blob_known:
  "commit_known R cache (sbh_height (sm_header m)) \<Longrightarrow>
    fst (verify_blob (rd_height_api R) (block_tx_codec (rd_block_codec R)) (rd_commit_api R) (rd_sequencer_client R)
      cache m) = Some (Some m)"
  by (auto simp: commit_known_def verify_blob_def Let_def split: option.splits sum.splits fault.splits)

lemma join_single:
  assumes "commit_known R cache (sbh_height (sm_header m))"
  shows "join_verifications (rd_height_api R) (block_tx_codec (rd_block_codec R)) (rd_commit_api R)
    (rd_sequencer_client R) cache [m] [] = [(sm_block_hash m, m)]"
proof -
  obtain cache' where "verify_blob (rd_height_api R) (block_tx_codec (rd_block_codec R)) (rd_commit_api R)
      (rd_sequencer_client R) cache m = (Some (Some m), cache')"
    using verify_blob_known [OF assms] prod.collapse by metis
  then show ?thesis by simp
qed

lemma split_decoded:
  assumes "block_codec_ok B" "sendable_block B m blk"
    and "blob_namespace hb = sns"
      "convert_blob_to_header_list P hb = Some [submitted_metadata_to_raw B (fst (split_for_celestia blk))]"
    and "blob_namespace rb = rns"
      "convert_blob_to_rollup_data_list P rb =
        Some (map submitted_rollup_data_to_raw (filter (\<lambda>r. srd_rollup_id r = i) (snd (split_for_celestia blk))))"
  shows "decode_raw_blobs B P \<lparr>rb_celestia_height = ch, rb_header_blobs = [hb], rb_rollup_blobs = [rb]\<rparr> rns sns =
    Some \<lparr>cb_celestia_height = ch, cb_metadata = [fst (split_for_celestia blk)],
      cb_rollup_data = filter (\<lambda>r. srd_rollup_id r = i) (snd (split_for_celestia blk))\<rparr>"
proof -
  let ?tail = "filter (\<lambda>r. srd_rollup_id r = i) (snd (split_for_celestia blk))"
  have "try_map submitted_rollup_data_try_from_raw (map submitted_rollup_data_to_raw ?tail) = Inr ?tail"
    using try_map_each [OF submitted_rollups_roundtrip [OF assms(1,2)]]
    by (intro try_map_roundtrip) (auto simp: list_all_iff)
  then show ?thesis using metadata_roundtrip [OF assms(1,2)] assms(3-6)
    by (simp add: decode_raw_blobs_def extend_from_header_list_if_well_formed_def
        extend_from_rollup_data_list_if_well_formed_def)
qed

lemma split_reconstructed:
  assumes "B = rd_block_codec R" "block_codec_ok B" "sendable_block B m blk"
    and "\<And>xs. mset (rd_completed R xs) = mset xs"
    and "blob_namespace hb = sns"
      "convert_blob_to_header_list (rd_blob_api R) hb = Some [submitted_metadata_to_raw B (fst (split_for_celestia blk))]"
    and "blob_namespace rb = rns"
      "convert_blob_to_rollup_data_list (rd_blob_api R) rb =
        Some (map submitted_rollup_data_to_raw (filter (\<lambda>r. srd_rollup_id r = i) (snd (split_for_celestia blk))))"
    and "next_expected_firm_sequencer_height (rd_height_api R) st = Some h" "h \<le> sbh_height (sb_header blk)"
    and "commit_known R cache (sbh_height (sb_header blk))"
  shows "fetch_convert_verify_and_reconstruct R cache
      (Inr \<lparr>rb_celestia_height = ch, rb_header_blobs = [hb], rb_rollup_blobs = [rb]\<rparr>) st i rns sns =
    Inr [block_from ch (fst (split_for_celestia blk)) (content m i)]"
proof -
  let ?head = "fst (split_for_celestia blk)" and ?tail = "filter (\<lambda>r. srd_rollup_id r = i) (snd (split_for_celestia blk))"
  have head: "sm_header ?head = sb_header blk" "sm_block_hash ?head = sb_block_hash blk"
    by (simp_all add: split_for_celestia_def from_sequencer_block_def Let_def)
  have "rd_completed R [?head] = [?head]" using assms(4) [of "[?head]"] by simp
  then have v: "verify_metadata (rd_height_api R) (block_tx_codec B) (rd_commit_api R) (rd_sequencer_client R) cache
      (rd_completed R) \<lparr>cb_celestia_height = ch, cb_metadata = [?head], cb_rollup_data = ?tail\<rparr> st =
    Some \<lparr>vb_celestia_height = ch, vb_header_blobs = [(sb_block_hash blk, ?head)], vb_rollup_blobs = ?tail\<rparr>"
    using join_single [of R cache ?head] assms(1,9-11)
    by (simp add: verify_metadata_def head not_less del: join_verifications.simps)
  show ?thesis using v reconstruct_split [OF assms(2,3), of ch i] split_decoded [OF assms(2,3,5-8), of ch] assms(1)
    by (simp add: fetch_convert_verify_and_reconstruct_def)
qed

lemma try_build_fields:
  assumes "try_build B b = Inr blk"
  shows "sbh_height (sb_header blk) = sbb_height b" "sb_block_hash blk = sbb_block_hash b"
  using assms by (auto simp: try_build_def Let_def)

text \<open>
  C37. The blobs of a block that was built come back as the block. Let a block be built as for the messages above: from
  data that was expanded without an error, with \<open>try_build\<close>. When exactly the metadata of the block and the
  blob with the data of rollup \<open>i\<close> in it are posted at a Celestia height, each under its namespace, the commit of the
  block's height is known (cached, or fetched and with a quorum), and this height is not below the next one that the
  conductor expects, then the conductor of rollup \<open>i\<close> reconstructs exactly one block, with the header and the
  hash of the block and the data submitted for the rollup and its deposits, in order; no data if the rollup has none.
\<close>

theorem celestia_blobs_are_reconstructed:
  assumes "B = rd_block_codec R" "block_codec_ok B"
    and "new_from_typed_data B data w = Inr d \<or> new_from_untyped_data B data = Inr d" "fits_tree data"
    and "try_build B (block_builder block_hash cid height time proposer d deposits) = Inr blk"
    and "fits_trees (block_rollup_datas B (user_submitted_transactions d) deposits)" "distinct (map fst deposits)"
    and "length block_hash = 32" "chain_id_try_from B cid = Inr cid" "height_try_from B height = Inr height"
      "account_id_try_from B proposer = Inr proposer"
      "list_all wf_rollup_id (map fst (block_rollup_datas B (user_submitted_transactions d) deposits))"
    and "\<And>xs. mset (rd_completed R xs) = mset xs"
    and "blob_namespace hb = sns"
      "convert_blob_to_header_list (rd_blob_api R) hb = Some [submitted_metadata_to_raw B (fst (split_for_celestia blk))]"
    and "blob_namespace rb = rns"
      "convert_blob_to_rollup_data_list (rd_blob_api R) rb =
        Some (map submitted_rollup_data_to_raw (filter (\<lambda>r. srd_rollup_id r = i) (snd (split_for_celestia blk))))"
    and "next_expected_firm_sequencer_height (rd_height_api R) st = Some h" "h \<le> height"
    and "commit_known R cache height"
  shows "fetch_convert_verify_and_reconstruct R cache
      (Inr \<lparr>rb_celestia_height = ch, rb_header_blobs = [hb], rb_rollup_blobs = [rb]\<rparr>) st i rns sns =
    Inr [\<lparr>rcb_celestia_height = ch, rcb_block_hash = block_hash, rcb_header = sb_header blk,
      rcb_transactions = (case rollup_share B (user_submitted_transactions d) deposits i of None \<Rightarrow> [] | Some txs \<Rightarrow> txs),
      rcb_extended_commit_info =
        map_option cip_extended_commit_info (sb_extended_commit_info_with_proof blk)\<rparr>]"
proof -
  let ?m = "block_rollup_datas B (user_submitted_transactions d) deposits"
  have s: "sendable_block B ?m blk" by (rule built_is_sendable [OF assms(2-5) refl assms(6,8-12)])
  have h: "sbh_height (sb_header blk) = height" "sb_block_hash blk = block_hash"
    using try_build_fields [OF assms(5)] by (simp_all add: block_builder_def)
  have "fetch_convert_verify_and_reconstruct R cache
      (Inr \<lparr>rb_celestia_height = ch, rb_header_blobs = [hb], rb_rollup_blobs = [rb]\<rparr>) st i rns sns =
    Inr [block_from ch (fst (split_for_celestia blk)) (content ?m i)]"
    using assms(19,20) by (intro split_reconstructed [OF assms(1,2) s assms(13-18)]) (simp_all add: h)
  then show ?thesis
    by (simp add: block_from_def content_def map_of_block_rollup_datas [OF assms(7)] h sm_extended_commit_info_def
        split_for_celestia_def from_sequencer_block_def Let_def)
qed

section \<open>A block on Celestia\<close>

definition sample_metadata :: executed_block_metadata where
  "sample_metadata = \<lparr>ebm_number = 1, ebm_hash = ''a'', ebm_parent_hash = ''p'',
     ebm_timestamp = \<lparr>ts_seconds = 0, ts_nanos = 0\<rparr>, ebm_sequencer_block_hash = ''s''\<rparr>"

definition sample_session :: execution_session where
  "sample_session = \<lparr>es_session_id = ''s'',
     es_execution_session_parameters = \<lparr>esp_rollup_id = replicate 32 5, esp_rollup_start_block_number = 2,
       esp_rollup_end_block_number = Some 9, esp_sequencer_chain_id = ''astria'', esp_sequencer_start_block_height = 7,
       esp_celestia_chain_id = ''celestia'', esp_celestia_search_height_max_look_ahead = 3\<rparr>,
     es_commitment_state = \<lparr>soft_executed_block_metadata = sample_metadata, firm_executed_block_metadata = sample_metadata,
       cs_lowest_celestia_search_height = 1\<rparr>\<rparr>"

definition sample_conductor :: conductor_state where
  "sample_conductor = \<lparr>st_execution_session_id = es_session_id sample_session,
     st_execution_session_parameters = es_execution_session_parameters sample_session,
     st_commitment_state = es_commitment_state sample_session\<rparr>"

lemmas sample_state_simps = sample_conductor_def sample_session_def sample_metadata_def sample_heights_def
  map_rollup_number_to_sequencer_height_def map_number_for_def checked_add_def checked_sub_def

lemma sample_next_heights:
  "next_expected_firm_sequencer_height sample_heights sample_conductor = Some 7"
  "next_expected_soft_sequencer_height sample_heights sample_conductor = Some 7"
  by (simp_all add: next_expected_firm_sequencer_height_def next_expected_soft_sequencer_height_def
      map_firm_to_sequencer_height_def map_soft_to_sequencer_height_def sample_state_simps)

definition sample_blob :: "u8 \<Rightarrow> blob" where
  "sample_blob n = \<lparr>blob_namespace = [n], blob_data = []\<rparr>"

definition sample_reader :: "unit sequencer_block \<Rightarrow> rollup_id \<Rightarrow> unit celestia_reader" where
  "sample_reader blk i = \<lparr>rd_block_codec = sample_block_codec,
     rd_blob_api = \<lparr>decompress_bytes = Inr,
       decode_metadata_list = (\<lambda>_. Inr [submitted_metadata_to_raw sample_block_codec (fst (split_for_celestia blk))]),
       decode_rollup_data_list = (\<lambda>_. Inr (map submitted_rollup_data_to_raw
         (filter (\<lambda>r. srd_rollup_id r = i) (snd (split_for_celestia blk)))))\<rparr>,
     rd_height_api = sample_heights, rd_commit_api = sample_commit_api,
     rd_sequencer_client = \<lparr>get_commit = (\<lambda>_. Inr \<lparr>sh_chain_id = ''astria'', sh_commit = sample_commit [1, 2, 3]\<rparr>),
       get_validators = (\<lambda>_ _. Inr sample_validators)\<rparr>,
     rd_completed = id\<rparr>"

lemma sample_commit_known: "commit_known (sample_reader blk i) Map.empty 7"
proof -
  have "height_from sample_heights 6 = Inr 6" by (simp add: sample_heights_def)
  then show ?thesis using sample_quorum
    by (simp add: commit_known_def fetch_verification_meta_def sample_reader_def sample_block_codec_def saturating_sub_def)
qed

lemma sample_blobs:
  "convert_blob_to_header_list (rd_blob_api (sample_reader blk i)) b =
    Some [submitted_metadata_to_raw sample_block_codec (fst (split_for_celestia blk))]"
  "convert_blob_to_rollup_data_list (rd_blob_api (sample_reader blk i)) b =
    Some (map submitted_rollup_data_to_raw (filter (\<lambda>r. srd_rollup_id r = i) (snd (split_for_celestia blk))))"
  by (simp_all add: convert_blob_to_header_list_def convert_blob_to_rollup_data_list_def sample_reader_def)

theorem celestia_blobs_are_reconstructed_witness:
  "\<exists>c d blk. new_from_typed_data sample_block_codec (typed_items sample_block_codec c [] None [[9]]) False = Inr d \<and>
    try_build sample_block_codec (block_builder (replicate 32 8) ''astria'' 7 0 (replicate 20 1) d sample_deposits) =
      Inr blk \<and>
    fetch_convert_verify_and_reconstruct (sample_reader blk (replicate 32 5)) Map.empty
      (Inr \<lparr>rb_celestia_height = 4, rb_header_blobs = [sample_blob 1], rb_rollup_blobs = [sample_blob 2]\<rparr>)
      sample_conductor (replicate 32 5) [2] [1] =
    Inr [\<lparr>rcb_celestia_height = 4, rcb_block_hash = replicate 32 8, rcb_header = sb_header blk, rcb_transactions = [[2]],
      rcb_extended_commit_info =
        map_option cip_extended_commit_info (sb_extended_commit_info_with_proof blk)\<rparr>]"
proof -
  let ?B = sample_block_codec and ?i = "replicate 32 5 :: bytes"
  obtain c d blk where built: "new_from_typed_data ?B (typed_items ?B c [] None [[9]]) False = Inr d"
      "try_build ?B (block_builder (replicate 32 8) ''astria'' 7 0 (replicate 20 1) d sample_deposits) = Inr blk"
      "user_submitted_transactions d = [sample_signed]" "fits_tree (typed_items ?B c [] None [[9]])"
    by (rule sample_block_built)
  let ?R = "sample_reader blk ?i"
  have m: "block_rollup_datas ?B (user_submitted_transactions d) sample_deposits = sample_rollups"
    by (simp add: built(3) sample_rollup_datas)
  have deps: "distinct (map fst sample_deposits)" by (simp add: sample_deposits_def)
  have share: "rollup_share ?B (user_submitted_transactions d) sample_deposits ?i = Some [[2]]"
    unfolding map_of_block_rollup_datas [OF deps, symmetric] m by (simp add: sample_rollups_def)
  have R: "rd_block_codec ?R = ?B" "rd_height_api ?R = sample_heights" "rd_completed ?R = id"
    by (simp_all add: sample_reader_def)
  have ns: "blob_namespace (sample_blob n) = [n]" for n by (simp add: sample_blob_def)
  have "fetch_convert_verify_and_reconstruct ?R Map.empty
      (Inr \<lparr>rb_celestia_height = 4, rb_header_blobs = [sample_blob 1], rb_rollup_blobs = [sample_blob 2]\<rparr>)
      sample_conductor ?i [2] [1] =
    Inr [\<lparr>rcb_celestia_height = 4, rcb_block_hash = replicate 32 8, rcb_header = sb_header blk, rcb_transactions =
      (case rollup_share ?B (user_submitted_transactions d) sample_deposits ?i of None \<Rightarrow> [] | Some txs \<Rightarrow> txs),
      rcb_extended_commit_info =
        map_option cip_extended_commit_info (sb_extended_commit_info_with_proof blk)\<rparr>]"
    by (rule celestia_blobs_are_reconstructed [OF R(1) [symmetric] sample_block_codec_ok disjI1 [OF built(1)] built(4,2) _ deps _
        sample_header_values _ _ ns sample_blobs(1) ns sample_blobs(2), where h = 7])
      (simp_all add: m sample_fits sample_wf_rollups R sample_next_heights sample_commit_known)
  then show ?thesis using built(1,2) share by auto
qed

theorem reconstructed_block_is_committed_data_witness:
  "\<exists>blk b (c :: unit converted_blobs). rcb_transactions b = [[2]] \<and>
    fetch_convert_verify_and_reconstruct (sample_reader blk (replicate 32 5)) Map.empty
      (Inr \<lparr>rb_celestia_height = 4, rb_header_blobs = [sample_blob 1], rb_rollup_blobs = [sample_blob 2]\<rparr>)
      sample_conductor (replicate 32 5) [2] [1] = Inr [b] \<and>
    ((map_of (rollups_of blk) (replicate 32 5) = None \<and> rcb_transactions b = []) \<or>
     (\<exists>j. map_of (rollups_of blk) j = Some (rcb_transactions b)) \<or>
     collision_in (sha256 sample_block_codec) (builder_inputs (sha256 sample_block_codec) (rollups_of blk) [[9]] \<union>
       blob_inputs (sha256 sample_block_codec) c))"
proof -
  let ?B = sample_block_codec and ?i = "replicate 32 5 :: bytes"
  obtain c0 d blk where d: "new_from_typed_data ?B (typed_items ?B c0 [] None [[9]]) False = Inr d"
    and blk: "try_build ?B (block_builder (replicate 32 8) ''astria'' 7 0 (replicate 20 1) d sample_deposits) = Inr blk"
      "sendable_block ?B sample_rollups blk" "user_submitted_transactions d = [sample_signed]"
    by (rule sample_block_sendable)
  let ?R = "sample_reader blk ?i" and ?head = "fst (split_for_celestia blk)"
  let ?tail = "filter (\<lambda>r. srd_rollup_id r = ?i) (snd (split_for_celestia blk))"
  let ?raw = "\<lparr>rb_celestia_height = 4, rb_header_blobs = [sample_blob 1], rb_rollup_blobs = [sample_blob 2]\<rparr>"
  let ?c = "\<lparr>cb_celestia_height = 4, cb_metadata = [?head], cb_rollup_data = ?tail\<rparr>"
  note parts = sendable_parts [OF sample_block_codec_ok blk(2)]
  have h: "sbh_height (sb_header blk) = 7" using try_build_fields(1) [OF blk(1)] by (simp add: block_builder_def)
  have R: "rd_block_codec ?R = ?B" "rd_height_api ?R = sample_heights" "rd_completed ?R = id"
    by (simp_all add: sample_reader_def)
  have ns: "blob_namespace (sample_blob n) = [n]" for n by (simp add: sample_blob_def)
  have dec: "decode_raw_blobs ?B (rd_blob_api ?R) ?raw [2] [1] = Some ?c"
    by (rule split_decoded [OF sample_block_codec_ok blk(2) ns sample_blobs(1) ns sample_blobs(2)])
  have run: "fetch_convert_verify_and_reconstruct ?R Map.empty (Inr ?raw) sample_conductor ?i [2] [1] =
      Inr [block_from 4 ?head (content sample_rollups ?i)]"
    by (rule split_reconstructed [OF R(1) [symmetric] sample_block_codec_ok blk(2) _ ns sample_blobs(1) ns sample_blobs(2), where h = 7])
      (simp_all add: R h sample_commit_known sample_next_heights)
  have rollups: "rollups_of blk = sample_rollups" using parts(2) by (simp add: rollups_of_def)
  have items: "committed_items ?B False (typed_items ?B c0 [] None [[9]]) = [[9]]"
    using sample_no_change_hashes
    by (auto simp: committed_items_def typed_items_def commitment_items_def take_extended_commit_info_def
        no_change_hashes_def split: sum.splits data_item.splits)
  have fits: "fits_trees (block_rollup_datas ?B (user_submitted_transactions d) sample_deposits)"
    by (simp add: blk(3) sample_rollup_datas sample_fits)
  have c: "blobs_fit ?c"
    using parts(1,3) by (auto simp: blobs_fit_def split_for_celestia_def from_sequencer_block_def Let_def
        list_all_iff proven_part_def fits_tree_def sample_rollups_def)
  note concl = reconstructed_block_is_committed_data [OF R(1) [symmetric] sample_block_codec_ok d _ blk(1) fits _ _ _ dec c run]
  have "(map_of (rollups_of blk) ?i = None \<and> rcb_transactions (block_from 4 ?head (content sample_rollups ?i)) = []) \<or>
     (\<exists>j. map_of (rollups_of blk) j = Some (rcb_transactions (block_from 4 ?head (content sample_rollups ?i)))) \<or>
     collision_in (sha256 ?B) (builder_inputs (sha256 ?B) (rollups_of blk)
       (committed_items ?B False (typed_items ?B c0 [] None [[9]])) \<union> blob_inputs (sha256 ?B) ?c)"
    by (rule concl) (simp_all add: R items rollups, simp_all add: fits_tree_def typed_items_def commitment_items_def
        sample_rollups_def wf_rollup_id_def ROLLUP_ID_LEN_def block_from_def split_for_celestia_def
        from_sequencer_block_def Let_def)
  moreover have "rcb_transactions (block_from 4 ?head (content sample_rollups ?i)) = [[2]]"
    by (simp add: block_from_def content_def sample_rollups_def)
  ultimately show ?thesis using run unfolding items by blast
qed

text \<open>
  The identifier of the conductor's rollup is not compared with that of the rollup data: data of another rollup of the
  block is reconstructed as the data of this one.
\<close>

lemma foreign_rollup_is_reconstructed:
  assumes ok: "block_codec_ok B" and blk: "sendable_block B m blk" and rt: "map_of (sb_rollup_transactions blk) j = Some rt"
  shows "reconstruct_blocks_from_verified_blobs (sha256 B)
      \<lparr>vb_celestia_height = ch, vb_header_blobs = [(sb_block_hash blk, fst (split_for_celestia blk))],
       vb_rollup_blobs = [\<lparr>srd_sequencer_block_hash = sb_block_hash blk, srd_rollup_id = j,
         srd_transactions = rt_transactions rt, srd_proof = rt_proof rt\<rparr>]\<rparr> i =
    Some [block_from ch (fst (split_for_celestia blk)) (rt_transactions rt)]"
  using split_verifies [OF ok blk rt]
  by (simp add: reconstruct_blocks_from_verified_blobs_def remove_header_blob_matching_rollup_blob_def)

end
