(* ===== verification/Conductor_Runs.thy ===== *)
theory Conductor_Runs
  imports Conductor_Executor Conductor_Reconstruct
begin

text \<open>
  Runs of the executor: whatever blocks arrive from its two readers, and in whatever order, the rollup node is asked to
  execute the blocks of consecutive sequencer heights, each exactly once.
\<close>

section \<open>Steps\<close>

text \<open>A node that answers an update of the commitments with the commitments it was sent.\<close>

definition echoes :: "rollup_node \<Rightarrow> bool" where
  "echoes N \<longleftrightarrow> (\<forall>s c c'. rn_update_commitment_state N s c = Inr c' \<longrightarrow> c' = c)"

text \<open>Blocks only arrive from a reader that runs at the commit level.\<close>

fun arrives :: "commit_level \<Rightarrow> 'c loop_event \<Rightarrow> bool" where
  "arrives l (FirmBlock b) = is_with_firm l"
| "arrives l (SoftBlock b) = is_with_soft l"
| "arrives l (ReaderExit k r) = True"

definition pending_ok :: "executor \<Rightarrow> bool" where
  "pending_ok e \<longleftrightarrow> (\<forall>n m. ex_blocks_pending_finalization e n = Some m \<longrightarrow> ebm_number m = n)"

abbreviation firm_of :: "executor \<Rightarrow> u64" where
  "firm_of e \<equiv> firm_number (ex_state e)"

abbreviation soft_of :: "executor \<Rightarrow> u64" where
  "soft_of e \<equiv> soft_number (ex_state e)"

definition same_session :: "executor \<Rightarrow> executor \<Rightarrow> bool" where
  "same_session e e' \<longleftrightarrow> ex_commit_level e' = ex_commit_level e \<and>
     st_execution_session_parameters (ex_state e') = st_execution_session_parameters (ex_state e)"

lemma same_session_height: "same_session e e' \<Longrightarrow> height_of (ex_state e') n = height_of (ex_state e) n"
  by (simp add: same_session_def height_of_def sequencer_start_block_height_def rollup_start_block_number_def)

definition executes :: "executor \<Rightarrow> executor \<Rightarrow> u64 \<Rightarrow> bool" where
  "executes e e' n \<longleftrightarrow> (\<exists>b. ex_executed e' = ex_executed e @ [b] \<and>
     int (unat (xb_height b)) = height_of (ex_state e) n + 1)"

lemma updated:
  assumes "echoes N" "update_commitment_state E N e u = Inr e'"
  shows "same_session e e'" "ex_blocks_pending_finalization e' = ex_blocks_pending_finalization e"
    "ex_executed e' = ex_executed e" "firm_le_soft (st_commitment_state (ex_state e'))"
    "firm_of e' = (case u of OnlyFirm b h \<Rightarrow> ebm_number b | OnlySoft b \<Rightarrow> firm_of e | ToSame b h \<Rightarrow> ebm_number b)"
    "soft_of e' = (case u of OnlyFirm b h \<Rightarrow> soft_of e | OnlySoft b \<Rightarrow> ebm_number b | ToSame b h \<Rightarrow> ebm_number b)"
proof -
  obtain firm soft h l where u: "(case u of
      OnlyFirm firm celestia_height \<Rightarrow> (firm, st_soft (ex_state e), celestia_height, FirmOnly)
    | OnlySoft soft \<Rightarrow> (st_firm (ex_state e), soft, lowest_celestia_search_height (ex_state e), SoftOnly)
    | ToSame block celestia_height \<Rightarrow> (block, block, celestia_height, SoftAndFirm)) = (firm, soft, h, l)"
    by (cases u) auto
  from assms(2) u obtain c new st' where c: "commitment_state_build firm soft h = Inr c"
    and new: "update_commitment_state_with_retry N (st_execution_session_id (ex_state e)) c = Inr new"
    and st': "try_update_commitment_state (ee_heights E) (ex_state e) new l = Inr st'" "e' = e\<lparr>ex_state := st'\<rparr>"
    by (auto simp: update_commitment_state_def Let_def)
  have c': "firm_le_soft c" "firm_executed_block_metadata c = firm" "soft_executed_block_metadata c = soft"
    using c by (auto simp: commitment_state_build_Inr)
  obtain raw where raw: "rn_update_commitment_state N (st_execution_session_id (ex_state e)) (commitment_state_to_raw c) = Inr raw"
    "commitment_state_try_from_raw raw = Inr new"
    using new by (auto simp: update_commitment_state_with_retry_def)
  have "raw = commitment_state_to_raw c" using raw(1) assms(1) unfolding echoes_def by blast
  then have "new = c" using raw(2) commitment_wire.roundtrip [OF c'(1)] by simp
  then have s: "st' = (ex_state e)\<lparr>st_commitment_state := c\<rparr>" using st'(1)
    by (auto simp: try_update_commitment_state_def)
  show "same_session e e'" "ex_blocks_pending_finalization e' = ex_blocks_pending_finalization e"
    "ex_executed e' = ex_executed e" "firm_le_soft (st_commitment_state (ex_state e'))"
    by (simp_all add: st'(2) s same_session_def c'(1))
  show "firm_of e' = (case u of OnlyFirm b h \<Rightarrow> ebm_number b | OnlySoft b \<Rightarrow> firm_of e | ToSame b h \<Rightarrow> ebm_number b)"
    "soft_of e' = (case u of OnlyFirm b h \<Rightarrow> soft_of e | OnlySoft b \<Rightarrow> ebm_number b | ToSame b h \<Rightarrow> ebm_number b)"
    using u by (auto simp: st'(2) s firm_number_def soft_number_def st_firm_def st_soft_def c' split: block_update.splits)
qed

lemma executed_number:
  "execute_and_check E N e k h b = Inr x \<Longrightarrow>
    unat (ebm_number x) = unat (case k of FirmExecution \<Rightarrow> firm_of e | SoftExecution \<Rightarrow> soft_of e) + 1"
  by (auto simp: execute_and_check_def does_block_response_fulfill_contract_def Let_def checked_add_Some_iff
      split: if_splits)

lemma next_number:
  assumes "rollup_number_of e h = Inr n" "int (unat h) = height_of (ex_state e) k + 1"
  shows "unat n = unat k + 1"
  using assms number_of_next_height [of "ex_state e" h n]
  by (auto simp: rollup_number_of_def height_of_def simp del: of_nat_unat)

section \<open>Soft blocks\<close>

lemma soft_step:
  assumes A: "height_api_ok (ee_heights E)" and N: "echoes N" and e: "pending_ok e"
    and run: "execute_soft E N e b = Inr e'" and moved: "e' \<noteq> e"
  shows "same_session e e' \<and> pending_ok e' \<and> firm_le_soft (st_commitment_state (ex_state e')) \<and> executes e e' (soft_of e) \<and>
    firm_of e' = firm_of e \<and> unat (soft_of e') = unat (soft_of e) + 1"
proof -
  from run moved obtain blk g n x e1 where g: "next_expected_soft_sequencer_height (ee_heights E) (ex_state e) = Some g"
    and h: "\<not> xb_height blk < g" "\<not> xb_height blk > g" and n: "rollup_number_of e (xb_height blk) = Inr n"
    and x: "execute_and_check E N e SoftExecution (soft_hash (ex_state e)) blk = Inr x"
    and e1: "update_commitment_state E N (e\<lparr>ex_executed := ex_executed e @ [blk]\<rparr>) (OnlySoft x) = Inr e1"
    and e': "e' = e1\<lparr>ex_blocks_pending_finalization := (ex_blocks_pending_finalization e1)(n \<mapsto> x)\<rparr>"
    by (auto simp: execute_soft_def split: if_splits)
  have hg: "xb_height blk = g" using h by (simp add: order.antisym not_less)
  have height: "int (unat (xb_height blk)) = height_of (ex_state e) (soft_of e) + 1"
    using next_soft_height [OF A g] hg by simp
  have num: "unat (ebm_number x) = unat (soft_of e) + 1" using executed_number [OF x] by simp
  have "ebm_number x = n" using next_number [OF n height] num by (simp add: word_unat_eq_iff)
  then have "pending_ok e'" using e updated(2) [OF N e1] by (simp add: e' pending_ok_def)
  then show ?thesis using updated [OF N e1] num height
    by (auto simp: e' same_session_def executes_def)
qed

section \<open>Firm blocks\<close>

lemma fetched_number: "get_executed_block_metadata_with_retry N n = Inr m \<Longrightarrow> ebm_number m = n"
  by (auto simp: get_executed_block_metadata_with_retry_def block_metadata_try_from_raw_def split: if_splits)

lemma firm_step:
  assumes A: "height_api_ok (ee_heights E)" and N: "echoes N" and e: "pending_ok e"
    and run: "execute_firm E N e b = Inr e'"
  shows "same_session e e' \<and> pending_ok e' \<and> firm_le_soft (st_commitment_state (ex_state e')) \<and>
    unat (firm_of e') = unat (firm_of e) + 1 \<and>
    (if ex_commit_level e = FirmOnly \<or> ex_commit_level e = SoftAndFirm \<and> firm_of e = soft_of e
     then executes e e' (firm_of e) \<and> soft_of e' = firm_of e'
     else ex_executed e' = ex_executed e \<and> soft_of e' = soft_of e)"
proof -
  let ?exec = "\<lambda>g h. should_execute_firm_block g h (ex_commit_level e)"
  from run obtain blk g h n e1 u where g: "next_expected_firm_sequencer_height (ee_heights E) (ex_state e) = Some g"
    "next_expected_soft_sequencer_height (ee_heights E) (ex_state e) = Some h" "xb_height blk = g"
    and n: "rollup_number_of e (xb_height blk) = Inr n"
    and u: "update_commitment_state E N e1 u = Inr e'"
    and e1: "(if ?exec g h then
        try_bind (wrap id (execute_and_check E N e FirmExecution (firm_hash (ex_state e)) blk)) (\<lambda>executed_block.
          Inr (e\<lparr>ex_executed := ex_executed e @ [blk]\<rparr>, ToSame executed_block (rcb_celestia_height b)))
       else (case ex_blocks_pending_finalization e n of
          Some pending \<Rightarrow> Inr (e\<lparr>ex_blocks_pending_finalization := (ex_blocks_pending_finalization e)(n := None)\<rparr>,
            OnlyFirm pending (rcb_celestia_height b))
        | None \<Rightarrow> try_bind (wrap ClientError (get_executed_block_metadata_with_retry N n)) (\<lambda>block.
            Inr (e, OnlyFirm block (rcb_celestia_height b))))) = Inr (e1, u)"
    unfolding execute_firm_def by (auto simp del: if_split)
  have height: "int (unat (xb_height blk)) = height_of (ex_state e) (firm_of e) + 1"
    using next_firm_height [OF A g(1)] g(3) by simp
  have num: "unat n = unat (firm_of e) + 1" by (rule next_number [OF n height])
  have "int (unat g) = height_of (ex_state e) (firm_of e) + 1" "int (unat h) = height_of (ex_state e) (soft_of e) + 1"
    by (rule next_firm_height [OF A g(1)], rule next_soft_height [OF A g(2)])
  then have "g = h \<longleftrightarrow> firm_of e = soft_of e"
    using height_of_eq_iff [of "ex_state e" "firm_of e" "soft_of e"] by (auto simp: word_uint_eq_iff)
  then have ex: "?exec g h \<longleftrightarrow> ex_commit_level e = FirmOnly \<or> ex_commit_level e = SoftAndFirm \<and> firm_of e = soft_of e"
    by (cases "ex_commit_level e") auto
  show ?thesis
  proof (cases "?exec g h")
    case True
    then obtain x where x: "execute_and_check E N e FirmExecution (firm_hash (ex_state e)) blk = Inr x"
      "e1 = e\<lparr>ex_executed := ex_executed e @ [blk]\<rparr>" "u = ToSame x (rcb_celestia_height b)" using e1 by auto
    then show ?thesis using updated [OF N u] executed_number [OF x(1)] height True e ex
      by (auto simp: same_session_def executes_def pending_ok_def)
  next
    case False
    obtain m where m: "u = OnlyFirm m (rcb_celestia_height b)" "ebm_number m = n" "pending_ok e1" "same_session e e1"
      "ex_executed e1 = ex_executed e" "ex_state e1 = ex_state e"
    proof (cases "ex_blocks_pending_finalization e n")
      case None
      then obtain m where "get_executed_block_metadata_with_retry N n = Inr m" "e1 = e"
        "u = OnlyFirm m (rcb_celestia_height b)" using e1 False by auto
      then show ?thesis using e by (intro that [of m]) (simp_all add: same_session_def fetched_number)
    next
      case (Some m)
      then have "e1 = e\<lparr>ex_blocks_pending_finalization := (ex_blocks_pending_finalization e)(n := None)\<rparr>"
        "u = OnlyFirm m (rcb_celestia_height b)" using e1 False by auto
      then show ?thesis using e Some by (intro that [of m]) (simp_all add: same_session_def pending_ok_def)
    qed
    then show ?thesis using updated [OF N u] num False ex
      by (auto simp: same_session_def pending_ok_def)
  qed
qed

section \<open>Runs\<close>

text \<open>The number that executions advance: the firm one when only firm blocks are executed, else the soft one.\<close>

definition head_number :: "executor \<Rightarrow> u64" where
  "head_number e = (if ex_commit_level e = FirmOnly then firm_of e else soft_of e)"

definition spread :: "executor \<Rightarrow> nat" where
  "spread e = unat (soft_of e) - unat (firm_of e)"

definition max_look_ahead :: "executor \<Rightarrow> nat" where
  "max_look_ahead e = unat (celestia_search_height_max_look_ahead (ex_state e))"

definition executed_heights :: "executor \<Rightarrow> int list" where
  "executed_heights e = map (\<lambda>b. int (unat (xb_height b))) (ex_executed e)"

definition run_inv :: "executor \<Rightarrow> executor \<Rightarrow> bool" where
  "run_inv e0 e \<longleftrightarrow> same_session e0 e \<and> pending_ok e \<and> firm_le_soft (st_commitment_state (ex_state e)) \<and>
     unat (head_number e) = unat (head_number e0) + length (ex_executed e) \<and>
     executed_heights e = map (\<lambda>k. height_of (ex_state e0) (head_number e0) + 1 + int k) [0..<length (ex_executed e)] \<and>
     (ex_commit_level e0 = SoftAndFirm \<longrightarrow> spread e \<le> max (spread e0) (max_look_ahead e0))"

lemma same_session_trans: "same_session e0 e \<Longrightarrow> same_session e e' \<Longrightarrow> same_session e0 e'"
  by (simp add: same_session_def)

lemma height_of_add: "unat m = unat n + k \<Longrightarrow> height_of st m = height_of st n + int k"
  unfolding height_of_def by linarith

lemma run_inv_execute:
  assumes "run_inv e0 e" "same_session e e'" "pending_ok e'" "firm_le_soft (st_commitment_state (ex_state e'))"
    and "executes e e' (head_number e)" "unat (head_number e') = unat (head_number e) + 1"
    and "ex_commit_level e0 = SoftAndFirm \<longrightarrow> spread e' \<le> max (spread e0) (max_look_ahead e0)"
  shows "run_inv e0 e'"
proof -
  obtain b where b: "ex_executed e' = ex_executed e @ [b]" "int (unat (xb_height b)) = height_of (ex_state e) (head_number e) + 1"
    using assms(5) by (auto simp: executes_def)
  have s: "same_session e0 e" and n: "unat (head_number e) = unat (head_number e0) + length (ex_executed e)"
    using assms(1) by (simp_all add: run_inv_def)
  have "int (unat (xb_height b)) = height_of (ex_state e0) (head_number e0) + 1 + int (length (ex_executed e))"
    using b(2) height_of_add [OF n, of "ex_state e0"] by (simp add: same_session_height [OF s])
  then show ?thesis using assms b(1) same_session_trans [OF s assms(2)]
    by (auto simp: run_inv_def executed_heights_def)
qed

lemma run_inv_keep:
  assumes "run_inv e0 e" "same_session e e'" "pending_ok e'" "firm_le_soft (st_commitment_state (ex_state e'))"
    and "ex_executed e' = ex_executed e" "head_number e' = head_number e" "spread e' \<le> spread e"
  shows "run_inv e0 e'"
  using assms same_session_trans [of e0 e e'] by (auto simp: run_inv_def executed_heights_def)

lemma soft_guard:
  assumes "height_api_ok (ee_heights E)" "is_spread_too_large E e = Some False" "is_with_firm (ex_commit_level e)"
  shows "spread e < max_look_ahead e"
proof -
  from assms(2,3) obtain g h where g: "next_expected_firm_sequencer_height (ee_heights E) (ex_state e) = Some g"
    "next_expected_soft_sequencer_height (ee_heights E) (ex_state e) = Some h"
    "\<not> saturating_sub h g \<ge> celestia_search_height_max_look_ahead (ex_state e)"
    by (auto simp: is_spread_too_large_def split: bind_splits)
  have "unat (saturating_sub h g) = spread e"
    using next_firm_height [OF assms(1) g(1)] next_soft_height [OF assms(1) g(2)]
    unfolding unat_saturating_sub height_of_def spread_def by linarith
  then show ?thesis using g(3) by (simp add: not_le word_less_nat_alt max_look_ahead_def)
qed

lemma iteration_inv:
  assumes A: "height_api_ok (ee_heights E)" and N: "echoes N" and ev: "arrives (ex_commit_level e0) ev"
    and inv: "run_inv e0 e" and step: "loop_iteration E N e ev = Inr e'"
  shows "run_inv e0 e'"
proof -
  have s: "same_session e0 e" and p: "pending_ok e" using inv by (simp_all add: run_inv_def)
  then have l: "ex_commit_level e = ex_commit_level e0" "max_look_ahead e = max_look_ahead e0"
    by (simp_all add: same_session_def max_look_ahead_def celestia_search_height_max_look_ahead_def)
  show ?thesis
  proof (cases ev)
    case (FirmBlock b)
    then have run: "execute_firm E N e b = Inr e'" using step by (auto simp: loop_iteration_def)
    note f = firm_step [OF A N p run]
    have l': "ex_commit_level e' = ex_commit_level e0" using f l(1) by (simp add: same_session_def)
    show ?thesis
    proof (cases "ex_commit_level e = FirmOnly \<or> ex_commit_level e = SoftAndFirm \<and> firm_of e = soft_of e")
      case True
      then show ?thesis using f l l' by (intro run_inv_execute [OF inv]) (auto simp: head_number_def spread_def)
    next
      case False
      then show ?thesis using f l l' ev FirmBlock
        by (intro run_inv_keep [OF inv]) (auto simp: head_number_def spread_def is_with_firm_def)
    qed
  next
    case (SoftBlock b)
    then obtain t where t: "is_spread_too_large E e = Some t" "(if t then Inr e else execute_soft E N e b) = Inr e'"
      using step by (auto simp: loop_iteration_def)
    show ?thesis
    proof (cases "e' = e")
      case False
      then have run: "execute_soft E N e b = Inr e'" and "\<not> t" using t(2) by (auto split: if_splits)
      note f = soft_step [OF A N p run False]
      have guard: "spread e < max_look_ahead e" if "ex_commit_level e = SoftAndFirm"
        using soft_guard [OF A] t(1) \<open>\<not> t\<close> that by (simp add: is_with_firm_def)
      have soft: "ex_commit_level e0 \<noteq> FirmOnly" using ev SoftBlock by (auto simp: is_with_soft_def)
      have l': "ex_commit_level e' = ex_commit_level e0" using f l(1) by (simp add: same_session_def)
      show ?thesis using f l l' soft guard
        by (intro run_inv_execute [OF inv]) (auto simp: head_number_def spread_def)
    qed (use inv in simp)
  next
    case (ReaderExit k r)
    then show ?thesis using step inv by (auto simp: loop_iteration_def)
  qed
qed

lemma run_inv_run:
  assumes "height_api_ok (ee_heights E)" "list_all (\<lambda>(N, ev). echoes N \<and> arrives (ex_commit_level e0) ev) evs"
    and "run_inv e0 e" "run_event_loop E e evs = Inr e'"
  shows "run_inv e0 e'"
  using assms(2-4)
proof (induction evs arbitrary: e)
  case (Cons x evs)
  obtain N ev where x: "x = (N, ev)" by fastforce
  with Cons.prems obtain e1 where e1: "loop_iteration E N e ev = Inr e1" "run_event_loop E e1 evs = Inr e'" by auto
  have "run_inv e0 e1"
    by (rule iteration_inv [OF assms(1) _ _ Cons.prems(2) e1(1)]) (use Cons.prems(1) x in simp_all)
  then show ?case using Cons e1(2) by simp
qed simp

lemma init_inv:
  assumes "height_api_ok (ee_heights E)" "executor_init E N level = Inr e0"
  shows "run_inv e0 e0" "ex_commit_level e0 = level"
proof -
  from assms(2) obtain st where st: "create_initial_node_state E N level = Inr st"
    and e0: "e0 = \<lparr>ex_commit_level = level, ex_state = st, ex_blocks_pending_finalization = Map.empty, ex_executed = []\<rparr>"
    by (auto simp: executor_init_def)
  then obtain raw s where "execution_session_try_from_raw (ee_heights E) raw = Inr s" "st_commitment_state st = es_commitment_state s"
    by (auto simp: create_initial_node_state_def create_execution_session_with_retry_def try_from_execution_session_def Let_def)
  then have "firm_le_soft (st_commitment_state st)" using session_wf [OF assms(1)] by (simp add: wf_session_def)
  then show "run_inv e0 e0" "ex_commit_level e0 = level"
    by (simp_all add: e0 run_inv_def same_session_def pending_ok_def executed_heights_def)
qed

text \<open>
  C35. From the execution session on, for every sequence of firm blocks, soft blocks and exits of readers that the
  event loop handles without an error, the rollup node was asked to execute the blocks of consecutive sequencer heights,
  starting after that of the session's commitment: none is skipped and none is executed twice. The firm commitment never
  passes the soft one, and the soft one is never further ahead of it than the session allows or than it was at the start.
\<close>

theorem executed_blocks_are_consecutive:
  assumes "height_api_ok (ee_heights E)" "executor_init E N level = Inr e0"
    and "list_all (\<lambda>(N, ev). echoes N \<and> arrives level ev) evs" "run_event_loop E e0 evs = Inr e"
  shows "map (\<lambda>b. int (unat (xb_height b))) (ex_executed e) =
      map (\<lambda>k. height_of (ex_state e0) (head_number e0) + 1 + int k) [0..<length (ex_executed e)] \<and>
    unat (head_number e) = unat (head_number e0) + length (ex_executed e) \<and>
    unat (firm_number (ex_state e)) \<le> unat (soft_number (ex_state e)) \<and>
    (level = SoftAndFirm \<longrightarrow>
      unat (soft_number (ex_state e)) - unat (firm_number (ex_state e)) \<le> max (spread e0) (max_look_ahead e0))"
proof -
  have "run_inv e0 e"
    by (rule run_inv_run [OF assms(1) _ init_inv(1) [OF assms(1,2)] assms(4)])
      (use assms(3) init_inv(2) [OF assms(1,2)] in simp)
  then show ?thesis using init_inv(2) [OF assms(1,2)]
    by (simp add: run_inv_def executed_heights_def firm_le_soft_def firm_number_def soft_number_def st_firm_def
        st_soft_def spread_def)
qed

section \<open>A run\<close>

definition sample_env :: "unit executor_env" where
  "sample_env = \<lparr>ee_blocks = sample_block_codec, ee_heights = sample_heights,
     ee_votes = \<lparr>vote_extensions = (\<lambda>_. []), decode_vote_extension = (\<lambda>_. Inr [])\<rparr>,
     ee_decode_rollup_data = (\<lambda>_. Inr \<lparr>rrd_value = None\<rparr>)\<rparr>"

text \<open>A node that executes block 2.\<close>

definition sample_node :: rollup_node where
  "sample_node = \<lparr>rn_get_executed_block_metadata = (\<lambda>_. Inl ''unknown block''),
     rn_create_execution_session = Inr (execution_session_to_raw sample_session),
     rn_execute_block = (\<lambda>_. Inr (Some (block_metadata_to_raw (sample_metadata\<lparr>ebm_number := 2\<rparr>)))),
     rn_update_commitment_state = (\<lambda>_ c. Inr c)\<rparr>"

definition sample_block_header :: sequencer_block_header where
  "sample_block_header = \<lparr>sbh_chain_id = ''astria'', sbh_height = 7, sbh_time = 0,
     sbh_rollup_transactions_root = replicate 32 0, sbh_data_hash = replicate 32 0, sbh_proposer_address = replicate 20 0\<rparr>"

definition sample_firm :: "unit reconstructed_block" where
  "sample_firm = \<lparr>rcb_celestia_height = 4, rcb_block_hash = replicate 32 8, rcb_header = sample_block_header,
     rcb_transactions = [[1]], rcb_extended_commit_info = None\<rparr>"

definition sample_soft :: "unit filtered_sequencer_block" where
  "sample_soft = (let p = \<lparr>audit_path = [], leaf_index = 0, tree_size = 1\<rparr> in
     \<lparr>fsb_block_hash = replicate 32 8, fsb_header = sample_block_header, fsb_rollup_transactions = [],
      fsb_rollup_transactions_proof = p, fsb_all_rollup_ids = [], fsb_rollup_ids_proof = p,
      fsb_upgrade_change_hashes = [], fsb_extended_commit_info_with_proof = None\<rparr>)"

definition sample_executor :: executor where
  "sample_executor = \<lparr>ex_commit_level = SoftAndFirm, ex_state = sample_conductor,
     ex_blocks_pending_finalization = Map.empty, ex_executed = []\<rparr>"

lemma sample_session_wf: "wf_session sample_session"
  by (simp add: wf_session_def wf_session_parameters_def sample_session_def firm_le_soft_def valid_height_def
      wf_rollup_id_def ROLLUP_ID_LEN_def)

lemma sample_init: "executor_init sample_env sample_node SoftAndFirm = Inr sample_executor"
proof -
  have "try_from_execution_session sample_heights sample_session SoftAndFirm = Inr sample_conductor"
    by (simp add: try_from_execution_session_def check_commitment_def is_with_firm_def is_with_soft_def
        map_firm_to_sequencer_height_def map_soft_to_sequencer_height_def sample_state_simps Let_def)
  then have "create_initial_node_state sample_env sample_node SoftAndFirm = Inr sample_conductor"
    using session_roundtrip [OF sample_heights_ok sample_session_wf]
    by (simp add: create_initial_node_state_def create_execution_session_with_retry_def sample_env_def sample_node_def)
  then show ?thesis
    by (simp add: executor_init_def sample_executor_def celestia_search_height_max_look_ahead_def
        sample_conductor_def sample_session_def)
qed

lemma sample_echoes: "echoes sample_node"
  by (simp add: echoes_def sample_node_def)

definition sample_after :: "executor" where
  "sample_after = sample_executor\<lparr>ex_state := sample_conductor\<lparr>st_commitment_state := \<lparr>soft_executed_block_metadata = sample_metadata\<lparr>ebm_number := 2\<rparr>,
     firm_executed_block_metadata = sample_metadata, cs_lowest_celestia_search_height = 1\<rparr>\<rparr>,
     ex_blocks_pending_finalization := [2 \<mapsto> sample_metadata\<lparr>ebm_number := 2\<rparr>],
     ex_executed := [\<lparr>xb_hash = replicate 32 8, xb_height = 7, xb_timestamp = \<lparr>ts_seconds = 0, ts_nanos = 0\<rparr>, xb_transactions = []\<rparr>]\<rparr>"

lemma sample_soft_run: "loop_iteration sample_env sample_node sample_executor (SoftBlock sample_soft) = Inr sample_after"
proof -
  have h: "ee_heights sample_env = sample_heights" "ex_state sample_executor = sample_conductor"
    by (simp_all add: sample_env_def sample_executor_def)
  have "is_spread_too_large sample_env sample_executor = Some False"
    by (simp add: is_spread_too_large_def sample_next_heights h saturating_sub_def celestia_search_height_max_look_ahead_def)
      (simp add: sample_conductor_def sample_session_def)
  moreover have "from_sequencer sample_env sample_soft i = Some \<lparr>xb_hash = replicate 32 8, xb_height = 7,
      xb_timestamp = \<lparr>ts_seconds = 0, ts_nanos = 0\<rparr>, xb_transactions = []\<rparr>" for i
    by (simp add: from_sequencer_def sample_soft_def sample_block_header_def sample_env_def sample_block_codec_def Let_def
        prepend_transactions_by_price_feed_if_exists_def)
  moreover have "rollup_number_of sample_executor 7 = Inr 2"
    by (simp add: rollup_number_of_def try_map_sequencer_height_to_rollup_height_def h sequencer_start_block_height_def
        rollup_start_block_number_def sample_state_simps)
  moreover have "execute_and_check sample_env sample_node sample_executor SoftExecution (soft_hash sample_conductor)
      \<lparr>xb_hash = replicate 32 8, xb_height = 7, xb_timestamp = \<lparr>ts_seconds = 0, ts_nanos = 0\<rparr>, xb_transactions = []\<rparr> =
      Inr (sample_metadata\<lparr>ebm_number := 2\<rparr>)"
    by (simp add: execute_and_check_def execute_block_def execute_block_with_retry_def sample_node_def
        block_metadata_wire.roundtrip does_block_response_fulfill_contract_def h soft_number_def st_soft_def
        sample_state_simps)
  moreover have "update_commitment_state sample_env sample_node (sample_executor\<lparr>ex_executed := bs\<rparr>)
      (OnlySoft (sample_metadata\<lparr>ebm_number := 2\<rparr>)) =
      Inr (sample_executor\<lparr>ex_executed := bs, ex_state := ex_state sample_after\<rparr>)" for bs
  proof -
    let ?c = "st_commitment_state (ex_state sample_after)"
    have c: "commitment_state_build (st_firm sample_conductor) (sample_metadata\<lparr>ebm_number := 2\<rparr>)
        (lowest_celestia_search_height sample_conductor) = Inr ?c"
      by (simp add: commitment_state_build_def sample_after_def st_firm_def lowest_celestia_search_height_def sample_state_simps)
    then have "firm_le_soft ?c" by (rule commitment_state_build_Inr [THEN iffD1, THEN conjunct2])
    then have "update_commitment_state_with_retry sample_node s ?c = Inr ?c" for s
      by (simp add: update_commitment_state_with_retry_def sample_node_def commitment_wire.roundtrip)
    moreover have "try_update_commitment_state sample_heights sample_conductor ?c SoftOnly = Inr (ex_state sample_after)"
      by (simp add: try_update_commitment_state_def check_commitment_def is_with_firm_def is_with_soft_def
          map_soft_to_sequencer_height_def sample_after_def sample_state_simps)
    ultimately show ?thesis using c h by (simp add: update_commitment_state_def)
  qed
  ultimately show ?thesis
    by (simp add: loop_iteration_def execute_soft_def h sample_next_heights) (simp add: sample_after_def sample_executor_def)
qed

theorem executed_blocks_are_consecutive_witness:
  "height_api_ok (ee_heights sample_env) \<and> executor_init sample_env sample_node SoftAndFirm = Inr sample_executor \<and>
   (\<exists>e. run_event_loop sample_env sample_executor [(sample_node, SoftBlock sample_soft)] = Inr e \<and>
     map (\<lambda>b. int (unat (xb_height b))) (ex_executed e) = [7] \<and>
     unat (head_number e) = unat (head_number sample_executor) + 1)"
proof -
  have ok: "height_api_ok (ee_heights sample_env)" by (simp add: sample_env_def sample_heights_ok)
  have "run_event_loop sample_env sample_executor [(sample_node, SoftBlock sample_soft)] = Inr sample_after"
    by (simp add: sample_soft_run)
  note run = executed_blocks_are_consecutive [OF ok sample_init _ this]
  have "length (ex_executed sample_after) = 1" by (simp add: sample_after_def)
  moreover have "height_of (ex_state sample_executor) (head_number sample_executor) = 6"
    by (simp add: height_of_def head_number_def sample_executor_def soft_number_def st_soft_def
        sequencer_start_block_height_def rollup_start_block_number_def sample_state_simps)
  ultimately show ?thesis using run sample_echoes ok sample_init sample_soft_run by (simp add: is_with_soft_def)
qed

end
