(* ===== verification/Spec2Isabelle.thy ===== *)
theory Spec2Isabelle
  imports Merkle_Loops Conservation Proposals Replay Block_Conservation Authorization Finalization No_Panic
    Ics20_Funds Block_Bounds Execution_State Check_Tx Block_Binding Block_Cache Conductor_Runs
begin

text \<open>
  A verification development for Astria, a shared sequencer for rollups written in Rust
  (\<^verbatim>\<open>src/crates\<close>).

  \<^bold>\<open>The program.\<close> A sequencer node executes transactions in blocks on which CometBFT agrees. A transaction holds
  actions: transfers, data for rollups, bridge operations, IBC withdrawals and administrative changes. CheckTx puts
  transactions into the mempool; a proposer takes them from the mempool's queue, executes them and proposes those that
  succeeded; validators execute a proposal before they accept it; every node executes a decided block once more unless it
  has just done so. From the data of a block the sequencer builds a block in which the data of every rollup is proven by
  Merkle trees; it is sent to rollups whole or filtered, and posted to Celestia in blobs. A conductor follows both sources for
  one rollup, verifies the blobs and reconstructs the rollup's blocks from them.

  \<^bold>\<open>Theories.\<close>

  \<^item> \<^verbatim>\<open>Prelude\<close>: machine integers as words with Rust's checked and saturating operations, results with errors and
    panics, shared lemmas.
  \<^item> \<^verbatim>\<open>Merkle_Index\<close>, \<^verbatim>\<open>Merkle_Tree\<close>, \<^verbatim>\<open>Merkle_Push\<close>, \<^verbatim>\<open>Merkle_Audit\<close>, \<^verbatim>\<open>Merkle_Loops\<close> (\<^verbatim>\<open>crates/astria-merkle\<close>): the flat
    append-only Merkle tree on 64-bit indices and its proofs. The tree of any leaves has the root of RFC 6962, the
    proofs it constructs are RFC 6962's and verify, a proof that verifies binds its leaf, and a path that is too long makes
    an audit panic; the loops end within the levels of the tree.
  \<^item> \<^verbatim>\<open>Denom\<close>, \<^verbatim>\<open>Actions\<close> (\<^verbatim>\<open>crates/astria-core\<close>): denominations with parsing, printing and ordering; the data
    of all actions and the rule which actions may be combined.
  \<^item> \<^verbatim>\<open>Wire\<close>, \<^verbatim>\<open>Action_Raw\<close>, \<^verbatim>\<open>Action_Roundtrip\<close>, \<^verbatim>\<open>Signed_Tx\<close>: the protobuf messages of addresses,
    amounts, prices, actions and signed transactions and the conversions from and to them. The locale \<^verbatim>\<open>wire_format\<close> is the
    contract of such a pair of conversions. A transaction that is read is authentic and well-formed, and what is
    signed and written is read back.
  \<^item> \<^verbatim>\<open>Seq_State\<close>, \<^verbatim>\<open>Seq_Ops\<close>, \<^verbatim>\<open>Ledger\<close>: the state of the sequencer, one field for each family of keys of
    its store, and the operations of the \<^verbatim>\<open>state_ext.rs\<close> files. The locale \<^verbatim>\<open>ledger\<close> is the contract of balances;
    it is interpreted on the accounts and on the IBC escrow.
  \<^item> \<^verbatim>\<open>Handlers\<close>, \<^verbatim>\<open>Admin_Handlers\<close>, \<^verbatim>\<open>Withdrawal\<close>, \<^verbatim>\<open>Fees\<close>, \<^verbatim>\<open>Transactions\<close>: the handlers of all actions
    (\<^verbatim>\<open>action_handler/impls\<close>), the charge of fees, and the checks and the execution of a transaction.
  \<^item> \<^verbatim>\<open>Components\<close>, \<^verbatim>\<open>App\<close>: genesis, the hooks at the begin and the end of a block, upgrades, and the loops that
    prepare, process and finalize a block (\<^verbatim>\<open>app/mod.rs\<close>).
  \<^item> \<^verbatim>\<open>Frames\<close>, \<^verbatim>\<open>Action_Writes\<close>, \<^verbatim>\<open>Chain_Relations\<close>: which parts of the state each handler writes, and the locales
    that lift what every handler keeps to transactions, blocks and chains.
  \<^item> \<^verbatim>\<open>Conservation\<close>, \<^verbatim>\<open>Block_Conservation\<close>, \<^verbatim>\<open>Bridge_Safety\<close>, \<^verbatim>\<open>Authorization\<close>, \<^verbatim>\<open>Replay\<close>:
    funds are conserved, nobody else's funds are taken, the administered state changes only with authority, and no
    transaction and no withdrawal event is executed twice.
  \<^item> \<^verbatim>\<open>Ics20_Transfer\<close>, \<^verbatim>\<open>Ics20_Funds\<close> (\<^verbatim>\<open>ibc/ics20_transfer.rs\<close>): the callbacks for packets of other chains and for
    packets that failed. A receipt accounts for every unit, a withdrawal that fails is refunded under conditions that are
    stated exactly, and a receipt that fails can leave a deposit without funds.
  \<^item> \<^verbatim>\<open>Proposals\<close>, \<^verbatim>\<open>No_Panic\<close>, \<^verbatim>\<open>Block_Bounds\<close>, \<^verbatim>\<open>Finalization\<close>, \<^verbatim>\<open>Execution_State\<close>: validators accept what a
    proposer prepares, preparing never fails on transactions that relay nothing, blocks keep their limits, executing a block from the cache is
    executing it anew - but not when it carries prices, and never when it removes a pair it prices - and the machine that decides when the cache may be used.
  \<^item> \<^verbatim>\<open>Mempool_Accounts\<close>, \<^verbatim>\<open>Mempool\<close> (\<^verbatim>\<open>mempool\<close>), with \<^verbatim>\<open>Mempool_Laws\<close>, \<^verbatim>\<open>Mempool_Runs\<close>,
    \<^verbatim>\<open>Mempool_Safety\<close>, \<^verbatim>\<open>Mempool_Maintenance\<close>, \<^verbatim>\<open>Mempool_Tracking\<close>, \<^verbatim>\<open>Mempool_Insertion\<close>, \<^verbatim>\<open>Mempool_Cache\<close>,
    \<^verbatim>\<open>Mempool_Properties\<close>: the containers and every operation; in all runs beside a chain the pending transactions are
    executable after maintenance, tracked hashes are those of contained transactions, and the sizes are bounded.
    \<^verbatim>\<open>Check_Tx\<close>: the handler of CheckTx.
  \<^item> \<^verbatim>\<open>Rollup_Data\<close>, \<^verbatim>\<open>Block_Data\<close>, \<^verbatim>\<open>Block_Wire\<close>, \<^verbatim>\<open>Celestia\<close> (\<^verbatim>\<open>crates/astria-core/src/sequencerblock\<close>,
    \<^verbatim>\<open>proposal/commitment.rs\<close>): rollup data, the items of a block, building a block, and its messages.
    \<^verbatim>\<open>Block_Build\<close>, \<^verbatim>\<open>Block_Properties\<close>, \<^verbatim>\<open>Block_Binding\<close>: a proposal is built into a block with the data the proposer
    committed to, the block and its parts are read back, and what a reader accepts is the committed data.
  \<^item> \<^verbatim>\<open>Price_Votes\<close> (\<^verbatim>\<open>crates/astria-core/src/oracles/price_feed\<close>): the prices of a block as the medians of the prices that
    validators voted, which are computed without a panic.
  \<^item> \<^verbatim>\<open>Execution_Session\<close>, \<^verbatim>\<open>Conductor_State\<close>, \<^verbatim>\<open>Block_Cache\<close>, \<^verbatim>\<open>Conductor_Blobs\<close>, \<^verbatim>\<open>Conductor_Executor\<close>
    (\<^verbatim>\<open>crates/astria-core/src/execution\<close>, \<^verbatim>\<open>crates/astria-conductor/src\<close>): the session with a rollup node and the state
    tracked of it, the cache that yields blocks in order, decoding, verifying and reconstructing blobs, and the executor of
    soft and firm blocks. \<^verbatim>\<open>Conductor_Quorum\<close>, \<^verbatim>\<open>Conductor_Reconstruct\<close>, \<^verbatim>\<open>Conductor_Runs\<close>: what an accepted commit
    guarantees, that reconstructed data is committed data and a block that was posted comes back, and that the executor
    executes the blocks of consecutive heights once each.
  \<^item> \<^verbatim>\<open>Sample_Chain\<close>, \<^verbatim>\<open>Sample_Block\<close>: small concrete instances on which the theorems are instantiated.

  \<^bold>\<open>Code outside the repository\<close> is a parameter. SHA-256 is a function (\<open>hash_fun\<close>); the record \<open>ext\<close> has
  what handlers call of the IBC crate, of JSON and of Bech32, and \<open>transfer_ext\<close> what the ICS20 callbacks call of them; \<open>host\<close> has the configuration of a node; \<open>codec\<close>,
  \<open>tx_codec\<close> and \<open>block_codec\<close> have the coders, the signature scheme and the checks of CometBFT's types; \<open>height_api\<close>,
  \<open>commit_api\<close>, \<open>vote_api\<close>, \<open>blob_api\<close>, \<open>sequencer_client\<close> and \<open>rollup_node\<close> have the heights, votes and commits of
  CometBFT, the decoders of blobs and the services the conductor calls. What is relied on is
  stated where it is used (\<open>codec_ok\<close>, \<open>transfer_coders_ok\<close>, \<open>tx_codec_ok\<close>, \<open>block_codec_ok\<close>, \<open>height_api_ok\<close>, \<open>relays_keep\<close>,
  \<open>ext_no_panic\<close>, \<open>echoes\<close>).

  \<^bold>\<open>Bounds.\<close> Loops are recursions that terminate; only \<^verbatim>\<open>Merkle_Loops\<close> runs loops for a number of rounds, to say how many
  are enough. Theorems about Merkle trees assume at most \<open>2 ^ 57\<close>
  leaves: the 64 bytes of each leaf must be addressable. Lists are as long as memory allows, so lengths fit
  \<open>usize\<close> where a theorem says so.

  \<^bold>\<open>Not modelled.\<close> Storage encodings and failures of the database; metrics, logs and tracing spans; the network: ABCI and
  gRPC servers, the queries, retry loops and rate limits; the relayer, the composer, the bridge withdrawer and the auctioneer,
  and the tasks of the conductor that follow heights and connect the modelled parts by channels; generated protobuf and serde code
  (only the structs of the messages are modelled); command line tools.

  \<^bold>\<open>Simplifications.\<close> Asynchronous operations are atomic. For the state of the App this is the source's own discipline, a single
  task writes it. In the mempool, \<open>run_maintenance\<close> and \<open>remove_tx_invalid\<close> release the locks of the containers
  before they update the removal cache and the tracked hashes, and the states in between are not modelled. The execution
  of a relayed IBC message is the parameter \<open>relay_check_and_execute\<close>: the source runs the IBC crate there, which calls back
  the transfer handlers of \<^verbatim>\<open>ibc/ics20_transfer.rs\<close>; these are modelled on their own in \<^verbatim>\<open>Ics20_Transfer\<close> and are not
  linked to the parameter, so theorems about transactions exclude relays or assume of them what they state
  (\<open>relays_keep\<close>). The checks of the commitments and of the extended commit info of a proposal are not part of
  processing it. A panic while CheckTx checks a transaction is answered as an error.
\<close>

end
